(* ===== verification/Prelude.thy ===== *)
theory Prelude
  imports Main "HOL-Library.Word" "HOL-Library.AList"
begin

unbundle bit_operations_syntax

text \<open>
  Shared vocabulary of the development: machine integers and the byte orders the wire formats
  use, instants and durations, IP and socket addresses, the outcome of code that can panic or
  loop forever, the hash maps of the standard library, and the string operations of
  \<^verbatim>\<open>core::str\<close> that the sources call.

  Conventions. An unsigned integer of the source (\<^verbatim>\<open>u16\<close> and its like)
  whose width matters is a word. \<^verbatim>\<open>Instant\<close>, \<^verbatim>\<open>SystemTime\<close> and \<^verbatim>\<open>Duration\<close> are
  natural numbers of nanoseconds. A \<^verbatim>\<open>HashMap\<close> or \<^verbatim>\<open>BTreeMap\<close> is an association list with
  distinct keys, so that iteration is a list traversal; a Rust hash map promises no order, and no
  property of the development fixes one.

  Build configuration. Everything that stops any build of the program is \<open>Panicked\<close>: explicit panics, failed
  \<^verbatim>\<open>expect\<close> and \<^verbatim>\<open>unwrap\<close>, indices out of bounds, failed \<^verbatim>\<open>debug_assert!\<close>s, and integer overflows in
  the packet code, which a build with overflow checks reports. So what is proved not to panic does not panic with
  or without debug assertions. One integer wraps around as in a release build: the counter of relayed bytes of the relay
  (\<open>count_relayed\<close>), and with it the difference that the statistics log. With overflow checks the relay would
  stop after \<open>2 ^ 64\<close> relayed bytes.
\<close>

section \<open>Machine integers and byte order\<close>

type_synonym u8 = "8 word"
type_synonym u16 = "16 word"
type_synonym u32 = "32 word"
type_synonym u64 = "64 word"
type_synonym u128 = "128 word"
type_synonym bytes = "u8 list"

definition u16_to_be_bytes :: "u16 \<Rightarrow> u8 \<times> u8" where
  "u16_to_be_bytes w = (ucast (drop_bit 8 w), ucast w)"

definition u16_from_be_bytes :: "u8 \<Rightarrow> u8 \<Rightarrow> u16" where
  "u16_from_be_bytes hi lo = push_bit 8 (ucast hi) OR ucast lo"

section \<open>Time\<close>

type_synonym instant = nat
type_synonym duration = nat

definition from_secs :: "nat \<Rightarrow> duration" where
  "from_secs s = s * 1000000000"

definition from_millis :: "nat \<Rightarrow> duration" where
  "from_millis s = s * 1000000"

definition as_secs :: "duration \<Rightarrow> nat" where
  "as_secs d = d div 1000000000"

section \<open>Addresses\<close>

type_synonym ipv4 = u32
type_synonym ipv6 = u128

datatype ip_addr = V4 ipv4 | V6 ipv6

text \<open>An IPv6 socket address carries flow information and a scope id beside address and port.\<close>

datatype socket_addr = SockV4 ipv4 u16 | SockV6 ipv6 u16 u32 u32

datatype address_family = AF_V4 | AF_V6

definition socket_addr_new :: "ip_addr \<Rightarrow> u16 \<Rightarrow> socket_addr" where
  "socket_addr_new ip port = (case ip of V4 a \<Rightarrow> SockV4 a port | V6 a \<Rightarrow> SockV6 a port 0 0)"

primrec sock_port :: "socket_addr \<Rightarrow> u16" where
  "sock_port (SockV4 a p) = p"
| "sock_port (SockV6 a p f s) = p"

primrec sock_ip :: "socket_addr \<Rightarrow> ip_addr" where
  "sock_ip (SockV4 a p) = V4 a"
| "sock_ip (SockV6 a p f s) = V6 a"

primrec sock_family :: "socket_addr \<Rightarrow> address_family" where
  "sock_family (SockV4 a p) = AF_V4"
| "sock_family (SockV6 a p f s) = AF_V6"

primrec is_ipv4 :: "ip_addr \<Rightarrow> bool" where
  "is_ipv4 (V4 a) = True"
| "is_ipv4 (V6 a) = False"

primrec is_ipv6 :: "ip_addr \<Rightarrow> bool" where
  "is_ipv6 (V4 a) = False"
| "is_ipv6 (V6 a) = True"

section \<open>Code that can panic or loop\<close>

text \<open>
  \<open>Done\<close> is a normal return, \<open>Panicked\<close> an unwinding panic (\<^verbatim>\<open>panic!\<close>,
  \<^verbatim>\<open>assert!\<close>, \<^verbatim>\<open>expect\<close>, and \<^verbatim>\<open>debug_assert!\<close> of a debug build), \<open>Diverges\<close> a
  loop that is never left.
\<close>

datatype 'a outcome = Done 'a | Panicked | Diverges

primrec and_then :: "'a outcome \<Rightarrow> ('a \<Rightarrow> 'b outcome) \<Rightarrow> 'b outcome" where
  "and_then (Done x) f = f x"
| "and_then Panicked f = Panicked"
| "and_then Diverges f = Diverges"

definition assert_that :: "bool \<Rightarrow> unit outcome" where
  "assert_that b = (if b then Done () else Panicked)"

definition expect :: "'a option \<Rightarrow> 'a outcome" where
  "expect x = (case x of Some y \<Rightarrow> Done y | None \<Rightarrow> Panicked)"

primrec fold_outcome :: "('a \<Rightarrow> 's \<Rightarrow> 's outcome) \<Rightarrow> 'a list \<Rightarrow> 's \<Rightarrow> 's outcome" where
  "fold_outcome f [] s = Done s"
| "fold_outcome f (x # xs) s = and_then (f x s) (fold_outcome f xs)"

section \<open>Hash maps\<close>

type_synonym ('k, 'v) hmap = "('k \<times> 'v) list"

definition hm_get :: "('k, 'v) hmap \<Rightarrow> 'k \<Rightarrow> 'v option" where
  "hm_get m = map_of m"

definition hm_insert :: "'k \<Rightarrow> 'v \<Rightarrow> ('k, 'v) hmap \<Rightarrow> ('k, 'v) hmap" where
  "hm_insert k v m = AList.update k v m"

definition hm_remove :: "'k \<Rightarrow> ('k, 'v) hmap \<Rightarrow> ('k, 'v) hmap" where
  "hm_remove k m = AList.delete k m"

definition hm_wf :: "('k, 'v) hmap \<Rightarrow> bool" where
  "hm_wf m = distinct (map fst m)"

definition hm_len :: "('k, 'v) hmap \<Rightarrow> nat" where
  "hm_len m = length m"

definition hm_keys :: "('k, 'v) hmap \<Rightarrow> 'k list" where
  "hm_keys m = map fst m"

definition hm_values :: "('k, 'v) hmap \<Rightarrow> 'v list" where
  "hm_values m = map snd m"

section \<open>Strings\<close>

fun split_on :: "char \<Rightarrow> string \<Rightarrow> string list" where
  "split_on c [] = [[]]"
| "split_on c (x # xs) =
     (if x = c then [] # split_on c xs
      else (case split_on c xs of [] \<Rightarrow> [[x]] | y # ys \<Rightarrow> (x # y) # ys))"

definition digit_char :: "nat \<Rightarrow> char" where
  "digit_char d = char_of (48 + d)"

definition char_digit :: "char \<Rightarrow> nat option" where
  "char_digit c = (let n = of_char c in if 48 \<le> n \<and> n \<le> 57 then Some (n - 48) else None)"

fun show_nat :: "nat \<Rightarrow> string" where
  "show_nat n = (if n < 10 then [digit_char n] else show_nat (n div 10) @ [digit_char (n mod 10)])"

declare show_nat.simps [simp del]

fun read_digits :: "nat \<Rightarrow> string \<Rightarrow> nat option" where
  "read_digits acc [] = Some acc"
| "read_digits acc (c # cs) =
     (case char_digit c of None \<Rightarrow> None | Some d \<Rightarrow> read_digits (acc * 10 + d) cs)"

text \<open>\<^verbatim>\<open>str::parse\<close> of an unsigned integer: an optional plus sign, at least one digit, no overflow.\<close>

definition parse_unsigned :: "nat \<Rightarrow> string \<Rightarrow> nat option" where
  "parse_unsigned w s =
     (let ds = (case s of [] \<Rightarrow> [] | c # cs \<Rightarrow> if c = CHR ''+'' then cs else s)
      in if ds = [] then None
         else (case read_digits 0 ds of
                 None \<Rightarrow> None
               | Some n \<Rightarrow> if n < 2 ^ w then Some n else None))"

section \<open>Lemmas\<close>

named_theorems outcome_simps

subsection \<open>Byte order\<close>

lemma u16_be_roundtrip [simp]:
  "u16_from_be_bytes (fst (u16_to_be_bytes w)) (snd (u16_to_be_bytes w)) = w"
  unfolding u16_from_be_bytes_def u16_to_be_bytes_def
  by (rule bit_word_eqI) (auto simp: bit_simps)

lemma u16_be_roundtrip' [simp]: "u16_to_be_bytes (u16_from_be_bytes a b) = (a, b)"
proof -
  have "ucast (drop_bit 8 (push_bit 8 (ucast a :: u16) OR ucast b)) = a"
    by (rule bit_word_eqI) (auto simp: bit_simps dest: bit_imp_le_length)
  moreover have "ucast (push_bit 8 (ucast a :: u16) OR ucast b) = b"
    by (rule bit_word_eqI) (auto simp: bit_simps)
  ultimately show ?thesis
    by (simp add: u16_from_be_bytes_def u16_to_be_bytes_def)
qed

subsection \<open>Outcomes\<close>

lemma and_then_Done_iff [outcome_simps]:
  "and_then m f = Done y \<longleftrightarrow> (\<exists>x. m = Done x \<and> f x = Done y)"
  by (cases m) auto

lemma and_then_DoneE:
  assumes "and_then m f = Done y"
  obtains x where "m = Done x" "f x = Done y"
  using assms by (cases m) auto

lemma and_then_Panicked_iff [outcome_simps]:
  "and_then m f = Panicked \<longleftrightarrow> m = Panicked \<or> (\<exists>x. m = Done x \<and> f x = Panicked)"
  by (cases m) auto

lemma assert_that_simps [simp]:
  "assert_that True = Done ()" "assert_that False = Panicked"
  "assert_that b = Done u \<longleftrightarrow> b" "assert_that b = Panicked \<longleftrightarrow> \<not> b"
  "assert_that b \<noteq> Diverges"
  by (auto simp: assert_that_def)

lemma expect_simps [simp]:
  "expect (Some v) = Done v" "expect None = Panicked"
  "expect x = Done y \<longleftrightarrow> x = Some y" "expect x = Panicked \<longleftrightarrow> x = None"
  "expect x \<noteq> Diverges"
  by (auto simp: expect_def split: option.splits)

lemma and_then_Diverges_iff [outcome_simps]:
  "and_then m f = Diverges \<longleftrightarrow> m = Diverges \<or> (\<exists>x. m = Done x \<and> f x = Diverges)"
  by (cases m) auto

lemma and_then_assoc: "and_then (and_then m f) g = and_then m (\<lambda>x. and_then (f x) g)"
  by (cases m) auto

lemma fold_outcome_inv:
  assumes "\<And>x t. x \<in> set xs \<Longrightarrow> P t \<Longrightarrow> \<exists>t'. f x t = Done t' \<and> P t'" and "P s"
  shows "\<exists>s'. fold_outcome f xs s = Done s' \<and> P s'"
  using assms
proof (induction xs arbitrary: s)
  case Nil
  then show ?case by simp
next
  case (Cons x xs)
  then obtain t where "f x s = Done t" "P t" by (meson list.set_intros(1))
  moreover have "\<exists>s'. fold_outcome f xs t = Done s' \<and> P s'"
    using Cons.prems \<open>P t\<close> by (intro Cons.IH) auto
  ultimately show ?case by auto
qed

subsection \<open>Hash maps\<close>

text \<open>
  The contract of a hash map that the components rely on, stated once as an interface and
  discharged for the association lists.
\<close>

locale hash_map =
  fixes get :: "'m \<Rightarrow> 'k \<Rightarrow> 'v option"
    and insert :: "'k \<Rightarrow> 'v \<Rightarrow> 'm \<Rightarrow> 'm"
    and remove :: "'k \<Rightarrow> 'm \<Rightarrow> 'm"
    and wf :: "'m \<Rightarrow> bool"
    and len :: "'m \<Rightarrow> nat"
  assumes get_insert: "get (insert k v m) k' = (if k' = k then Some v else get m k')"
    and get_remove: "get (remove k m) k' = (if k' = k then None else get m k')"
    and wf_insert: "wf m \<Longrightarrow> wf (insert k v m)"
    and wf_remove: "wf m \<Longrightarrow> wf (remove k m)"
    and finite_dom: "finite (dom (get m))"
    and len_dom: "wf m \<Longrightarrow> len m = card (dom (get m))"
begin

lemma len_insert_new: "wf m \<Longrightarrow> get m k = None \<Longrightarrow> len (insert k v m) = Suc (len m)"
proof -
  assume wf: "wf m" and new: "get m k = None"
  have "dom (get (insert k v m)) = Set.insert k (dom (get m))"
    by (auto simp: get_insert dom_def)
  moreover have "k \<notin> dom (get m)" using new by auto
  ultimately show ?thesis
    using wf by (simp add: len_dom wf_insert finite_dom)
qed

lemma len_insert_old: "wf m \<Longrightarrow> get m k = Some u \<Longrightarrow> len (insert k v m) = len m"
proof -
  assume wf: "wf m" and old: "get m k = Some u"
  have "dom (get (insert k v m)) = dom (get m)"
    using old by (auto simp: get_insert dom_def)
  then show ?thesis using wf by (simp add: len_dom wf_insert)
qed

lemma len_remove: "wf m \<Longrightarrow> get m k = Some u \<Longrightarrow> Suc (len (remove k m)) = len m"
proof -
  assume wf: "wf m" and old: "get m k = Some u"
  have "dom (get (remove k m)) = dom (get m) - {k}"
    by (auto simp: get_remove dom_def)
  moreover have "k \<in> dom (get m)" using old by auto
  ultimately show ?thesis
    using wf by (simp add: len_dom wf_remove finite_dom card_Suc_Diff1 del: card_Diff_insert)
qed

end

interpretation hm: hash_map hm_get hm_insert hm_remove hm_wf hm_len
proof unfold_locales
  fix m :: "('a \<times> 'b) list" and k k' v
  show "hm_get (hm_insert k v m) k' = (if k' = k then Some v else hm_get m k')"
    by (simp add: hm_get_def hm_insert_def update_conv')
  show "hm_get (hm_remove k m) k' = (if k' = k then None else hm_get m k')"
    by (simp add: hm_get_def hm_remove_def delete_conv')
  show "hm_wf m \<Longrightarrow> hm_wf (hm_insert k v m)"
    by (simp add: hm_wf_def hm_insert_def distinct_update)
  show "hm_wf m \<Longrightarrow> hm_wf (hm_remove k m)"
    by (simp add: hm_wf_def hm_remove_def distinct_delete)
  show "finite (dom (hm_get m))"
    by (simp add: hm_get_def finite_dom_map_of)
  show "hm_wf m \<Longrightarrow> hm_len m = card (dom (hm_get m))"
    using distinct_card [of "map fst m"]
    by (simp add: hm_wf_def hm_len_def hm_get_def dom_map_of_conv_image_fst)
qed

lemmas hm_simps [simp] = hm.get_insert hm.get_remove hm.wf_insert hm.wf_remove

lemma hm_empty [simp]: "hm_get [] k = None" "hm_wf []" "hm_len [] = 0" "hm_values [] = []" "hm_keys [] = []"
  by (simp_all add: hm_get_def hm_wf_def hm_len_def hm_values_def hm_keys_def)

lemma hm_get_in_set: "hm_get m k = Some v \<Longrightarrow> (k, v) \<in> set m"
  by (simp add: hm_get_def map_of_SomeD)

lemma hm_in_set_iff: "hm_wf m \<Longrightarrow> (k, v) \<in> set m \<longleftrightarrow> hm_get m k = Some v"
  by (simp add: hm_get_def hm_wf_def)

lemma hm_values_iff: "hm_wf m \<Longrightarrow> v \<in> set (hm_values m) \<longleftrightarrow> (\<exists>k. hm_get m k = Some v)"
  by (auto simp: hm_values_def image_iff hm_in_set_iff [symmetric] Bex_def)

lemma hm_get_filter:
  "hm_wf m \<Longrightarrow> hm_get (filter P m) k
     = (case hm_get m k of Some v \<Rightarrow> if P (k, v) then Some v else None | None \<Rightarrow> None)"
  unfolding hm_get_def hm_wf_def
  by (induction m) (force split: option.splits)+

lemma hm_wf_filter [simp]: "hm_wf m \<Longrightarrow> hm_wf (filter P m)"
  unfolding hm_wf_def by (induction m) auto

lemma hm_get_map_values:
  "hm_get (map (\<lambda>(k, v). (k, f k v)) m) k = map_option (f k) (hm_get m k)"
  unfolding hm_get_def by (induction m) auto

lemma hm_wf_map_values [simp]: "hm_wf (map (\<lambda>(k, v). (k, f k v)) m) = hm_wf m"
  by (simp add: hm_wf_def comp_def case_prod_unfold)

subsection \<open>Lists\<close>

lemma find_append:
  "find P (xs @ ys) = (case find P xs of Some x \<Rightarrow> Some x | None \<Rightarrow> find P ys)"
  by (induction xs) auto

subsection \<open>Decimal numbers\<close>

lemma char_digit_digit_char [simp]: "d < 10 \<Longrightarrow> char_digit (digit_char d) = Some d"
  by (simp add: char_digit_def digit_char_def Let_def)

lemma digit_char_neq_plus: "d < 10 \<Longrightarrow> digit_char d \<noteq> CHR ''+''"
proof
  assume d: "d < 10" and eq: "digit_char d = CHR ''+''"
  have "char_digit (CHR ''+'') = None" by (simp add: char_digit_def)
  moreover have "char_digit (digit_char d) = Some d" using d by simp
  ultimately show False using eq by simp
qed

lemma read_digits_append:
  "read_digits acc (xs @ ys) =
     (case read_digits acc xs of None \<Rightarrow> None | Some n \<Rightarrow> read_digits n ys)"
  by (induction acc xs rule: read_digits.induct) (auto split: option.splits)

lemma read_digits_show_nat: "read_digits 0 (show_nat n) = Some n"
proof (induction n rule: show_nat.induct)
  case (1 n)
  show ?case
  proof (cases "n < 10")
    case True
    then show ?thesis by (simp add: show_nat.simps)
  next
    case False
    then have "read_digits 0 (show_nat (n div 10)) = Some (n div 10)"
      using 1 by simp
    with False show ?thesis
      by (simp add: show_nat.simps [of n] read_digits_append)
  qed
qed

lemma show_nat_nonempty [simp]: "show_nat n \<noteq> []"
  by (subst show_nat.simps) simp

lemma show_nat_digits: "c \<in> set (show_nat n) \<Longrightarrow> \<exists>d < 10. c = digit_char d"
proof (induction n rule: show_nat.induct)
  case (1 n)
  show ?case
  proof (cases "n < 10")
    case True
    with "1.prems" show ?thesis by (auto simp: show_nat.simps [of n])
  next
    case False
    with "1.prems" have "c \<in> set (show_nat (n div 10)) \<or> c = digit_char (n mod 10)"
      by (auto simp: show_nat.simps [of n])
    then show ?thesis
    proof
      assume "c \<in> set (show_nat (n div 10))"
      with "1.IH" False show ?thesis by blast
    next
      assume "c = digit_char (n mod 10)"
      then show ?thesis by (intro exI [of _ "n mod 10"]) simp
    qed
  qed
qed

lemma parse_show: "n < 2 ^ w \<Longrightarrow> parse_unsigned w (show_nat n) = Some n"
proof -
  assume n: "n < 2 ^ w"
  obtain c cs where s: "show_nat n = c # cs" by (cases "show_nat n") auto
  then obtain d where "d < 10" "c = digit_char d" using show_nat_digits [of c n] by auto
  then have "c \<noteq> CHR ''+''" using digit_char_neq_plus by simp
  with n s read_digits_show_nat [of n] show ?thesis
    by (simp add: parse_unsigned_def Let_def)
qed

lemma parse_unsigned_bound: "parse_unsigned w s = Some n \<Longrightarrow> n < 2 ^ w"
  by (auto simp: parse_unsigned_def Let_def split: if_splits option.splits)

subsection \<open>Splitting\<close>

lemma split_on_nonempty [simp]: "split_on c xs \<noteq> []"
  by (induction xs) (auto split: list.splits)

lemma split_on_no_sep: "c \<notin> set xs \<Longrightarrow> split_on c xs = [xs]"
  by (induction xs) auto

lemma split_on_append_sep: "c \<notin> set xs \<Longrightarrow> split_on c (xs @ c # ys) = xs # split_on c ys"
  by (induction xs) auto

lemma split_on_pieces: "p \<in> set (split_on c xs) \<Longrightarrow> c \<notin> set p"
  by (induction xs arbitrary: p) (auto split: if_splits list.splits)

lemma split_on_two:
  "split_on c s = [a, b] \<longleftrightarrow> s = a @ c # b \<and> c \<notin> set a \<and> c \<notin> set b"
proof
  assume eq: "split_on c s = [a, b]"
  then have no: "c \<notin> set a" "c \<notin> set b" using split_on_pieces [of _ c s] by auto
  from eq have "s = a @ c # b"
  proof (induction s arbitrary: a)
    case Nil
    then show ?case by simp
  next
    case (Cons x xs)
    show ?case
    proof (cases "x = c")
      case True
      with Cons.prems have a: "a = []" and xs: "split_on c xs = [b]" by auto
      from xs have "xs = b"
      proof (induction xs arbitrary: b)
        case (Cons y ys)
        then show ?case by (cases "split_on c ys") (auto split: if_splits)
      qed simp
      with True a show ?thesis by simp
    next
      case False
      with Cons.prems obtain a' where "a = x # a'" "split_on c xs = [a', b]"
        by (cases "split_on c xs") auto
      with Cons.IH show ?thesis by simp
    qed
  qed
  with no show "s = a @ c # b \<and> c \<notin> set a \<and> c \<notin> set b" by simp
qed (auto simp: split_on_append_sep split_on_no_sep)

end
