(* ===== verification/Stun.thy ===== *)
theory Stun
  imports Prelude
begin

text \<open>
  The vocabulary of STUN and TURN messages that the relay (\<^verbatim>\<open>rust/relay\<close>) exchanges with its
  clients, and the third-party code the relay calls.

  The message container, the wire codec, the HMAC of the long-term credential mechanism, SHA-256,
  base64, UUIDs and the random number generator come from other crates. They are the fields of the
  record \<open>relay_env\<close>, an argument of every definition that uses them. What the relay relies on is
  the predicate \<open>stun_laws\<close>; theorems that need it take it as a hypothesis.
\<close>

datatype message_class = Request | Indication | SuccessResponse | ErrorResponse

datatype stun_method =
  BINDING | ALLOCATE | REFRESH | CHANNEL_BIND | CREATE_PERMISSION | OtherMethod u16

datatype error_code =
    BadRequest | Unauthorized | StaleNonce | ServerError
  | AllocationMismatch | InsufficientCapacity
  | AddressFamilyNotSupported | PeerAddressFamilyMismatch | OtherError u16

type_synonym transaction_id = "96 word"

datatype 'mi attribute =
    MessageIntegrity 'mi
  | XorMappedAddress socket_addr
  | ErrorCode error_code
  | RequestedTransport u8
  | XorRelayAddress socket_addr
  | Lifetime duration
  | ChannelNumber u16
  | XorPeerAddress socket_addr
  | Nonce string
  | Realm string
  | Username string
  | RequestedAddressFamily address_family
  | AdditionalAddressFamily address_family
  | Software string

datatype attr_kind =
    KMessageIntegrity | KXorMappedAddress | KErrorCode | KRequestedTransport | KXorRelayAddress
  | KLifetime | KChannelNumber | KXorPeerAddress | KNonce | KRealm | KUsername
  | KRequestedAddressFamily | KAdditionalAddressFamily | KSoftware

primrec kind_of :: "'mi attribute \<Rightarrow> attr_kind" where
  "kind_of (MessageIntegrity x) = KMessageIntegrity"
| "kind_of (XorMappedAddress x) = KXorMappedAddress"
| "kind_of (ErrorCode x) = KErrorCode"
| "kind_of (RequestedTransport x) = KRequestedTransport"
| "kind_of (XorRelayAddress x) = KXorRelayAddress"
| "kind_of (Lifetime x) = KLifetime"
| "kind_of (ChannelNumber x) = KChannelNumber"
| "kind_of (XorPeerAddress x) = KXorPeerAddress"
| "kind_of (Nonce x) = KNonce"
| "kind_of (Realm x) = KRealm"
| "kind_of (Username x) = KUsername"
| "kind_of (RequestedAddressFamily x) = KRequestedAddressFamily"
| "kind_of (AdditionalAddressFamily x) = KAdditionalAddressFamily"
| "kind_of (Software x) = KSoftware"

text \<open>
  The third-party functions. \<open>'msg\<close> is \<^verbatim>\<open>stun_codec::Message<Attribute>\<close>, \<open>'mi\<close> the
  \<^verbatim>\<open>MessageIntegrity\<close> attribute, \<open>'r\<close> the random number generator. \<^verbatim>\<open>Username\<close>,
  \<^verbatim>\<open>Nonce\<close>, \<^verbatim>\<open>Lifetime\<close> and \<^verbatim>\<open>ChannelNumber\<close> are new-types whose \<^verbatim>\<open>new\<close> checks its
  argument; the checks are the fields \<open>username_ok\<close> to \<open>channel_number_ok\<close>.
\<close>

record ('msg, 'mi, 'r) relay_env =
  message_new :: "message_class \<Rightarrow> stun_method \<Rightarrow> transaction_id \<Rightarrow> 'msg"
  add_attribute :: "'msg \<Rightarrow> 'mi attribute \<Rightarrow> 'msg"
  get_attribute :: "'msg \<Rightarrow> attr_kind \<Rightarrow> 'mi attribute option"
  class_of :: "'msg \<Rightarrow> message_class"
  method_of :: "'msg \<Rightarrow> stun_method"
  tid_of :: "'msg \<Rightarrow> transaction_id"
  decode_from_bytes :: "bytes \<Rightarrow> unit + ((stun_method \<times> transaction_id \<times> error_code) + 'msg)"
  encode_into_bytes :: "'msg \<Rightarrow> bytes option"
  check_long_term_credential :: "'mi \<Rightarrow> string \<Rightarrow> string \<Rightarrow> string \<Rightarrow> bool"
  new_long_term_credential :: "'msg \<Rightarrow> string \<Rightarrow> string \<Rightarrow> string \<Rightarrow> 'mi option"
  username_ok :: "string \<Rightarrow> bool"
  nonce_ok :: "string \<Rightarrow> bool"
  lifetime_ok :: "duration \<Rightarrow> bool"
  channel_number_ok :: "u16 \<Rightarrow> bool"
  parse_uuid :: "string \<Rightarrow> u128 option"
  show_uuid :: "u128 \<Rightarrow> string"
  sha256 :: "string \<Rightarrow> bytes"
  base64 :: "bytes \<Rightarrow> string"
  hex_encode :: "bytes \<Rightarrow> string"
  gen_range :: "'r \<Rightarrow> u16 \<Rightarrow> u16 \<Rightarrow> u16 \<times> 'r"
  gen_u128 :: "'r \<Rightarrow> u128 \<times> 'r"
  gen_secret :: "'r \<Rightarrow> bytes \<times> 'r"
  github_sha :: "string option"

section \<open>Typed attribute access\<close>

text \<open>\<^verbatim>\<open>message.get_attribute::<T>()\<close> for the attribute types the relay reads.\<close>

definition get_message_integrity :: "('msg, 'mi, 'r) relay_env \<Rightarrow> 'msg \<Rightarrow> 'mi option" where
  "get_message_integrity E m =
     (case get_attribute E m KMessageIntegrity of Some (MessageIntegrity x) \<Rightarrow> Some x | _ \<Rightarrow> None)"

definition get_error_code :: "('msg, 'mi, 'r) relay_env \<Rightarrow> 'msg \<Rightarrow> error_code option" where
  "get_error_code E m =
     (case get_attribute E m KErrorCode of Some (ErrorCode x) \<Rightarrow> Some x | _ \<Rightarrow> None)"

definition get_requested_transport :: "('msg, 'mi, 'r) relay_env \<Rightarrow> 'msg \<Rightarrow> u8 option" where
  "get_requested_transport E m =
     (case get_attribute E m KRequestedTransport of Some (RequestedTransport x) \<Rightarrow> Some x | _ \<Rightarrow> None)"

definition get_lifetime :: "('msg, 'mi, 'r) relay_env \<Rightarrow> 'msg \<Rightarrow> duration option" where
  "get_lifetime E m =
     (case get_attribute E m KLifetime of Some (Lifetime x) \<Rightarrow> Some x | _ \<Rightarrow> None)"

definition get_channel_number :: "('msg, 'mi, 'r) relay_env \<Rightarrow> 'msg \<Rightarrow> u16 option" where
  "get_channel_number E m =
     (case get_attribute E m KChannelNumber of Some (ChannelNumber x) \<Rightarrow> Some x | _ \<Rightarrow> None)"

definition get_xor_peer_address :: "('msg, 'mi, 'r) relay_env \<Rightarrow> 'msg \<Rightarrow> socket_addr option" where
  "get_xor_peer_address E m =
     (case get_attribute E m KXorPeerAddress of Some (XorPeerAddress x) \<Rightarrow> Some x | _ \<Rightarrow> None)"

definition get_nonce :: "('msg, 'mi, 'r) relay_env \<Rightarrow> 'msg \<Rightarrow> string option" where
  "get_nonce E m =
     (case get_attribute E m KNonce of Some (Nonce x) \<Rightarrow> Some x | _ \<Rightarrow> None)"

definition get_username :: "('msg, 'mi, 'r) relay_env \<Rightarrow> 'msg \<Rightarrow> string option" where
  "get_username E m =
     (case get_attribute E m KUsername of Some (Username x) \<Rightarrow> Some x | _ \<Rightarrow> None)"

definition get_requested_address_family ::
    "('msg, 'mi, 'r) relay_env \<Rightarrow> 'msg \<Rightarrow> address_family option" where
  "get_requested_address_family E m =
     (case get_attribute E m KRequestedAddressFamily of
        Some (RequestedAddressFamily x) \<Rightarrow> Some x | _ \<Rightarrow> None)"

definition get_additional_address_family ::
    "('msg, 'mi, 'r) relay_env \<Rightarrow> 'msg \<Rightarrow> address_family option" where
  "get_additional_address_family E m =
     (case get_attribute E m KAdditionalAddressFamily of
        Some (AdditionalAddressFamily x) \<Rightarrow> Some x | _ \<Rightarrow> None)"

definition get_software :: "('msg, 'mi, 'r) relay_env \<Rightarrow> 'msg \<Rightarrow> string option" where
  "get_software E m =
     (case get_attribute E m KSoftware of Some (Software x) \<Rightarrow> Some x | _ \<Rightarrow> None)"

section \<open>What the relay relies on\<close>

text \<open>
  Documented behaviour of the message container: a new message has no attributes, adding an
  attribute keeps what was there and makes the new one readable unless one of its kind was there
  before; the method, class and transaction id stay. \<open>Lifetime::new\<close> accepts every lifetime whose
  seconds fit 32 bits, and UUIDs in hyphenated form are valid nonces and parse back.
\<close>

definition container_laws :: "('msg, 'mi, 'r) relay_env \<Rightarrow> bool" where
  "container_laws E \<longleftrightarrow>
     (\<forall>c m t k. get_attribute E (message_new E c m t) k = None) \<and>
     (\<forall>msg a k. get_attribute E (add_attribute E msg a) k =
        (case get_attribute E msg k of Some b \<Rightarrow> Some b
         | None \<Rightarrow> if kind_of a = k then Some a else None)) \<and>
     (\<forall>c m t. class_of E (message_new E c m t) = c \<and> method_of E (message_new E c m t) = m
        \<and> tid_of E (message_new E c m t) = t) \<and>
     (\<forall>msg a. class_of E (add_attribute E msg a) = class_of E msg
        \<and> method_of E (add_attribute E msg a) = method_of E msg
        \<and> tid_of E (add_attribute E msg a) = tid_of E msg)"

definition value_laws :: "('msg, 'mi, 'r) relay_env \<Rightarrow> bool" where
  "value_laws E \<longleftrightarrow>
     (\<forall>d. as_secs d \<le> 0xFFFFFFFF \<longrightarrow> lifetime_ok E d) \<and>
     (\<forall>u. nonce_ok E (show_uuid E u)) \<and>
     (\<forall>u. parse_uuid E (show_uuid E u) = Some u)"

definition encode_total :: "('msg, 'mi, 'r) relay_env \<Rightarrow> bool" where
  "encode_total E \<longleftrightarrow> (\<forall>m. encode_into_bytes E m \<noteq> None)"

definition stun_laws :: "('msg, 'mi, 'r) relay_env \<Rightarrow> bool" where
  "stun_laws E \<longleftrightarrow> container_laws E \<and> value_laws E \<and> encode_total E"

lemma container_lawsD:
  assumes "container_laws E"
  shows "get_attribute E (message_new E c m t) k = None"
    and "get_attribute E (add_attribute E msg a) k =
        (case get_attribute E msg k of Some b \<Rightarrow> Some b
         | None \<Rightarrow> if kind_of a = k then Some a else None)"
    and "class_of E (message_new E c m t) = c"
    and "method_of E (message_new E c m t) = m"
    and "tid_of E (message_new E c m t) = t"
    and "class_of E (add_attribute E msg a) = class_of E msg"
    and "method_of E (add_attribute E msg a) = method_of E msg"
    and "tid_of E (add_attribute E msg a) = tid_of E msg"
  using assms unfolding container_laws_def by blast+

lemma stun_lawsD:
  assumes "stun_laws E"
  shows "container_laws E" "value_laws E" "encode_total E"
  using assms by (simp_all add: stun_laws_def)

lemmas get_defs =
  get_message_integrity_def get_error_code_def get_requested_transport_def get_lifetime_def
  get_channel_number_def get_xor_peer_address_def get_nonce_def get_username_def
  get_requested_address_family_def get_additional_address_family_def get_software_def

section \<open>A concrete environment\<close>

text \<open>
  An executable instance of the third-party functions, which shows that \<open>stun_laws\<close> can hold and
  on which witnesses evaluate. A message is its class, method, transaction id and attributes; the
  message integrity is the triple of user name, realm and password itself; the random number
  generator is a counter.
\<close>

type_synonym sample_msg =
  "message_class \<times> stun_method \<times> transaction_id \<times> (string \<times> string \<times> string) attribute list"

definition sample_uuid :: "u128 \<Rightarrow> string" where
  "sample_uuid u = show_nat (unat u)"

text \<open>
  The wire format has one byte per message: an unauthenticated allocate request, then an allocate
  request, a refresh with lifetime zero, and a binding of channel \<open>0x4000\<close>, all three with the
  credential of user \<open>9:s\<close> and the nonce 1.
\<close>

definition sample_auth :: "(string \<times> string \<times> string) attribute list" where
  "sample_auth = [Username ''9:s'', Nonce ''1'',
     MessageIntegrity (''9:s'', ''firezone'', ''p'')]"

definition sample_peer :: socket_addr where
  "sample_peer = SockV4 0x0A000001 5000"

definition sample_decode ::
    "bytes \<Rightarrow> unit + ((stun_method \<times> transaction_id \<times> error_code) + sample_msg)" where
  "sample_decode bs =
     (if bs = [0] then Inr (Inr (Request, ALLOCATE, 0, [RequestedTransport 17]))
      else if bs = [1] then Inr (Inr (Request, ALLOCATE, 0, RequestedTransport 17 # sample_auth))
      else if bs = [2] then Inr (Inr (Request, REFRESH, 0, Lifetime 0 # sample_auth))
      else if bs = [3] then Inr (Inr (Request, CHANNEL_BIND, 0,
        ChannelNumber 0x4000 # XorPeerAddress sample_peer # sample_auth))
      else Inl ())"

definition sample_env :: "(sample_msg, string \<times> string \<times> string, u128) relay_env" where
  "sample_env = \<lparr>
     message_new = (\<lambda>c m t. (c, m, t, [])),
     add_attribute = (\<lambda>(c, m, t, as) a. (c, m, t, as @ [a])),
     get_attribute = (\<lambda>(c, m, t, as) k. find (\<lambda>a. kind_of a = k) as),
     class_of = (\<lambda>(c, m, t, as). c),
     method_of = (\<lambda>(c, m, t, as). m),
     tid_of = (\<lambda>(c, m, t, as). t),
     decode_from_bytes = sample_decode,
     encode_into_bytes = (\<lambda>(c, m, t, as). Some [of_nat (length as)]),
     check_long_term_credential = (\<lambda>mi u r p. mi = (u, r, p)),
     new_long_term_credential = (\<lambda>m u r p. Some (u, r, p)),
     username_ok = (\<lambda>s. length s \<le> 512),
     nonce_ok = (\<lambda>s. True),
     lifetime_ok = (\<lambda>d. as_secs d \<le> 0xFFFFFFFF),
     channel_number_ok = (\<lambda>n. 0x4000 \<le> n \<and> n \<le> 0x7FFF),
     parse_uuid = (\<lambda>s. map_option of_nat (parse_unsigned 128 s)),
     show_uuid = sample_uuid,
     sha256 = (\<lambda>s. [of_nat (length s)]),
     base64 = map (\<lambda>b. CHR ''p''),
     hex_encode = map (\<lambda>b. CHR ''k''),
     gen_range = (\<lambda>r lo hi. (if lo + ucast r \<le> hi \<and> lo \<le> lo + ucast r then lo + ucast r else lo, r + 1)),
     gen_u128 = (\<lambda>r. (r, r + 1)),
     gen_secret = (\<lambda>r. ([1, 2, 3], r + 1)),
     github_sha = None \<rparr>"

lemma sample_env_simps:
  "message_new sample_env c m t = (c, m, t, [])"
  "add_attribute sample_env (c, m, t, as) a = (c, m, t, as @ [a])"
  "get_attribute sample_env (c, m, t, as) k = find (\<lambda>a. kind_of a = k) as"
  "class_of sample_env (c, m, t, as) = c"
  "method_of sample_env (c, m, t, as) = m"
  "tid_of sample_env (c, m, t, as) = t"
  "decode_from_bytes sample_env = sample_decode"
  "encode_into_bytes sample_env (c, m, t, as) = Some [of_nat (length as)]"
  "check_long_term_credential sample_env mi u v p \<longleftrightarrow> mi = (u, v, p)"
  "new_long_term_credential sample_env msg u v p = Some (u, v, p)"
  "username_ok sample_env u \<longleftrightarrow> length u \<le> 512"
  "nonce_ok sample_env u"
  "lifetime_ok sample_env d \<longleftrightarrow> as_secs d \<le> 0xFFFFFFFF"
  "channel_number_ok sample_env n \<longleftrightarrow> 0x4000 \<le> n \<and> n \<le> 0x7FFF"
  "parse_uuid sample_env u = map_option of_nat (parse_unsigned 128 u)"
  "show_uuid sample_env = sample_uuid"
  "sha256 sample_env u = [of_nat (length u)]"
  "base64 sample_env bs = map (\<lambda>b. CHR ''p'') bs"
  "hex_encode sample_env bs = map (\<lambda>b. CHR ''k'') bs"
  "gen_range sample_env r lo hi =
     (if lo + ucast r \<le> hi \<and> lo \<le> lo + ucast r then lo + ucast r else lo, r + 1)"
  "gen_u128 sample_env r = (r, r + 1)"
  "gen_secret sample_env r = ([1, 2, 3], r + 1)"
  "github_sha sample_env = None"
  by (simp_all add: sample_env_def)

lemma sample_env_laws: "stun_laws sample_env"
proof -
  have "container_laws sample_env"
    unfolding container_laws_def sample_env_def
    by (auto simp: find_append split: option.splits)
  moreover have "parse_unsigned 128 (show_nat (unat u)) = Some (unat u)" for u :: u128
    by (rule parse_show) (use unsigned_less [of u] in simp)
  then have "value_laws sample_env"
    unfolding value_laws_def sample_env_def by (simp add: sample_uuid_def)
  moreover have "encode_total sample_env"
    unfolding encode_total_def sample_env_def by auto
  ultimately show ?thesis by (simp add: stun_laws_def)
qed

end
