(* ===== verification/Channel_Data.thy ===== *)
theory Channel_Data
  imports Stun
begin

text \<open>
  The channel-data framing of TURN, which both ends implement on their own: the relay in
  \<^verbatim>\<open>rust/relay/src/server/channel_data.rs\<close> and the client library in
  \<^verbatim>\<open>rust/connlib/snownet/src/channel_data.rs\<close>. Four bytes of header (channel number and payload
  length, big endian) precede the payload. The locale \<open>channel_codec\<close> is the contract of such a
  framing; both implementations are interpretations of it, and the lemmas that the two ends
  understand each other rest on them.
\<close>

section \<open>The relay's side\<close>

datatype io_error_kind = UnexpectedEof | InvalidInput | InvalidData

record channel_data =
  cd_channel :: u16
  cd_length :: nat
  cd_msg :: bytes

definition HEADER_LEN :: nat where
  "HEADER_LEN = 4"

definition channel_data_parse ::
    "('msg, 'mi, 'r) relay_env \<Rightarrow> bytes \<Rightarrow> io_error_kind + channel_data" where
  "channel_data_parse E msg =
     (if length msg < HEADER_LEN then Inl UnexpectedEof
      else
        let header = take HEADER_LEN msg; payload = drop HEADER_LEN msg;
            channel_number = u16_from_be_bytes (header ! 0) (header ! 1)
        in if \<not> channel_number_ok E channel_number then Inl InvalidInput
           else
             let len = unat (u16_from_be_bytes (header ! 2) (header ! 3))
             in if length payload < len then Inl InvalidData
                else Inr \<lparr>cd_channel = channel_number, cd_length = len, cd_msg = msg\<rparr>)"

text \<open>\<open>&payload[..self.length]\<close> panics when the payload is shorter.\<close>

definition channel_data_data :: "channel_data \<Rightarrow> bytes outcome" where
  "channel_data_data cd =
     (if length (cd_msg cd) < HEADER_LEN then Panicked
      else
        let payload = drop HEADER_LEN (cd_msg cd)
        in if cd_length cd \<le> length payload then Done (take (cd_length cd) payload) else Panicked)"

definition relay_encode_header_to_slice ::
    "u16 \<Rightarrow> u16 \<Rightarrow> bytes \<Rightarrow> (nat \<times> bytes) outcome" where
  "relay_encode_header_to_slice channel data_len header =
     (let (c1, c2) = u16_to_be_bytes channel; (l1, l2) = u16_to_be_bytes data_len
      in if length header < 4 then Panicked
         else Done (unat data_len + HEADER_LEN, header[0 := c1, 1 := c2, 2 := l1, 3 := l2]))"

section \<open>The client's side\<close>

definition snownet_decode :: "bytes \<Rightarrow> io_error_kind + (u16 \<times> bytes)" where
  "snownet_decode data =
     (if length data < HEADER_LEN then Inl UnexpectedEof
      else
        let header = take HEADER_LEN data; payload = drop HEADER_LEN data;
            channel_number = u16_from_be_bytes (header ! 0) (header ! 1)
        in if \<not> (0x4000 \<le> channel_number \<and> channel_number \<le> 0x7FFF) then Inl InvalidInput
           else
             let len = unat (u16_from_be_bytes (header ! 2) (header ! 3))
             in if length payload < len then Inl InvalidData
                else Inr (channel_number, take len payload))"

text \<open>
  \<^verbatim>\<open>payload_length as u16\<close> truncates; \<^verbatim>\<open>BufMut::put_u16\<close> on a slice writes big endian at its
  front.
\<close>

definition snownet_encode_header_to_slice ::
    "bytes \<Rightarrow> u16 \<Rightarrow> nat \<Rightarrow> (nat \<times> bytes) outcome" where
  "snownet_encode_header_to_slice buf channel payload_length =
     and_then (assert_that (length buf = HEADER_LEN)) (\<lambda>_.
     and_then (assert_that (channel > 0x400)) (\<lambda>_.
     and_then (assert_that (channel < 0x7FFF)) (\<lambda>_.
     and_then (assert_that (payload_length \<le> 65535)) (\<lambda>_.
       let (c1, c2) = u16_to_be_bytes channel;
           (l1, l2) = u16_to_be_bytes (of_nat payload_length)
       in Done (HEADER_LEN + payload_length, [c1, c2, l1, l2])))))"

section \<open>The contract of a framing\<close>

locale channel_codec =
  fixes frame :: "u16 \<Rightarrow> bytes \<Rightarrow> bytes"
    and unframe :: "bytes \<Rightarrow> (u16 \<times> bytes) option"
    and valid :: "u16 \<Rightarrow> bool"
  assumes unframe_frame:
      "valid c \<Longrightarrow> length p < 65536 \<Longrightarrow> unframe (frame c p @ rest) = Some (c, p)"
    and unframe_inverse:
      "unframe bs = Some (c, p) \<Longrightarrow> \<exists>rest. bs = frame c p @ rest"
    and unframe_valid: "unframe bs = Some (c, p) \<Longrightarrow> length p < 65536"
begin

lemma frame_inj:
  assumes "valid c" "valid c'" "length p < 65536" "length p' < 65536" "frame c p = frame c' p'"
  shows "c = c' \<and> p = p'"
proof -
  have "unframe (frame c p @ []) = Some (c, p)" using assms(1,3) by (rule unframe_frame)
  moreover have "unframe (frame c' p' @ []) = Some (c', p')" using assms(2,4) by (rule unframe_frame)
  ultimately show ?thesis using assms(5) by simp
qed

end

text \<open>Two ends that frame alike understand each other.\<close>

locale channel_link =
  near: channel_codec frame unframe_near valid_near + far: channel_codec frame unframe_far valid_far
  for frame unframe_near valid_near unframe_far valid_far
begin

lemma link_agrees:
  assumes "valid_near c" "valid_far c" "length p < 65536"
  shows "unframe_near (frame c p @ rest) = unframe_far (frame c p @ rest)"
  using assms by (simp add: near.unframe_frame far.unframe_frame)

end

section \<open>Both implementations meet it\<close>

text \<open>
  The buffer of the relay's event loop: four free bytes, then the packet; the header is written
  over the four bytes. The client's buffer has the same shape.
\<close>

definition channel_frame :: "u16 \<Rightarrow> bytes \<Rightarrow> bytes" where
  "channel_frame c p =
     (let (c1, c2) = u16_to_be_bytes c; (l1, l2) = u16_to_be_bytes (of_nat (length p))
      in [c1, c2, l1, l2] @ p)"

definition relay_unframe :: "('msg, 'mi, 'r) relay_env \<Rightarrow> bytes \<Rightarrow> (u16 \<times> bytes) option" where
  "relay_unframe E bs =
     (case channel_data_parse E bs of
        Inl e \<Rightarrow> None
      | Inr cd \<Rightarrow> (case channel_data_data cd of Done d \<Rightarrow> Some (cd_channel cd, d) | _ \<Rightarrow> None))"

definition snownet_unframe :: "bytes \<Rightarrow> (u16 \<times> bytes) option" where
  "snownet_unframe bs = (case snownet_decode bs of Inl e \<Rightarrow> None | Inr r \<Rightarrow> Some r)"

lemma unat_of_nat_u16 [simp]: "n < 65536 \<Longrightarrow> unat (of_nat n :: u16) = n"
  by (simp add: unat_of_nat)

lemma u16_of_pair [simp]:
  "u16_to_be_bytes c = (c1, c2) \<Longrightarrow> u16_from_be_bytes c1 c2 = c"
  using u16_be_roundtrip [of c] by simp

lemma length_ge4E:
  assumes "\<not> length bs < HEADER_LEN"
  obtains a b c d rest where "bs = [a, b, c, d] @ rest"
  using assms unfolding HEADER_LEN_def
  by (cases bs; cases "tl bs"; cases "tl (tl bs)"; cases "tl (tl (tl bs))") auto

lemma unat_u16_less [simp]: "unat (w :: u16) < 65536"
  using unsigned_less [of w] by simp

lemma channel_data_parse_Cons4:
  "channel_data_parse E ([a, b, c, d] @ rest) =
     (if \<not> channel_number_ok E (u16_from_be_bytes a b) then Inl InvalidInput
      else if length rest < unat (u16_from_be_bytes c d) then Inl InvalidData
      else Inr \<lparr>cd_channel = u16_from_be_bytes a b, cd_length = unat (u16_from_be_bytes c d),
                cd_msg = [a, b, c, d] @ rest\<rparr>)"
  by (simp add: channel_data_parse_def HEADER_LEN_def Let_def)

lemma relay_unframe_Cons4:
  "relay_unframe E ([a, b, c, d] @ rest) =
     (let n = u16_from_be_bytes a b
      in if \<not> channel_number_ok E n then None
         else if length rest < unat (u16_from_be_bytes c d) then None
         else Some (n, take (unat (u16_from_be_bytes c d)) rest))"
  unfolding relay_unframe_def channel_data_parse_Cons4
  by (simp add: channel_data_data_def HEADER_LEN_def Let_def)

lemma snownet_unframe_Cons4:
  "snownet_unframe ([a, b, c, d] @ rest) =
     (let n = u16_from_be_bytes a b
      in if \<not> (0x4000 \<le> n \<and> n \<le> 0x7FFF) then None
         else if length rest < unat (u16_from_be_bytes c d) then None
         else Some (n, take (unat (u16_from_be_bytes c d)) rest))"
  by (simp add: snownet_unframe_def snownet_decode_def HEADER_LEN_def Let_def)

lemma unframe_short:
  "length bs < HEADER_LEN \<Longrightarrow> relay_unframe E bs = None \<and> snownet_unframe bs = None"
  by (simp add: relay_unframe_def channel_data_parse_def snownet_unframe_def snownet_decode_def)

lemma channel_frame_cases:
  obtains c1 c2 l1 l2 where "channel_frame c p = [c1, c2, l1, l2] @ p"
    "u16_from_be_bytes c1 c2 = c" "u16_from_be_bytes l1 l2 = of_nat (length p)"
  by (cases "u16_to_be_bytes c"; cases "u16_to_be_bytes (of_nat (length p))")
    (auto simp: channel_frame_def)

lemma channel_frame_of_parts:
  assumes "n = unat (u16_from_be_bytes c d)" "\<not> length rest < n"
  shows "[a, b, c, d] @ rest = channel_frame (u16_from_be_bytes a b) (take n rest) @ drop n rest"
proof -
  have "length (take n rest) = n" using assms by simp
  then have "of_nat (length (take n rest)) = u16_from_be_bytes c d" using assms(1) by simp
  then show ?thesis
    unfolding channel_frame_def Let_def by simp
qed

lemma unframe_parts:
  assumes "\<not> length rest < unat (u16_from_be_bytes d e)"
  shows "\<exists>rest'. [a, b, d, e] @ rest =
           channel_frame (u16_from_be_bytes a b) (take (unat (u16_from_be_bytes d e)) rest) @ rest'"
    and "length (take (unat (u16_from_be_bytes d e)) rest) < 65536"
  using channel_frame_of_parts [OF refl assms] unat_u16_less [of "u16_from_be_bytes d e"]
  by (blast, simp add: min.strict_coboundedI2)

interpretation relay_codec: channel_codec channel_frame "relay_unframe E" "channel_number_ok E"
  for E :: "('msg, 'mi, 'r) relay_env"
proof
  fix c and p rest :: bytes
  assume valid: "channel_number_ok E c" and len: "length p < 65536"
  obtain c1 c2 l1 l2 where f: "channel_frame c p = [c1, c2, l1, l2] @ p"
    and n: "u16_from_be_bytes c1 c2 = c" "u16_from_be_bytes l1 l2 = of_nat (length p)"
    by (rule channel_frame_cases)
  with valid len show "relay_unframe E (channel_frame c p @ rest) = Some (c, p)"
    using relay_unframe_Cons4 [of E c1 c2 l1 l2 "p @ rest"] by (simp add: Let_def)
next
  fix bs c p
  assume eq: "relay_unframe E bs = Some (c, p)"
  then obtain a b d e rest where bs: "bs = [a, b, d, e] @ rest"
    using unframe_short [of bs E] by (metis length_ge4E option.distinct(1))
  with eq have "c = u16_from_be_bytes a b" "p = take (unat (u16_from_be_bytes d e)) rest"
    and "\<not> length rest < unat (u16_from_be_bytes d e)"
    by (auto simp: relay_unframe_Cons4 [simplified] Let_def split: if_splits)
  with bs show "\<exists>rest. bs = channel_frame c p @ rest" and "length p < 65536"
    using unframe_parts by blast+
qed

interpretation snownet_codec:
  channel_codec channel_frame snownet_unframe "\<lambda>c. 0x4000 \<le> c \<and> c \<le> 0x7FFF"
proof
  fix c :: u16 and p rest :: bytes
  assume valid: "0x4000 \<le> c \<and> c \<le> 0x7FFF" and len: "length p < 65536"
  obtain c1 c2 l1 l2 where f: "channel_frame c p = [c1, c2, l1, l2] @ p"
    and n: "u16_from_be_bytes c1 c2 = c" "u16_from_be_bytes l1 l2 = of_nat (length p)"
    by (rule channel_frame_cases)
  with valid len show "snownet_unframe (channel_frame c p @ rest) = Some (c, p)"
    using snownet_unframe_Cons4 [of c1 c2 l1 l2 "p @ rest"] by (simp add: Let_def)
next
  fix bs c p
  assume eq: "snownet_unframe bs = Some (c, p)"
  then obtain a b d e rest where bs: "bs = [a, b, d, e] @ rest"
    using unframe_short [of bs] by (metis length_ge4E option.distinct(1))
  with eq have "c = u16_from_be_bytes a b" "p = take (unat (u16_from_be_bytes d e)) rest"
    and "\<not> length rest < unat (u16_from_be_bytes d e)"
    by (auto simp: snownet_unframe_Cons4 [simplified] Let_def split: if_splits)
  with bs show "\<exists>rest. bs = channel_frame c p @ rest" and "length p < 65536"
    using unframe_parts by blast+
qed

interpretation turn_link: channel_link channel_frame "relay_unframe E" "channel_number_ok E"
    snownet_unframe "\<lambda>c. 0x4000 \<le> c \<and> c \<le> 0x7FFF"
  for E :: "('msg, 'mi, 'r) relay_env"
  ..

end
