(* ===== verification/Relay_Auth.thy ===== *)
theory Relay_Auth
  imports Stun
begin

text \<open>
  The authentication scheme of the relay, \<^verbatim>\<open>rust/relay/src/auth.rs\<close>: the user name carries the
  expiry of the credential, the password is a hash over expiry, relay secret and salt, and every
  nonce admits a fixed number of requests. The locale \<open>nonce_store\<close> is the contract of the nonce
  bookkeeping that the server relies on.
\<close>

section \<open>Definitions\<close>

datatype auth_error =
  Expired | InvalidPassword | InvalidUsername | NonceUsedUp | UnknownNonce | CannotAuthenticate

definition FIREZONE :: string where
  "FIREZONE = ''firezone''"

text \<open>
  \<^verbatim>\<open>username.split(':')\<close> collected into an array of exactly two parts, the first of which parses
  as a \<^verbatim>\<open>u64\<close>.
\<close>

definition split_username :: "string \<Rightarrow> auth_error + (nat \<times> string)" where
  "split_username username =
     (case split_on (CHR '':'') username of
        [expiry, salt] \<Rightarrow>
          (case parse_unsigned 64 expiry of None \<Rightarrow> Inl InvalidUsername | Some e \<Rightarrow> Inr (e, salt))
      | _ \<Rightarrow> Inl InvalidUsername)"

text \<open>
  \<^verbatim>\<open>SystemTime + Duration\<close> panics when the sum is not representable; the seconds of a
  \<^verbatim>\<open>SystemTime\<close> are an \<^verbatim>\<open>i64\<close>.
\<close>

definition systemtime_from_unix :: "nat \<Rightarrow> nat outcome" where
  "systemtime_from_unix seconds =
     (if seconds < 2 ^ 63 then Done (from_secs seconds) else Panicked)"

definition generate_password ::
    "('msg, 'mi, 'r) relay_env \<Rightarrow> string \<Rightarrow> nat \<Rightarrow> string \<Rightarrow> string" where
  "generate_password E relay_secret expiry username_salt =
     (let expiry_secs = as_secs expiry;
          hashed = sha256 E (show_nat expiry_secs @ '':'' @ relay_secret @ '':'' @ username_salt)
      in base64 E hashed)"

text \<open>\<^verbatim>\<open>format!("{}:{}", expiry, salt)\<close>\<close>

definition format_username :: "nat \<Rightarrow> string \<Rightarrow> string" where
  "format_username expiry salt = show_nat expiry @ '':'' @ salt"

definition message_integrity_verify ::
    "('msg, 'mi, 'r) relay_env \<Rightarrow> 'mi \<Rightarrow> string \<Rightarrow> string \<Rightarrow> nat \<Rightarrow> (auth_error + unit) outcome" where
  "message_integrity_verify E mi relay_secret username now =
     (case split_username username of
        Inl e \<Rightarrow> Done (Inl e)
      | Inr (expiry_unix_timestamp, salt) \<Rightarrow>
          and_then (systemtime_from_unix expiry_unix_timestamp) (\<lambda>expired.
            if expired < now then Done (Inl Expired)
            else
              let password = generate_password E relay_secret expired salt;
                  name = format_username expiry_unix_timestamp salt
              in if \<not> username_ok E name then Done (Inl InvalidUsername)
                 else if \<not> check_long_term_credential E mi name FIREZONE password
                 then Done (Inl InvalidPassword)
                 else Done (Inr ())))"

definition authenticated_message_new ::
    "('msg, 'mi, 'r) relay_env \<Rightarrow> string \<Rightarrow> string \<Rightarrow> 'msg \<Rightarrow> (auth_error + 'msg) outcome" where
  "authenticated_message_new E relay_secret username message =
     (case split_username username of
        Inl e \<Rightarrow> Done (Inl e)
      | Inr (expiry_unix_timestamp, salt) \<Rightarrow>
          and_then (systemtime_from_unix expiry_unix_timestamp) (\<lambda>expired.
            let name = format_username expiry_unix_timestamp salt
            in if \<not> username_ok E name then Done (Inl InvalidUsername)
               else
                 let password = generate_password E relay_secret expired salt
                 in case new_long_term_credential E message name FIREZONE password of
                      None \<Rightarrow> Done (Inl CannotAuthenticate)
                    | Some mi \<Rightarrow> Done (Inr (add_attribute E message (MessageIntegrity mi)))))"

subsection \<open>Nonces\<close>

type_synonym nonces = "(u128, u64) hmap"

definition NUM_REQUESTS :: u64 where
  "NUM_REQUESTS = 100"

definition nonces_add_new :: "nonces \<Rightarrow> u128 \<Rightarrow> nonces" where
  "nonces_add_new inner nonce = hm_insert nonce NUM_REQUESTS inner"

definition handle_nonce_used :: "nonces \<Rightarrow> u128 \<Rightarrow> nonces \<times> (auth_error + unit)" where
  "handle_nonce_used inner nonce =
     (case hm_get inner nonce of
        None \<Rightarrow> (inner, Inl UnknownNonce)
      | Some remaining_requests \<Rightarrow>
          if remaining_requests = 0 then (hm_remove nonce inner, Inl NonceUsedUp)
          else (hm_insert nonce (remaining_requests - 1) inner, Inr ()))"

section \<open>User names\<close>

lemma split_format_username:
  assumes "expiry < 2 ^ 64" "CHR '':'' \<notin> set salt"
  shows "split_username (format_username expiry salt) = Inr (expiry, salt)"
proof -
  have "CHR '':'' \<notin> set (show_nat expiry)"
  proof
    assume "CHR '':'' \<in> set (show_nat expiry)"
    then obtain d where "d < 10" "CHR '':'' = digit_char d" using show_nat_digits by blast
    then have "char_digit (CHR '':'') = Some d" by simp
    then show False by (simp add: char_digit_def)
  qed
  then have "split_on (CHR '':'') (format_username expiry salt) = [show_nat expiry, salt]"
    using assms(2) by (simp add: format_username_def split_on_two)
  with assms(1) show ?thesis
    by (simp add: split_username_def parse_show)
qed

lemma split_username_Inr:
  "split_username u = Inr (e, salt) \<Longrightarrow> e < 2 ^ 64 \<and> CHR '':'' \<notin> set salt"
  using split_on_pieces [of salt "CHR '':''" u]
  by (auto simp: split_username_def split: list.splits option.splits dest: parse_unsigned_bound)

lemma as_secs_from_secs [simp]: "as_secs (from_secs n) = n"
  by (simp add: as_secs_def from_secs_def)

lemma systemtime_from_unix_simps [simp]:
  "systemtime_from_unix n = Done t \<longleftrightarrow> n < 2 ^ 63 \<and> t = from_secs n"
  "systemtime_from_unix n = Panicked \<longleftrightarrow> 2 ^ 63 \<le> n"
  "systemtime_from_unix n \<noteq> Diverges"
  by (auto simp: systemtime_from_unix_def)

text \<open>A user name whose expiry the platform's clock can represent.\<close>

definition expiry_representable :: "string \<Rightarrow> bool" where
  "expiry_representable u =
     (case split_username u of Inl _ \<Rightarrow> True | Inr (e, _) \<Rightarrow> e < 2 ^ 63)"

lemma message_integrity_verify_total:
  "expiry_representable u \<Longrightarrow> \<exists>r. message_integrity_verify E mi secret u now = Done r"
  by (auto simp: message_integrity_verify_def expiry_representable_def Let_def
      systemtime_from_unix_def split: sum.splits)

lemma authenticated_message_new_total:
  "expiry_representable u \<Longrightarrow> \<exists>r. authenticated_message_new E secret u m = Done r"
  by (auto simp: authenticated_message_new_def expiry_representable_def Let_def
      systemtime_from_unix_def split: sum.splits option.splits)

lemma authenticated_message_new_Inr:
  "authenticated_message_new E secret u m = Done (Inr m') \<Longrightarrow>
     \<exists>mi. m' = add_attribute E m (MessageIntegrity mi)"
  by (auto simp: authenticated_message_new_def Let_def outcome_simps
      split: sum.splits option.splits if_splits)

section \<open>The contract of the nonce bookkeeping\<close>

text \<open>The results of \<open>i\<close> requests in a row that present the same nonce.\<close>

primrec repeat_use :: "('n \<Rightarrow> 'k \<Rightarrow> 'n \<times> 'x) \<Rightarrow> 'n \<Rightarrow> 'k \<Rightarrow> nat \<Rightarrow> 'x list" where
  "repeat_use f n k 0 = []"
| "repeat_use f n k (Suc i) = snd (f n k) # repeat_use f (fst (f n k)) k i"

locale nonce_store =
  fixes add_new :: "'n \<Rightarrow> 'k \<Rightarrow> 'n"
    and use :: "'n \<Rightarrow> 'k \<Rightarrow> 'n \<times> (auth_error + unit)"
    and left :: "'n \<Rightarrow> 'k \<Rightarrow> nat option"
    and quota :: nat
  assumes left_add: "left (add_new n k) k' = (if k' = k then Some quota else left n k')"
    and use_unknown: "left n k = None \<Longrightarrow> use n k = (n, Inl UnknownNonce)"
    and use_exhausted: "left n k = Some 0 \<Longrightarrow>
      snd (use n k) = Inl NonceUsedUp \<and> left (fst (use n k)) k' = (if k' = k then None else left n k')"
    and use_ok: "left n k = Some (Suc m) \<Longrightarrow>
      snd (use n k) = Inr () \<and> left (fst (use n k)) k' = (if k' = k then Some m else left n k')"
begin

lemma uses_unknown: "left n k = None \<Longrightarrow> repeat_use use n k i = replicate i (Inl UnknownNonce)"
  by (induction i) (simp_all add: use_unknown)

lemma uses_left:
  "left n k = Some m \<Longrightarrow>
     repeat_use use n k (m + 1 + i) = replicate m (Inr ()) @ Inl NonceUsedUp # replicate i (Inl UnknownNonce)"
proof (induction m arbitrary: n)
  case 0
  from use_exhausted [OF 0] have "snd (use n k) = Inl NonceUsedUp" "left (fst (use n k)) k = None"
    by simp_all
  then show ?case by (simp add: uses_unknown)
next
  case (Suc m)
  from use_ok [OF Suc.prems] have "snd (use n k) = Inr ()" "left (fst (use n k)) k = Some m"
    by simp_all
  with Suc.IH [of "fst (use n k)"] show ?case by simp
qed

lemma uses_after_add:
  "repeat_use use (add_new n k) k (quota + 1 + i)
     = replicate quota (Inr ()) @ Inl NonceUsedUp # replicate i (Inl UnknownNonce)"
  by (rule uses_left) (simp add: left_add)

lemma use_other: "k' \<noteq> k \<Longrightarrow> left (fst (use n k)) k' = left n k'"
proof (cases "left n k")
  case None
  then show ?thesis by (simp add: use_unknown)
next
  case (Some m)
  assume "k' \<noteq> k"
  with Some show ?thesis
    using use_exhausted [of n k k'] use_ok [of n k _ k'] by (cases m) auto
qed

lemma use_ok_iff: "snd (use n k) = Inr () \<longleftrightarrow> (\<exists>m. left n k = Some (Suc m))"
proof (cases "left n k")
  case None
  then show ?thesis by (simp add: use_unknown)
next
  case (Some m)
  then show ?thesis
    using use_exhausted [of n k] use_ok [of n k] by (cases m) auto
qed

end

definition nonces_left :: "nonces \<Rightarrow> u128 \<Rightarrow> nat option" where
  "nonces_left inner k = map_option unat (hm_get inner k)"

interpretation relay_nonces: nonce_store nonces_add_new handle_nonce_used nonces_left 100
proof
  fix n k k' m
  show "nonces_left (nonces_add_new n k) k' = (if k' = k then Some 100 else nonces_left n k')"
    by (simp add: nonces_left_def nonces_add_new_def NUM_REQUESTS_def)
  show "nonces_left n k = None \<Longrightarrow> handle_nonce_used n k = (n, Inl UnknownNonce)"
    by (simp add: nonces_left_def handle_nonce_used_def)
  show "snd (handle_nonce_used n k) = Inl NonceUsedUp \<and>
      nonces_left (fst (handle_nonce_used n k)) k' = (if k' = k then None else nonces_left n k')"
    if "nonces_left n k = Some 0"
    using that by (auto simp: nonces_left_def handle_nonce_used_def unat_eq_zero)
  show "snd (handle_nonce_used n k) = Inr () \<and>
      nonces_left (fst (handle_nonce_used n k)) k' = (if k' = k then Some m else nonces_left n k')"
    if "nonces_left n k = Some (Suc m)"
  proof -
    from that obtain r where r: "hm_get n k = Some r" "unat r = Suc m"
      by (auto simp: nonces_left_def)
    then have "r \<noteq> 0" by auto
    moreover from this have "unat (r - 1) = m" using r(2) by (simp add: unat_minus_one)
    ultimately show ?thesis
      using r(1) by (simp add: nonces_left_def handle_nonce_used_def)
  qed
qed

end
