(* ===== verification/Client_Message.thy ===== *)
theory Client_Message
  imports Channel_Data Relay_Auth
begin

text \<open>
  The messages a client can send to the relay and their decoding, \<^verbatim>\<open>rust/relay/src/lib.rs\<close> and
  \<^verbatim>\<open>rust/relay/src/server/client_message.rs\<close>: one record per request, its constructor and its
  parser, the effective lifetime of an allocation, and the de-multiplexing decoder.
\<close>

section \<open>Responses\<close>

text \<open>
  \<^verbatim>\<open>&rev[..8]\<close> of the build's revision, or a placeholder. A revision is a commit hash, which has
  more than eight characters.
\<close>

definition SOFTWARE :: "('msg, 'mi, 'r) relay_env \<Rightarrow> string" where
  "SOFTWARE E = ''firezone-relay; rev='' @
     (case github_sha E of Some sha \<Rightarrow> take 8 sha | None \<Rightarrow> ''xxxx'')"

definition success_response ::
    "('msg, 'mi, 'r) relay_env \<Rightarrow> stun_method \<Rightarrow> transaction_id \<Rightarrow> 'msg" where
  "success_response E m tid =
     add_attribute E (message_new E SuccessResponse m tid) (Software (SOFTWARE E))"

definition error_response ::
    "('msg, 'mi, 'r) relay_env \<Rightarrow> stun_method \<Rightarrow> transaction_id \<Rightarrow> error_code \<Rightarrow> 'msg" where
  "error_response E m tid code =
     add_attribute E
       (add_attribute E (message_new E ErrorResponse m tid) (Software (SOFTWARE E)))
       (ErrorCode code)"

definition bad_request :: "('msg, 'mi, 'r) relay_env \<Rightarrow> 'msg \<Rightarrow> 'msg" where
  "bad_request E message = error_response E (method_of E message) (tid_of E message) BadRequest"

section \<open>Requests\<close>

record binding =
  bi_transaction_id :: transaction_id
  bi_software :: "string option"

record 'mi allocate =
  al_transaction_id :: transaction_id
  al_message_integrity :: "'mi option"
  al_requested_transport :: u8
  al_lifetime :: "duration option"
  al_username :: "string option"
  al_nonce :: "string option"
  al_requested_address_family :: "address_family option"
  al_additional_address_family :: "address_family option"
  al_software :: "string option"

record 'mi refresh =
  re_transaction_id :: transaction_id
  re_message_integrity :: "'mi option"
  re_lifetime :: "duration option"
  re_username :: "string option"
  re_nonce :: "string option"
  re_software :: "string option"

record 'mi channel_bind =
  cb_transaction_id :: transaction_id
  cb_channel_number :: u16
  cb_message_integrity :: "'mi option"
  cb_nonce :: "string option"
  cb_xor_peer_address :: socket_addr
  cb_username :: "string option"
  cb_software :: "string option"

record 'mi create_permission =
  cp_transaction_id :: transaction_id
  cp_message_integrity :: "'mi option"
  cp_username :: "string option"
  cp_nonce :: "string option"
  cp_software :: "string option"

datatype 'mi client_message =
    ChannelData channel_data
  | Binding binding
  | Allocate "'mi allocate"
  | Refresh "'mi refresh"
  | ChannelBind "'mi channel_bind"
  | CreatePermission "'mi create_permission"

primrec client_message_transaction_id :: "'mi client_message \<Rightarrow> transaction_id option" where
  "client_message_transaction_id (Binding r) = Some (bi_transaction_id r)"
| "client_message_transaction_id (Allocate r) = Some (al_transaction_id r)"
| "client_message_transaction_id (Refresh r) = Some (re_transaction_id r)"
| "client_message_transaction_id (ChannelBind r) = Some (cb_transaction_id r)"
| "client_message_transaction_id (CreatePermission r) = Some (cp_transaction_id r)"
| "client_message_transaction_id (ChannelData d) = None"

primrec client_message_username :: "'mi client_message \<Rightarrow> string option" where
  "client_message_username (ChannelData d) = None"
| "client_message_username (Binding r) = None"
| "client_message_username (Allocate r) = al_username r"
| "client_message_username (Refresh r) = re_username r"
| "client_message_username (ChannelBind r) = cb_username r"
| "client_message_username (CreatePermission r) = cp_username r"

subsection \<open>Parsing\<close>

definition binding_parse :: "('msg, 'mi, 'r) relay_env \<Rightarrow> 'msg \<Rightarrow> binding" where
  "binding_parse E message =
     \<lparr>bi_transaction_id = tid_of E message, bi_software = get_software E message\<rparr>"

definition allocate_parse :: "('msg, 'mi, 'r) relay_env \<Rightarrow> 'msg \<Rightarrow> 'msg + 'mi allocate" where
  "allocate_parse E message =
     (case get_requested_transport E message of
        None \<Rightarrow> Inl (bad_request E message)
      | Some transport \<Rightarrow> Inr
          \<lparr>al_transaction_id = tid_of E message,
           al_message_integrity = get_message_integrity E message,
           al_requested_transport = transport,
           al_lifetime = get_lifetime E message,
           al_username = get_username E message,
           al_nonce = get_nonce E message,
           al_requested_address_family = get_requested_address_family E message,
           al_additional_address_family = get_additional_address_family E message,
           al_software = get_software E message\<rparr>)"

definition refresh_parse :: "('msg, 'mi, 'r) relay_env \<Rightarrow> 'msg \<Rightarrow> 'mi refresh" where
  "refresh_parse E message =
     \<lparr>re_transaction_id = tid_of E message,
      re_message_integrity = get_message_integrity E message,
      re_lifetime = get_lifetime E message,
      re_username = get_username E message,
      re_nonce = get_nonce E message,
      re_software = get_software E message\<rparr>"

definition channel_bind_parse :: "('msg, 'mi, 'r) relay_env \<Rightarrow> 'msg \<Rightarrow> 'msg + 'mi channel_bind" where
  "channel_bind_parse E message =
     (case get_channel_number E message of
        None \<Rightarrow> Inl (bad_request E message)
      | Some channel_number \<Rightarrow>
          (case get_xor_peer_address E message of
             None \<Rightarrow> Inl (bad_request E message)
           | Some peer \<Rightarrow> Inr
               \<lparr>cb_transaction_id = tid_of E message,
                cb_channel_number = channel_number,
                cb_message_integrity = get_message_integrity E message,
                cb_nonce = get_nonce E message,
                cb_xor_peer_address = peer,
                cb_username = get_username E message,
                cb_software = get_software E message\<rparr>))"

definition create_permission_parse ::
    "('msg, 'mi, 'r) relay_env \<Rightarrow> 'msg \<Rightarrow> 'mi create_permission" where
  "create_permission_parse E message =
     \<lparr>cp_transaction_id = tid_of E message,
      cp_message_integrity = get_message_integrity E message,
      cp_username = get_username E message,
      cp_nonce = get_nonce E message,
      cp_software = get_software E message\<rparr>"

subsection \<open>Construction\<close>

text \<open>
  The constructors for authenticated requests build the message that the integrity covers, in the
  source's attribute order. \<open>None\<close> inside \<open>Done\<close> is an \<^verbatim>\<open>anyhow\<close> error.
\<close>

definition UDP_TRANSPORT :: u8 where
  "UDP_TRANSPORT = 17"

definition add_optional ::
    "('msg, 'mi, 'r) relay_env \<Rightarrow> ('a \<Rightarrow> 'mi attribute) \<Rightarrow> 'a option \<Rightarrow> 'msg \<Rightarrow> 'msg" where
  "add_optional E f x m = (case x of None \<Rightarrow> m | Some v \<Rightarrow> add_attribute E m (f v))"

definition sign_request ::
    "('msg, 'mi, 'r) relay_env \<Rightarrow> string \<Rightarrow> string \<Rightarrow> 'msg \<Rightarrow> 'mi option outcome" where
  "sign_request E relay_secret username message =
     (case split_username username of
        Inl e \<Rightarrow> Done None
      | Inr (expiry, salt) \<Rightarrow>
          and_then (systemtime_from_unix expiry) (\<lambda>expiry_systemtime.
            Done (new_long_term_credential E message username FIREZONE
                    (generate_password E relay_secret expiry_systemtime salt))))"

definition allocate_make_attributes ::
    "('msg, 'mi, 'r) relay_env \<Rightarrow> transaction_id \<Rightarrow> duration option \<Rightarrow> string \<Rightarrow> string \<Rightarrow> u128
     \<Rightarrow> address_family option \<Rightarrow> (u8 \<times> string \<times> 'mi) option outcome" where
  "allocate_make_attributes E tid lifetime username relay_secret uuid requested_address_family =
     (let nonce = show_uuid E uuid
      in if \<not> nonce_ok E nonce then Done None
         else
           let m0 = message_new E Request ALLOCATE tid;
               m1 = add_attribute E m0 (RequestedTransport UDP_TRANSPORT);
               m2 = add_attribute E m1 (Username username);
               m3 = add_attribute E m2 (Nonce nonce);
               m4 = add_optional E RequestedAddressFamily requested_address_family m3;
               m5 = add_optional E Lifetime lifetime m4
           in and_then (sign_request E relay_secret username m5) (\<lambda>r.
                Done (case r of None \<Rightarrow> None | Some mi \<Rightarrow> Some (UDP_TRANSPORT, nonce, mi))))"

definition allocate_new_authenticated ::
    "('msg, 'mi, 'r) relay_env \<Rightarrow> transaction_id \<Rightarrow> duration option \<Rightarrow> string \<Rightarrow> string \<Rightarrow> u128
     \<Rightarrow> address_family option \<Rightarrow> 'mi allocate option outcome" where
  "allocate_new_authenticated E tid lifetime username relay_secret uuid family =
     and_then (allocate_make_attributes E tid lifetime username relay_secret uuid family) (\<lambda>r.
       Done (case r of None \<Rightarrow> None
             | Some (requested_transport, nonce, mi) \<Rightarrow> Some
                 \<lparr>al_transaction_id = tid,
                  al_message_integrity = Some mi,
                  al_requested_transport = requested_transport,
                  al_lifetime = lifetime,
                  al_username = Some username,
                  al_nonce = Some nonce,
                  al_requested_address_family = family,
                  al_additional_address_family = None,
                  al_software = None\<rparr>))"

definition allocate_new_authenticated_udp_implicit_ip4 ::
    "('msg, 'mi, 'r) relay_env \<Rightarrow> transaction_id \<Rightarrow> duration option \<Rightarrow> string \<Rightarrow> string \<Rightarrow> u128
     \<Rightarrow> 'mi allocate option outcome" where
  "allocate_new_authenticated_udp_implicit_ip4 E tid lifetime username relay_secret uuid =
     allocate_new_authenticated E tid lifetime username relay_secret uuid None"

definition allocate_new_authenticated_udp_ip6 ::
    "('msg, 'mi, 'r) relay_env \<Rightarrow> transaction_id \<Rightarrow> duration option \<Rightarrow> string \<Rightarrow> string \<Rightarrow> u128
     \<Rightarrow> 'mi allocate option outcome" where
  "allocate_new_authenticated_udp_ip6 E tid lifetime username relay_secret uuid =
     allocate_new_authenticated E tid lifetime username relay_secret uuid (Some AF_V6)"

definition allocate_new_unauthenticated_udp ::
    "transaction_id \<Rightarrow> duration option \<Rightarrow> 'mi allocate" where
  "allocate_new_unauthenticated_udp tid lifetime =
     \<lparr>al_transaction_id = tid, al_message_integrity = None,
      al_requested_transport = UDP_TRANSPORT, al_lifetime = lifetime, al_username = None,
      al_nonce = None, al_requested_address_family = None, al_additional_address_family = None,
      al_software = None\<rparr>"

definition refresh_new ::
    "('msg, 'mi, 'r) relay_env \<Rightarrow> transaction_id \<Rightarrow> duration option \<Rightarrow> string \<Rightarrow> string \<Rightarrow> u128
     \<Rightarrow> 'mi refresh option outcome" where
  "refresh_new E tid lifetime username relay_secret uuid =
     (let nonce = show_uuid E uuid
      in if \<not> nonce_ok E nonce then Done None
         else
           let m0 = message_new E Request REFRESH tid;
               m1 = add_attribute E m0 (Username username);
               m2 = add_attribute E m1 (Nonce nonce);
               m3 = add_optional E Lifetime lifetime m2
           in and_then (sign_request E relay_secret username m3) (\<lambda>r.
                Done (case r of None \<Rightarrow> None | Some mi \<Rightarrow> Some
                   \<lparr>re_transaction_id = tid, re_message_integrity = Some mi,
                    re_lifetime = lifetime, re_username = Some username,
                    re_nonce = Some nonce, re_software = None\<rparr>)))"

definition channel_bind_new ::
    "('msg, 'mi, 'r) relay_env \<Rightarrow> transaction_id \<Rightarrow> u16 \<Rightarrow> socket_addr \<Rightarrow> string \<Rightarrow> string \<Rightarrow> u128
     \<Rightarrow> 'mi channel_bind option outcome" where
  "channel_bind_new E tid channel_number xor_peer_address username relay_secret uuid =
     (let nonce = show_uuid E uuid
      in if \<not> nonce_ok E nonce then Done None
         else
           let m0 = message_new E Request CHANNEL_BIND tid;
               m1 = add_attribute E m0 (Username username);
               m2 = add_attribute E m1 (ChannelNumber channel_number);
               m3 = add_attribute E m2 (XorPeerAddress xor_peer_address);
               m4 = add_attribute E m3 (Nonce nonce)
           in and_then (sign_request E relay_secret username m4) (\<lambda>r.
                Done (case r of None \<Rightarrow> None | Some mi \<Rightarrow> Some
                   \<lparr>cb_transaction_id = tid, cb_channel_number = channel_number,
                    cb_message_integrity = Some mi, cb_nonce = Some nonce,
                    cb_xor_peer_address = xor_peer_address, cb_username = Some username,
                    cb_software = None\<rparr>)))"

subsection \<open>Lifetimes\<close>

definition MAX_ALLOCATION_LIFETIME :: duration where
  "MAX_ALLOCATION_LIFETIME = from_secs 3600"

definition DEFAULT_ALLOCATION_LIFETIME :: duration where
  "DEFAULT_ALLOCATION_LIFETIME = from_secs 600"

definition compute_effective_lifetime ::
    "('msg, 'mi, 'r) relay_env \<Rightarrow> duration option \<Rightarrow> duration outcome" where
  "compute_effective_lifetime E requested_lifetime =
     (case requested_lifetime of
        None \<Rightarrow>
          and_then (assert_that (lifetime_ok E DEFAULT_ALLOCATION_LIFETIME)) (\<lambda>_.
            Done DEFAULT_ALLOCATION_LIFETIME)
      | Some requested \<Rightarrow>
          let effective_lifetime = min requested MAX_ALLOCATION_LIFETIME
          in and_then (assert_that (lifetime_ok E effective_lifetime)) (\<lambda>_.
               Done effective_lifetime))"

section \<open>The decoder\<close>

datatype decode_error = BadChannelData io_error_kind | DecodeStun | UnknownMessageType u8 | Eof

definition stun_dispatch ::
    "('msg, 'mi, 'r) relay_env \<Rightarrow> 'msg \<Rightarrow> decode_error + ('msg + 'mi client_message)" where
  "stun_dispatch E message =
     (case (method_of E message, class_of E message) of
        (BINDING, Request) \<Rightarrow> Inr (Inr (Binding (binding_parse E message)))
      | (ALLOCATE, Request) \<Rightarrow>
          Inr (case allocate_parse E message of Inl e \<Rightarrow> Inl e | Inr r \<Rightarrow> Inr (Allocate r))
      | (REFRESH, Request) \<Rightarrow> Inr (Inr (Refresh (refresh_parse E message)))
      | (CHANNEL_BIND, Request) \<Rightarrow>
          Inr (case channel_bind_parse E message of Inl e \<Rightarrow> Inl e | Inr r \<Rightarrow> Inr (ChannelBind r))
      | (CREATE_PERMISSION, Request) \<Rightarrow>
          Inr (Inr (CreatePermission (create_permission_parse E message)))
      | (_, Request) \<Rightarrow> Inr (Inl (bad_request E message))
      | (_, _) \<Rightarrow> Inl DecodeStun)"

definition decode ::
    "('msg, 'mi, 'r) relay_env \<Rightarrow> bytes \<Rightarrow> decode_error + ('msg + 'mi client_message)" where
  "decode E input =
     (case input of
        [] \<Rightarrow> Inl Eof
      | b # _ \<Rightarrow>
          if b \<le> 3 then
            (case decode_from_bytes E input of
               Inl e \<Rightarrow> Inl DecodeStun
             | Inr (Inl (m, tid, code)) \<Rightarrow> Inr (Inl (error_response E m tid code))
             | Inr (Inr message) \<Rightarrow> stun_dispatch E message)
          else if 64 \<le> b \<and> b \<le> 79 then
            (case channel_data_parse E input of
               Inl e \<Rightarrow> Inl (BadChannelData e)
             | Inr cd \<Rightarrow> Inr (Inr (ChannelData cd)))
          else Inl (UnknownMessageType b))"

section \<open>Lemmas\<close>

lemma effective_lifetime_bound:
  "compute_effective_lifetime E l = Done d \<Longrightarrow> d \<le> MAX_ALLOCATION_LIFETIME"
  by (auto simp: compute_effective_lifetime_def MAX_ALLOCATION_LIFETIME_def
      DEFAULT_ALLOCATION_LIFETIME_def from_secs_def Let_def outcome_simps split: option.splits)

lemma effective_lifetime_total:
  assumes "value_laws E"
  shows "compute_effective_lifetime E l =
    Done (case l of None \<Rightarrow> DEFAULT_ALLOCATION_LIFETIME | Some d \<Rightarrow> min d MAX_ALLOCATION_LIFETIME)"
proof -
  have ok: "d \<le> MAX_ALLOCATION_LIFETIME \<Longrightarrow> lifetime_ok E d" for d
  proof -
    assume "d \<le> MAX_ALLOCATION_LIFETIME"
    then have "as_secs d \<le> 3600"
      unfolding MAX_ALLOCATION_LIFETIME_def as_secs_def from_secs_def
      by (metis div_le_mono nonzero_mult_div_cancel_right zero_neq_numeral)
    then show ?thesis using assms by (simp add: value_laws_def)
  qed
  have "DEFAULT_ALLOCATION_LIFETIME \<le> MAX_ALLOCATION_LIFETIME"
    by (simp add: MAX_ALLOCATION_LIFETIME_def DEFAULT_ALLOCATION_LIFETIME_def from_secs_def)
  then show ?thesis
    by (auto simp: compute_effective_lifetime_def Let_def ok split: option.splits)
qed

text \<open>Bytes that decode to channel data are channel data on a second look, with the data readable.\<close>

lemma decode_channel_data:
  assumes "decode E bs = Inr (Inr (ChannelData cd))"
  shows "channel_data_parse E bs = Inr cd"
  using assms
  by (auto simp: decode_def stun_dispatch_def
      split: list.splits if_splits sum.splits prod.splits stun_method.splits message_class.splits)

lemma channel_data_parse_data:
  "channel_data_parse E bs = Inr cd \<Longrightarrow> \<exists>d. channel_data_data cd = Done d \<and> length d = cd_length cd"
  by (auto simp: channel_data_parse_def channel_data_data_def Let_def split: if_splits)

end
