(* ===== verification/Relay_Server.thy ===== *)
theory Relay_Server
  imports Client_Message
begin

text \<open>
  The sans-IO STUN and TURN server of the relay, \<^verbatim>\<open>rust/relay/src/server.rs\<close>, with the types of
  \<^verbatim>\<open>rust/relay/src/lib.rs\<close>. The record \<open>server\<close> has the fields of \<^verbatim>\<open>struct Server\<close>; every
  method is a definition over it that returns the new state. Metrics are counters: the up-down
  counter of allocations is an integer, the response counter the list of the labels it was bumped
  with. \<^verbatim>\<open>SystemTime::now()\<close> is the argument \<open>wall\<close>. \<^verbatim>\<open>debug_assert!\<close> is a branch that
  panics, as in a debug build; the proofs in \<open>Relay_Invariant\<close> show it is never taken.
\<close>

section \<open>Addresses\<close>

datatype ip_stack = Ip4 ipv4 | Ip6 ipv6 | Dual ipv4 ipv6

primrec as_v4 :: "ip_stack \<Rightarrow> ipv4 option" where
  "as_v4 (Ip4 a) = Some a"
| "as_v4 (Ip6 a) = None"
| "as_v4 (Dual a b) = Some a"

primrec as_v6 :: "ip_stack \<Rightarrow> ipv6 option" where
  "as_v6 (Ip4 a) = None"
| "as_v6 (Ip6 a) = Some a"
| "as_v6 (Dual a b) = Some b"

text \<open>The conversions into an \<^verbatim>\<open>IpStack\<close>; the one from two optional addresses panics on neither.\<close>

primrec ip_stack_from_ip_addr :: "ip_addr \<Rightarrow> ip_stack" where
  "ip_stack_from_ip_addr (V4 a) = Ip4 a"
| "ip_stack_from_ip_addr (V6 a) = Ip6 a"

fun ip_stack_from_options :: "ipv4 option \<times> ipv6 option \<Rightarrow> ip_stack outcome" where
  "ip_stack_from_options (None, None) = Panicked"
| "ip_stack_from_options (None, Some ip6) = Done (Ip6 ip6)"
| "ip_stack_from_options (Some ip4, None) = Done (Ip4 ip4)"
| "ip_stack_from_options (Some ip4, Some ip6) = Done (Dual ip4 ip6)"

primrec ip_family :: "ip_addr \<Rightarrow> address_family" where
  "ip_family (V4 a) = AF_V4"
| "ip_family (V6 a) = AF_V6"

text \<open>The match of the source, branch by branch and in its order.\<close>

fun derive_relay_addresses ::
    "ip_stack \<Rightarrow> address_family option \<Rightarrow> address_family option
     \<Rightarrow> error_code + (ip_addr \<times> ip_addr option)" where
  "derive_relay_addresses (Ip4 a) None None = Inr (V4 a, None)"
| "derive_relay_addresses (Ip4 a) (Some AF_V4) None = Inr (V4 a, None)"
| "derive_relay_addresses (Dual a b) None None = Inr (V4 a, None)"
| "derive_relay_addresses (Dual a b) (Some AF_V4) None = Inr (V4 a, None)"
| "derive_relay_addresses (Ip6 b) (Some AF_V6) None = Inr (V6 b, None)"
| "derive_relay_addresses (Dual a b) (Some AF_V6) None = Inr (V6 b, None)"
| "derive_relay_addresses (Dual a b) None (Some AF_V6) = Inr (V4 a, Some (V6 b))"
| "derive_relay_addresses (Ip4 a) None (Some AF_V6) = Inr (V4 a, None)"
| "derive_relay_addresses (Ip6 b) None (Some AF_V6) = Inr (V6 b, None)"
| "derive_relay_addresses _ (Some _) (Some _) = Inl BadRequest"
| "derive_relay_addresses _ _ (Some AF_V4) = Inl BadRequest"
| "derive_relay_addresses (Ip6 _) None None = Inl AddressFamilyNotSupported"
| "derive_relay_addresses (Ip6 _) (Some AF_V4) None = Inl AddressFamilyNotSupported"
| "derive_relay_addresses (Ip4 _) (Some AF_V6) _ = Inl AddressFamilyNotSupported"

section \<open>State\<close>

definition CHANNEL_BINDING_DURATION :: duration where
  "CHANNEL_BINDING_DURATION = from_secs 600"

definition CHANNEL_REBIND_TIMEOUT :: duration where
  "CHANNEL_REBIND_TIMEOUT = from_secs 300"

record allocation =
  a_port :: u16
  expires_at :: instant
  first_relay_addr :: ip_addr
  second_relay_addr :: "ip_addr option"

record channel =
  expiry :: instant
  peer_address :: socket_addr
  c_allocation :: u16
  bound :: bool

definition channel_refresh :: "channel \<Rightarrow> instant \<Rightarrow> channel" where
  "channel_refresh c now = c\<lparr>expiry := now + CHANNEL_BINDING_DURATION, bound := True\<rparr>"

definition channel_is_expired :: "channel \<Rightarrow> instant \<Rightarrow> bool" where
  "channel_is_expired c now = (expiry c \<le> now)"

definition channel_can_be_deleted :: "channel \<Rightarrow> instant \<Rightarrow> bool" where
  "channel_can_be_deleted c now = (expiry c + CHANNEL_REBIND_TIMEOUT \<le> now)"

definition can_relay_to :: "allocation \<Rightarrow> socket_addr \<Rightarrow> bool" where
  "can_relay_to a addr =
     (case addr of
        SockV4 _ _ \<Rightarrow> is_ipv4 (first_relay_addr a)
      | SockV6 _ _ _ _ \<Rightarrow> is_ipv6 (first_relay_addr a)
          \<or> (case second_relay_addr a of None \<Rightarrow> False | Some b \<Rightarrow> is_ipv6 b))"

definition allocation_is_expired :: "allocation \<Rightarrow> instant \<Rightarrow> bool" where
  "allocation_is_expired a now = (expires_at a \<le> now)"

datatype relay_command =
    SendMessage bytes socket_addr
  | CreateAllocation u16 address_family
  | FreeAllocation u16 address_family

type_synonym client_socket = socket_addr
type_synonym peer_socket = socket_addr
type_synonym allocation_port = u16
type_synonym channel_map = "(client_socket \<times> u16, channel) hmap"
type_synonym number_map = "(client_socket \<times> peer_socket, u16) hmap"
type_synonym fast_map = "(allocation_port \<times> peer_socket, client_socket \<times> u16) hmap"

record 'r server =
  public_address :: ip_stack
  allocations :: "(client_socket, allocation) hmap"
  clients_by_allocation :: "(allocation_port, client_socket) hmap"
  channel_and_client_by_port_and_peer :: fast_map
  listen_port :: u16
  ports :: "u16 \<times> u16"
  channels_by_client_and_number :: channel_map
  channel_numbers_by_client_and_peer :: number_map
  pending_commands :: "relay_command list"
  rng :: 'r
  auth_secret :: string
  nonces :: nonces
  allocations_up_down_counter :: int
  data_relayed_counter :: nat
  data_relayed :: u64
  responses_counter :: "(string \<times> string \<times> error_code option) list"

definition server_new ::
    "('msg, 'mi, 'r) relay_env \<Rightarrow> ip_stack \<Rightarrow> 'r \<Rightarrow> u16 \<Rightarrow> u16 \<times> u16 \<Rightarrow> 'r server" where
  "server_new E addr r port port_range =
     (let (secret, r') = gen_secret E r
      in \<lparr>public_address = addr, allocations = [], clients_by_allocation = [],
          channel_and_client_by_port_and_peer = [], listen_port = port, ports = port_range,
          channels_by_client_and_number = [], channel_numbers_by_client_and_peer = [],
          pending_commands = [], rng = r', auth_secret = hex_encode E secret, nonces = [],
          allocations_up_down_counter = 0, data_relayed_counter = 0, data_relayed = 0,
          responses_counter = []\<rparr>)"

definition public_ip4 :: "'r server \<Rightarrow> ip_addr option" where
  "public_ip4 s = map_option V4 (as_v4 (public_address s))"

definition public_ip6 :: "'r server \<Rightarrow> ip_addr option" where
  "public_ip6 s = map_option V6 (as_v6 (public_address s))"

definition add_nonce :: "'r server \<Rightarrow> u128 \<Rightarrow> 'r server" where
  "add_nonce s nonce = s\<lparr>nonces := nonces_add_new (nonces s) nonce\<rparr>"

definition num_relayed_bytes :: "'r server \<Rightarrow> u64" where
  "num_relayed_bytes s = data_relayed s"

definition num_allocations :: "'r server \<Rightarrow> nat" where
  "num_allocations s = hm_len (allocations s)"

definition num_active_channels :: "'r server \<Rightarrow> nat" where
  "num_active_channels s = length (filter (\<lambda>(_, c). bound c) (channels_by_client_and_number s))"

definition push_command :: "relay_command \<Rightarrow> 'r server \<Rightarrow> 'r server" where
  "push_command c s = s\<lparr>pending_commands := pending_commands s @ [c]\<rparr>"

definition next_command :: "'r server \<Rightarrow> 'r server \<times> relay_command option" where
  "next_command s =
     (case pending_commands s of
        [] \<Rightarrow> (s, None)
      | c # cs \<Rightarrow> (s\<lparr>pending_commands := cs\<rparr>, Some c))"

section \<open>Requests seen by the authentication\<close>

text \<open>
  The traits \<^verbatim>\<open>StunRequest\<close> and \<^verbatim>\<open>ProtectedRequest\<close>: what \<^verbatim>\<open>verify_auth\<close> and the error
  responses read of a request.
\<close>

record 'mi protected_request =
  pr_transaction_id :: transaction_id
  pr_method :: stun_method
  pr_message_integrity :: "'mi option"
  pr_username :: "string option"
  pr_nonce :: "string option"

definition allocate_request :: "'mi allocate \<Rightarrow> 'mi protected_request" where
  "allocate_request r = \<lparr>pr_transaction_id = al_transaction_id r, pr_method = ALLOCATE,
     pr_message_integrity = al_message_integrity r, pr_username = al_username r, pr_nonce = al_nonce r\<rparr>"

definition refresh_request :: "'mi refresh \<Rightarrow> 'mi protected_request" where
  "refresh_request r = \<lparr>pr_transaction_id = re_transaction_id r, pr_method = REFRESH,
     pr_message_integrity = re_message_integrity r, pr_username = re_username r, pr_nonce = re_nonce r\<rparr>"

definition channel_bind_request :: "'mi channel_bind \<Rightarrow> 'mi protected_request" where
  "channel_bind_request r = \<lparr>pr_transaction_id = cb_transaction_id r, pr_method = CHANNEL_BIND,
     pr_message_integrity = cb_message_integrity r, pr_username = cb_username r, pr_nonce = cb_nonce r\<rparr>"

definition create_permission_request :: "'mi create_permission \<Rightarrow> 'mi protected_request" where
  "create_permission_request r = \<lparr>pr_transaction_id = cp_transaction_id r, pr_method = CREATE_PERMISSION,
     pr_message_integrity = cp_message_integrity r, pr_username = cp_username r, pr_nonce = cp_nonce r\<rparr>"

definition make_error_response ::
    "('msg, 'mi, 'r) relay_env \<Rightarrow> error_code \<Rightarrow> 'mi protected_request \<Rightarrow> 'msg" where
  "make_error_response E code request =
     error_response E (pr_method request) (pr_transaction_id request) code"

definition refresh_success_response ::
    "('msg, 'mi, 'r) relay_env \<Rightarrow> duration \<Rightarrow> transaction_id \<Rightarrow> 'msg" where
  "refresh_success_response E effective_lifetime tid =
     add_attribute E (success_response E REFRESH tid) (Lifetime effective_lifetime)"

definition channel_bind_success_response ::
    "('msg, 'mi, 'r) relay_env \<Rightarrow> transaction_id \<Rightarrow> 'msg" where
  "channel_bind_success_response E tid = success_response E CHANNEL_BIND tid"

definition create_permission_success_response ::
    "('msg, 'mi, 'r) relay_env \<Rightarrow> transaction_id \<Rightarrow> 'msg" where
  "create_permission_success_response E tid = success_response E CREATE_PERMISSION tid"

text \<open>
  The checks of \<^verbatim>\<open>verify_auth\<close> in order: integrity, user name, nonce present and well-formed,
  nonce usable (which consumes one of its requests), credential valid.
\<close>

definition verify_auth ::
    "('msg, 'mi, 'r) relay_env \<Rightarrow> 'r server \<Rightarrow> 'mi protected_request \<Rightarrow> nat
     \<Rightarrow> ('r server \<times> ('msg + string)) outcome" where
  "verify_auth E s request wall =
     (case pr_message_integrity request of
        None \<Rightarrow> Done (s, Inl (make_error_response E Unauthorized request))
      | Some mi \<Rightarrow>
     (case pr_username request of
        None \<Rightarrow> Done (s, Inl (make_error_response E Unauthorized request))
      | Some username \<Rightarrow>
     (case pr_nonce request of
        None \<Rightarrow> Done (s, Inl (make_error_response E Unauthorized request))
      | Some nonce \<Rightarrow>
     (case parse_uuid E nonce of
        None \<Rightarrow> Done (s, Inl (make_error_response E Unauthorized request))
      | Some uuid \<Rightarrow>
     (let (nonces', used) = handle_nonce_used (nonces s) uuid; s' = s\<lparr>nonces := nonces'\<rparr>
      in case used of
           Inl e \<Rightarrow> Done (s', Inl (make_error_response E StaleNonce request))
         | Inr _ \<Rightarrow>
             and_then (message_integrity_verify E mi (auth_secret s') username wall) (\<lambda>r.
               case r of
                 Inl e \<Rightarrow> Done (s', Inl (make_error_response E Unauthorized request))
               | Inr _ \<Rightarrow> Done (s', Inr username)))))))"

section \<open>Sending\<close>

definition response_class_label :: "message_class \<Rightarrow> string option" where
  "response_class_label c =
     (case c of SuccessResponse \<Rightarrow> Some ''success'' | ErrorResponse \<Rightarrow> Some ''error''
      | Indication \<Rightarrow> None | Request \<Rightarrow> None)"

definition message_type_label :: "stun_method \<Rightarrow> string option" where
  "message_type_label m =
     (case m of BINDING \<Rightarrow> Some ''binding'' | ALLOCATE \<Rightarrow> Some ''allocate''
      | REFRESH \<Rightarrow> Some ''refresh'' | CHANNEL_BIND \<Rightarrow> Some ''channelbind''
      | CREATE_PERMISSION \<Rightarrow> Some ''createpermission'' | OtherMethod _ \<Rightarrow> None)"

definition send_message ::
    "('msg, 'mi, 'r) relay_env \<Rightarrow> 'msg \<Rightarrow> client_socket \<Rightarrow> 'r server \<Rightarrow> 'r server outcome" where
  "send_message E message recipient s =
     and_then (assert_that (get_software E message \<noteq> None)) (\<lambda>_.
       case encode_into_bytes E message of
         None \<Rightarrow> Panicked
       | Some bytes \<Rightarrow>
           let s' = push_command (SendMessage bytes recipient) s
           in (case (response_class_label (class_of E message), message_type_label (method_of E message)) of
                 (Some response_class, Some message_type) \<Rightarrow>
                   Done (s'\<lparr>responses_counter := responses_counter s' @
                           [(response_class, message_type, get_error_code E message)]\<rparr>)
               | _ \<Rightarrow> Done s'))"

definition authenticate_and_send ::
    "('msg, 'mi, 'r) relay_env \<Rightarrow> string \<Rightarrow> 'mi protected_request \<Rightarrow> 'msg \<Rightarrow> client_socket
     \<Rightarrow> 'r server \<Rightarrow> 'r server outcome" where
  "authenticate_and_send E username request message recipient s =
     and_then (authenticated_message_new E (auth_secret s) username message) (\<lambda>r.
       case r of
         Inr authenticated \<Rightarrow> send_message E authenticated recipient s
       | Inl e \<Rightarrow> send_message E (make_error_response E ServerError request) recipient s)"

definition new_nonce_attribute ::
    "('msg, 'mi, 'r) relay_env \<Rightarrow> 'r server \<Rightarrow> ('r server \<times> string) outcome" where
  "new_nonce_attribute E s =
     (let (new_nonce, r') = gen_u128 E (rng s);
          s' = add_nonce (s\<lparr>rng := r'\<rparr>) new_nonce;
          text = show_uuid E new_nonce
      in and_then (assert_that (nonce_ok E text)) (\<lambda>_. Done (s', text)))"

section \<open>Allocations\<close>

text \<open>\<^verbatim>\<open>self.ports.clone().count() as u16\<close>: the cast truncates.\<close>

definition max_available_ports :: "'r server \<Rightarrow> u16" where
  "max_available_ports s =
     (let (lo, hi) = ports s in of_nat (if lo \<le> hi then unat hi - unat lo + 1 else 0))"

text \<open>The loop that draws ports until one is free.\<close>

partial_function (option) draw_port ::
    "('msg, 'mi, 'r) relay_env \<Rightarrow> u16 \<Rightarrow> u16 \<Rightarrow> (allocation_port, client_socket) hmap \<Rightarrow> 'r
     \<Rightarrow> (u16 \<times> 'r) option" where
  "draw_port E lo hi taken r =
     (let (candidate, r') = gen_range E r lo hi
      in if hm_get taken candidate = None then Some (candidate, r')
         else draw_port E lo hi taken r')"

definition create_new_allocation ::
    "('msg, 'mi, 'r) relay_env \<Rightarrow> 'r server \<Rightarrow> instant \<Rightarrow> duration \<Rightarrow> ip_addr \<Rightarrow> ip_addr option
     \<Rightarrow> ('r server \<times> allocation) outcome" where
  "create_new_allocation E s now lifetime first second =
     and_then (assert_that (hm_len (clients_by_allocation s) < unat (max_available_ports s))) (\<lambda>_.
       case draw_port E (fst (ports s)) (snd (ports s)) (clients_by_allocation s) (rng s) of
         None \<Rightarrow> Diverges
       | Some (port, r') \<Rightarrow>
           Done (s\<lparr>rng := r'\<rparr>,
                 \<lparr>a_port = port, expires_at = now + lifetime,
                  first_relay_addr = first, second_relay_addr = second\<rparr>))"

text \<open>The closure of \<^verbatim>\<open>retain\<close> in \<^verbatim>\<open>delete_allocation\<close>, over the channels in order.\<close>

fun retain_channels ::
    "client_socket \<Rightarrow> allocation_port \<Rightarrow> channel_map \<Rightarrow> number_map \<Rightarrow> fast_map
     \<Rightarrow> (channel_map \<times> number_map \<times> fast_map) outcome" where
  "retain_channels client port [] nums fast = Done ([], nums, fast)"
| "retain_channels client port (((cs, number), c) # rest) nums fast =
     (if c_allocation c \<noteq> port then
        and_then (retain_channels client port rest nums fast) (\<lambda>(kept, nums', fast').
          Done (((cs, number), c) # kept, nums', fast'))
      else
        and_then (assert_that (cs = client)) (\<lambda>_.
          let peer = peer_address c
          in and_then (assert_that (case hm_get nums (client, peer) of
                 Some existing \<Rightarrow> existing = number | None \<Rightarrow> True)) (\<lambda>_.
             and_then (assert_that (case hm_get fast (port, peer) of
                 Some (existing_cs, existing_n) \<Rightarrow> existing_cs = cs \<and> existing_n = number
               | None \<Rightarrow> True)) (\<lambda>_.
             retain_channels client port rest
               (hm_remove (client, peer) nums) (hm_remove (port, peer) fast)))))"

definition delete_allocation :: "'r server \<Rightarrow> allocation_port \<Rightarrow> 'r server outcome" where
  "delete_allocation s port =
     (case hm_get (clients_by_allocation s) port of
        None \<Rightarrow> Done s
      | Some client \<Rightarrow>
          and_then (expect (hm_get (allocations s) client)) (\<lambda>a.
          and_then (retain_channels client (a_port a) (channels_by_client_and_number s)
                      (channel_numbers_by_client_and_peer s)
                      (channel_and_client_by_port_and_peer s)) (\<lambda>(chans, nums, fast).
            let s1 = s\<lparr>clients_by_allocation := hm_remove port (clients_by_allocation s),
                       allocations := hm_remove client (allocations s),
                       channels_by_client_and_number := chans,
                       channel_numbers_by_client_and_peer := nums,
                       channel_and_client_by_port_and_peer := fast,
                       allocations_up_down_counter := allocations_up_down_counter s - 1\<rparr>;
                s2 = push_command (FreeAllocation (a_port a) (ip_family (first_relay_addr a))) s1
            in Done (case second_relay_addr a of
                       None \<Rightarrow> s2
                     | Some b \<Rightarrow> push_command (FreeAllocation (a_port a) (ip_family b)) s2))))"

definition handle_allocation_failed :: "'r server \<Rightarrow> allocation_port \<Rightarrow> 'r server outcome" where
  "handle_allocation_failed s port = delete_allocation s port"

section \<open>Channels\<close>

definition create_channel_binding ::
    "'r server \<Rightarrow> client_socket \<Rightarrow> u16 \<Rightarrow> peer_socket \<Rightarrow> allocation_port \<Rightarrow> instant
     \<Rightarrow> 'r server outcome" where
  "create_channel_binding s client requested_channel peer port now =
     and_then (assert_that (hm_get (channels_by_client_and_number s) (client, requested_channel) = None)) (\<lambda>_.
     and_then (assert_that (hm_get (channel_numbers_by_client_and_peer s) (client, peer) = None)) (\<lambda>_.
     and_then (assert_that (hm_get (channel_and_client_by_port_and_peer s) (port, peer) = None)) (\<lambda>_.
       Done (s\<lparr>channels_by_client_and_number :=
                 hm_insert (client, requested_channel)
                   \<lparr>expiry = now + CHANNEL_BINDING_DURATION, peer_address = peer,
                    c_allocation = port, bound = True\<rparr> (channels_by_client_and_number s),
               channel_numbers_by_client_and_peer :=
                 hm_insert (client, peer) requested_channel (channel_numbers_by_client_and_peer s),
               channel_and_client_by_port_and_peer :=
                 hm_insert (port, peer) (client, requested_channel)
                   (channel_and_client_by_port_and_peer s)\<rparr>))))"

definition delete_channel_binding :: "'r server \<Rightarrow> client_socket \<Rightarrow> u16 \<Rightarrow> 'r server outcome" where
  "delete_channel_binding s client chan =
     (case hm_get (channels_by_client_and_number s) (client, chan) of
        None \<Rightarrow> Done s
      | Some c \<Rightarrow>
          let peer = peer_address c
          in and_then (assert_that (case hm_get (channel_numbers_by_client_and_peer s) (client, peer) of
                 Some n \<Rightarrow> n = chan | None \<Rightarrow> True)) (\<lambda>_.
               Done (s\<lparr>channel_numbers_by_client_and_peer :=
                         hm_remove (client, peer) (channel_numbers_by_client_and_peer s),
                       channels_by_client_and_number :=
                         hm_remove (client, chan) (channels_by_client_and_number s)\<rparr>)))"

section \<open>Request handlers\<close>

definition handle_binding_request ::
    "('msg, 'mi, 'r) relay_env \<Rightarrow> 'r server \<Rightarrow> binding \<Rightarrow> client_socket \<Rightarrow> 'r server outcome" where
  "handle_binding_request E s request sender =
     send_message E (add_attribute E (success_response E BINDING (bi_transaction_id request))
       (XorMappedAddress sender)) sender s"

definition allocate_success_message ::
    "('msg, 'mi, 'r) relay_env \<Rightarrow> transaction_id \<Rightarrow> u16 \<Rightarrow> ip_addr \<Rightarrow> ip_addr option \<Rightarrow> client_socket
     \<Rightarrow> duration \<Rightarrow> 'msg" where
  "allocate_success_message E tid port first second sender lifetime =
     (let m0 = success_response E ALLOCATE tid;
          m1 = add_attribute E m0 (XorRelayAddress (socket_addr_new first port));
          m2 = (case second of None \<Rightarrow> m1
                | Some b \<Rightarrow> add_attribute E m1 (XorRelayAddress (socket_addr_new b port)));
          m3 = add_attribute E m2 (XorMappedAddress sender)
      in add_attribute E m3 (Lifetime lifetime))"

definition handle_allocate_request ::
    "('msg, 'mi, 'r) relay_env \<Rightarrow> 'r server \<Rightarrow> 'mi allocate \<Rightarrow> client_socket \<Rightarrow> instant \<Rightarrow> nat
     \<Rightarrow> ('r server \<times> ('msg + unit)) outcome" where
  "handle_allocate_request E s0 request sender now wall =
     (let pr = allocate_request request in
      and_then (verify_auth E s0 pr wall) (\<lambda>(s, auth).
      case auth of
        Inl e \<Rightarrow> Done (s, Inl e)
      | Inr username \<Rightarrow>
          if hm_get (allocations s) sender \<noteq> None then
            Done (s, Inl (make_error_response E AllocationMismatch pr))
          else if hm_len (clients_by_allocation s) = unat (max_available_ports s) then
            Done (s, Inl (make_error_response E InsufficientCapacity pr))
          else if al_requested_transport request \<noteq> UDP_TRANSPORT then
            Done (s, Inl (make_error_response E BadRequest pr))
          else
            (case derive_relay_addresses (public_address s)
                    (al_requested_address_family request) (al_additional_address_family request) of
               Inl code \<Rightarrow> Done (s, Inl (make_error_response E code pr))
             | Inr (first, second) \<Rightarrow>
                 and_then (compute_effective_lifetime E (al_lifetime request)) (\<lambda>lifetime.
                 and_then (create_new_allocation E s now lifetime first second) (\<lambda>(s1, a).
                   let port = a_port a;
                       message = allocate_success_message E (al_transaction_id request) port
                                   first second sender lifetime;
                       s2 = push_command (CreateAllocation port (ip_family first)) s1;
                       s3 = (case second of None \<Rightarrow> s2
                             | Some b \<Rightarrow> push_command (CreateAllocation port (ip_family b)) s2)
                   in and_then (authenticate_and_send E username pr message sender s3) (\<lambda>s4.
                        Done (s4\<lparr>clients_by_allocation :=
                                   hm_insert port sender (clients_by_allocation s4),
                                 allocations := hm_insert sender a (allocations s4),
                                 allocations_up_down_counter := allocations_up_down_counter s4 + 1\<rparr>,
                              Inr ())))))))"

definition handle_refresh_request ::
    "('msg, 'mi, 'r) relay_env \<Rightarrow> 'r server \<Rightarrow> 'mi refresh \<Rightarrow> client_socket \<Rightarrow> instant \<Rightarrow> nat
     \<Rightarrow> ('r server \<times> ('msg + unit)) outcome" where
  "handle_refresh_request E s0 request sender now wall =
     (let pr = refresh_request request in
      and_then (verify_auth E s0 pr wall) (\<lambda>(s, auth).
      case auth of
        Inl e \<Rightarrow> Done (s, Inl e)
      | Inr username \<Rightarrow>
          (case hm_get (allocations s) sender of
             None \<Rightarrow> Done (s, Inl (make_error_response E AllocationMismatch pr))
           | Some a \<Rightarrow>
               and_then (compute_effective_lifetime E (re_lifetime request)) (\<lambda>effective_lifetime.
                 let reply = refresh_success_response E effective_lifetime (re_transaction_id request)
                 in if effective_lifetime = 0 then
                      and_then (delete_allocation s (a_port a)) (\<lambda>s1.
                      and_then (authenticate_and_send E username pr reply sender s1) (\<lambda>s2.
                        Done (s2, Inr ())))
                    else
                      let s1 = s\<lparr>allocations :=
                            hm_insert sender (a\<lparr>expires_at := now + effective_lifetime\<rparr>) (allocations s)\<rparr>
                      in and_then (authenticate_and_send E username pr reply sender s1) (\<lambda>s2.
                           Done (s2, Inr ()))))))"

definition handle_channel_bind_request ::
    "('msg, 'mi, 'r) relay_env \<Rightarrow> 'r server \<Rightarrow> 'mi channel_bind \<Rightarrow> client_socket \<Rightarrow> instant \<Rightarrow> nat
     \<Rightarrow> ('r server \<times> ('msg + unit)) outcome" where
  "handle_channel_bind_request E s0 request sender now wall =
     (let pr = channel_bind_request request in
      and_then (verify_auth E s0 pr wall) (\<lambda>(s, auth).
      case auth of
        Inl e \<Rightarrow> Done (s, Inl e)
      | Inr username \<Rightarrow>
          (case hm_get (allocations s) sender of
             None \<Rightarrow> Done (s, Inl (make_error_response E AllocationMismatch pr))
           | Some a \<Rightarrow>
               let requested_channel = cb_channel_number request;
                   peer = cb_xor_peer_address request;
                   reply = channel_bind_success_response E (cb_transaction_id request)
               in if \<not> can_relay_to a peer then
                    Done (s, Inl (make_error_response E PeerAddressFamilyMismatch pr))
                  else if (case hm_get (channel_numbers_by_client_and_peer s) (sender, peer) of
                             Some number \<Rightarrow> number \<noteq> requested_channel | None \<Rightarrow> False) then
                    Done (s, Inl (make_error_response E BadRequest pr))
                  else
                    (case hm_get (channels_by_client_and_number s) (sender, requested_channel) of
                       Some c \<Rightarrow>
                         if peer_address c \<noteq> peer then
                           Done (s, Inl (make_error_response E BadRequest pr))
                         else
                           let s1 = s\<lparr>channels_by_client_and_number :=
                                        hm_insert (sender, requested_channel) (channel_refresh c now)
                                          (channels_by_client_and_number s),
                                      channel_and_client_by_port_and_peer :=
                                        hm_insert (c_allocation c, peer_address c)
                                          (sender, requested_channel)
                                          (channel_and_client_by_port_and_peer s)\<rparr>
                           in and_then (authenticate_and_send E username pr reply sender s1) (\<lambda>s2.
                                Done (s2, Inr ()))
                     | None \<Rightarrow>
                         and_then (create_channel_binding s sender requested_channel peer (a_port a) now) (\<lambda>s1.
                         and_then (authenticate_and_send E username pr reply sender s1) (\<lambda>s2.
                           Done (s2, Inr ())))))))"

definition handle_create_permission_request ::
    "('msg, 'mi, 'r) relay_env \<Rightarrow> 'r server \<Rightarrow> 'mi create_permission \<Rightarrow> client_socket \<Rightarrow> nat
     \<Rightarrow> ('r server \<times> ('msg + unit)) outcome" where
  "handle_create_permission_request E s0 request sender wall =
     (let pr = create_permission_request request in
      and_then (verify_auth E s0 pr wall) (\<lambda>(s, auth).
      case auth of
        Inl e \<Rightarrow> Done (s, Inl e)
      | Inr username \<Rightarrow>
          and_then (authenticate_and_send E username pr
              (create_permission_success_response E (cp_transaction_id request)) sender s) (\<lambda>s1.
            Done (s1, Inr ()))))"

text \<open>
  The byte counters: the metric, and the field, whose \<^verbatim>\<open>u64\<close> addition wraps around as it does
  without overflow checks. Nothing but the statistics reads it.
\<close>

definition count_relayed :: "nat \<Rightarrow> 'r server \<Rightarrow> 'r server" where
  "count_relayed n s =
     s\<lparr>data_relayed_counter := data_relayed_counter s + n, data_relayed := data_relayed s + of_nat n\<rparr>"

definition handle_channel_data_message ::
    "'r server \<Rightarrow> channel_data \<Rightarrow> client_socket
     \<Rightarrow> ('r server \<times> (allocation_port \<times> peer_socket) option) outcome" where
  "handle_channel_data_message s message sender =
     and_then (channel_data_data message) (\<lambda>data.
       case hm_get (channels_by_client_and_number s) (sender, cd_channel message) of
         None \<Rightarrow> Done (s, None)
       | Some c \<Rightarrow>
           if \<not> bound c then Done (s, None)
           else Done (count_relayed (length data) s, Some (c_allocation c, peer_address c)))"

definition handle_peer_traffic ::
    "'r server \<Rightarrow> bytes \<Rightarrow> peer_socket \<Rightarrow> allocation_port
     \<Rightarrow> 'r server \<times> (client_socket \<times> u16) option" where
  "handle_peer_traffic s msg sender port =
     (case hm_get (channel_and_client_by_port_and_peer s) (port, sender) of
        None \<Rightarrow> (s, None)
      | Some (client, channel_number) \<Rightarrow> (count_relayed (length msg) s, Some (client, channel_number)))"

text \<open>What follows a handler that returned an error response.\<close>

definition send_error_response ::
    "('msg, 'mi, 'r) relay_env \<Rightarrow> 'r server \<Rightarrow> 'mi client_message \<Rightarrow> 'msg \<Rightarrow> client_socket
     \<Rightarrow> 'r server outcome" where
  "send_error_response E s message error_message sender =
     (let is_auth_error = (case get_error_code E error_message of
            None \<Rightarrow> False | Some code \<Rightarrow> code = Unauthorized \<or> code = StaleNonce)
      in and_then
           (if is_auth_error then
              and_then (new_nonce_attribute E s) (\<lambda>(s', text).
                Done (s', add_attribute E (add_attribute E error_message (Realm FIREZONE)) (Nonce text)))
            else Done (s, error_message)) (\<lambda>(s1, reply).
         case client_message_username message of
           Some username \<Rightarrow>
             and_then (authenticated_message_new E (auth_secret s1) username reply) (\<lambda>r.
               case r of
                 Inr m \<Rightarrow> send_message E m sender s1
               | Inl e \<Rightarrow> Done s1)
         | None \<Rightarrow> send_message E reply sender s1))"

definition handle_client_message ::
    "('msg, 'mi, 'r) relay_env \<Rightarrow> 'r server \<Rightarrow> 'mi client_message \<Rightarrow> client_socket \<Rightarrow> instant \<Rightarrow> nat
     \<Rightarrow> ('r server \<times> (allocation_port \<times> peer_socket) option) outcome" where
  "handle_client_message E s message sender now wall =
     (let finish = (\<lambda>(s1, result).
            case result of
              Inr u \<Rightarrow> Done (s1, None)
            | Inl error_message \<Rightarrow>
                and_then (send_error_response E s1 message error_message sender) (\<lambda>s2. Done (s2, None)))
      in case message of
           Allocate request \<Rightarrow> and_then (handle_allocate_request E s request sender now wall) finish
         | Refresh request \<Rightarrow> and_then (handle_refresh_request E s request sender now wall) finish
         | ChannelBind request \<Rightarrow> and_then (handle_channel_bind_request E s request sender now wall) finish
         | CreatePermission request \<Rightarrow>
             and_then (handle_create_permission_request E s request sender wall) finish
         | Binding request \<Rightarrow>
             and_then (handle_binding_request E s request sender) (\<lambda>s1. Done (s1, None))
         | ChannelData msg \<Rightarrow> handle_channel_data_message s msg sender)"

definition handle_client_input ::
    "('msg, 'mi, 'r) relay_env \<Rightarrow> 'r server \<Rightarrow> bytes \<Rightarrow> client_socket \<Rightarrow> instant \<Rightarrow> nat
     \<Rightarrow> ('r server \<times> (allocation_port \<times> peer_socket) option) outcome" where
  "handle_client_input E s bytes sender now wall =
     (case decode E bytes of
        Inr (Inr message) \<Rightarrow> handle_client_message E s message sender now wall
      | Inr (Inl error_message) \<Rightarrow>
          and_then (send_message E error_message sender s) (\<lambda>s1. Done (s1, None))
      | Inl _ \<Rightarrow> Done (s, None))"

section \<open>Time\<close>

fun earliest :: "instant option \<Rightarrow> instant option \<Rightarrow> instant option" where
  "earliest None None = None"
| "earliest (Some left) (Some right) = Some (min left right)"
| "earliest (Some left) None = Some left"
| "earliest None (Some right) = Some right"

definition channel_deadline :: "channel \<Rightarrow> instant" where
  "channel_deadline c = (if bound c then expiry c else expiry c + CHANNEL_REBIND_TIMEOUT)"

definition poll_timeout :: "'r server \<Rightarrow> instant option" where
  "poll_timeout s =
     (let channel_expiries = map channel_deadline (hm_values (channels_by_client_and_number s));
          allocation_expiries = map expires_at (hm_values (allocations s))
      in fold (\<lambda>next current. earliest current (Some next)) (channel_expiries @ allocation_expiries) None)"

text \<open>The loop that marks expired channels as unbound and takes them off the fast path.\<close>

fun unbind_expired :: "instant \<Rightarrow> channel_map \<Rightarrow> fast_map \<Rightarrow> (channel_map \<times> fast_map) outcome" where
  "unbind_expired now [] fast = Done ([], fast)"
| "unbind_expired now (((client, number), c) # rest) fast =
     (if channel_is_expired c now \<and> bound c then
        and_then (assert_that (case hm_get fast (c_allocation c, peer_address c) of
            Some (cs, n) \<Rightarrow> cs = client \<and> n = number | None \<Rightarrow> True)) (\<lambda>_.
        and_then (unbind_expired now rest (hm_remove (c_allocation c, peer_address c) fast)) (\<lambda>(chans, fast').
          Done (((client, number), c\<lparr>bound := False\<rparr>) # chans, fast')))
      else
        and_then (unbind_expired now rest fast) (\<lambda>(chans, fast').
          Done (((client, number), c) # chans, fast')))"

definition handle_timeout :: "'r server \<Rightarrow> instant \<Rightarrow> 'r server outcome" where
  "handle_timeout s now =
     (let expired_allocations =
            map a_port (filter (\<lambda>a. allocation_is_expired a now) (hm_values (allocations s)))
      in and_then (fold_outcome (\<lambda>port t. delete_allocation t port) expired_allocations s) (\<lambda>s1.
         and_then (unbind_expired now (channels_by_client_and_number s1)
                     (channel_and_client_by_port_and_peer s1)) (\<lambda>(chans, fast).
           let s2 = s1\<lparr>channels_by_client_and_number := chans,
                       channel_and_client_by_port_and_peer := fast\<rparr>;
               channels_to_delete =
                 map fst (filter (\<lambda>(_, c). channel_can_be_deleted c now) chans)
           in fold_outcome (\<lambda>(client, number) t. delete_channel_binding t client number)
                channels_to_delete s2)))"

end
