(* ===== verification/Relay_Invariant.thy ===== *)
theory Relay_Invariant
  imports Relay_Server
begin

text \<open>
  The invariant of the relay's tables and that every operation of the server keeps it. The server
  holds five tables that mirror each other (\<^verbatim>\<open>allocations\<close>/\<^verbatim>\<open>clients_by_allocation\<close>, and the three
  channel tables); the invariant says in which sense they agree. From it follow the assertions of
  the source, so no handler panics, and that the two directions of relaying match.
\<close>

section \<open>The invariant\<close>

abbreviation allocs :: "'r server \<Rightarrow> client_socket \<Rightarrow> allocation option" where
  "allocs s \<equiv> hm_get (allocations s)"

abbreviation clients :: "'r server \<Rightarrow> allocation_port \<Rightarrow> client_socket option" where
  "clients s \<equiv> hm_get (clients_by_allocation s)"

abbreviation chans :: "'r server \<Rightarrow> client_socket \<times> u16 \<Rightarrow> channel option" where
  "chans s \<equiv> hm_get (channels_by_client_and_number s)"

abbreviation nums :: "'r server \<Rightarrow> client_socket \<times> peer_socket \<Rightarrow> u16 option" where
  "nums s \<equiv> hm_get (channel_numbers_by_client_and_peer s)"

abbreviation fast :: "'r server \<Rightarrow> allocation_port \<times> peer_socket \<Rightarrow> (client_socket \<times> u16) option" where
  "fast s \<equiv> hm_get (channel_and_client_by_port_and_peer s)"

definition tables_wf :: "'r server \<Rightarrow> bool" where
  "tables_wf s \<longleftrightarrow> hm_wf (allocations s) \<and> hm_wf (clients_by_allocation s)
     \<and> hm_wf (channels_by_client_and_number s) \<and> hm_wf (channel_numbers_by_client_and_peer s)
     \<and> hm_wf (channel_and_client_by_port_and_peer s)"

text \<open>Allocations and the reverse map from ports to clients are inverse to each other.\<close>

definition allocations_ok :: "'r server \<Rightarrow> bool" where
  "allocations_ok s \<longleftrightarrow>
     (\<forall>c a. allocs s c = Some a \<longrightarrow> clients s (a_port a) = Some c) \<and>
     (\<forall>p c. clients s p = Some c \<longrightarrow> (\<exists>a. allocs s c = Some a \<and> a_port a = p))"

text \<open>A channel belongs to its client's allocation, which can relay to the channel's peer.\<close>

definition channels_ok :: "'r server \<Rightarrow> bool" where
  "channels_ok s \<longleftrightarrow>
     (\<forall>c n ch. chans s (c, n) = Some ch \<longrightarrow>
        (\<exists>a. allocs s c = Some a \<and> a_port a = c_allocation ch \<and> can_relay_to a (peer_address ch)))"

text \<open>Channel numbers and peers of one client are in bijection.\<close>

definition numbers_ok :: "'r server \<Rightarrow> bool" where
  "numbers_ok s \<longleftrightarrow>
     (\<forall>c n ch. chans s (c, n) = Some ch \<longrightarrow> nums s (c, peer_address ch) = Some n) \<and>
     (\<forall>c p n. nums s (c, p) = Some n \<longrightarrow> (\<exists>ch. chans s (c, n) = Some ch \<and> peer_address ch = p))"

text \<open>The fast path holds exactly the bound channels.\<close>

definition fast_ok :: "'r server \<Rightarrow> bool" where
  "fast_ok s \<longleftrightarrow>
     (\<forall>port p c n. fast s (port, p) = Some (c, n) \<longleftrightarrow>
        (\<exists>ch. chans s (c, n) = Some ch \<and> bound ch \<and> c_allocation ch = port \<and> peer_address ch = p))"

text \<open>The metric counts the allocations, and there are no more of them than ports.\<close>

definition counter_ok :: "'r server \<Rightarrow> bool" where
  "counter_ok s \<longleftrightarrow> allocations_up_down_counter s = int (hm_len (allocations s))
     \<and> hm_len (allocations s) \<le> unat (max_available_ports s)"

definition addresses_ok :: "'r server \<Rightarrow> bool" where
  "addresses_ok s \<longleftrightarrow>
     (\<forall>c a. allocs s c = Some a \<longrightarrow>
        fst (ports s) \<le> a_port a \<and> a_port a \<le> snd (ports s) \<and>
        (\<exists>rf af. derive_relay_addresses (public_address s) rf af
                  = Inr (first_relay_addr a, second_relay_addr a)))"

definition server_inv :: "'r server \<Rightarrow> bool" where
  "server_inv s \<longleftrightarrow> tables_wf s \<and> allocations_ok s \<and> channels_ok s \<and> numbers_ok s \<and> fast_ok s
     \<and> counter_ok s \<and> addresses_ok s"

lemmas inv_defs = tables_wf_def allocations_ok_def channels_ok_def numbers_ok_def fast_ok_def
  counter_ok_def max_available_ports_def addresses_ok_def

text \<open>The part of the state the invariant reads.\<close>

definition core where
  "core s = (public_address s, allocations s, clients_by_allocation s,
     channel_and_client_by_port_and_peer s, ports s, channels_by_client_and_number s,
     channel_numbers_by_client_and_peer s, allocations_up_down_counter s)"

lemma server_inv_cong: "core s = core t \<Longrightarrow> server_inv s = server_inv t"
  by (simp add: core_def server_inv_def inv_defs)

lemma core_simps [simp]:
  "core (s\<lparr>nonces := x\<rparr>) = core s" "core (s\<lparr>rng := r\<rparr>) = core s"
  "core (push_command cmd s) = core s" "core (count_relayed k s) = core s"
  "core (add_nonce s u) = core s" "core (s\<lparr>responses_counter := y\<rparr>) = core s"
  by (simp_all add: core_def push_command_def count_relayed_def add_nonce_def)

lemma coreD:
  assumes "core s = core t"
  shows "public_address s = public_address t" "allocations s = allocations t"
    "clients_by_allocation s = clients_by_allocation t"
    "channel_and_client_by_port_and_peer s = channel_and_client_by_port_and_peer t"
    "ports s = ports t" "channels_by_client_and_number s = channels_by_client_and_number t"
    "channel_numbers_by_client_and_peer s = channel_numbers_by_client_and_peer t"
    "allocations_up_down_counter s = allocations_up_down_counter t"
  using assms by (simp_all add: core_def)

section \<open>Consequences\<close>

lemma server_invD:
  assumes "server_inv s"
  shows "tables_wf s" "allocations_ok s" "channels_ok s" "numbers_ok s" "fast_ok s" "counter_ok s"
    "addresses_ok s"
  using assms by (simp_all add: server_inv_def)

lemma alloc_client: "server_inv s \<Longrightarrow> allocs s c = Some a \<Longrightarrow> clients s (a_port a) = Some c"
  by (simp add: server_inv_def allocations_ok_def)

lemma client_alloc: "server_inv s \<Longrightarrow> clients s p = Some c \<Longrightarrow> \<exists>a. allocs s c = Some a \<and> a_port a = p"
  by (simp add: server_inv_def allocations_ok_def)

lemma chan_alloc:
  "server_inv s \<Longrightarrow> chans s (c, n) = Some ch \<Longrightarrow>
     \<exists>a. allocs s c = Some a \<and> a_port a = c_allocation ch \<and> can_relay_to a (peer_address ch)"
  by (simp add: server_inv_def channels_ok_def)

lemma chan_num: "server_inv s \<Longrightarrow> chans s (c, n) = Some ch \<Longrightarrow> nums s (c, peer_address ch) = Some n"
  by (simp add: server_inv_def numbers_ok_def)

lemma num_chan:
  "server_inv s \<Longrightarrow> nums s (c, p) = Some n \<Longrightarrow> \<exists>ch. chans s (c, n) = Some ch \<and> peer_address ch = p"
  by (simp add: server_inv_def numbers_ok_def)

lemma fast_iff:
  "server_inv s \<Longrightarrow> fast s (port, p) = Some (c, n) \<longleftrightarrow>
     (\<exists>ch. chans s (c, n) = Some ch \<and> bound ch \<and> c_allocation ch = port \<and> peer_address ch = p)"
  by (simp add: server_inv_def fast_ok_def)

text \<open>Port and peer determine the channel.\<close>

lemma chan_unique:
  assumes "server_inv s" "chans s (c, n) = Some ch" "chans s (c', n') = Some ch'"
    "c_allocation ch = c_allocation ch'" "peer_address ch = peer_address ch'"
  shows "c = c' \<and> n = n'"
proof -
  obtain a a' where "allocs s c = Some a" "a_port a = c_allocation ch"
    "allocs s c' = Some a'" "a_port a' = c_allocation ch'"
    using assms(1-3) chan_alloc by meson
  then have "c = c'" using alloc_client [OF assms(1)] assms(4) by (metis option.inject)
  moreover have "n = n'"
    using chan_num [OF assms(1,2)] chan_num [OF assms(1,3)] assms(5) \<open>c = c'\<close> by simp
  ultimately show ?thesis by simp
qed

lemma chan_port_client:
  "server_inv s \<Longrightarrow> chans s (c, n) = Some ch \<Longrightarrow> clients s (c_allocation ch) = Some c"
  using chan_alloc alloc_client by metis

lemma len_clients:
  assumes "server_inv s"
  shows "hm_len (clients_by_allocation s) = hm_len (allocations s)"
proof -
  have wf: "hm_wf (allocations s)" "hm_wf (clients_by_allocation s)"
    using assms by (simp_all add: server_inv_def tables_wf_def)
  let ?f = "\<lambda>c. a_port (the (allocs s c))"
  have "bij_betw ?f (dom (allocs s)) (dom (clients s))"
  proof (rule bij_betw_byWitness [where f' = "\<lambda>p. the (clients s p)"])
    show "\<forall>c\<in>dom (allocs s). the (clients s (?f c)) = c"
      using alloc_client [OF assms] by auto
    show "\<forall>p\<in>dom (clients s). ?f (the (clients s p)) = p"
      using client_alloc [OF assms] by fastforce
    show "?f ` dom (allocs s) \<subseteq> dom (clients s)"
      using alloc_client [OF assms] by auto
    show "(\<lambda>p. the (clients s p)) ` dom (clients s) \<subseteq> dom (allocs s)"
      using client_alloc [OF assms] by fastforce
  qed
  then have "card (dom (allocs s)) = card (dom (clients s))" by (rule bij_betw_same_card)
  then show ?thesis using wf by (simp add: hm.len_dom)
qed

section \<open>The initial state\<close>

lemma server_new_inv: "server_inv (server_new E addr r port port_range)"
  by (cases "gen_secret E r") (simp add: server_new_def server_inv_def inv_defs)

section \<open>Sending and authentication leave the tables alone\<close>

lemma send_message_core:
  "send_message E m c s = Done s' \<Longrightarrow>
     core s' = core s \<and> auth_secret s' = auth_secret s \<and> nonces s' = nonces s \<and> rng s' = rng s"
  by (auto simp: send_message_def outcome_simps Let_def core_def push_command_def
      split: option.splits)

lemma authenticate_and_send_core:
  "authenticate_and_send E u pr m c s = Done s' \<Longrightarrow>
     core s' = core s \<and> auth_secret s' = auth_secret s \<and> nonces s' = nonces s \<and> rng s' = rng s"
  unfolding authenticate_and_send_def
  by (auto elim!: and_then_DoneE dest!: send_message_core split: sum.splits)

lemma new_nonce_attribute_core:
  "new_nonce_attribute E s = Done (s', t) \<Longrightarrow> core s' = core s \<and> auth_secret s' = auth_secret s"
  by (auto simp: new_nonce_attribute_def outcome_simps Let_def add_nonce_def core_def
      split: prod.splits)

lemma send_error_response_core:
  "send_error_response E s msg m c = Done s' \<Longrightarrow> core s' = core s"
  unfolding send_error_response_def Let_def
  by (auto elim!: and_then_DoneE dest!: new_nonce_attribute_core send_message_core
      split: option.splits sum.splits if_splits)

lemma verify_auth_core:
  "verify_auth E s pr wall = Done (s', r) \<Longrightarrow>
     core s' = core s \<and> auth_secret s' = auth_secret s \<and> rng s' = rng s
     \<and> pending_commands s' = pending_commands s"
  unfolding verify_auth_def Let_def
  by (auto simp: core_def elim!: and_then_DoneE split: option.splits sum.splits prod.splits)

section \<open>Deleting an allocation\<close>

text \<open>The channels of a port, as the set of their peers.\<close>

definition peers_on :: "allocation_port \<Rightarrow> channel_map \<Rightarrow> peer_socket set" where
  "peers_on port cs = {peer_address c | k c. (k, c) \<in> set cs \<and> c_allocation c = port}"

lemma peers_on_Cons:
  "peers_on port ((k, c) # cs) =
     (if c_allocation c = port then insert (peer_address c) (peers_on port cs) else peers_on port cs)"
  by (cases k) (auto simp: peers_on_def)

lemma retain_channels_spec:
  assumes "\<forall>((cs, n), c) \<in> set chs. c_allocation c = port \<longrightarrow>
      cs = client \<and> (\<forall>m. hm_get ns (client, peer_address c) = Some m \<longrightarrow> m = n)
      \<and> (\<forall>x. hm_get fs (port, peer_address c) = Some x \<longrightarrow> x = (cs, n))"
    and "hm_wf ns" "hm_wf fs"
  shows "\<exists>ns' fs'. retain_channels client port chs ns fs
      = Done (filter (\<lambda>(_, c). c_allocation c \<noteq> port) chs, ns', fs')
    \<and> (\<forall>c p. hm_get ns' (c, p) =
          (if c = client \<and> p \<in> peers_on port chs then None else hm_get ns (c, p)))
    \<and> (\<forall>q p. hm_get fs' (q, p) =
          (if q = port \<and> p \<in> peers_on port chs then None else hm_get fs (q, p)))
    \<and> hm_wf ns' \<and> hm_wf fs'"
  using assms
proof (induction chs arbitrary: ns fs)
  case Nil
  then show ?case by (simp add: peers_on_def)
next
  case (Cons e chs)
  obtain cs n c where e: "e = ((cs, n), c)" by (metis surj_pair)
  show ?case
  proof (cases "c_allocation c = port")
    case False
    from Cons.prems have "\<forall>((cs, n), c) \<in> set chs. c_allocation c = port \<longrightarrow>
      cs = client \<and> (\<forall>m. hm_get ns (client, peer_address c) = Some m \<longrightarrow> m = n)
      \<and> (\<forall>x. hm_get fs (port, peer_address c) = Some x \<longrightarrow> x = (cs, n))" by simp
    from Cons.IH [OF this Cons.prems(2,3)] False show ?thesis
      by (auto simp: e peers_on_Cons)
  next
    case True
    let ?ns = "hm_remove (client, peer_address c) ns" and ?fs = "hm_remove (port, peer_address c) fs"
    have head: "cs = client" "\<forall>m. hm_get ns (client, peer_address c) = Some m \<longrightarrow> m = n"
      "\<forall>x. hm_get fs (port, peer_address c) = Some x \<longrightarrow> x = (cs, n)"
      using Cons.prems(1) True by (auto simp: e)
    have "\<forall>((cs, n), c) \<in> set chs. c_allocation c = port \<longrightarrow>
      cs = client \<and> (\<forall>m. hm_get ?ns (client, peer_address c) = Some m \<longrightarrow> m = n)
      \<and> (\<forall>x. hm_get ?fs (port, peer_address c) = Some x \<longrightarrow> x = (cs, n))"
      using Cons.prems(1) by auto
    from Cons.IH [OF this] Cons.prems(2,3) obtain ns' fs' where IH:
      "retain_channels client port chs ?ns ?fs
         = Done (filter (\<lambda>(_, c). c_allocation c \<noteq> port) chs, ns', fs')"
      "\<forall>c p. hm_get ns' (c, p) =
          (if c = client \<and> p \<in> peers_on port chs then None else hm_get ?ns (c, p))"
      "\<forall>q p. hm_get fs' (q, p) =
          (if q = port \<and> p \<in> peers_on port chs then None else hm_get ?fs (q, p))"
      "hm_wf ns'" "hm_wf fs'"
      by auto
    have "retain_channels client port (e # chs) ns fs
      = Done (filter (\<lambda>(_, c). c_allocation c \<noteq> port) (e # chs), ns', fs')"
      using True head IH(1) by (auto simp: e Let_def split: option.splits)
    with IH(2-5) True show ?thesis by (auto simp: e peers_on_Cons)
  qed
qed

text \<open>What deleting the allocation on a port does to the tables.\<close>

definition allocation_deleted :: "allocation_port \<Rightarrow> 'r server \<Rightarrow> 'r server \<Rightarrow> bool" where
  "allocation_deleted port s t \<longleftrightarrow>
     (\<forall>c. allocs t c = (if clients s port = Some c then None else allocs s c)) \<and>
     (\<forall>k. chans t k = (case chans s k of
         Some ch \<Rightarrow> if c_allocation ch = port then None else Some ch | None \<Rightarrow> None)) \<and>
     auth_secret t = auth_secret s \<and> nonces t = nonces s \<and> rng t = rng s \<and>
     ports t = ports s \<and> public_address t = public_address s"

lemma peers_on_iff:
  assumes "hm_wf cs"
  shows "p \<in> peers_on port cs \<longleftrightarrow>
    (\<exists>k ch. hm_get cs k = Some ch \<and> c_allocation ch = port \<and> peer_address ch = p)"
  using assms by (auto simp: peers_on_def hm_in_set_iff)

lemma allocs_inj:
  "server_inv s \<Longrightarrow> allocs s c = Some a \<Longrightarrow> allocs s c' = Some a' \<Longrightarrow> a_port a = a_port a' \<Longrightarrow> c = c'"
  using alloc_client by (metis option.inject)

text \<open>The state after the tables lost a port, before the commands that free it.\<close>

definition drop_port ::
    "allocation_port \<Rightarrow> client_socket \<Rightarrow> number_map \<Rightarrow> fast_map \<Rightarrow> 'r server \<Rightarrow> 'r server" where
  "drop_port port client ns fs s =
     s\<lparr>clients_by_allocation := hm_remove port (clients_by_allocation s),
       allocations := hm_remove client (allocations s),
       channels_by_client_and_number :=
         filter (\<lambda>(_, c). c_allocation c \<noteq> port) (channels_by_client_and_number s),
       channel_numbers_by_client_and_peer := ns,
       channel_and_client_by_port_and_peer := fs,
       allocations_up_down_counter := allocations_up_down_counter s - 1\<rparr>"

definition maps_dropped ::
    "allocation_port \<Rightarrow> client_socket \<Rightarrow> 'r server \<Rightarrow> number_map \<Rightarrow> fast_map \<Rightarrow> bool" where
  "maps_dropped port client s ns fs \<longleftrightarrow>
     (\<forall>c p. hm_get ns (c, p) =
       (if c = client \<and> p \<in> peers_on port (channels_by_client_and_number s) then None else nums s (c, p))) \<and>
     (\<forall>q p. hm_get fs (q, p) =
       (if q = port \<and> p \<in> peers_on port (channels_by_client_and_number s) then None else fast s (q, p))) \<and>
     hm_wf ns \<and> hm_wf fs"

lemma on_port:
  "server_inv s \<Longrightarrow> clients s port = Some client \<Longrightarrow> chans s (c, n) = Some ch \<Longrightarrow>
     c_allocation ch = port \<Longrightarrow> c = client"
  using chan_port_client by (metis option.inject)

lemma server_wf:
  assumes "server_inv s"
  shows "hm_wf (allocations s)" "hm_wf (clients_by_allocation s)"
    "hm_wf (channels_by_client_and_number s)" "hm_wf (channel_numbers_by_client_and_peer s)"
    "hm_wf (channel_and_client_by_port_and_peer s)"
  using assms by (simp_all add: server_inv_def tables_wf_def)

lemma retain_channels_ok:
  assumes inv: "server_inv s" and client: "clients s port = Some client"
  shows "\<exists>ns fs. retain_channels client port (channels_by_client_and_number s)
       (channel_numbers_by_client_and_peer s) (channel_and_client_by_port_and_peer s)
     = Done (filter (\<lambda>(_, c). c_allocation c \<noteq> port) (channels_by_client_and_number s), ns, fs)
     \<and> maps_dropped port client s ns fs"
proof -
  have "\<forall>((cs, n), c) \<in> set (channels_by_client_and_number s). c_allocation c = port \<longrightarrow>
      cs = client \<and> (\<forall>m. nums s (client, peer_address c) = Some m \<longrightarrow> m = n)
      \<and> (\<forall>x. fast s (port, peer_address c) = Some x \<longrightarrow> x = (cs, n))"
  proof (clarsimp simp: hm_in_set_iff [OF server_wf(3) [OF inv]])
    fix cs n c assume c: "chans s (cs, n) = Some c" "port = c_allocation c"
    then have "cs = client" using on_port [OF inv client] by simp
    then show "cs = client \<and> (\<forall>m. nums s (client, peer_address c) = Some m \<longrightarrow> m = n)
      \<and> (\<forall>x y. fast s (c_allocation c, peer_address c) = Some (x, y) \<longrightarrow> x = cs \<and> y = n)"
      using chan_num [OF inv c(1)] chan_unique [OF inv c(1)] by (auto simp: fast_iff [OF inv])
  qed
  from retain_channels_spec [OF this server_wf(4,5) [OF inv]] show ?thesis
    unfolding maps_dropped_def by blast
qed

lemma drop_port_chans:
  "server_inv s \<Longrightarrow> chans (drop_port port client ns fs s) k =
     (case chans s k of Some ch \<Rightarrow> if c_allocation ch = port then None else Some ch | None \<Rightarrow> None)"
  by (simp add: drop_port_def hm_get_filter server_wf split: option.splits)

lemma drop_port_allocations_ok:
  assumes inv: "server_inv s" and a: "allocs s client = Some a" "a_port a = port"
  shows "allocations_ok (drop_port port client ns fs s)"
  unfolding allocations_ok_def
proof (intro conjI allI impI)
  fix c b assume "allocs (drop_port port client ns fs s) c = Some b"
  then have b: "c \<noteq> client" "allocs s c = Some b" by (auto simp: drop_port_def split: if_splits)
  then have "a_port b \<noteq> port" using allocs_inj [OF inv b(2) a(1)] a(2) by auto
  with alloc_client [OF inv b(2)] show "clients (drop_port port client ns fs s) (a_port b) = Some c"
    by (simp add: drop_port_def)
next
  fix p c assume "clients (drop_port port client ns fs s) p = Some c"
  then have p: "p \<noteq> port" "clients s p = Some c" by (auto simp: drop_port_def split: if_splits)
  then obtain b where "allocs s c = Some b" "a_port b = p" using client_alloc [OF inv] by blast
  with p a show "\<exists>b. allocs (drop_port port client ns fs s) c = Some b \<and> a_port b = p"
    by (auto simp: drop_port_def)
qed

lemma drop_port_channels_ok:
  assumes inv: "server_inv s" and a: "allocs s client = Some a" "a_port a = port"
  shows "channels_ok (drop_port port client ns fs s)"
  unfolding channels_ok_def
proof (intro allI impI)
  fix c n c' assume "chans (drop_port port client ns fs s) (c, n) = Some c'"
  then have c': "chans s (c, n) = Some c'" "c_allocation c' \<noteq> port"
    by (auto simp: drop_port_chans [OF inv] split: option.splits if_splits)
  then obtain b where b: "allocs s c = Some b" "a_port b = c_allocation c'"
    "can_relay_to b (peer_address c')"
    using chan_alloc [OF inv] by blast
  with c'(2) a have "c \<noteq> client" by auto
  with b show "\<exists>a. allocs (drop_port port client ns fs s) c = Some a \<and> a_port a = c_allocation c'
    \<and> can_relay_to a (peer_address c')"
    by (simp add: drop_port_def)
qed

lemma drop_port_numbers_ok:
  assumes inv: "server_inv s" and client: "clients s port = Some client"
    and d: "maps_dropped port client s ns fs"
  shows "numbers_ok (drop_port port client ns fs s)"
  unfolding numbers_ok_def
proof (intro conjI allI impI)
  fix c n c' assume "chans (drop_port port client ns fs s) (c, n) = Some c'"
  then have c': "chans s (c, n) = Some c'" "c_allocation c' \<noteq> port"
    by (auto simp: drop_port_chans [OF inv] split: option.splits if_splits)
  then have "\<not> (c = client \<and> peer_address c' \<in> peers_on port (channels_by_client_and_number s))"
    unfolding peers_on_iff [OF server_wf(3) [OF inv]]
    using on_port [OF inv client] chan_num [OF inv] by (metis option.inject surj_pair)
  with c' d show "nums (drop_port port client ns fs s) (c, peer_address c') = Some n"
    using chan_num [OF inv] by (simp add: drop_port_def maps_dropped_def)
next
  fix c p n assume "nums (drop_port port client ns fs s) (c, p) = Some n"
  with d have n: "nums s (c, p) = Some n"
    "\<not> (c = client \<and> p \<in> peers_on port (channels_by_client_and_number s))"
    by (auto simp: drop_port_def maps_dropped_def split: if_splits)
  then obtain c' where c': "chans s (c, n) = Some c'" "peer_address c' = p"
    using num_chan [OF inv] by blast
  with n(2) have "c_allocation c' \<noteq> port"
    using on_port [OF inv client] unfolding peers_on_iff [OF server_wf(3) [OF inv]] by blast
  with c' show "\<exists>ch. chans (drop_port port client ns fs s) (c, n) = Some ch \<and> peer_address ch = p"
    by (simp add: drop_port_chans [OF inv])
qed

lemma drop_port_fast_ok:
  assumes inv: "server_inv s" and d: "maps_dropped port client s ns fs"
  shows "fast_ok (drop_port port client ns fs s)"
  unfolding fast_ok_def
proof (intro allI)
  fix q p c n
  have "fast (drop_port port client ns fs s) (q, p) = Some (c, n) \<longleftrightarrow>
      fast s (q, p) = Some (c, n) \<and> \<not> (q = port \<and> p \<in> peers_on port (channels_by_client_and_number s))"
    using d by (simp add: drop_port_def maps_dropped_def)
  then show "fast (drop_port port client ns fs s) (q, p) = Some (c, n) \<longleftrightarrow>
    (\<exists>ch. chans (drop_port port client ns fs s) (c, n) = Some ch \<and> bound ch \<and> c_allocation ch = q
       \<and> peer_address ch = p)"
    by (auto simp: fast_iff [OF inv] drop_port_chans [OF inv] peers_on_iff [OF server_wf(3) [OF inv]]
        split: option.splits if_splits)
qed

lemma drop_port_inv:
  assumes inv: "server_inv s" and client: "clients s port = Some client"
    and a: "allocs s client = Some a" "a_port a = port" and d: "maps_dropped port client s ns fs"
  shows "server_inv (drop_port port client ns fs s)"
proof -
  have "tables_wf (drop_port port client ns fs s)"
    using server_wf [OF inv] d by (simp add: drop_port_def tables_wf_def maps_dropped_def)
  moreover have "counter_ok (drop_port port client ns fs s)"
    using inv hm.len_remove [OF server_wf(1) [OF inv] a(1)]
    by (auto simp: drop_port_def counter_ok_def max_available_ports_def server_inv_def)
  moreover have "addresses_ok (drop_port port client ns fs s)"
    using inv by (simp add: drop_port_def addresses_ok_def server_inv_def)
  ultimately show ?thesis
    using drop_port_allocations_ok [OF inv a] drop_port_channels_ok [OF inv a]
      drop_port_numbers_ok [OF inv client d] drop_port_fast_ok [OF inv d]
    by (simp add: server_inv_def)
qed

lemma delete_allocation_None:
  assumes inv: "server_inv s" and none: "clients s port = None"
  shows "delete_allocation s port = Done s \<and> allocation_deleted port s s"
proof -
  have "chans s k = Some ch \<Longrightarrow> c_allocation ch \<noteq> port" for k ch
    using chan_port_client [OF inv] none by (cases k) (metis option.distinct(1))
  with none show ?thesis
    by (auto simp: delete_allocation_def allocation_deleted_def split: option.splits)
qed

lemma delete_allocation_Some:
  assumes "allocs s client = Some a" "a_port a = port" "clients s port = Some client"
    and "retain_channels client port (channels_by_client_and_number s)
       (channel_numbers_by_client_and_peer s) (channel_and_client_by_port_and_peer s)
     = Done (filter (\<lambda>(_, c). c_allocation c \<noteq> port) (channels_by_client_and_number s), ns, fs)"
  shows "\<exists>t. delete_allocation s port = Done t \<and> core t = core (drop_port port client ns fs s)
    \<and> auth_secret t = auth_secret s \<and> nonces t = nonces s \<and> rng t = rng s"
  using assms
  by (cases "second_relay_addr a")
    (simp_all add: delete_allocation_def drop_port_def Let_def core_def push_command_def)

lemma delete_allocation_spec:
  assumes inv: "server_inv s"
  shows "\<exists>t. delete_allocation s port = Done t \<and> server_inv t \<and> allocation_deleted port s t"
proof (cases "clients s port")
  case None
  with inv delete_allocation_None [OF inv] show ?thesis by blast
next
  case (Some client)
  then obtain a where a: "allocs s client = Some a" "a_port a = port"
    using client_alloc [OF inv] by blast
  from retain_channels_ok [OF inv Some] obtain ns fs where
    d: "maps_dropped port client s ns fs" and
    r: "retain_channels client port (channels_by_client_and_number s)
       (channel_numbers_by_client_and_peer s) (channel_and_client_by_port_and_peer s)
     = Done (filter (\<lambda>(_, c). c_allocation c \<noteq> port) (channels_by_client_and_number s), ns, fs)"
    by blast
  from delete_allocation_Some [OF a Some r] obtain t where
    t: "delete_allocation s port = Done t" "core t = core (drop_port port client ns fs s)"
      "auth_secret t = auth_secret s" "nonces t = nonces s" "rng t = rng s"
    by blast
  have "server_inv t"
    using server_inv_cong [OF t(2)] drop_port_inv [OF inv Some a d] by simp
  moreover have "allocation_deleted port s t"
    using t coreD [OF t(2)] Some drop_port_chans [OF inv, of port client ns fs]
    by (auto simp: allocation_deleted_def) (simp_all add: drop_port_def)
  ultimately show ?thesis using t(1) by blast
qed

section \<open>New and refreshed allocations\<close>

definition add_allocation :: "client_socket \<Rightarrow> allocation \<Rightarrow> 'r server \<Rightarrow> 'r server" where
  "add_allocation c a s =
     s\<lparr>clients_by_allocation := hm_insert (a_port a) c (clients_by_allocation s),
       allocations := hm_insert c a (allocations s),
       allocations_up_down_counter := allocations_up_down_counter s + 1\<rparr>"

lemma add_allocation_inv:
  assumes inv: "server_inv s" and new: "allocs s c = None" "clients s (a_port a) = None"
    and room: "hm_len (allocations s) < unat (max_available_ports s)"
    and ok: "fst (ports s) \<le> a_port a" "a_port a \<le> snd (ports s)"
      "derive_relay_addresses (public_address s) rf af = Inr (first_relay_addr a, second_relay_addr a)"
  shows "server_inv (add_allocation c a s)"
proof -
  have "allocations_ok (add_allocation c a s)"
    using server_invD(2) [OF inv] new by (fastforce simp: allocations_ok_def add_allocation_def)
  moreover have "channels_ok (add_allocation c a s)"
    using server_invD(3) [OF inv] new by (fastforce simp: channels_ok_def add_allocation_def)
  moreover have "counter_ok (add_allocation c a s)"
    using server_invD(6) [OF inv] room hm.len_insert_new [OF server_wf(1) [OF inv] new(1)]
    by (simp add: counter_ok_def max_available_ports_def add_allocation_def)
  moreover have "addresses_ok (add_allocation c a s)"
    using server_invD(7) [OF inv] ok by (auto simp: addresses_ok_def add_allocation_def)
  ultimately show ?thesis
    using inv by (simp add: server_inv_def tables_wf_def numbers_ok_def fast_ok_def add_allocation_def)
qed

definition touch_allocation :: "client_socket \<Rightarrow> allocation \<Rightarrow> instant \<Rightarrow> 'r server \<Rightarrow> 'r server" where
  "touch_allocation c a t s = s\<lparr>allocations := hm_insert c (a\<lparr>expires_at := t\<rparr>) (allocations s)\<rparr>"

lemma touch_allocation_inv:
  assumes inv: "server_inv s" and a: "allocs s c = Some a"
  shows "server_inv (touch_allocation c a t s)"
proof -
  have relay: "can_relay_to (a\<lparr>expires_at := t\<rparr>) p = can_relay_to a p" for p
    by (simp add: can_relay_to_def split: socket_addr.splits option.splits)
  have "allocations_ok (touch_allocation c a t s)"
    using server_invD(2) [OF inv] a by (fastforce simp: allocations_ok_def touch_allocation_def)
  moreover have "channels_ok (touch_allocation c a t s)"
    using server_invD(3) [OF inv] a by (fastforce simp: channels_ok_def touch_allocation_def relay)
  moreover have "counter_ok (touch_allocation c a t s)"
    using server_invD(6) [OF inv] hm.len_insert_old [OF server_wf(1) [OF inv] a]
    by (simp add: counter_ok_def max_available_ports_def touch_allocation_def)
  moreover have "addresses_ok (touch_allocation c a t s)"
    using server_invD(7) [OF inv] a by (auto simp: addresses_ok_def touch_allocation_def)
  ultimately show ?thesis
    using inv by (simp add: server_inv_def tables_wf_def numbers_ok_def fast_ok_def touch_allocation_def)
qed

section \<open>Channels\<close>

definition put_channel :: "client_socket \<Rightarrow> u16 \<Rightarrow> channel \<Rightarrow> 'r server \<Rightarrow> 'r server" where
  "put_channel c n ch s =
     s\<lparr>channels_by_client_and_number := hm_insert (c, n) ch (channels_by_client_and_number s),
       channel_numbers_by_client_and_peer :=
         hm_insert (c, peer_address ch) n (channel_numbers_by_client_and_peer s),
       channel_and_client_by_port_and_peer :=
         hm_insert (c_allocation ch, peer_address ch) (c, n) (channel_and_client_by_port_and_peer s)\<rparr>"

text \<open>
  Binding a channel keeps the invariant when the number is free or bound to the same peer, and the
  peer is free or bound to the same number.
\<close>

lemma put_channel_inv:
  assumes inv: "server_inv s"
    and a: "allocs s c = Some a" "a_port a = c_allocation ch" "can_relay_to a (peer_address ch)"
    and chan: "\<forall>old. chans s (c, n) = Some old \<longrightarrow> peer_address old = peer_address ch"
    and num: "\<forall>m. nums s (c, peer_address ch) = Some m \<longrightarrow> m = n"
    and b: "bound ch"
  shows "server_inv (put_channel c n ch s)"
proof -
  let ?t = "put_channel c n ch s"
  have ch: "chans ?t k = (if k = (c, n) then Some ch else chans s k)" for k
    by (simp add: put_channel_def)
  have other: "c' \<noteq> c \<or> peer_address ch' \<noteq> peer_address ch"
    if "chans s (c', n') = Some ch'" "(c', n') \<noteq> (c, n)" for c' n' ch'
    using chan_num [OF inv that(1)] num that(2) by auto
  have port: "c' = c" if "chans s (c', n') = Some ch'" "c_allocation ch' = c_allocation ch" for c' n' ch'
    using chan_port_client [OF inv that(1)] alloc_client [OF inv a(1)] a(2) that(2) by simp
  have "channels_ok ?t"
    using server_invD(3) [OF inv] a by (auto simp: channels_ok_def ch) (auto simp: put_channel_def)
  moreover have "numbers_ok ?t"
    unfolding numbers_ok_def
  proof (intro conjI allI impI)
    fix c' n' ch' assume "chans ?t (c', n') = Some ch'"
    then show "nums ?t (c', peer_address ch') = Some n'"
      using chan_num [OF inv] other [of c' n' ch']
      by (auto simp: ch put_channel_def split: if_splits)
  next
    fix c' p n' assume "nums ?t (c', p) = Some n'"
    then show "\<exists>ch. chans ?t (c', n') = Some ch \<and> peer_address ch = p"
      using num_chan [OF inv, of c' p n'] chan
      by (auto simp: ch put_channel_def split: if_splits)
  qed
  moreover have "fast_ok ?t"
    unfolding fast_ok_def
  proof (intro allI)
    fix q p c' n'
    show "fast ?t (q, p) = Some (c', n') \<longleftrightarrow> (\<exists>ch'. chans ?t (c', n') = Some ch' \<and> bound ch'
        \<and> c_allocation ch' = q \<and> peer_address ch' = p)"
    proof (cases "(q, p) = (c_allocation ch, peer_address ch)")
      case True
      then show ?thesis using b other port by (auto simp: ch put_channel_def)
    next
      case False
      have "chans s (c, n) = Some old \<Longrightarrow> c_allocation old = c_allocation ch" for old
        using chan_alloc [OF inv] a by fastforce
      with False chan show ?thesis
        by (auto simp: ch fast_iff [OF inv] put_channel_def split: if_splits)
    qed
  qed
  ultimately show ?thesis
    using inv by (simp add: server_inv_def tables_wf_def allocations_ok_def counter_ok_def max_available_ports_def
        addresses_ok_def put_channel_def)
qed

lemma create_channel_binding_spec:
  assumes inv: "server_inv s" and a: "allocs s c = Some a" "can_relay_to a peer"
    and free: "chans s (c, n) = None" "nums s (c, peer) = None"
  shows "create_channel_binding s c n peer (a_port a) now =
      Done (put_channel c n \<lparr>expiry = now + CHANNEL_BINDING_DURATION, peer_address = peer,
        c_allocation = a_port a, bound = True\<rparr> s)"
proof -
  have "fast s (a_port a, peer) = None"
  proof (rule ccontr)
    assume "fast s (a_port a, peer) \<noteq> None"
    then obtain c' n' ch where ch: "chans s (c', n') = Some ch" "c_allocation ch = a_port a"
      "peer_address ch = peer"
      by (metis fast_iff [OF inv] not_None_eq surj_pair)
    then have "c' = c" using chan_port_client [OF inv ch(1)] alloc_client [OF inv a(1)] by simp
    with chan_num [OF inv ch(1)] ch(3) free(2) show False by simp
  qed
  with free show ?thesis by (simp add: create_channel_binding_def put_channel_def)
qed

lemma refresh_channel_eq:
  assumes inv: "server_inv s" and ch: "chans s (c, n) = Some ch"
  shows "core (s\<lparr>channels_by_client_and_number :=
        hm_insert (c, n) (channel_refresh ch now) (channels_by_client_and_number s),
      channel_and_client_by_port_and_peer :=
        hm_insert (c_allocation ch, peer_address ch) (c, n) (channel_and_client_by_port_and_peer s)\<rparr>)
    = core ((put_channel c n (channel_refresh ch now) s)\<lparr>channel_numbers_by_client_and_peer :=
        channel_numbers_by_client_and_peer s\<rparr>)"
  by (simp add: core_def put_channel_def channel_refresh_def)

text \<open>Storing a value that is already there changes no lookup.\<close>

lemma numbers_restore_inv:
  assumes inv: "server_inv t" and same: "\<And>k. hm_get m k = nums t k" and wf: "hm_wf m"
  shows "server_inv (t\<lparr>channel_numbers_by_client_and_peer := m\<rparr>)"
  using inv wf by (simp add: server_inv_def inv_defs same)

lemma refresh_channel_inv:
  assumes inv: "server_inv s" and ch: "chans s (c, n) = Some ch"
  shows "server_inv (s\<lparr>channels_by_client_and_number :=
        hm_insert (c, n) (channel_refresh ch now) (channels_by_client_and_number s),
      channel_and_client_by_port_and_peer :=
        hm_insert (c_allocation ch, peer_address ch) (c, n) (channel_and_client_by_port_and_peer s)\<rparr>)"
proof -
  obtain a where a: "allocs s c = Some a" "a_port a = c_allocation ch" "can_relay_to a (peer_address ch)"
    using chan_alloc [OF inv ch] by blast
  let ?new = "channel_refresh ch now"
  have new: "peer_address ?new = peer_address ch" "c_allocation ?new = c_allocation ch" "bound ?new"
    by (simp_all add: channel_refresh_def)
  have "server_inv (put_channel c n ?new s)"
    using a ch chan_num [OF inv ch] by (intro put_channel_inv [OF inv]) (auto simp: new)
  then have "server_inv ((put_channel c n ?new s)\<lparr>channel_numbers_by_client_and_peer :=
      channel_numbers_by_client_and_peer s\<rparr>)"
    using chan_num [OF inv ch] server_wf [OF inv]
    by (intro numbers_restore_inv) (auto simp: put_channel_def new)
  then show ?thesis using server_inv_cong [OF refresh_channel_eq [OF inv ch]] by simp
qed

section \<open>Expiry\<close>

definition expire :: "instant \<Rightarrow> channel \<Rightarrow> channel" where
  "expire now c = (if channel_is_expired c now \<and> bound c then c\<lparr>bound := False\<rparr> else c)"

definition expired_routes :: "instant \<Rightarrow> channel_map \<Rightarrow> (allocation_port \<times> peer_socket) set" where
  "expired_routes now cs =
     {(c_allocation c, peer_address c) | k c. (k, c) \<in> set cs \<and> channel_is_expired c now \<and> bound c}"

lemma expired_routes_Cons:
  "expired_routes now ((k, c) # cs) =
     (if channel_is_expired c now \<and> bound c
      then insert (c_allocation c, peer_address c) (expired_routes now cs) else expired_routes now cs)"
  by (cases k) (auto simp: expired_routes_def)

lemma expire_simps [simp]:
  "peer_address (expire now c) = peer_address c" "c_allocation (expire now c) = c_allocation c"
  "expiry (expire now c) = expiry c" "bound (expire now c) \<longleftrightarrow> bound c \<and> \<not> channel_is_expired c now"
  by (auto simp: expire_def)

lemma unbind_expired_spec:
  assumes "\<forall>((cs, n), c) \<in> set chs. bound c \<longrightarrow>
      (\<forall>x. hm_get fs (c_allocation c, peer_address c) = Some x \<longrightarrow> x = (cs, n))"
    and "hm_wf fs"
  shows "\<exists>fs'. unbind_expired now chs fs = Done (map (\<lambda>(k, c). (k, expire now c)) chs, fs')
    \<and> (\<forall>k. hm_get fs' k = (if k \<in> expired_routes now chs then None else hm_get fs k)) \<and> hm_wf fs'"
  using assms
proof (induction chs arbitrary: fs)
  case Nil
  then show ?case by (simp add: expired_routes_def)
next
  case (Cons e chs)
  obtain cs n c where e: "e = ((cs, n), c)" by (metis surj_pair)
  show ?case
  proof (cases "channel_is_expired c now \<and> bound c")
    case False
    with Cons.prems obtain fs' where "unbind_expired now chs fs
        = Done (map (\<lambda>(k, c). (k, expire now c)) chs, fs')"
      "\<forall>k. hm_get fs' k = (if k \<in> expired_routes now chs then None else hm_get fs k)" "hm_wf fs'"
      using Cons.IH [of fs] by auto
    with False show ?thesis by (auto simp: e expired_routes_Cons expire_def)
  next
    case True
    let ?fs = "hm_remove (c_allocation c, peer_address c) fs"
    have "\<forall>((cs, n), c) \<in> set chs. bound c \<longrightarrow>
        (\<forall>x. hm_get ?fs (c_allocation c, peer_address c) = Some x \<longrightarrow> x = (cs, n))"
      using Cons.prems(1) by (auto split: if_splits)
    then obtain fs' where IH: "unbind_expired now chs ?fs
        = Done (map (\<lambda>(k, c). (k, expire now c)) chs, fs')"
      "\<forall>k. hm_get fs' k = (if k \<in> expired_routes now chs then None else hm_get ?fs k)" "hm_wf fs'"
      using Cons.IH [of ?fs] Cons.prems(2) by auto
    have "unbind_expired now (e # chs) fs = Done (map (\<lambda>(k, c). (k, expire now c)) (e # chs), fs')"
      using True Cons.prems(1) IH(1) by (auto simp: e expire_def split: option.splits)
    with IH(2,3) True show ?thesis by (auto simp: e expired_routes_Cons)
  qed
qed

definition unbind :: "instant \<Rightarrow> fast_map \<Rightarrow> 'r server \<Rightarrow> 'r server" where
  "unbind now fs s =
     s\<lparr>channels_by_client_and_number :=
         map (\<lambda>(k, c). (k, expire now c)) (channels_by_client_and_number s),
       channel_and_client_by_port_and_peer := fs\<rparr>"

lemma unbind_chans: "chans (unbind now fs s) k = map_option (expire now) (chans s k)"
  by (simp add: unbind_def hm_get_map_values)

lemma unbind_spec:
  assumes inv: "server_inv s"
  shows "\<exists>fs. unbind_expired now (channels_by_client_and_number s) (channel_and_client_by_port_and_peer s)
      = Done (channels_by_client_and_number (unbind now fs s), fs) \<and> server_inv (unbind now fs s)"
proof -
  note wf = server_wf [OF inv]
  have "\<forall>((cs, n), c) \<in> set (channels_by_client_and_number s). bound c \<longrightarrow>
      (\<forall>x. fast s (c_allocation c, peer_address c) = Some x \<longrightarrow> x = (cs, n))"
    using chan_unique [OF inv] by (auto simp: hm_in_set_iff [OF wf(3)] fast_iff [OF inv])
  from unbind_expired_spec [OF this wf(5), of now] obtain fs where fs:
    "unbind_expired now (channels_by_client_and_number s) (channel_and_client_by_port_and_peer s)
       = Done (channels_by_client_and_number (unbind now fs s), fs)"
    "\<forall>k. hm_get fs k = (if k \<in> expired_routes now (channels_by_client_and_number s)
       then None else fast s k)" "hm_wf fs"
    by (auto simp: unbind_def)
  have routes: "(q, p) \<in> expired_routes now (channels_by_client_and_number s) \<longleftrightarrow>
      (\<exists>c n ch. chans s (c, n) = Some ch \<and> channel_is_expired ch now \<and> bound ch
         \<and> c_allocation ch = q \<and> peer_address ch = p)" for q p
    by (auto simp: expired_routes_def hm_in_set_iff [OF wf(3)])
  have "fast_ok (unbind now fs s)"
    unfolding fast_ok_def
  proof (intro allI)
    fix q p c n
    have gone: "fast (unbind now fs s) (q, p) = Some (c, n) \<longleftrightarrow>
        fast s (q, p) = Some (c, n) \<and> (q, p) \<notin> expired_routes now (channels_by_client_and_number s)"
      using fs(2) by (simp add: unbind_def)
    have same: "ch' = ch \<and> c' = c \<and> n' = n" if "chans s (c, n) = Some ch" "chans s (c', n') = Some ch'"
      "c_allocation ch' = c_allocation ch" "peer_address ch' = peer_address ch" for ch c' n' ch'
      using chan_unique [OF inv that(2,1)] that by simp
    show "fast (unbind now fs s) (q, p) = Some (c, n) \<longleftrightarrow>
      (\<exists>ch. chans (unbind now fs s) (c, n) = Some ch \<and> bound ch \<and> c_allocation ch = q
         \<and> peer_address ch = p)"
      unfolding gone fast_iff [OF inv] routes unbind_chans
    proof (cases "chans s (c, n)")
      case (Some ch)
      have "(\<exists>c n ch. chans s (c, n) = Some ch \<and> channel_is_expired ch now \<and> bound ch
          \<and> c_allocation ch = q \<and> peer_address ch = p) \<longleftrightarrow> channel_is_expired ch now \<and> bound ch"
        if "c_allocation ch = q" "peer_address ch = p"
        using same [OF Some] Some that by metis
      with Some show "(\<exists>ch. chans s (c, n) = Some ch \<and> bound ch \<and> c_allocation ch = q
            \<and> peer_address ch = p) \<and> \<not> (\<exists>c n ch. chans s (c, n) = Some ch \<and>
            channel_is_expired ch now \<and> bound ch \<and> c_allocation ch = q \<and> peer_address ch = p) \<longleftrightarrow>
        (\<exists>ch. map_option (expire now) (chans s (c, n)) = Some ch \<and> bound ch \<and> c_allocation ch = q
            \<and> peer_address ch = p)"
        by (simp, blast)
    qed simp
  qed
  moreover have "channels_ok (unbind now fs s)"
    using server_invD(3) [OF inv] by (fastforce simp: channels_ok_def unbind_def hm_get_map_values)
  moreover have "numbers_ok (unbind now fs s)"
    using server_invD(4) [OF inv] by (fastforce simp: numbers_ok_def unbind_chans unbind_def hm_get_map_values)
  ultimately have "server_inv (unbind now fs s)"
    using inv fs(3) by (simp add: server_inv_def tables_wf_def allocations_ok_def counter_ok_def max_available_ports_def
        addresses_ok_def unbind_def)
  with fs(1) show ?thesis by blast
qed

text \<open>Deleting a channel that is no longer bound.\<close>

lemma delete_channel_binding_spec:
  assumes inv: "server_inv s" and unbound: "\<forall>ch. chans s (c, n) = Some ch \<longrightarrow> \<not> bound ch"
  shows "\<exists>t. delete_channel_binding s c n = Done t \<and> server_inv t
    \<and> (\<forall>k. chans t k = (if k = (c, n) then None else chans s k)) \<and> allocations t = allocations s"
proof (cases "chans s (c, n)")
  case None
  with inv show ?thesis by (auto simp: delete_channel_binding_def)
next
  case (Some ch)
  define t where "t = s\<lparr>channel_numbers_by_client_and_peer :=
      hm_remove (c, peer_address ch) (channel_numbers_by_client_and_peer s),
    channels_by_client_and_number := hm_remove (c, n) (channels_by_client_and_number s)\<rparr>"
  have t: "chans t k = (if k = (c, n) then None else chans s k)" for k by (simp add: t_def)
  have "delete_channel_binding s c n = Done t"
    using Some chan_num [OF inv Some] by (simp add: delete_channel_binding_def Let_def t_def)
  moreover have "channels_ok t"
    using server_invD(3) [OF inv] by (simp add: channels_ok_def t_def)
  moreover have "numbers_ok t"
    unfolding numbers_ok_def
  proof (intro conjI allI impI)
    fix c' n' ch' assume "chans t (c', n') = Some ch'"
    then have "chans s (c', n') = Some ch'" "(c', n') \<noteq> (c, n)" by (auto simp: t split: if_splits)
    with chan_num [OF inv] Some show "nums t (c', peer_address ch') = Some n'"
      by (auto simp: t_def) (metis option.inject)
  next
    fix c' p n' assume "nums t (c', p) = Some n'"
    then have "nums s (c', p) = Some n'" "(c', p) \<noteq> (c, peer_address ch)"
      by (auto simp: t_def split: if_splits)
    with num_chan [OF inv] Some show "\<exists>ch. chans t (c', n') = Some ch \<and> peer_address ch = p"
      by (fastforce simp: t)
  qed
  moreover have "fast_ok t"
    using server_invD(5) [OF inv] unbound Some by (auto simp: fast_ok_def t) (auto simp: t_def)
  ultimately have "server_inv t"
    using inv by (simp add: server_inv_def tables_wf_def allocations_ok_def counter_ok_def max_available_ports_def
        addresses_ok_def t_def)
  with \<open>delete_channel_binding s c n = Done t\<close> t show ?thesis by (auto simp: t_def)
qed


section \<open>Timeouts\<close>

definition surviving :: "('v \<Rightarrow> bool) \<Rightarrow> 'v option \<Rightarrow> 'v option" where
  "surviving P x = (case x of Some v \<Rightarrow> if P v then Some v else None | None \<Rightarrow> None)"

lemma surviving_simps [simp]:
  "surviving P None = None" "surviving P (Some v) = (if P v then Some v else None)"
  "surviving P x = Some w \<longleftrightarrow> x = Some w \<and> P w"
  by (auto simp: surviving_def split: option.splits)

lemma surviving_surviving: "surviving P (surviving Q x) = surviving (\<lambda>v. Q v \<and> P v) x"
  by (cases x) auto

lemma surviving_map:
  "(\<And>v. P (f v) = P v) \<Longrightarrow> surviving P (map_option f x) = map_option f (surviving P x)"
  by (cases x) auto

lemma delete_allocation_surviving:
  assumes inv: "server_inv s"
  obtains t where "delete_allocation s port = Done t" "server_inv t"
    "\<And>c. allocs t c = surviving (\<lambda>a. a_port a \<noteq> port) (allocs s c)"
    "\<And>k. chans t k = surviving (\<lambda>ch. c_allocation ch \<noteq> port) (chans s k)"
proof -
  obtain t where t: "delete_allocation s port = Done t" "server_inv t" "allocation_deleted port s t"
    using delete_allocation_spec [OF inv] by blast
  have "clients s port = Some c \<longleftrightarrow> (\<exists>a. allocs s c = Some a \<and> a_port a = port)" for c
    using alloc_client [OF inv] client_alloc [OF inv] by blast
  with t(3) have "allocs t c = surviving (\<lambda>a. a_port a \<noteq> port) (allocs s c)" for c
    by (cases "allocs s c") (auto simp: allocation_deleted_def)
  moreover from t(3) have "chans t k = surviving (\<lambda>ch. c_allocation ch \<noteq> port) (chans s k)" for k
    by (cases k) (auto simp: allocation_deleted_def surviving_def split: option.splits)
  ultimately show ?thesis using t that by blast
qed

lemma delete_allocations_spec:
  assumes "server_inv s"
  shows "\<exists>t. fold_outcome (\<lambda>port t. delete_allocation t port) ps s = Done t \<and> server_inv t
    \<and> (\<forall>c. allocs t c = surviving (\<lambda>a. a_port a \<notin> set ps) (allocs s c))
    \<and> (\<forall>k. chans t k = surviving (\<lambda>ch. c_allocation ch \<notin> set ps) (chans s k))"
  using assms
proof (induction ps arbitrary: s)
  case Nil
  then show ?case by (simp add: surviving_def split: option.splits)
next
  case (Cons p ps)
  from delete_allocation_surviving [OF Cons.prems, of p] obtain u where
    u: "delete_allocation s p = Done u" "server_inv u"
      "\<And>c. allocs u c = surviving (\<lambda>a. a_port a \<noteq> p) (allocs s c)"
      "\<And>k. chans u k = surviving (\<lambda>ch. c_allocation ch \<noteq> p) (chans s k)" by blast
  from Cons.IH [OF u(2)] u show ?case by (auto simp: surviving_surviving)
qed

lemma delete_channels_spec:
  assumes "server_inv s" "\<forall>k \<in> set ks. \<forall>ch. chans s k = Some ch \<longrightarrow> \<not> bound ch"
  shows "\<exists>t. fold_outcome (\<lambda>(c, n) t. delete_channel_binding t c n) ks s = Done t \<and> server_inv t
    \<and> (\<forall>k. chans t k = (if k \<in> set ks then None else chans s k)) \<and> allocations t = allocations s"
  using assms
proof (induction ks arbitrary: s)
  case (Cons k ks)
  obtain c n where k: "k = (c, n)" by fastforce
  from Cons.prems k obtain u where
    u: "delete_channel_binding s c n = Done u" "server_inv u"
      "\<forall>k. chans u k = (if k = (c, n) then None else chans s k)" "allocations u = allocations s"
    using delete_channel_binding_spec [OF Cons.prems(1), of c n] by auto
  have "\<forall>k \<in> set ks. \<forall>ch. chans u k = Some ch \<longrightarrow> \<not> bound ch"
    using Cons.prems(2) u(3) by (metis list.set_intros(2) option.distinct(1))
  from Cons.IH [OF u(2) this] u k show ?case by auto
qed simp

text \<open>What one call of \<^verbatim>\<open>handle_timeout\<close> does to a channel.\<close>

definition channel_after :: "instant \<Rightarrow> 'r server \<Rightarrow> client_socket \<times> u16 \<Rightarrow> channel option" where
  "channel_after now s k =
     (if (\<exists>a. allocs s (fst k) = Some a \<and> allocation_is_expired a now) then None
      else map_option (expire now) (surviving (\<lambda>ch. \<not> channel_can_be_deleted ch now) (chans s k)))"

lemma deletable_expired: "channel_can_be_deleted ch now \<Longrightarrow> channel_is_expired ch now"
  by (simp add: channel_can_be_deleted_def channel_is_expired_def)

lemma expired_ports:
  assumes inv: "server_inv s" and a: "allocs s c = Some a"
  shows "a_port a \<in> set (map a_port (filter (\<lambda>a. allocation_is_expired a now) (hm_values (allocations s))))
    \<longleftrightarrow> allocation_is_expired a now"
proof -
  have "a' = a" if "allocs s c' = Some a'" "a_port a' = a_port a" for c' a'
    using that a allocs_inj [OF inv] by (metis option.inject)
  then show ?thesis
    using a by (auto simp: hm_values_iff [OF server_wf(1) [OF inv]] image_iff)
qed

lemma handle_timeout_spec:
  assumes inv: "server_inv s"
  shows "\<exists>t. handle_timeout s now = Done t \<and> server_inv t
    \<and> (\<forall>c. allocs t c = surviving (\<lambda>a. \<not> allocation_is_expired a now) (allocs s c))
    \<and> (\<forall>k. chans t k = channel_after now s k)"
proof -
  let ?ps = "map a_port (filter (\<lambda>a. allocation_is_expired a now) (hm_values (allocations s)))"
  obtain u where u: "fold_outcome (\<lambda>port t. delete_allocation t port) ?ps s = Done u" "server_inv u"
    "\<forall>c. allocs u c = surviving (\<lambda>a. a_port a \<notin> set ?ps) (allocs s c)"
    "\<forall>k. chans u k = surviving (\<lambda>ch. c_allocation ch \<notin> set ?ps) (chans s k)"
    using delete_allocations_spec [OF inv] by blast
  obtain fs where f: "unbind_expired now (channels_by_client_and_number u)
      (channel_and_client_by_port_and_peer u) = Done (channels_by_client_and_number (unbind now fs u), fs)"
    "server_inv (unbind now fs u)"
    using unbind_spec [OF u(2)] by blast
  let ?v = "unbind now fs u"
  let ?ks = "map fst (filter (\<lambda>(_, c). channel_can_be_deleted c now) (channels_by_client_and_number ?v))"
  have ks: "k \<in> set ?ks \<longleftrightarrow> (\<exists>ch. chans u k = Some ch \<and> channel_can_be_deleted ch now)" for k
  proof -
    have "k \<in> set ?ks \<longleftrightarrow> (\<exists>ch. chans ?v k = Some ch \<and> channel_can_be_deleted ch now)"
      by (force simp: hm_in_set_iff [OF server_wf(3) [OF f(2)]])
    then show ?thesis by (auto simp: unbind_chans channel_can_be_deleted_def)
  qed
  have "\<forall>k \<in> set ?ks. \<forall>ch. chans ?v k = Some ch \<longrightarrow> \<not> bound ch"
  proof (intro ballI allI impI)
    fix k ch assume "k \<in> set ?ks" "chans ?v k = Some ch"
    then show "\<not> bound ch" using ks [of k] deletable_expired by (auto simp: unbind_chans simp del: set_map)
  qed
  from delete_channels_spec [OF f(2) this] obtain t where
    t: "fold_outcome (\<lambda>(c, n) t. delete_channel_binding t c n) ?ks ?v = Done t" "server_inv t"
      "\<forall>k. chans t k = (if k \<in> set ?ks then None else chans ?v k)" "allocations t = allocations ?v"
    by blast
  have "handle_timeout s now = Done t"
    using u(1) f(1) t(1) by (simp add: handle_timeout_def unbind_def)
  moreover have "allocs t c = surviving (\<lambda>a. \<not> allocation_is_expired a now) (allocs s c)" for c
    using u(3) t(4) expired_ports [OF inv, of c]
    by (cases "allocs s c") (simp_all add: unbind_def del: set_map)
  moreover have "chans t k = channel_after now s k" for k
  proof (cases "chans s k")
    case (Some ch)
    obtain a where a: "allocs s (fst k) = Some a" "a_port a = c_allocation ch"
      using Some chan_alloc [OF inv, of "fst k" "snd k"] by auto
    then show ?thesis
      using Some t(3) [rule_format, of k] u(4) [rule_format, of k] ks [of k]
        expired_ports [OF inv a(1), of now]
      by (simp add: channel_after_def unbind_chans del: set_map)
  qed (use t(3) [rule_format, of k] u(4) [rule_format, of k]
        in \<open>simp add: channel_after_def unbind_chans\<close>)
  ultimately show ?thesis using t(2) by blast
qed

lemma fold_earliest:
  "fold (\<lambda>next current. earliest current (Some next)) xs acc =
     (case acc of None \<Rightarrow> (if xs = [] then None else Some (Min (set xs)))
      | Some a \<Rightarrow> Some (Min (insert a (set xs))))"
proof (induction xs arbitrary: acc)
  case (Cons x xs)
  show ?case
  proof (cases acc)
    case None
    then show ?thesis by (cases "xs = []") (simp_all add: Cons.IH)
  next
    case (Some a)
    then show ?thesis by (cases "xs = []") (simp_all add: Cons.IH min.left_commute min.assoc)
  qed
qed (simp split: option.splits)

definition deadlines :: "'r server \<Rightarrow> instant set" where
  "deadlines s = channel_deadline ` set (hm_values (channels_by_client_and_number s))
     \<union> expires_at ` set (hm_values (allocations s))"

lemma poll_timeout_Min:
  "poll_timeout s = (if deadlines s = {} then None else Some (Min (deadlines s)))"
  unfolding poll_timeout_def deadlines_def fold_earliest Let_def
  by (simp del: fold_append add: image_Un)

lemma deadlines_iff:
  assumes "server_inv s"
  shows "d \<in> deadlines s \<longleftrightarrow> (\<exists>k ch. chans s k = Some ch \<and> d = channel_deadline ch)
    \<or> (\<exists>c a. allocs s c = Some a \<and> d = expires_at a)"
  unfolding deadlines_def Un_iff image_iff Bex_def
    hm_values_iff [OF server_wf(1) [OF assms]] hm_values_iff [OF server_wf(3) [OF assms]]
  by blast

lemma handle_timeout_deadlines:
  assumes inv: "server_inv s" and t: "handle_timeout s now = Done t" and d: "d \<in> deadlines t"
  shows "now < d"
proof -
  from handle_timeout_spec [OF inv, of now] t have
    "server_inv t" "\<forall>c. allocs t c = surviving (\<lambda>a. \<not> allocation_is_expired a now) (allocs s c)"
    "\<forall>k. chans t k = channel_after now s k"
    by auto
  with d show ?thesis
    by (auto simp: deadlines_iff channel_after_def channel_deadline_def channel_can_be_deleted_def
        channel_is_expired_def allocation_is_expired_def split: if_splits)
qed

end
