(* ===== verification/Sans_IO.thy ===== *)
theory Sans_IO
  imports Prelude
begin

text \<open>
  The two contracts that the event loops of the system rely on. The components are sans-IO state
  machines: an event loop feeds them inputs, asks with \<^verbatim>\<open>poll_timeout\<close> when to wake them up and then
  calls \<^verbatim>\<open>handle_timeout\<close>. The locale \<open>step_system\<close> is a machine whose steps keep an invariant and
  never panic or loop; the locale \<open>timer\<close> is a machine whose timeouts make progress.
\<close>

section \<open>Steps that keep an invariant\<close>

locale step_system =
  fixes step :: "'s \<Rightarrow> 'e \<Rightarrow> 's outcome"
    and ok :: "'e \<Rightarrow> bool"
    and inv :: "'s \<Rightarrow> bool"
  assumes step_ok: "inv s \<Longrightarrow> ok e \<Longrightarrow> \<exists>t. step s e = Done t \<and> inv t"
begin

lemma run_ok: "inv s \<Longrightarrow> list_all ok es \<Longrightarrow> \<exists>t. fold_outcome (\<lambda>e s. step s e) es s = Done t \<and> inv t"
  by (rule fold_outcome_inv) (auto simp: step_ok list_all_iff)

lemma step_inv: "inv s \<Longrightarrow> ok e \<Longrightarrow> step s e = Done t \<Longrightarrow> inv t"
  using step_ok by fastforce

end

section \<open>Timers\<close>

text \<open>The instants at which an event loop that only sleeps until \<open>poll\<close> wakes the machine up.\<close>

primrec wakeups ::
    "('s \<Rightarrow> instant option) \<Rightarrow> ('s \<Rightarrow> instant \<Rightarrow> 's outcome) \<Rightarrow> nat \<Rightarrow> 's \<Rightarrow> instant list" where
  "wakeups poll handle 0 s = []"
| "wakeups poll handle (Suc n) s =
     (case poll s of
        None \<Rightarrow> []
      | Some d \<Rightarrow> d # (case handle s d of Done t \<Rightarrow> wakeups poll handle n t | Panicked \<Rightarrow> [] | Diverges \<Rightarrow> []))"

locale timer =
  fixes poll :: "'s \<Rightarrow> instant option"
    and handle :: "'s \<Rightarrow> instant \<Rightarrow> 's outcome"
    and inv :: "'s \<Rightarrow> bool"
  assumes handle_ok: "inv s \<Longrightarrow> \<exists>t. handle s now = Done t \<and> inv t"
    and progress: "inv s \<Longrightarrow> handle s now = Done t \<Longrightarrow> poll t = Some d \<Longrightarrow> now < d"
begin

lemma wakeups_after: "inv s \<Longrightarrow> poll s = Some d \<Longrightarrow> w \<in> set (wakeups poll handle n s) \<Longrightarrow> d \<le> w"
proof (induction n arbitrary: s d)
  case (Suc n)
  obtain t where t: "handle s d = Done t" "inv t" using handle_ok [OF Suc.prems(1)] by blast
  have "d \<le> w" if w: "w \<in> set (wakeups poll handle n t)"
  proof (cases "poll t")
    case None
    with w show ?thesis by (cases n) auto
  next
    case (Some d')
    with Suc.IH [OF t(2) Some w] progress [OF Suc.prems(1) t(1) Some] show ?thesis by simp
  qed
  with Suc.prems t(1) show ?case by auto
qed simp

lemma wakeups_increase: "inv s \<Longrightarrow> sorted_wrt (<) (wakeups poll handle n s)"
proof (induction n arbitrary: s)
  case (Suc n)
  show ?case
  proof (cases "poll s")
    case (Some d)
    obtain t where t: "handle s d = Done t" "inv t" using handle_ok [OF Suc.prems] by blast
    have "d < w" if w: "w \<in> set (wakeups poll handle n t)" for w
    proof (cases "poll t")
      case None
      with w show ?thesis by (cases n) auto
    next
      case poll: (Some d')
      with wakeups_after [OF t(2) poll w] progress [OF Suc.prems t(1) poll] show ?thesis by simp
    qed
    with Some t Suc.IH [OF t(2)] show ?thesis by simp
  qed simp
qed simp

end

end
