(* ===== verification/Relay_Handlers.thy ===== *)
theory Relay_Handlers
  imports Relay_Invariant Sans_IO
begin

text \<open>
  Every handler of the relay returns, keeps the invariant of \<open>Relay_Invariant\<close> and touches no table
  entry of another client. The panics of the source (\<^verbatim>\<open>debug_assert!\<close>, \<^verbatim>\<open>expect\<close>) and the
  port-drawing loop are covered: under the laws of the third-party code they are not reached or
  end. The last section turns the handlers into a step relation over the inputs of the server.
\<close>

section \<open>Drawing a port\<close>

text \<open>
  What is assumed of the random number generator: \<^verbatim>\<open>gen_range(lo..=hi)\<close> stays in the range, and
  every value of the range comes up eventually.
\<close>

primrec after_draws :: "('msg, 'mi, 'r) relay_env \<Rightarrow> u16 \<Rightarrow> u16 \<Rightarrow> nat \<Rightarrow> 'r \<Rightarrow> 'r" where
  "after_draws E lo hi 0 r = r"
| "after_draws E lo hi (Suc k) r = after_draws E lo hi k (snd (gen_range E r lo hi))"

definition draws_all :: "('msg, 'mi, 'r) relay_env \<Rightarrow> bool" where
  "draws_all E \<longleftrightarrow>
     (\<forall>r lo hi. lo \<le> hi \<longrightarrow> lo \<le> fst (gen_range E r lo hi) \<and> fst (gen_range E r lo hi) \<le> hi) \<and>
     (\<forall>r lo hi p. lo \<le> p \<and> p \<le> hi \<longrightarrow> (\<exists>k. fst (gen_range E (after_draws E lo hi k r) lo hi) = p))"

lemma draw_port_returns:
  assumes d: "draws_all E" and p: "lo \<le> p" "p \<le> hi" "hm_get taken p = None"
  shows "\<exists>q r'. draw_port E lo hi taken r = Some (q, r') \<and> lo \<le> q \<and> q \<le> hi \<and> hm_get taken q = None"
proof -
  obtain k where "fst (gen_range E (after_draws E lo hi k r) lo hi) = p"
    using d p unfolding draws_all_def by blast
  then show ?thesis
  proof (induction k arbitrary: r)
    case 0
    then show ?case
      using p by (subst draw_port.simps) (auto simp: case_prod_unfold)
  next
    case (Suc k)
    have "lo \<le> hi" using p by simp
    obtain q r' where g: "gen_range E r lo hi = (q, r')" by fastforce
    with d \<open>lo \<le> hi\<close> have "lo \<le> q" "q \<le> hi" unfolding draws_all_def by (metis fst_conv)+
    with Suc.IH [of r'] Suc.prems g show ?case by (subst draw_port.simps) simp
  qed
qed

lemma card_ports: "lo \<le> hi \<Longrightarrow> card {lo..hi :: u16} = unat hi - unat lo + 1"
proof -
  assume "lo \<le> hi"
  have "unat ` {lo..hi} = {unat lo..unat hi}"
  proof (intro set_eqI iffI)
    fix n assume n: "n \<in> {unat lo..unat hi}"
    then have "n < 2 ^ LENGTH(16)"
      using unsigned_less [of hi] le_less_trans [of n "unat hi"] atLeastAtMost_iff by blast
    then have "unat (word_of_nat n :: u16) = n" by (simp add: unat_of_nat)
    with n show "n \<in> unat ` {lo..hi}"
      by (intro image_eqI [of _ _ "word_of_nat n"]) (auto simp: word_le_nat_alt)
  qed (auto simp: word_le_nat_alt)
  moreover have "inj_on unat {lo..hi}" by (rule inj_on_subset [OF inj_unsigned]) simp
  ultimately have "card {lo..hi} = card {unat lo..unat hi}" by (metis card_image)
  with \<open>lo \<le> hi\<close> show ?thesis by (simp add: word_le_nat_alt)
qed

lemma free_port:
  assumes inv: "server_inv s" and room: "hm_len (clients_by_allocation s) < unat (max_available_ports s)"
  shows "\<exists>p. fst (ports s) \<le> p \<and> p \<le> snd (ports s) \<and> clients s p = None"
proof -
  obtain lo hi where r: "ports s = (lo, hi)" by fastforce
  with room have le: "lo \<le> hi"
    by (auto simp: max_available_ports_def split: if_splits)
  have "unat (of_nat n :: u16) \<le> n" for n by (simp add: unat_of_nat)
  then have "unat (max_available_ports s) \<le> card {lo..hi}"
    using le r by (simp only: max_available_ports_def card_ports Let_def case_prod_conv if_True)
  then have "card (dom (clients s)) < card {lo..hi}"
    using room hm.len_dom [OF server_wf(2) [OF inv]] by simp
  moreover have "finite (dom (clients s))" by (rule hm.finite_dom)
  ultimately obtain p where "p \<in> {lo..hi}" "p \<notin> dom (clients s)"
    using card_mono [of "dom (clients s)" "{lo..hi}"] by force
  with r show ?thesis by auto
qed

lemma create_new_allocation_spec:
  assumes inv: "server_inv s" and d: "draws_all E"
    and room: "hm_len (clients_by_allocation s) < unat (max_available_ports s)"
  shows "\<exists>r' port. create_new_allocation E s now lifetime first second
      = Done (s\<lparr>rng := r'\<rparr>, \<lparr>a_port = port, expires_at = now + lifetime,
                first_relay_addr = first, second_relay_addr = second\<rparr>)
    \<and> fst (ports s) \<le> port \<and> port \<le> snd (ports s) \<and> clients s port = None"
proof -
  obtain p where "fst (ports s) \<le> p" "p \<le> snd (ports s)" "clients s p = None"
    using free_port [OF inv room] by blast
  from draw_port_returns [OF d this, of "rng s"] room show ?thesis
    by (auto simp: create_new_allocation_def)
qed

section \<open>Sending\<close>

definition has_software :: "('msg, 'mi, 'r) relay_env \<Rightarrow> 'msg \<Rightarrow> bool" where
  "has_software E m \<longleftrightarrow> get_software E m \<noteq> None"

lemma has_software_add [simp]:
  assumes "stun_laws E" "has_software E m"
  shows "has_software E (add_attribute E m a)"
  using assms(2) container_lawsD(2) [OF stun_lawsD(1) [OF assms(1)], of m a KSoftware]
  by (auto simp: has_software_def get_software_def split: option.splits)

lemma has_software_response [simp]:
  assumes "stun_laws E"
  shows "has_software E (success_response E m tid)" "has_software E (error_response E m tid code)"
    "has_software E (make_error_response E code pr)" "has_software E (bad_request E msg)"
    "has_software E (refresh_success_response E d tid)"
    "has_software E (channel_bind_success_response E tid)"
    "has_software E (create_permission_success_response E tid)"
    "has_software E (allocate_success_message E tid port ip1 ip2 sender lifetime)"
proof -
  note laws = container_lawsD(1,2) [OF stun_lawsD(1) [OF assms]]
  have base: "has_software E (add_attribute E (message_new E c m tid) (Software x))" for c m tid x
    by (simp add: has_software_def get_software_def laws)
  show s: "has_software E (success_response E m tid)" for m tid
    unfolding success_response_def by (rule base)
  show e: "has_software E (error_response E m tid code)" for m tid code
    unfolding error_response_def using assms base by simp
  show "has_software E (make_error_response E code pr)" "has_software E (bad_request E msg)"
    by (simp_all add: make_error_response_def bad_request_def e)
  show "has_software E (refresh_success_response E d tid)"
    "has_software E (channel_bind_success_response E tid)"
    "has_software E (create_permission_success_response E tid)"
    using assms by (simp_all add: refresh_success_response_def channel_bind_success_response_def
        create_permission_success_response_def s)
  show "has_software E (allocate_success_message E tid port ip1 ip2 sender lifetime)"
    using assms by (simp add: allocate_success_message_def Let_def s split: option.splits)
qed

lemma send_message_total:
  assumes "stun_laws E" "has_software E m"
  obtains t where "send_message E m c s = Done t"
  using assms stun_lawsD(3) [OF assms(1)]
  by (fastforce simp: send_message_def has_software_def encode_total_def Let_def split: option.splits)

lemma authenticate_and_send_total:
  assumes "stun_laws E" "has_software E m" "expiry_representable u"
  obtains t where "authenticate_and_send E u pr m c s = Done t"
proof -
  obtain r where r: "authenticated_message_new E (auth_secret s) u m = Done r"
    using authenticated_message_new_total [OF assms(3), of E] by blast
  have "\<exists>t. authenticate_and_send E u pr m c s = Done t"
  proof (cases r)
    case (Inl e)
    have "has_software E (make_error_response E ServerError pr)" using assms(1) by simp
    then obtain t where "send_message E (make_error_response E ServerError pr) c s = Done t"
      using send_message_total [OF assms(1)] by blast
    with Inl r show ?thesis by (simp add: authenticate_and_send_def)
  next
    case (Inr m')
    then obtain mi where "m' = add_attribute E m (MessageIntegrity mi)"
      using authenticated_message_new_Inr [of E "auth_secret s" u m m'] r by auto
    then have "has_software E m'" using assms(1,2) by simp
    then obtain t where "send_message E m' c s = Done t"
      using send_message_total [OF assms(1)] by blast
    with Inr r show ?thesis by (simp add: authenticate_and_send_def)
  qed
  with that show ?thesis by blast
qed

section \<open>Authentication\<close>

definition request_ok :: "'mi protected_request \<Rightarrow> bool" where
  "request_ok pr = (case pr_username pr of None \<Rightarrow> True | Some u \<Rightarrow> expiry_representable u)"

lemma verify_auth_total:
  assumes "request_ok pr"
  obtains t r where "verify_auth E s pr wall = Done (t, r)"
    "core t = core s" "auth_secret t = auth_secret s"
    "(\<exists>code. r = Inl (make_error_response E code pr)) \<or> (\<exists>u. r = Inr u \<and> expiry_representable u)"
proof -
  have "\<exists>t r. verify_auth E s pr wall = Done (t, r) \<and>
    ((\<exists>code. r = Inl (make_error_response E code pr)) \<or> (\<exists>u. r = Inr u \<and> expiry_representable u))"
  proof (cases "pr_username pr")
    case (Some u)
    then have rep: "expiry_representable u" using assms by (simp add: request_ok_def)
    define f where "f mi sec now = (SOME r. message_integrity_verify E mi sec u now = Done r)" for mi sec now
    have f: "message_integrity_verify E mi sec u now = Done (f mi sec now)" for mi sec now
      unfolding f_def by (rule someI_ex) (rule message_integrity_verify_total [OF rep])
    show ?thesis
      unfolding verify_auth_def Let_def using rep
      by (auto simp: Some f split: option.splits sum.splits prod.splits)
  qed (auto simp: verify_auth_def split: option.splits)
  then show ?thesis using that verify_auth_core by blast
qed

section \<open>Handlers\<close>

text \<open>Nothing of another client changes.\<close>

definition others_kept :: "client_socket \<Rightarrow> 'r server \<Rightarrow> 'r server \<Rightarrow> bool" where
  "others_kept c s t \<longleftrightarrow> (\<forall>c'. c' \<noteq> c \<longrightarrow> allocs t c' = allocs s c' \<and> (\<forall>n. chans t (c', n) = chans s (c', n)))"

lemma others_kept_core: "core t = core s \<Longrightarrow> others_kept c s t"
  using coreD [of t s] by (simp add: others_kept_def)

lemma others_kept_trans: "others_kept c s t \<Longrightarrow> others_kept c t u \<Longrightarrow> others_kept c s u"
  by (simp add: others_kept_def)

text \<open>A handler returned, with the invariant and the other clients kept and a sendable error.\<close>

definition handler_ok ::
    "('msg, 'mi, 'r) relay_env \<Rightarrow> client_socket \<Rightarrow> 'r server \<Rightarrow> ('r server \<times> ('msg + unit)) outcome \<Rightarrow> bool" where
  "handler_ok E c s res \<longleftrightarrow>
     (\<exists>t r. res = Done (t, r) \<and> server_inv t \<and> others_kept c s t \<and> auth_secret t = auth_secret s
        \<and> (\<forall>e. r = Inl e \<longrightarrow> has_software E e))"

lemma handler_ok_core:
  assumes "handler_ok E c t res" "core t = core s" "auth_secret t = auth_secret s"
  shows "handler_ok E c s res"
  using assms others_kept_trans [OF others_kept_core [OF assms(2)]] unfolding handler_ok_def by metis

lemma handler_ok_error:
  "server_inv t \<Longrightarrow> core t = core s \<Longrightarrow> auth_secret t = auth_secret s \<Longrightarrow> has_software E e \<Longrightarrow>
     handler_ok E c s (Done (t, Inl e))"
  by (simp add: handler_ok_def others_kept_core)

text \<open>The common ending of the handlers: the reply is sent, then the handler returns.\<close>

lemma handler_ok_reply:
  assumes laws: "stun_laws E" and m: "has_software E m" and u: "expiry_representable u"
    and inv: "server_inv t" "others_kept c s t" "auth_secret t = auth_secret s"
  shows "handler_ok E c s (and_then (authenticate_and_send E u pr m c t) (\<lambda>t'. Done (t', Inr ())))"
proof -
  obtain t' where t': "authenticate_and_send E u pr m c t = Done t'"
    using authenticate_and_send_total [OF laws m u] by blast
  from authenticate_and_send_core [OF t'] have "core t' = core t" "auth_secret t' = auth_secret t" by simp_all
  with inv t' show ?thesis
    using server_inv_cong [of t' t] others_kept_core [of t' t c] others_kept_trans [of c s t t']
    by (simp add: handler_ok_def)
qed

text \<open>The common beginning: what is left to show is the case of an authenticated request.\<close>

lemma handler_ok_auth:
  assumes laws: "stun_laws E" and inv: "server_inv s" and req: "request_ok pr"
    and body: "\<And>t u. server_inv t \<Longrightarrow> core t = core s \<Longrightarrow> auth_secret t = auth_secret s \<Longrightarrow>
      expiry_representable u \<Longrightarrow> handler_ok E c t (f t u)"
  shows "handler_ok E c s (and_then (verify_auth E s pr wall) (\<lambda>(t, auth).
      case auth of Inl e \<Rightarrow> Done (t, Inl e) | Inr u \<Rightarrow> f t u))"
proof -
  from verify_auth_total [OF req, of E s wall] obtain t r where
    v: "verify_auth E s pr wall = Done (t, r)" and c: "core t = core s" "auth_secret t = auth_secret s"
    and r: "(\<exists>code. r = Inl (make_error_response E code pr)) \<or> (\<exists>u. r = Inr u \<and> expiry_representable u)"
    by blast
  have t: "server_inv t" using inv server_inv_cong [OF c(1)] by simp
  from r show ?thesis
  proof (elim disjE exE conjE)
    fix code assume "r = Inl (make_error_response E code pr)"
    with v t c laws show ?thesis by (simp add: handler_ok_error)
  next
    fix u assume "r = Inr u" "expiry_representable u"
    with v handler_ok_core [OF body [OF t c] c] show ?thesis by simp
  qed
qed

lemma handle_create_permission_request_ok:
  assumes laws: "stun_laws E" and inv: "server_inv s" and req: "request_ok (create_permission_request r)"
  shows "handler_ok E c s (handle_create_permission_request E s r c wall)"
  unfolding handle_create_permission_request_def Let_def
  using laws by (intro handler_ok_auth [OF laws inv req] handler_ok_reply)
    (simp_all add: others_kept_core)

lemma handle_refresh_request_ok:
  assumes laws: "stun_laws E" and inv: "server_inv s" and req: "request_ok (refresh_request r)"
  shows "handler_ok E c s (handle_refresh_request E s r c now wall)"
  unfolding handle_refresh_request_def Let_def
proof (rule handler_ok_auth [OF laws inv req], goal_cases)
  case (1 t u)
  obtain d where d: "compute_effective_lifetime E (re_lifetime r) = Done d"
    using effective_lifetime_total [OF stun_lawsD(2) [OF laws]] by blast
  show ?case
  proof (cases "allocs t c")
    case None
    with 1 laws show ?thesis by (simp add: handler_ok_error)
  next
    case (Some a)
    obtain t' where t': "delete_allocation t (a_port a) = Done t'" "server_inv t'"
      "allocation_deleted (a_port a) t t'"
      using delete_allocation_spec [OF 1(1)] by blast
    have "others_kept c t t'"
      unfolding others_kept_def
    proof (intro allI impI conjI)
      fix c' n assume "c' \<noteq> c"
      with t'(3) alloc_client [OF 1(1) Some] show "allocs t' c' = allocs t c'"
        by (simp add: allocation_deleted_def)
      from \<open>c' \<noteq> c\<close> have "chans t (c', n) = Some ch \<Longrightarrow> c_allocation ch \<noteq> a_port a" for ch
        using chan_port_client [OF 1(1)] alloc_client [OF 1(1) Some] by fastforce
      with t'(3) show "chans t' (c', n) = chans t (c', n)"
        by (simp add: allocation_deleted_def split: option.splits)
    qed
    moreover have "auth_secret t' = auth_secret t" using t'(3) by (simp add: allocation_deleted_def)
    moreover have "others_kept c t (touch_allocation c a (now + d) t)"
      by (simp add: others_kept_def touch_allocation_def)
    moreover have "server_inv (touch_allocation c a (now + d) t)"
      by (rule touch_allocation_inv [OF 1(1) Some])
    moreover note fin = handler_ok_reply [OF laws has_software_response(5) [OF laws] 1(4)]
    ultimately show ?thesis
      using d Some t' by (simp add: touch_allocation_def fin)
  qed
qed

lemma handle_channel_bind_request_ok:
  assumes laws: "stun_laws E" and inv: "server_inv s" and req: "request_ok (channel_bind_request r)"
  shows "handler_ok E c s (handle_channel_bind_request E s r c now wall)"
  unfolding handle_channel_bind_request_def Let_def
proof (rule handler_ok_auth [OF laws inv req], goal_cases)
  case (1 t u)
  let ?n = "cb_channel_number r" and ?p = "cb_xor_peer_address r"
  note fin = handler_ok_reply [OF laws has_software_response(6) [OF laws] 1(4)]
  have err: "handler_ok E c t (Done (t, Inl (make_error_response E code (channel_bind_request r))))" for code
    using 1 laws by (simp add: handler_ok_error)
  show ?case
  proof (cases "allocs t c")
    case (Some a)
    have "handler_ok E c t (and_then (create_channel_binding t c ?n ?p (a_port a) now)
        (\<lambda>s1. and_then (authenticate_and_send E u (channel_bind_request r)
           (channel_bind_success_response E (cb_transaction_id r)) c s1) (\<lambda>s2. Done (s2, Inr ()))))"
      if "can_relay_to a ?p" "chans t (c, ?n) = None" "nums t (c, ?p) = None"
      unfolding create_channel_binding_spec [OF 1(1) Some that] and_then.simps
      using Some that by (intro fin put_channel_inv [OF 1(1)]) (auto simp: others_kept_def put_channel_def)
    moreover have "nums t (c, ?p) = None" if "chans t (c, ?n) = None" "\<forall>n. nums t (c, ?p) = Some n \<longrightarrow> n = ?n"
      using that num_chan [OF 1(1), of c ?p] by (cases "nums t (c, ?p)") auto
    moreover have "handler_ok E c t (and_then (authenticate_and_send E u (channel_bind_request r)
        (channel_bind_success_response E (cb_transaction_id r)) c (t\<lparr>channels_by_client_and_number :=
            hm_insert (c, ?n) (channel_refresh ch now) (channels_by_client_and_number t),
          channel_and_client_by_port_and_peer := hm_insert (c_allocation ch, ?p) (c, ?n)
            (channel_and_client_by_port_and_peer t)\<rparr>)) (\<lambda>s2. Done (s2, Inr ())))"
      if "chans t (c, ?n) = Some ch" "peer_address ch = ?p" for ch
      using refresh_channel_inv [OF 1(1) that(1), of now] that(2)
      by (intro fin) (simp_all add: others_kept_def)
    ultimately show ?thesis
      using Some err by (cases "chans t (c, ?n)"; cases "nums t (c, ?p)") (simp_all, blast)
  qed (use err in simp)
qed

text \<open>The end of an allocation: the commands and the reply are queued, then the tables are updated.\<close>

lemma handler_ok_allocated:
  assumes laws: "stun_laws E" and inv: "server_inv t" and u: "expiry_representable u"
    and new: "allocs t c = None" "clients t (a_port a) = None"
    and room: "hm_len (allocations t) < unat (max_available_ports t)"
    and ok: "fst (ports t) \<le> a_port a" "a_port a \<le> snd (ports t)"
      "derive_relay_addresses (public_address t) rf af = Inr (first_relay_addr a, second_relay_addr a)"
    and m: "has_software E m" and v: "core v = core t" "auth_secret v = auth_secret t"
  shows "handler_ok E c t (and_then (authenticate_and_send E u pr m c v)
    (\<lambda>s4. Done (add_allocation c a s4, Inr ())))"
proof -
  obtain v' where v': "authenticate_and_send E u pr m c v = Done v'"
    using authenticate_and_send_total [OF laws m u] by blast
  from authenticate_and_send_core [OF v'] v have core: "core v' = core t" "auth_secret v' = auth_secret t"
    by simp_all
  have "core (add_allocation c a v') = core (add_allocation c a t)"
    using core(1) by (simp add: core_def add_allocation_def)
  moreover have "others_kept c t (add_allocation c a t)"
    by (simp add: others_kept_def add_allocation_def)
  ultimately have "server_inv (add_allocation c a v')" "others_kept c t (add_allocation c a v')"
    using server_inv_cong [of "add_allocation c a v'"] add_allocation_inv [OF inv new room ok]
      others_kept_core others_kept_trans by blast+
  moreover have "auth_secret (add_allocation c a v') = auth_secret t"
    using core(2) by (simp add: add_allocation_def)
  ultimately show ?thesis using v' by (simp add: handler_ok_def)
qed

lemma handle_allocate_request_ok:
  assumes laws: "stun_laws E" "draws_all E" and inv: "server_inv s"
    and req: "request_ok (allocate_request r)"
  shows "handler_ok E c s (handle_allocate_request E s r c now wall)"
  unfolding handle_allocate_request_def Let_def
proof (rule handler_ok_auth [OF laws(1) inv req], goal_cases)
  case (1 t u)
  note [simp] = handler_ok_error [OF 1(1) refl refl has_software_response(3) [OF laws(1)]]
  obtain d where d: "compute_effective_lifetime E (al_lifetime r) = Done d"
    using effective_lifetime_total [OF stun_lawsD(2) [OF laws(1)]] by blast
  show ?case
  proof (cases "allocs t c = None \<and> hm_len (clients_by_allocation t) \<noteq> unat (max_available_ports t)")
    case True
    then have room: "hm_len (clients_by_allocation t) < unat (max_available_ports t)"
      "hm_len (allocations t) < unat (max_available_ports t)"
      using server_invD(6) [OF 1(1)] len_clients [OF 1(1)] by (simp_all add: counter_ok_def)
    show ?thesis
    proof (cases "derive_relay_addresses (public_address t)
        (al_requested_address_family r) (al_additional_address_family r)")
      case (Inr addrs)
      obtain first second where addrs: "addrs = (first, second)" by fastforce
      obtain r' port where c: "create_new_allocation E t now d first second
          = Done (t\<lparr>rng := r'\<rparr>, \<lparr>a_port = port, expires_at = now + d,
              first_relay_addr = first, second_relay_addr = second\<rparr>)"
        "fst (ports t) \<le> port" "port \<le> snd (ports t)" "clients t port = None"
        using create_new_allocation_spec [OF 1(1) laws(2) room(1)] by blast
      note fin = handler_ok_allocated [OF laws(1) 1(1,4), where a = "\<lparr>a_port = port, expires_at = now + d,
              first_relay_addr = first, second_relay_addr = second\<rparr>",
          unfolded add_allocation_def allocation.simps, OF _ c(4) room(2) c(2,3) Inr [unfolded addrs]]
      show ?thesis
      proof (cases "al_requested_transport r = UDP_TRANSPORT")
        case udp: True
        show ?thesis
          unfolding Inr addrs d using True udp c(1) laws(1)
          by (simp, intro fin) (simp_all add: push_command_def core_def split: option.split)
      qed (use True in simp)
    qed (use True in simp)
  qed auto
qed

section \<open>Messages and inputs\<close>

text \<open>A message all of whose user names carry an expiry that the clock can represent.\<close>

definition message_ok :: "'mi client_message \<Rightarrow> bool" where
  "message_ok msg = (case client_message_username msg of None \<Rightarrow> True | Some u \<Rightarrow> expiry_representable u)"

definition readable :: "'mi client_message \<Rightarrow> bool" where
  "readable msg = (case msg of ChannelData cd \<Rightarrow> cd_length cd + 4 \<le> length (cd_msg cd) | _ \<Rightarrow> True)"

definition input_ok ::
    "client_socket \<Rightarrow> 'r server \<Rightarrow> ('r server \<times> (allocation_port \<times> peer_socket) option) outcome \<Rightarrow> bool" where
  "input_ok c s res \<longleftrightarrow> (\<exists>t r. res = Done (t, r) \<and> server_inv t \<and> others_kept c s t)"

lemma new_nonce_attribute_total: "stun_laws E \<Longrightarrow> \<exists>t nonce_text. new_nonce_attribute E s = Done (t, nonce_text)"
  using stun_lawsD(2) [of E]
  by (auto simp: new_nonce_attribute_def value_laws_def Let_def split: prod.split)

lemma send_error_response_total:
  assumes laws: "stun_laws E" and m: "has_software E m" and msg: "message_ok msg"
  shows "\<exists>t. send_error_response E s msg m c = Done t"
proof -
  have reply: "\<exists>t. (case client_message_username msg of
        Some u \<Rightarrow> and_then (authenticated_message_new E (auth_secret s1) u reply)
          (\<lambda>r. case r of Inr m \<Rightarrow> send_message E m c s1 | Inl e \<Rightarrow> Done s1)
      | None \<Rightarrow> send_message E reply c s1) = Done t" if "has_software E reply" for s1 reply
  proof (cases "client_message_username msg")
    case None
    then show ?thesis using send_message_total [OF laws that, of c s1] by auto
  next
    case (Some u)
    with msg obtain r where r: "authenticated_message_new E (auth_secret s1) u reply = Done r"
      using authenticated_message_new_total [of u E] by (auto simp: message_ok_def)
    show ?thesis
    proof (cases r)
      case (Inr m')
      then have "has_software E m'"
        using authenticated_message_new_Inr [of E "auth_secret s1" u reply m'] r laws that by auto
      then obtain t where "send_message E m' c s1 = Done t" using send_message_total [OF laws] by blast
      with Some r Inr show ?thesis by simp
    qed (use Some r in simp)
  qed
  obtain s' nonce_text where "new_nonce_attribute E s = Done (s', nonce_text)"
    using new_nonce_attribute_total [OF laws] by blast
  with reply m laws show ?thesis by (simp add: send_error_response_def Let_def)
qed

lemma finish_ok:
  assumes laws: "stun_laws E" and msg: "message_ok msg" and res: "handler_ok E c s res"
  shows "input_ok c s (and_then res (\<lambda>(s1, result). case result of
      Inr u \<Rightarrow> Done (s1, None)
    | Inl e \<Rightarrow> and_then (send_error_response E s1 msg e c) (\<lambda>s2. Done (s2, None))))"
proof -
  from res obtain t r where t: "res = Done (t, r)" "server_inv t" "others_kept c s t"
    "\<forall>e. r = Inl e \<longrightarrow> has_software E e" by (auto simp: handler_ok_def)
  show ?thesis
  proof (cases r)
    case (Inl e)
    then obtain t' where t': "send_error_response E t msg e c = Done t'"
      using send_error_response_total [OF laws _ msg] t(4) by blast
    from send_error_response_core [OF t'] have "core t' = core t" .
    then have "server_inv t'" "others_kept c s t'"
      using t server_inv_cong others_kept_core others_kept_trans by blast+
    with t Inl t' show ?thesis by (simp add: input_ok_def)
  qed (use t in \<open>simp add: input_ok_def\<close>)
qed

lemma count_relayed_kept: "server_inv s \<Longrightarrow> server_inv (count_relayed k s)" "others_kept c s (count_relayed k s)"
  using server_inv_cong [of "count_relayed k s" s] others_kept_core [of "count_relayed k s" s] by simp_all

lemma handle_channel_data_message_ok:
  assumes "server_inv s" "cd_length cd + 4 \<le> length (cd_msg cd)"
  shows "input_ok c s (handle_channel_data_message s cd c)"
  using assms count_relayed_kept
  by (cases "chans s (c, cd_channel cd)")
    (auto simp: input_ok_def handle_channel_data_message_def channel_data_data_def HEADER_LEN_def
      Let_def others_kept_core)

lemma handle_binding_request_ok:
  assumes laws: "stun_laws E" and inv: "server_inv s"
  shows "input_ok c s (and_then (handle_binding_request E s r c) (\<lambda>s1. Done (s1, None)))"
proof -
  obtain t where t: "handle_binding_request E s r c = Done t"
    unfolding handle_binding_request_def using laws by (metis has_software_add has_software_response(1) send_message_total)
  then have "core t = core s" unfolding handle_binding_request_def by (simp add: send_message_core)
  then have "server_inv t" "others_kept c s t" using inv server_inv_cong others_kept_core by blast+
  with t show ?thesis by (simp add: input_ok_def)
qed

lemma handle_client_message_ok:
  assumes laws: "stun_laws E" "draws_all E" and inv: "server_inv s"
    and msg: "message_ok msg" "readable msg"
  shows "input_ok c s (handle_client_message E s msg c now wall)"
proof (cases msg)
  case (ChannelData cd)
  with msg inv show ?thesis
    by (simp add: handle_client_message_def readable_def handle_channel_data_message_ok)
next
  case (Binding r)
  with laws inv show ?thesis by (simp add: handle_client_message_def handle_binding_request_ok)
next
  case (Allocate r)
  then have "request_ok (allocate_request r)"
    using msg by (simp add: message_ok_def request_ok_def allocate_request_def)
  from finish_ok [OF laws(1) msg(1) handle_allocate_request_ok [OF laws inv this]] Allocate show ?thesis
    by (simp add: handle_client_message_def case_prod_unfold)
next
  case (Refresh r)
  then have "request_ok (refresh_request r)"
    using msg by (simp add: message_ok_def request_ok_def refresh_request_def)
  from finish_ok [OF laws(1) msg(1) handle_refresh_request_ok [OF laws(1) inv this]] Refresh show ?thesis
    by (simp add: handle_client_message_def case_prod_unfold)
next
  case (ChannelBind r)
  then have "request_ok (channel_bind_request r)"
    using msg by (simp add: message_ok_def request_ok_def channel_bind_request_def)
  from finish_ok [OF laws(1) msg(1) handle_channel_bind_request_ok [OF laws(1) inv this]] ChannelBind show ?thesis
    by (simp add: handle_client_message_def case_prod_unfold)
next
  case (CreatePermission r)
  then have "request_ok (create_permission_request r)"
    using msg by (simp add: message_ok_def request_ok_def create_permission_request_def)
  from finish_ok [OF laws(1) msg(1) handle_create_permission_request_ok [OF laws(1) inv this]] CreatePermission show ?thesis
    by (simp add: handle_client_message_def case_prod_unfold)
qed

text \<open>Bytes from the network: whatever they are, a decoded channel-data message is readable.\<close>

lemma decoded_readable: "decode E bs = Inr (Inr msg) \<Longrightarrow> readable msg"
proof (cases msg)
  case (ChannelData cd)
  assume "decode E bs = Inr (Inr msg)"
  with ChannelData have "channel_data_parse E bs = Inr cd" by (simp add: decode_channel_data)
  then have "cd_length cd \<le> length (drop HEADER_LEN bs)" "\<not> length bs < HEADER_LEN" "cd_msg cd = bs"
    by (auto simp: channel_data_parse_def Let_def split: if_splits)
  with ChannelData show ?thesis by (simp add: readable_def HEADER_LEN_def)
qed (simp_all add: readable_def)

lemma decoded_error_sendable:
  "stun_laws E \<Longrightarrow> decode E bs = Inr (Inl m) \<Longrightarrow> has_software E m"
  by (auto simp: decode_def stun_dispatch_def allocate_parse_def channel_bind_parse_def
      split: list.splits if_splits sum.splits prod.splits option.splits stun_method.splits
        message_class.splits)

definition input_expiry_ok :: "('msg, 'mi, 'r) relay_env \<Rightarrow> bytes \<Rightarrow> bool" where
  "input_expiry_ok E bs = (case decode E bs of Inr (Inr msg) \<Rightarrow> message_ok msg | _ \<Rightarrow> True)"

lemma handle_client_input_ok:
  assumes laws: "stun_laws E" "draws_all E" and inv: "server_inv s" and bs: "input_expiry_ok E bs"
  shows "input_ok c s (handle_client_input E s bs c now wall)"
proof (cases "decode E bs")
  case (Inl e)
  with inv show ?thesis by (simp add: handle_client_input_def input_ok_def others_kept_core)
next
  case (Inr r)
  show ?thesis
  proof (cases r)
    case err: (Inl m)
    obtain t where t: "send_message E m c s = Done t"
      using send_message_total [OF laws(1) decoded_error_sendable [OF laws(1)]] Inr err by blast
    then have "core t = core s" by (simp add: send_message_core)
    then have "server_inv t" "others_kept c s t" using inv server_inv_cong others_kept_core by blast+
    with t Inr err show ?thesis by (simp add: handle_client_input_def input_ok_def)
  next
    case msg: (Inr msg)
    with Inr bs decoded_readable [of E bs msg] show ?thesis
      by (simp add: handle_client_input_def input_expiry_ok_def handle_client_message_ok [OF laws inv])
  qed
qed

section \<open>The server as a state machine\<close>

text \<open>
  The inputs of the server as its event loop feeds them, and one step of the server. A step that
  panics or loops is no step: it has no successor state.
\<close>

datatype relay_event =
    ClientInput bytes client_socket instant nat
  | PeerTraffic bytes peer_socket allocation_port
  | AllocationFailed allocation_port
  | Timeout instant
  | TakeCommand

primrec relay_handle ::
    "('msg, 'mi, 'r) relay_env \<Rightarrow> 'r server \<Rightarrow> relay_event \<Rightarrow> 'r server outcome" where
  "relay_handle E s (ClientInput bs c now wall) =
     and_then (handle_client_input E s bs c now wall) (\<lambda>(t, r). Done t)"
| "relay_handle E s (PeerTraffic bs p port) = Done (fst (handle_peer_traffic s bs p port))"
| "relay_handle E s (AllocationFailed port) = handle_allocation_failed s port"
| "relay_handle E s (Timeout now) = handle_timeout s now"
| "relay_handle E s TakeCommand = Done (fst (next_command s))"

definition event_ok :: "('msg, 'mi, 'r) relay_env \<Rightarrow> relay_event \<Rightarrow> bool" where
  "event_ok E e = (case e of ClientInput bs c now wall \<Rightarrow> input_expiry_ok E bs | _ \<Rightarrow> True)"

lemma relay_handle_ok:
  assumes laws: "stun_laws E" "draws_all E" and inv: "server_inv s" and e: "event_ok E e"
  shows "\<exists>t. relay_handle E s e = Done t \<and> server_inv t"
proof (cases e)
  case (ClientInput bs c now wall)
  with handle_client_input_ok [OF laws inv, of bs c now wall] e show ?thesis
    by (auto simp: event_ok_def input_ok_def)
next
  case (PeerTraffic bs p port)
  with inv count_relayed_kept(1) [OF inv] show ?thesis
    by (auto simp: handle_peer_traffic_def split: option.splits)
next
  case (AllocationFailed port)
  with delete_allocation_spec [OF inv] show ?thesis by (auto simp: handle_allocation_failed_def)
next
  case (Timeout now)
  with handle_timeout_spec [OF inv, of now] show ?thesis by auto
next
  case TakeCommand
  have "core (fst (next_command s)) = core s"
    by (simp add: next_command_def core_def split: list.splits)
  with TakeCommand inv server_inv_cong show ?thesis by auto
qed

interpretation relay_steps: step_system "relay_handle E" "event_ok E"
    "\<lambda>s. stun_laws E \<and> draws_all E \<and> server_inv s"
  for E :: "('msg, 'mi, 'r) relay_env"
  by unfold_locales (metis relay_handle_ok)

interpretation relay_timer: timer poll_timeout handle_timeout server_inv
proof unfold_locales
  fix s :: "'r server" and now
  assume "server_inv s"
  then show "\<exists>t. handle_timeout s now = Done t \<and> server_inv t"
    using handle_timeout_spec [of s now] by blast
next
  fix s t :: "'r server" and now d
  assume *: "server_inv s" "handle_timeout s now = Done t" "poll_timeout t = Some d"
  have "finite (deadlines t)" by (simp add: deadlines_def)
  with *(3) Min_in [of "deadlines t"] have "d \<in> deadlines t"
    by (auto simp: poll_timeout_Min simp del: Min_in split: if_splits)
  with * show "now < d" using handle_timeout_deadlines by blast
qed

text \<open>The states the server can get into from its start, by well-formed events in any order.\<close>

inductive relay_reachable ::
    "('msg, 'mi, 'r) relay_env \<Rightarrow> 'r server \<Rightarrow> 'r server \<Rightarrow> bool" for E s0 where
  reach_init: "relay_reachable E s0 s0"
| reach_step: "relay_reachable E s0 s \<Longrightarrow> event_ok E e \<Longrightarrow> relay_handle E s e = Done t \<Longrightarrow>
    relay_reachable E s0 t"

inductive_cases relay_reachableE: "relay_reachable E s0 s"

lemma relay_reachable_inv:
  assumes "relay_reachable E s0 s" "stun_laws E" "draws_all E" "server_inv s0"
  shows "server_inv s"
  using assms(1)
proof (induction rule: relay_reachable.induct)
  case (reach_step s e t)
  with assms relay_steps.step_inv [of E s e t] show ?case by simp
qed (rule assms(4))

end
