(* ===== verification/Relay_Sample.thy ===== *)
theory Relay_Sample
  imports Relay_Handlers
begin

text \<open>
  A concrete run of the relay on the environment \<open>sample_env\<close>: a client is refused without
  credentials and told a nonce, allocates a port with them and binds a channel. The states of the
  run are the inputs on which the witnesses of the relay's properties evaluate.
\<close>

lemma sample_after_draws: "after_draws sample_env lo hi k r = r + of_nat k"
  by (induction k arbitrary: r) (simp_all add: sample_env_simps)

lemma ucast_add_u16: "(ucast (r + ucast w :: u128) :: u16) = ucast r + w"
proof -
  have cancel: "x mod 340282366920938463463374607431768211456 mod 65536 = x mod 65536" for x :: int
    by (rule mod_mod_cancel) simp
  show ?thesis
    by transfer (simp add: take_bit_eq_mod cancel mod_simps, metis cancel mod_add_left_eq)
qed

lemma sample_env_draws: "draws_all sample_env"
proof -
  have "\<exists>k. fst (gen_range sample_env (after_draws sample_env lo hi k r) lo hi) = p"
    if "lo \<le> p" "p \<le> hi" for r lo hi p
  proof -
    let ?w = "p - lo - ucast r :: u16"
    have "after_draws sample_env lo hi (unat ?w) r = r + ucast ?w" by (simp add: sample_after_draws)
    then have "fst (gen_range sample_env (after_draws sample_env lo hi (unat ?w) r) lo hi) = p"
      using that by (simp add: sample_env_simps ucast_add_u16)
    then show ?thesis by blast
  qed
  moreover have "lo \<le> hi \<Longrightarrow> lo \<le> fst (gen_range sample_env r lo hi) \<and> fst (gen_range sample_env r lo hi) \<le> hi"
    for r lo hi
    by (simp add: sample_env_simps)
  ultimately show ?thesis by (simp add: draws_all_def)
qed

lemma digit_chars:
  "digit_char 0 = CHR ''0''" "digit_char (Suc 0) = CHR ''1''" "digit_char 1 = CHR ''1''"
  "digit_char 9 = CHR ''9''"
  by code_simp+

text \<open>The definitions a run of the relay unfolds.\<close>

lemmas relay_run_defs =
  server_new_def handle_client_input_def decode_def stun_dispatch_def allocate_parse_def
  channel_bind_parse_def refresh_parse_def get_defs handle_client_message_def
  handle_allocate_request_def handle_channel_bind_request_def handle_refresh_request_def
  allocate_request_def channel_bind_request_def refresh_request_def verify_auth_def
  make_error_response_def error_response_def success_response_def SOFTWARE_def
  send_error_response_def new_nonce_attribute_def add_nonce_def nonces_add_new_def
  handle_nonce_used_def NUM_REQUESTS_def send_message_def push_command_def
  response_class_label_def message_type_label_def message_integrity_verify_def
  split_username_def parse_unsigned_def char_digit_def show_nat.simps digit_chars
  systemtime_from_unix_def from_secs_def as_secs_def generate_password_def format_username_def
  FIREZONE_def max_available_ports_def compute_effective_lifetime_def
  DEFAULT_ALLOCATION_LIFETIME_def MAX_ALLOCATION_LIFETIME_def create_new_allocation_def
  draw_port.simps authenticate_and_send_def authenticated_message_new_def
  allocate_success_message_def refresh_success_response_def socket_addr_new_def
  channel_bind_success_response_def create_channel_binding_def can_relay_to_def
  CHANNEL_BINDING_DURATION_def UDP_TRANSPORT_def Let_def
  hm_insert_def hm_len_def hm_get_def hm_remove_def

lemmas sample_defs = sample_env_simps sample_decode_def sample_uuid_def sample_auth_def sample_peer_def

definition sample_client :: client_socket where
  "sample_client = SockV4 1 1"

definition sample_request :: "(string \<times> string \<times> string) allocate" where
  "sample_request =
     \<lparr>al_transaction_id = 0, al_message_integrity = Some (''9:s'', ''firezone'', ''p''),
      al_requested_transport = 17, al_lifetime = None, al_username = Some ''9:s'',
      al_nonce = Some ''1'', al_requested_address_family = None, al_additional_address_family = None,
      al_software = None\<rparr>"

definition sample_bind :: "(string \<times> string \<times> string) channel_bind" where
  "sample_bind =
     \<lparr>cb_transaction_id = 0, cb_channel_number = 0x4000,
      cb_message_integrity = Some (''9:s'', ''firezone'', ''p''), cb_nonce = Some ''1'',
      cb_xor_peer_address = SockV4 0x0A000001 5000, cb_username = Some ''9:s'', cb_software = None\<rparr>"

definition sample_refresh :: "(string \<times> string \<times> string) refresh" where
  "sample_refresh =
     \<lparr>re_transaction_id = 0, re_message_integrity = Some (''9:s'', ''firezone'', ''p''),
      re_lifetime = Some 0, re_username = Some ''9:s'', re_nonce = Some ''1'', re_software = None\<rparr>"

definition sample_new :: "u128 server" where
  "sample_new = server_new sample_env (Dual 1 2) 0 3478 (49152, 65535)"

definition sample_refused :: "u128 server" where
  "sample_refused =
     \<lparr>public_address = Dual 1 2, allocations = [], clients_by_allocation = [],
      channel_and_client_by_port_and_peer = [], listen_port = 3478, ports = (49152, 65535),
      channels_by_client_and_number = [], channel_numbers_by_client_and_peer = [],
      pending_commands = [SendMessage [4] (SockV4 1 1)], rng = 2, auth_secret = ''kkk'',
      nonces = [(1, 100)], allocations_up_down_counter = 0, data_relayed_counter = 0,
      data_relayed = 0, responses_counter = [(''error'', ''allocate'', Some Unauthorized)]\<rparr>"

definition sample_allocation :: allocation where
  "sample_allocation =
     \<lparr>a_port = 49154, expires_at = 600000000006, first_relay_addr = V4 1, second_relay_addr = None\<rparr>"

definition sample_channel :: channel where
  "sample_channel =
     \<lparr>expiry = 600000000007, peer_address = SockV4 0x0A000001 5000, c_allocation = 49154, bound = True\<rparr>"

definition sample_allocated :: "u128 server" where
  "sample_allocated = sample_refused
     \<lparr>allocations := [(SockV4 1 1, sample_allocation)], clients_by_allocation := [(49154, SockV4 1 1)],
      pending_commands := [SendMessage [4] (SockV4 1 1), CreateAllocation 49154 AF_V4,
        SendMessage [5] (SockV4 1 1)],
      rng := 3, nonces := [(1, 99)], allocations_up_down_counter := 1,
      responses_counter := [(''error'', ''allocate'', Some Unauthorized),
        (''success'', ''allocate'', None)]\<rparr>"

definition sample_bound :: "u128 server" where
  "sample_bound = sample_allocated
     \<lparr>channel_and_client_by_port_and_peer := [((49154, SockV4 0x0A000001 5000), SockV4 1 1, 0x4000)],
      channels_by_client_and_number := [((SockV4 1 1, 0x4000), sample_channel)],
      channel_numbers_by_client_and_peer := [((SockV4 1 1, SockV4 0x0A000001 5000), 0x4000)],
      pending_commands := [SendMessage [4] (SockV4 1 1), CreateAllocation 49154 AF_V4,
        SendMessage [5] (SockV4 1 1), SendMessage [2] (SockV4 1 1)],
      nonces := [(1, 98)],
      responses_counter := [(''error'', ''allocate'', Some Unauthorized),
        (''success'', ''allocate'', None), (''success'', ''channelbind'', None)]\<rparr>"

lemmas sample_states = sample_new_def sample_refused_def sample_allocated_def sample_bound_def
  sample_allocation_def sample_channel_def sample_request_def sample_bind_def sample_refresh_def

lemma sample_step_refused:
  "handle_client_input sample_env sample_new [0] (SockV4 1 1) 5 0 = Done (sample_refused, None)"
  by (simp add: relay_run_defs sample_defs sample_states)

lemma sample_step_allocated:
  "handle_client_input sample_env sample_refused [1] (SockV4 1 1) 6 0 = Done (sample_allocated, None)"
  by (simp add: relay_run_defs sample_defs sample_states)

lemma sample_step_bound:
  "handle_client_input sample_env sample_allocated [3] (SockV4 1 1) 7 0 = Done (sample_bound, None)"
  by (simp add: relay_run_defs sample_defs sample_states)

lemma sample_events_ok:
  "event_ok sample_env (ClientInput [0] c now wall)" "event_ok sample_env (ClientInput [1] c now wall)"
  "event_ok sample_env (ClientInput [3] c now wall)" "event_ok sample_env (Timeout now)"
  by (simp_all add: event_ok_def input_expiry_ok_def message_ok_def expiry_representable_def
      relay_run_defs sample_defs)

lemma sample_reachable:
  "relay_reachable sample_env sample_new sample_new"
  "relay_reachable sample_env sample_new sample_refused"
  "relay_reachable sample_env sample_new sample_allocated"
  "relay_reachable sample_env sample_new sample_bound"
proof -
  show r0: "relay_reachable sample_env sample_new sample_new" by (rule reach_init)
  show r1: "relay_reachable sample_env sample_new sample_refused"
    by (rule reach_step [OF r0 sample_events_ok(1) [of "SockV4 1 1" 5 0]]) (simp add: sample_step_refused)
  show r2: "relay_reachable sample_env sample_new sample_allocated"
    by (rule reach_step [OF r1 sample_events_ok(2) [of "SockV4 1 1" 6 0]]) (simp add: sample_step_allocated)
  show "relay_reachable sample_env sample_new sample_bound"
    by (rule reach_step [OF r2 sample_events_ok(3) [of "SockV4 1 1" 7 0]]) (simp add: sample_step_bound)
qed

lemma sample_inv:
  "server_inv sample_new" "server_inv sample_refused" "server_inv sample_allocated"
  "server_inv sample_bound"
proof -
  have new: "server_inv sample_new" unfolding sample_new_def by (rule server_new_inv)
  note inv = relay_reachable_inv [OF _ sample_env_laws sample_env_draws new]
  show "server_inv sample_new" "server_inv sample_refused" "server_inv sample_allocated"
    "server_inv sample_bound"
    by (rule inv [OF sample_reachable(1)], rule inv [OF sample_reachable(2)],
        rule inv [OF sample_reachable(3)], rule inv [OF sample_reachable(4)])
qed

end
