(* ===== verification/Relay_Properties.thy ===== *)
theory Relay_Properties
  imports Relay_Sample
begin

text \<open>
  The properties of the relay: that it never gets stuck, relays in both directions alike, keeps
  clients apart, acts only for authenticated requests, and what each request and each timeout
  does. Each property is followed by an instance on the run of \<open>Relay_Sample\<close>.
\<close>

section \<open>The server as a whole\<close>

text \<open>
  C3. The relay never panics and never loops: from its start, every sequence of inputs (packets of clients with arbitrary
  bytes, packets of peers, failed allocations, timeouts) is handled to the end, and its five tables agree
  with each other afterwards. Two conditions: the expiry in the user name of a packet is below \<open>2 ^ 63\<close> seconds (what
  happens otherwise is shown below), and the random number generator eventually draws every port of a range.
\<close>

theorem relay_run_total:
  assumes "stun_laws E" "draws_all E" "list_all (event_ok E) es"
  shows "\<exists>t. fold_outcome (\<lambda>e s. relay_handle E s e) es (server_new E addr r port port_range) = Done t
    \<and> server_inv t"
  using assms relay_steps.run_ok [of E "server_new E addr r port port_range" es]
    server_new_inv [of E addr r port port_range] by blast

theorem relay_run_total_witness:
  "\<exists>t. fold_outcome (\<lambda>e s. relay_handle sample_env s e)
      [ClientInput [0] (SockV4 1 1) 5 0, ClientInput [1] (SockV4 1 1) 6 0,
       ClientInput [3] (SockV4 1 1) 7 0, Timeout 600000000007]
      (server_new sample_env (Dual 1 2) 0 3478 (49152, 65535)) = Done t \<and> server_inv t"
  by (rule relay_run_total [OF sample_env_laws sample_env_draws]) (simp add: sample_events_ok)

text \<open>
  C4. In every reachable state the two directions of relaying match: data that client \<open>c\<close> sends on a
  channel goes to peer \<open>p\<close> from port \<open>q\<close> exactly if packets of \<open>p\<close> to \<open>q\<close> go to \<open>c\<close> on that channel.
\<close>

theorem relay_two_way:
  assumes "stun_laws E" "draws_all E"
    and "relay_reachable E (server_new E addr r port port_range) s"
    and "channel_data_data cd = Done d"
  shows "(\<exists>t. handle_channel_data_message s cd c = Done (t, Some (q, p))) \<longleftrightarrow>
    (\<exists>t. handle_peer_traffic s m p q = (t, Some (c, cd_channel cd)))"
proof -
  have "server_inv s" using relay_reachable_inv [OF assms(3,1,2) server_new_inv] .
  from fast_iff [OF this, of q p c "cd_channel cd"] assms(4) show ?thesis
    by (auto simp: handle_channel_data_message_def handle_peer_traffic_def split: option.splits)
qed

theorem relay_two_way_witness:
  "(\<exists>t. handle_channel_data_message sample_bound
      \<lparr>cd_channel = 0x4000, cd_length = 1, cd_msg = [64, 0, 0, 1, 42]\<rparr> sample_client
        = Done (t, Some (49154, sample_peer))) \<and>
   (\<exists>t. handle_peer_traffic sample_bound [42] sample_peer 49154 = (t, Some (sample_client, 0x4000)))"
proof -
  let ?cd = "\<lparr>cd_channel = 0x4000, cd_length = 1, cd_msg = [64, 0, 0, 1, 42]\<rparr>"
  have d: "channel_data_data ?cd = Done [42]" by (simp add: channel_data_data_def HEADER_LEN_def)
  have "\<exists>t. handle_peer_traffic sample_bound [42] sample_peer 49154 = (t, Some (sample_client, 0x4000))"
    by (simp add: handle_peer_traffic_def sample_states sample_peer_def sample_client_def hm_get_def)
  then show ?thesis
    using relay_two_way [OF sample_env_laws sample_env_draws
        sample_reachable(4) [unfolded sample_new_def] d, of sample_client 49154 sample_peer "[42]"]
    by simp
qed

text \<open>
  C10. Clients are kept apart: whatever bytes a client sends, no allocation and no channel of another
  client changes, and neither does where the packets of that client's peers go.
\<close>

theorem relay_isolation:
  fixes E :: "('msg, 'mi, 'r) relay_env"
  assumes "stun_laws E" "draws_all E" "server_inv s" "input_expiry_ok E bs"
    and "handle_client_input E s bs c now wall = Done (t, r)" and "c' \<noteq> c"
  shows "hm_get (allocations t) c' = hm_get (allocations s) c'
    \<and> hm_get (channels_by_client_and_number t) (c', n) = hm_get (channels_by_client_and_number s) (c', n)
    \<and> (snd (handle_peer_traffic t m p q) = Some (c', n)
       \<longleftrightarrow> snd (handle_peer_traffic s m p q) = Some (c', n))"
proof -
  have t: "server_inv t" "others_kept c s t"
    using handle_client_input_ok [OF assms(1-4), of c now wall] assms(5) by (auto simp: input_ok_def)
  then have ch: "allocs t c' = allocs s c'" "chans t (c', n) = chans s (c', n)"
    using assms(6) by (simp_all add: others_kept_def)
  have "snd (handle_peer_traffic u m p q) = Some (c', n) \<longleftrightarrow> fast u (q, p) = Some (c', n)" for u :: "'r server"
    by (auto simp: handle_peer_traffic_def split: option.splits)
  with fast_iff [OF t(1), of q p c' n] fast_iff [OF assms(3), of q p c' n] ch
  show ?thesis by simp
qed

theorem relay_isolation_witness:
  "hm_get (allocations sample_bound) (SockV4 9 9) = None \<and>
   handle_client_input sample_env sample_allocated [3] (SockV4 1 1) 7 0 = Done (sample_bound, None)"
  using relay_isolation [OF sample_env_laws sample_env_draws sample_inv(3) _ sample_step_bound,
      of "SockV4 9 9"] sample_events_ok(3) sample_step_bound
  by (simp add: event_ok_def sample_states hm_get_def)

section \<open>Authentication\<close>

text \<open>The part of a message that carries its credentials.\<close>

primrec message_request :: "'mi client_message \<Rightarrow> 'mi protected_request option" where
  "message_request (ChannelData d) = None"
| "message_request (Binding r) = None"
| "message_request (Allocate r) = Some (allocate_request r)"
| "message_request (Refresh r) = Some (refresh_request r)"
| "message_request (ChannelBind r) = Some (channel_bind_request r)"
| "message_request (CreatePermission r) = Some (create_permission_request r)"

text \<open>
  What it takes to be let in, read off the request and the tables: the user name is an expiry in
  seconds, a colon and a salt; the expiry can be represented and has not passed; the message
  integrity was made with the password that the relay derives from its secret, the expiry and the
  salt; and the nonce was handed out by the relay and has requests left.
\<close>

definition authenticated ::
    "('msg, 'mi, 'r) relay_env \<Rightarrow> 'r server \<Rightarrow> 'mi protected_request \<Rightarrow> nat \<Rightarrow> string \<Rightarrow> bool" where
  "authenticated E s pr wall u \<longleftrightarrow>
     pr_username pr = Some u \<and>
     (\<exists>digits expiry salt mi.
        u = digits @ CHR '':'' # salt \<and> CHR '':'' \<notin> set digits \<and> CHR '':'' \<notin> set salt \<and>
        parse_unsigned 64 digits = Some expiry \<and> expiry < 2 ^ 63 \<and> wall \<le> from_secs expiry \<and>
        username_ok E (show_nat expiry @ '':'' @ salt) \<and>
        pr_message_integrity pr = Some mi \<and>
        check_long_term_credential E mi (show_nat expiry @ '':'' @ salt) ''firezone''
          (base64 E (sha256 E (show_nat expiry @ '':'' @ auth_secret s @ '':'' @ salt)))) \<and>
     (\<exists>nonce uuid k. pr_nonce pr = Some nonce \<and> parse_uuid E nonce = Some uuid \<and>
        hm_get (nonces s) uuid = Some k \<and> 0 < k)"

lemma split_username_iff:
  "split_username u = Inr (e, salt) \<longleftrightarrow>
     (\<exists>digits. u = digits @ CHR '':'' # salt \<and> CHR '':'' \<notin> set digits \<and> CHR '':'' \<notin> set salt \<and>
        parse_unsigned 64 digits = Some e)"
proof
  assume "split_username u = Inr (e, salt)"
  then obtain digits where "split_on (CHR '':'') u = [digits, salt]" "parse_unsigned 64 digits = Some e"
    by (auto simp: split_username_def split: list.splits option.splits)
  then show "\<exists>digits. u = digits @ CHR '':'' # salt \<and> CHR '':'' \<notin> set digits \<and> CHR '':'' \<notin> set salt \<and>
      parse_unsigned 64 digits = Some e"
    by (auto simp: split_on_two)
next
  assume "\<exists>digits. u = digits @ CHR '':'' # salt \<and> CHR '':'' \<notin> set digits \<and> CHR '':'' \<notin> set salt \<and>
    parse_unsigned 64 digits = Some e"
  then obtain digits where d: "u = digits @ CHR '':'' # salt" "CHR '':'' \<notin> set digits" "CHR '':'' \<notin> set salt"
    "parse_unsigned 64 digits = Some e" by blast
  then have "split_on (CHR '':'') u = [digits, salt]" by (simp add: split_on_two)
  with d(4) show "split_username u = Inr (e, salt)" by (simp add: split_username_def)
qed

lemma message_integrity_verify_iff:
  "message_integrity_verify E mi secret u now = Done (Inr ()) \<longleftrightarrow>
     (\<exists>digits expiry salt.
        u = digits @ CHR '':'' # salt \<and> CHR '':'' \<notin> set digits \<and> CHR '':'' \<notin> set salt \<and>
        parse_unsigned 64 digits = Some expiry \<and> expiry < 2 ^ 63 \<and> now \<le> from_secs expiry \<and>
        username_ok E (show_nat expiry @ '':'' @ salt) \<and>
        check_long_term_credential E mi (show_nat expiry @ '':'' @ salt) ''firezone''
          (base64 E (sha256 E (show_nat expiry @ '':'' @ secret @ '':'' @ salt))))"
proof -
  have "message_integrity_verify E mi secret u now = Done (Inr ()) \<longleftrightarrow>
     (\<exists>expiry salt. split_username u = Inr (expiry, salt) \<and> expiry < 2 ^ 63 \<and> now \<le> from_secs expiry \<and>
        username_ok E (show_nat expiry @ '':'' @ salt) \<and>
        check_long_term_credential E mi (show_nat expiry @ '':'' @ salt) ''firezone''
          (base64 E (sha256 E (show_nat expiry @ '':'' @ secret @ '':'' @ salt))))"
    by (auto simp: message_integrity_verify_def Let_def systemtime_from_unix_def format_username_def FIREZONE_def
        generate_password_def not_less split: sum.splits)
  then show ?thesis unfolding split_username_iff by blast
qed

lemma authenticated_verify:
  "authenticated E s pr wall u \<longleftrightarrow>
     pr_username pr = Some u \<and>
     (\<exists>mi. pr_message_integrity pr = Some mi \<and>
        message_integrity_verify E mi (auth_secret s) u wall = Done (Inr ())) \<and>
     (\<exists>nonce uuid k. pr_nonce pr = Some nonce \<and> parse_uuid E nonce = Some uuid \<and>
        hm_get (nonces s) uuid = Some k \<and> k \<noteq> 0)"
  unfolding authenticated_def message_integrity_verify_iff word_neq_0_conv [symmetric] by blast

lemma verify_auth_Inr:
  "verify_auth E s pr wall = Done (t, Inr u) \<Longrightarrow> authenticated E s pr wall u"
  unfolding verify_auth_def authenticated_verify handle_nonce_used_def Let_def
  by (auto elim!: and_then_DoneE split: option.splits sum.splits prod.splits if_splits)

lemma verify_auth_authenticated:
  "authenticated E s pr wall u \<Longrightarrow> \<exists>ns. verify_auth E s pr wall = Done (s\<lparr>nonces := ns\<rparr>, Inr u)"
  unfolding verify_auth_def authenticated_verify handle_nonce_used_def Let_def by auto

lemma unauthenticated_core:
  assumes "and_then (verify_auth E s pr wall) (\<lambda>(t, auth).
      case auth of Inl e \<Rightarrow> Done (t, Inl e) | Inr u \<Rightarrow> f t u) = Done (t, r)"
    and "core t \<noteq> core s"
  shows "\<exists>u. authenticated E s pr wall u"
  using assms verify_auth_core [of E s pr wall] verify_auth_Inr [of E s pr wall]
  by (fastforce elim!: and_then_DoneE split: sum.splits)

lemma handlers_require_auth:
  "handle_allocate_request E s al c now wall = Done (t, r) \<Longrightarrow> core t \<noteq> core s \<Longrightarrow>
     \<exists>u. authenticated E s (allocate_request al) wall u"
  "handle_refresh_request E s re c now wall = Done (t, r) \<Longrightarrow> core t \<noteq> core s \<Longrightarrow>
     \<exists>u. authenticated E s (refresh_request re) wall u"
  "handle_channel_bind_request E s cb c now wall = Done (t, r) \<Longrightarrow> core t \<noteq> core s \<Longrightarrow>
     \<exists>u. authenticated E s (channel_bind_request cb) wall u"
  "handle_create_permission_request E s cp c wall = Done (t, r) \<Longrightarrow> core t \<noteq> core s \<Longrightarrow>
     \<exists>u. authenticated E s (create_permission_request cp) wall u"
  unfolding handle_allocate_request_def handle_refresh_request_def handle_channel_bind_request_def
    handle_create_permission_request_def Let_def
  by (erule (1) unauthenticated_core)+

lemma finish_core:
  assumes "and_then res (\<lambda>(t1, r). case r of Inr u \<Rightarrow> Done (t1, None)
    | Inl e \<Rightarrow> and_then (send_error_response E t1 msg e c) (\<lambda>s2. Done (s2, None))) = Done (t, x)"
  obtains t1 r where "res = Done (t1, r)" "core t1 = core t"
  using assms by (auto elim!: and_then_DoneE dest!: send_error_response_core split: sum.splits)

text \<open>
  C9. Only authenticated requests change an allocation or a channel: a message after which the tables
  differ is a request whose message integrity was made with the password for its user name, a hash
  over the relay secret, the expiry and the salt; whose expiry has not passed; and whose nonce is one
  the relay handed out that still has requests left.
\<close>

theorem relay_requires_auth:
  assumes "handle_client_message E s msg c now wall = Done (t, res)" and "core t \<noteq> core s"
  shows "\<exists>pr u. message_request msg = Some pr \<and> authenticated E s pr wall u"
proof (cases msg)
  case (ChannelData cd)
  with assms show ?thesis
    by (auto simp: handle_client_message_def handle_channel_data_message_def
        elim!: and_then_DoneE split: option.splits if_splits)
next
  case (Binding b)
  with assms show ?thesis
    by (auto simp: handle_client_message_def handle_binding_request_def
        elim!: and_then_DoneE dest!: send_message_core)
qed (use assms in \<open>auto simp: handle_client_message_def elim!: finish_core\<close>,
      (metis handlers_require_auth)+)

theorem relay_requires_auth_witness:
  "\<exists>pr u. message_request (Allocate sample_request) = Some pr \<and> authenticated sample_env sample_refused pr 0 u"
proof (rule relay_requires_auth)
  show "handle_client_message sample_env sample_refused (Allocate sample_request) (SockV4 1 1) 6 0 = Done (sample_allocated, None)"
    by (simp add: relay_run_defs sample_defs sample_states)
  show "core sample_allocated \<noteq> core sample_refused"
    by (simp add: core_def sample_states)
qed


text \<open>
  C33. A nonce admits ten times as many requests as the comment of \<^verbatim>\<open>add_nonce\<close> says
  (\<^verbatim>\<open>src/rust/relay/src/server.rs\<close>, line 227: ``Each nonce is valid for 10 requests''): of the
  requests that present a fresh nonce in a row, the first hundred pass, the next one is told that the
  nonce is used up, and all later ones that it is unknown. The comment or the constant is wrong.
\<close>

theorem nonce_quota:
  "repeat_use handle_nonce_used (nonces_add_new ns k) k (101 + i)
     = replicate 100 (Inr ()) @ Inl NonceUsedUp # replicate i (Inl UnknownNonce)"
  using relay_nonces.uses_after_add [of ns k i] by simp

text \<open>
  What the credential mechanism of the STUN library promises: a message integrity made with some
  credentials passes the check with the same credentials.
\<close>

definition credential_laws :: "('msg, 'mi, 'r) relay_env \<Rightarrow> bool" where
  "credential_laws E \<longleftrightarrow>
     (\<forall>m u v p mi. new_long_term_credential E m u v p = Some mi \<longrightarrow> check_long_term_credential E mi u v p)"

lemma sample_credential_laws: "credential_laws sample_env"
  by (simp add: credential_laws_def sample_env_simps)

text \<open>
  C32. A client that knows the relay secret is let in: the allocate request built by
  \<^verbatim>\<open>new_authenticated_udp_implicit_ip4\<close> for an unexpired user name and a nonce with requests left
  passes \<^verbatim>\<open>verify_auth\<close>, which takes one request off the nonce and nothing else.
\<close>

theorem constructed_request_authenticates:
  assumes "credential_laws E" "value_laws E" "e < 2 ^ 63" "CHR '':'' \<notin> set salt"
    and "username_ok E (format_username e salt)" "wall \<le> from_secs e"
    and "hm_get (nonces s) uuid = Some k" "k \<noteq> 0"
    and "allocate_new_authenticated_udp_implicit_ip4 E tid lifetime (format_username e salt)
           (auth_secret s) uuid = Done (Some request)"
  shows "verify_auth E s (allocate_request request) wall
    = Done (s\<lparr>nonces := hm_insert uuid (k - 1) (nonces s)\<rparr>, Inr (format_username e salt))"
proof -
  let ?u = "format_username e salt"
  have split: "split_username ?u = Inr (e, salt)"
    using assms(3,4) by (intro split_format_username) simp_all
  from assms(9) split obtain m mi where mi: "al_message_integrity request = Some mi"
      "new_long_term_credential E m ?u FIREZONE
         (generate_password E (auth_secret s) (from_secs e) salt) = Some mi"
    and rest: "al_username request = Some ?u" "al_nonce request = Some (show_uuid E uuid)"
    by (auto simp: allocate_new_authenticated_udp_implicit_ip4_def allocate_new_authenticated_def
        allocate_make_attributes_def sign_request_def Let_def elim!: and_then_DoneE
        split: if_splits option.splits)
  from mi(2) assms(1) have "check_long_term_credential E mi ?u FIREZONE
      (generate_password E (auth_secret s) (from_secs e) salt)"
    by (simp add: credential_laws_def)
  with split assms(3,5,6) have "message_integrity_verify E mi (auth_secret s) ?u wall = Done (Inr ())"
    by (simp add: message_integrity_verify_def systemtime_from_unix_def Let_def)
  with mi(1) rest assms(2,7,8) show ?thesis
    by (simp add: verify_auth_def allocate_request_def handle_nonce_used_def value_laws_def)
qed

theorem constructed_request_authenticates_witness:
  "verify_auth sample_env sample_refused (allocate_request sample_request) 0
     = Done (sample_refused\<lparr>nonces := [(1, 99)]\<rparr>, Inr ''9:s'')"
proof -
  have name: "format_username 9 ''s'' = ''9:s''"
    by (simp add: format_username_def show_nat.simps digit_chars)
  have "allocate_new_authenticated_udp_implicit_ip4 sample_env 0 None (format_username 9 ''s'')
      (auth_secret sample_refused) 1 = Done (Some sample_request)"
    unfolding name
    by (simp add: allocate_new_authenticated_udp_implicit_ip4_def allocate_new_authenticated_def
        allocate_make_attributes_def sign_request_def add_optional_def relay_run_defs sample_defs
        sample_states)
  then have "verify_auth sample_env sample_refused (allocate_request sample_request) 0 =
      Done (sample_refused\<lparr>nonces := hm_insert 1 (100 - 1) (nonces sample_refused)\<rparr>,
        Inr (format_username 9 ''s''))"
    by (intro constructed_request_authenticates [OF sample_credential_laws])
      (simp_all add: stun_lawsD(2) [OF sample_env_laws] name sample_env_simps sample_states hm_get_def)
  then show ?thesis by (simp add: name sample_states hm_insert_def)
qed

text \<open>
  C38. A user name whose expiry does not fit the platform's clock (at least \<open>2 ^ 63\<close> seconds) brings
  the relay down: an allocate request that carries it panics, whether or not the sender knows any
  credentials, since already the error response is built from the user name.
\<close>

theorem unrepresentable_expiry_panics:
  assumes "stun_laws E" "2 ^ 63 \<le> e" "e < 2 ^ 64" "CHR '':'' \<notin> set salt"
    and "al_username request = Some (format_username e salt)"
    and "al_message_integrity request = None"
  shows "handle_client_message E s (Allocate request) c now wall = Panicked"
proof -
  let ?e = "make_error_response E Unauthorized (allocate_request request)"
  note laws = container_lawsD(1,2) [OF stun_lawsD(1) [OF assms(1)]]
  have code: "get_error_code E ?e = Some Unauthorized"
    by (simp add: make_error_response_def error_response_def get_error_code_def laws)
  have "authenticated_message_new E sec (format_username e salt) m = Panicked" for sec m
    using assms(2-4) by (simp add: authenticated_message_new_def split_format_username
        systemtime_from_unix_def)
  moreover obtain t n where "new_nonce_attribute E s = Done (t, n)"
    using new_nonce_attribute_total [OF assms(1)] by blast
  ultimately have "send_error_response E s (Allocate request) ?e c = Panicked"
    using code assms(5) by (simp add: send_error_response_def)
  with assms(6) show ?thesis
    by (simp add: handle_client_message_def handle_allocate_request_def verify_auth_def Let_def
        allocate_request_def)
qed

theorem unrepresentable_expiry_panics_witness:
  "handle_client_message sample_env sample_new (Allocate \<lparr>al_transaction_id = 0,
     al_message_integrity = None, al_requested_transport = 17, al_lifetime = None,
     al_username = Some (format_username (2 ^ 63) ''x''), al_nonce = None,
     al_requested_address_family = None, al_additional_address_family = None, al_software = None\<rparr>)
     (SockV4 1 1) 5 0 = Panicked"
  by (rule unrepresentable_expiry_panics [OF sample_env_laws]) simp_all

section \<open>Requests\<close>

lemma delete_allocation_commands:
  assumes "delete_allocation s port = Done t" "clients s port = Some c" "allocs s c = Some a"
  shows "pending_commands t = pending_commands s @
      FreeAllocation (a_port a) (ip_family (first_relay_addr a)) #
      (case second_relay_addr a of None \<Rightarrow> [] | Some b \<Rightarrow> [FreeAllocation (a_port a) (ip_family b)])"
  using assms by (auto simp: delete_allocation_def push_command_def Let_def elim!: and_then_DoneE
      split: option.splits)

lemma send_message_commands:
  "send_message E m c s = Done t \<Longrightarrow> \<exists>bs. pending_commands t = pending_commands s @ [SendMessage bs c]"
  by (auto simp: send_message_def push_command_def Let_def elim!: and_then_DoneE split: option.splits)

lemma authenticate_and_send_commands:
  "authenticate_and_send E u pr m c s = Done t \<Longrightarrow>
     \<exists>bs. pending_commands t = pending_commands s @ [SendMessage bs c]"
  unfolding authenticate_and_send_def
  by (auto elim!: and_then_DoneE dest!: send_message_commands split: sum.splits)

text \<open>
  C29. A granted allocation: an authenticated allocate request of a client without one, when ports are
  left and the requested address family is available, succeeds. The client then owns a port of the
  configured range that nobody owned before, on the addresses \<^verbatim>\<open>derive_relay_addresses\<close> chose, for at
  most an hour; the event loop is told to open that port, and a reply is queued after that.
\<close>

theorem allocate_grants:
  assumes "stun_laws E" "draws_all E" "server_inv s"
    and "authenticated E s (allocate_request request) wall u" "expiry_representable u"
    and "hm_get (allocations s) c = None" "hm_len (allocations s) < unat (max_available_ports s)"
    and "al_requested_transport request = UDP_TRANSPORT"
    and "derive_relay_addresses (public_address s) (al_requested_address_family request)
           (al_additional_address_family request) = Inr (first, second)"
  shows "\<exists>t a reply. handle_allocate_request E s request c now wall = Done (t, Inr ())
    \<and> hm_get (allocations t) c = Some a \<and> hm_get (clients_by_allocation t) (a_port a) = Some c
    \<and> hm_get (clients_by_allocation s) (a_port a) = None
    \<and> fst (ports s) \<le> a_port a \<and> a_port a \<le> snd (ports s)
    \<and> first_relay_addr a = first \<and> second_relay_addr a = second
    \<and> now \<le> expires_at a \<and> expires_at a \<le> now + from_secs 3600
    \<and> pending_commands t = pending_commands s @ CreateAllocation (a_port a) (ip_family first) #
        (case second of None \<Rightarrow> [] | Some b \<Rightarrow> [CreateAllocation (a_port a) (ip_family b)]) @
        [SendMessage reply c]"
proof -
  obtain ns where v: "verify_auth E s (allocate_request request) wall = Done (s\<lparr>nonces := ns\<rparr>, Inr u)"
    using verify_auth_authenticated [OF assms(4)] by blast
  let ?s = "s\<lparr>nonces := ns\<rparr>"
  have inv: "server_inv ?s" using assms(3) server_inv_cong [of ?s s] by simp
  obtain d where d: "compute_effective_lifetime E (al_lifetime request) = Done d" "d \<le> from_secs 3600"
    using effective_lifetime_total [OF stun_lawsD(2) [OF assms(1)]] effective_lifetime_bound
      MAX_ALLOCATION_LIFETIME_def by metis
  have room: "hm_len (clients_by_allocation ?s) < unat (max_available_ports ?s)"
    using assms(7) len_clients [OF assms(3)] by (simp add: max_available_ports_def)
  obtain r' port where c: "create_new_allocation E ?s now d first second
      = Done (?s\<lparr>rng := r'\<rparr>, \<lparr>a_port = port, expires_at = now + d,
          first_relay_addr = first, second_relay_addr = second\<rparr>)"
    "fst (ports s) \<le> port" "port \<le> snd (ports s)" "clients s port = None"
    using create_new_allocation_spec [OF inv assms(2) room, of now d first second] by auto
  let ?a = "\<lparr>a_port = port, expires_at = now + d, first_relay_addr = first, second_relay_addr = second\<rparr>"
  let ?s2 = "push_command (CreateAllocation port (ip_family first)) (?s\<lparr>rng := r'\<rparr>)"
  let ?s3 = "case second of None \<Rightarrow> ?s2 | Some b \<Rightarrow> push_command (CreateAllocation port (ip_family b)) ?s2"
  let ?m = "allocate_success_message E (al_transaction_id request) port first second c d"
  obtain t where t: "authenticate_and_send E u (allocate_request request) ?m c ?s3 = Done t"
    using authenticate_and_send_total [OF assms(1) has_software_response(8) [OF assms(1)] assms(5)] by blast
  from authenticate_and_send_commands [OF t] obtain reply where
    reply: "pending_commands t = pending_commands ?s3 @ [SendMessage reply c]" by blast
  have "handle_allocate_request E s request c now wall = Done (add_allocation c ?a t, Inr ())"
    using v d(1) c(1) t room assms(6,8,9)
    by (cases second) (simp_all add: handle_allocate_request_def add_allocation_def Let_def)
  then show ?thesis
    using c(2-4) d(2) reply
    by (intro exI [of _ "add_allocation c ?a t"] exI [of _ ?a] exI [of _ reply])
      (simp add: add_allocation_def push_command_def split: option.splits)
qed

lemma sample_authenticated:
  "authenticated sample_env sample_refused (allocate_request sample_request) 0 ''9:s''"
  "authenticated sample_env sample_allocated (channel_bind_request sample_bind) 0 ''9:s''"
  "authenticated sample_env sample_bound (refresh_request sample_refresh) 0 ''9:s''"
  "expiry_representable ''9:s''"
  by (simp_all add: authenticated_verify expiry_representable_def relay_run_defs sample_defs sample_states)

theorem allocate_grants_witness:
  "\<exists>t a. handle_allocate_request sample_env sample_refused sample_request (SockV4 1 1) 6 0 = Done (t, Inr ())
    \<and> hm_get (allocations t) (SockV4 1 1) = Some a \<and> 49152 \<le> a_port a \<and> first_relay_addr a = V4 1"
proof -
  have pre: "hm_get (allocations sample_refused) (SockV4 1 1) = None"
    "hm_len (allocations sample_refused) < unat (max_available_ports sample_refused)"
    "al_requested_transport sample_request = UDP_TRANSPORT"
    "derive_relay_addresses (public_address sample_refused) (al_requested_address_family sample_request)
       (al_additional_address_family sample_request) = Inr (V4 1, None)"
    "fst (ports sample_refused) = 49152"
    by (simp_all add: sample_states UDP_TRANSPORT_def max_available_ports_def hm_get_def hm_len_def)
  from allocate_grants [OF sample_env_laws sample_env_draws sample_inv(2) sample_authenticated(1,4)
      pre(1-4), of 6] pre(5) show ?thesis by auto
qed

text \<open>
  C30. A bound channel carries data at once and in both directions: after an authenticated request of
  a client with an allocation to bind a free channel number to a peer that the allocation can reach
  and that has no channel yet, packets of the peer to the allocation's port go to the client on the
  channel, and data of the client on the channel goes to the peer from that port.
\<close>

theorem channel_bind_connects:
  assumes "stun_laws E" "server_inv s"
    and "authenticated E s (channel_bind_request request) wall u" "expiry_representable u"
    and "hm_get (allocations s) c = Some a" "can_relay_to a (cb_xor_peer_address request)"
    and "hm_get (channels_by_client_and_number s) (c, cb_channel_number request) = None"
    and "hm_get (channel_numbers_by_client_and_peer s) (c, cb_xor_peer_address request) = None"
    and "cd_channel cd = cb_channel_number request" "channel_data_data cd = Done d"
  shows "\<exists>t. handle_channel_bind_request E s request c now wall = Done (t, Inr ())
    \<and> handle_peer_traffic t m (cb_xor_peer_address request) (a_port a)
       = (count_relayed (length m) t, Some (c, cb_channel_number request))
    \<and> handle_channel_data_message t cd c
       = Done (count_relayed (length d) t, Some (a_port a, cb_xor_peer_address request))"
proof -
  obtain ns where v: "verify_auth E s (channel_bind_request request) wall = Done (s\<lparr>nonces := ns\<rparr>, Inr u)"
    using verify_auth_authenticated [OF assms(3)] by blast
  let ?s = "s\<lparr>nonces := ns\<rparr>" and ?p = "cb_xor_peer_address request" and ?n = "cb_channel_number request"
  have inv: "server_inv ?s" using assms(2) server_inv_cong [of ?s s] by simp
  let ?t = "put_channel c ?n \<lparr>expiry = now + CHANNEL_BINDING_DURATION, peer_address = ?p,
        c_allocation = a_port a, bound = True\<rparr> ?s"
  have b: "create_channel_binding ?s c ?n ?p (a_port a) now = Done ?t"
    using create_channel_binding_spec [OF inv, of c a ?p ?n] assms(5-8) by simp
  obtain t where t: "authenticate_and_send E u (channel_bind_request request)
      (channel_bind_success_response E (cb_transaction_id request)) c ?t = Done t"
    using authenticate_and_send_total [OF assms(1) has_software_response(6) [OF assms(1)] assms(4)] by blast
  from authenticate_and_send_core [OF t] have tables: "core t = core ?t" by simp
  have "handle_channel_bind_request E s request c now wall = Done (t, Inr ())"
    using v b t assms(5-8) by (simp add: handle_channel_bind_request_def Let_def)
  then show ?thesis
    using coreD [OF tables] assms(9,10)
    by (simp add: handle_peer_traffic_def handle_channel_data_message_def put_channel_def)
qed

theorem channel_bind_connects_witness:
  "\<exists>t. handle_channel_bind_request sample_env sample_allocated sample_bind (SockV4 1 1) 7 0 = Done (t, Inr ())
    \<and> handle_peer_traffic t [42] (SockV4 0x0A000001 5000) 49154
       = (count_relayed 1 t, Some (SockV4 1 1, 0x4000))"
proof -
  let ?cd = "\<lparr>cd_channel = 0x4000, cd_length = 0, cd_msg = [64, 0, 0, 0]\<rparr>"
  have pre: "hm_get (allocations sample_allocated) (SockV4 1 1) = Some sample_allocation"
    "can_relay_to sample_allocation (cb_xor_peer_address sample_bind)"
    "hm_get (channels_by_client_and_number sample_allocated) (SockV4 1 1, cb_channel_number sample_bind) = None"
    "hm_get (channel_numbers_by_client_and_peer sample_allocated)
       (SockV4 1 1, cb_xor_peer_address sample_bind) = None"
    "cd_channel ?cd = cb_channel_number sample_bind" "channel_data_data ?cd = Done []"
    by (simp_all add: sample_states hm_get_def can_relay_to_def channel_data_data_def HEADER_LEN_def)
  have sel: "cb_xor_peer_address sample_bind = SockV4 0x0A000001 5000"
    "cb_channel_number sample_bind = 0x4000" "a_port sample_allocation = 49154"
    by (simp_all add: sample_states)
  from channel_bind_connects [OF sample_env_laws sample_inv(3) sample_authenticated(2,4) pre, of 7 "[42]"]
  show ?thesis unfolding sel by auto
qed

text \<open>
  Giving an allocation up: an authenticated refresh with lifetime zero frees the client's
  allocation, drops all its channels, tells the event loop to close the port in each address family
  the allocation has, and queues the reply after that.
\<close>

theorem refresh_zero_frees:
  assumes "stun_laws E" "server_inv s"
    and "authenticated E s (refresh_request request) wall u" "expiry_representable u"
    and "hm_get (allocations s) c = Some a" "re_lifetime request = Some 0"
  shows "\<exists>t reply. handle_refresh_request E s request c now wall = Done (t, Inr ())
    \<and> hm_get (allocations t) c = None \<and> hm_get (clients_by_allocation t) (a_port a) = None
    \<and> (\<forall>n. hm_get (channels_by_client_and_number t) (c, n) = None)
    \<and> snd (handle_peer_traffic t m p (a_port a)) = None
    \<and> pending_commands t = pending_commands s @ FreeAllocation (a_port a) (ip_family (first_relay_addr a)) #
        (case second_relay_addr a of None \<Rightarrow> [] | Some b \<Rightarrow> [FreeAllocation (a_port a) (ip_family b)]) @
        [SendMessage reply c]"
proof -
  obtain ns where v: "verify_auth E s (refresh_request request) wall = Done (s\<lparr>nonces := ns\<rparr>, Inr u)"
    using verify_auth_authenticated [OF assms(3)] by blast
  let ?s = "s\<lparr>nonces := ns\<rparr>"
  have inv: "server_inv ?s" using assms(2) server_inv_cong [of ?s s] by simp
  have a: "allocs ?s c = Some a" using assms(5) by simp
  obtain t1 where t1: "delete_allocation ?s (a_port a) = Done t1" "server_inv t1"
    "allocation_deleted (a_port a) ?s t1"
    using delete_allocation_spec [OF inv] by blast
  have cmds: "pending_commands t1 = pending_commands s @
      FreeAllocation (a_port a) (ip_family (first_relay_addr a)) #
      (case second_relay_addr a of None \<Rightarrow> [] | Some b \<Rightarrow> [FreeAllocation (a_port a) (ip_family b)])"
    using delete_allocation_commands [OF t1(1) alloc_client [OF inv a] a] by simp
  obtain t where t: "authenticate_and_send E u (refresh_request request)
      (refresh_success_response E 0 (re_transaction_id request)) c t1 = Done t"
    using authenticate_and_send_total [OF assms(1) has_software_response(5) [OF assms(1)] assms(4)] by blast
  have core: "core t = core t1" using authenticate_and_send_core [OF t] by simp
  obtain reply where reply: "pending_commands t = pending_commands t1 @ [SendMessage reply c]"
    using authenticate_and_send_commands [OF t] by blast
  have "handle_refresh_request E s request c now wall = Done (t, Inr ())"
    using v t1(1) t assms(5,6) effective_lifetime_total [OF stun_lawsD(2) [OF assms(1)]]
    by (simp add: handle_refresh_request_def Let_def)
  moreover have gone: "allocs t1 c = None" using t1(3) alloc_client [OF inv a] by (simp add: allocation_deleted_def)
  moreover have free: "clients t1 (a_port a) = None"
  proof (rule ccontr)
    assume "clients t1 (a_port a) \<noteq> None"
    then obtain c' a' where a': "allocs t1 c' = Some a'" "a_port a' = a_port a"
      using client_alloc [OF t1(2)] by blast
    with t1(3) have "allocs ?s c' = Some a'" "clients ?s (a_port a) \<noteq> Some c'"
      by (auto simp: allocation_deleted_def split: if_splits)
    with alloc_client [OF inv, of c' a'] a'(2) show False by simp
  qed
  moreover have "chans t1 (c, n) = None" for n
    using chan_alloc [OF t1(2), of c n] gone by (cases "chans t1 (c, n)") auto
  moreover have "fast t1 (a_port a, p) = None"
  proof (rule ccontr)
    assume "fast t1 (a_port a, p) \<noteq> None"
    then obtain c' n ch where "chans t1 (c', n) = Some ch" "c_allocation ch = a_port a"
      using fast_iff [OF t1(2), of "a_port a" p] by fastforce
    with chan_port_client [OF t1(2)] free show False by fastforce
  qed
  ultimately show ?thesis
    using coreD [OF core] reply cmds by (auto simp: handle_peer_traffic_def)
qed

theorem refresh_zero_frees_witness:
  "\<exists>t. handle_refresh_request sample_env sample_bound sample_refresh (SockV4 1 1) 8 0 = Done (t, Inr ())
    \<and> hm_get (allocations t) (SockV4 1 1) = None
    \<and> hm_get (channels_by_client_and_number t) (SockV4 1 1, 0x4000) = None"
proof -
  have pre: "hm_get (allocations sample_bound) (SockV4 1 1) = Some sample_allocation"
    "re_lifetime sample_refresh = Some 0"
    by (simp_all add: sample_states hm_get_def)
  from refresh_zero_frees [OF sample_env_laws sample_inv(4) sample_authenticated(3,4) pre, of 8]
  show ?thesis by blast
qed

text \<open>
  C36. A relay configured with all 65536 ports hands out none of them: the number of ports is cast to
  16 bits, where it is zero, so every authenticated allocate request is refused for lack of capacity.
\<close>

theorem full_port_range_refuses:
  assumes "server_inv s" "ports s = (0, 0xFFFF)"
    and "authenticated E s (allocate_request request) wall u" "hm_get (allocations s) c = None"
  shows "\<exists>t. handle_allocate_request E s request c now wall
    = Done (t, Inl (make_error_response E InsufficientCapacity (allocate_request request)))"
proof -
  obtain ns where v: "verify_auth E s (allocate_request request) wall = Done (s\<lparr>nonces := ns\<rparr>, Inr u)"
    using verify_auth_authenticated [OF assms(3)] by blast
  have zero: "unat (max_available_ports s) = 0" using assms(2) by (simp add: max_available_ports_def)
  then have "hm_len (clients_by_allocation s) = 0"
    using server_invD(6) [OF assms(1)] len_clients [OF assms(1)] by (simp add: counter_ok_def)
  with v zero assms(2,4) show ?thesis
    by (simp add: handle_allocate_request_def max_available_ports_def Let_def)
qed

theorem full_port_range_refuses_witness:
  "\<exists>t. handle_allocate_request sample_env (sample_refused\<lparr>ports := (0, 0xFFFF)\<rparr>) sample_request
      (SockV4 1 1) 6 0
    = Done (t, Inl (make_error_response sample_env InsufficientCapacity (allocate_request sample_request)))"
proof (rule full_port_range_refuses)
  show "authenticated sample_env (sample_refused\<lparr>ports := (0, 0xFFFF)\<rparr>) (allocate_request sample_request) 0 ''9:s''"
    using sample_authenticated(1) by (simp add: authenticated_verify)
qed (simp_all add: sample_states server_inv_def inv_defs hm_get_def)

section \<open>Time\<close>

text \<open>
  C28. What a timeout does: exactly the allocations whose lifetime is over disappear; a channel
  disappears with the allocation of its client or when its rebind period is over, and is unbound
  when its binding is over; nothing else changes in these two tables.
\<close>

theorem handle_timeout_exact:
  assumes "server_inv s"
  shows "\<exists>t. handle_timeout s now = Done t
    \<and> (\<forall>c a. hm_get (allocations t) c = Some a \<longleftrightarrow> hm_get (allocations s) c = Some a \<and> now < expires_at a)
    \<and> (\<forall>c n ch. hm_get (channels_by_client_and_number t) (c, n) = Some ch \<longleftrightarrow>
        (\<exists>a old. hm_get (allocations s) c = Some a \<and> now < expires_at a
           \<and> hm_get (channels_by_client_and_number s) (c, n) = Some old
           \<and> now < expiry old + CHANNEL_REBIND_TIMEOUT
           \<and> ch = old\<lparr>bound := bound old \<and> now < expiry old\<rparr>))"
proof -
  obtain t where t: "handle_timeout s now = Done t"
    "\<forall>c. allocs t c = surviving (\<lambda>a. \<not> allocation_is_expired a now) (allocs s c)"
    "\<forall>k. chans t k = channel_after now s k"
    using handle_timeout_spec [OF assms, of now] by blast
  have expire: "expire now old = old\<lparr>bound := bound old \<and> now < expiry old\<rparr>" for old
    by (cases old) (auto simp: expire_def channel_is_expired_def)
  have "chans t (c, n) = Some ch \<longleftrightarrow>
        (\<exists>a old. allocs s c = Some a \<and> now < expires_at a \<and> chans s (c, n) = Some old
           \<and> now < expiry old + CHANNEL_REBIND_TIMEOUT
           \<and> ch = old\<lparr>bound := bound old \<and> now < expiry old\<rparr>)" for c n ch
  proof (cases "chans s (c, n)")
    case (Some old)
    then obtain a where "allocs s c = Some a" using chan_alloc [OF assms] by blast
    with Some t(3) show ?thesis
      by (auto simp: channel_after_def expire allocation_is_expired_def channel_can_be_deleted_def)
  qed (simp add: t(3) channel_after_def)
  moreover have "allocs t c = Some a \<longleftrightarrow> allocs s c = Some a \<and> now < expires_at a" for c a
    using t(2) by (auto simp: allocation_is_expired_def)
  ultimately show ?thesis using t(1) by blast
qed

theorem handle_timeout_exact_witness:
  "\<exists>t. handle_timeout sample_bound 600000000006 = Done t
    \<and> (\<forall>c a. hm_get (allocations t) c = Some a \<longleftrightarrow>
         hm_get (allocations sample_bound) c = Some a \<and> 600000000006 < expires_at a)"
  using handle_timeout_exact [OF sample_inv(4), of 600000000006] by blast

text \<open>
  C31. The relay does not spin: an event loop that sleeps until \<^verbatim>\<open>poll_timeout\<close> and then calls
  \<^verbatim>\<open>handle_timeout\<close> wakes up at strictly increasing instants, however often it does so.
\<close>

theorem relay_wakeups_increase:
  assumes "server_inv s"
  shows "sorted_wrt (<) (wakeups poll_timeout handle_timeout n s)"
  by (rule relay_timer.wakeups_increase [OF assms])

theorem relay_wakeups_increase_witness:
  "sorted_wrt (<) (wakeups poll_timeout handle_timeout 5 sample_bound) \<and>
   poll_timeout sample_bound = Some 600000000006"
proof
  show "sorted_wrt (<) (wakeups poll_timeout handle_timeout 5 sample_bound)"
    by (rule relay_wakeups_increase [OF sample_inv(4)])
  show "poll_timeout sample_bound = Some 600000000006"
    by (simp add: poll_timeout_def channel_deadline_def hm_values_def sample_states)
qed

section \<open>Addresses and framing\<close>

text \<open>
  Relay addresses are the relay's own: an allocation gets the address of the requested family, a
  second address only when the request asks for IPv6 in addition, and a request fails exactly when
  it asks for two families at once in the wrong way or for a family the relay does not have.
\<close>

theorem derive_relay_addresses_spec:
  "(\<forall>first second. derive_relay_addresses addr rf af = Inr (first, second) \<longrightarrow>
      (case first of V4 a \<Rightarrow> as_v4 addr = Some a | V6 b \<Rightarrow> as_v6 addr = Some b)
      \<and> (\<forall>fam. rf = Some fam \<longrightarrow> ip_family first = fam)
      \<and> (\<forall>b. second = Some b \<longrightarrow> af = Some AF_V6 \<and> is_ipv4 first \<and> map_option V6 (as_v6 addr) = Some b))
   \<and> ((\<exists>r. derive_relay_addresses addr rf af = Inr r) \<longleftrightarrow>
      (case (rf, af) of
         (None, None) \<Rightarrow> as_v4 addr \<noteq> None
       | (Some fam, None) \<Rightarrow> (if fam = AF_V4 then as_v4 addr \<noteq> None else as_v6 addr \<noteq> None)
       | (None, Some fam) \<Rightarrow> fam = AF_V6
       | (Some _, Some _) \<Rightarrow> False))"
  by (cases "(addr, rf, af)" rule: derive_relay_addresses.cases) auto

theorem derive_relay_addresses_spec_witness:
  "derive_relay_addresses (Dual 1 2) None (Some AF_V6) = Inr (V4 1, Some (V6 2)) \<and>
   as_v4 (Dual 1 2) = Some 1"
  using derive_relay_addresses_spec [of "Dual 1 2" None "Some AF_V6"] by simp

lemma relay_encode_frame:
  assumes "length h = HEADER_LEN" "length p < 65536"
  obtains hdr where "relay_encode_header_to_slice c (of_nat (length p)) h = Done (length p + 4, hdr)"
    "hdr @ p = channel_frame c p"
proof -
  obtain h1 h2 h3 h4 where "h = [h1, h2, h3, h4]"
    using assms(1) by (auto simp: HEADER_LEN_def length_Suc_conv numeral_eq_Suc)
  with assms(2) that show ?thesis
    by (cases "u16_to_be_bytes c"; cases "u16_to_be_bytes (of_nat (length p))")
      (simp add: relay_encode_header_to_slice_def channel_frame_def HEADER_LEN_def)
qed

lemma snownet_encode_frame:
  assumes "length h = HEADER_LEN" "length p < 65536" "0x400 < c" "c < 0x7FFF"
  obtains hdr where "snownet_encode_header_to_slice h c (length p) = Done (4 + length p, hdr)"
    "hdr @ p = channel_frame c p"
  using assms that
  by (cases "u16_to_be_bytes c"; cases "u16_to_be_bytes (of_nat (length p))")
    (simp add: snownet_encode_header_to_slice_def channel_frame_def HEADER_LEN_def)

lemma channel_data_parse_frame:
  assumes "channel_number_ok E c" "length p < 65536"
  obtains cd where "channel_data_parse E (channel_frame c p @ rest) = Inr cd" "cd_channel cd = c"
    "channel_data_data cd = Done p"
  using relay_codec.unframe_frame [OF assms, of rest]
  by (auto simp: relay_unframe_def split: sum.splits outcome.splits)

lemma snownet_decode_frame:
  assumes "0x4000 \<le> c" "c \<le> 0x7FFF" "length p < 65536"
  shows "snownet_decode (channel_frame c p @ rest) = Inr (c, p)"
  using snownet_codec.unframe_frame [OF _ assms(3), of c rest] assms(1,2)
  by (auto simp: snownet_unframe_def split: sum.splits)

text \<open>
  C34. The two independent implementations of the channel-data framing understand each other: what the
  relay frames, the client library decodes to the same channel and payload, and the other way round.
\<close>

theorem channel_data_interop:
  assumes "channel_number_ok E c" "0x4000 \<le> c" "c < 0x7FFF" "length p < 65536" "length h = HEADER_LEN"
  shows "(\<exists>hdr. relay_encode_header_to_slice c (of_nat (length p)) h = Done (length p + 4, hdr)
      \<and> snownet_decode (hdr @ p) = Inr (c, p))
    \<and> (\<exists>hdr cd. snownet_encode_header_to_slice h c (length p) = Done (4 + length p, hdr)
      \<and> channel_data_parse E (hdr @ p) = Inr cd \<and> cd_channel cd = c \<and> channel_data_data cd = Done p)"
proof
  show "\<exists>hdr. relay_encode_header_to_slice c (of_nat (length p)) h = Done (length p + 4, hdr)
      \<and> snownet_decode (hdr @ p) = Inr (c, p)"
    using relay_encode_frame [OF assms(5,4)] snownet_decode_frame [of c p "[]"] assms
    by (metis append_Nil2 order_less_imp_le)
  have low: "0x400 < c" by (rule order_less_le_trans [OF _ assms(2)]) simp
  obtain hdr where "snownet_encode_header_to_slice h c (length p) = Done (4 + length p, hdr)"
    "hdr @ p = channel_frame c p"
    using snownet_encode_frame [OF assms(5,4) low assms(3)] .
  with channel_data_parse_frame [OF assms(1,4), of "[]"]
  show "\<exists>hdr cd. snownet_encode_header_to_slice h c (length p) = Done (4 + length p, hdr)
      \<and> channel_data_parse E (hdr @ p) = Inr cd \<and> cd_channel cd = c \<and> channel_data_data cd = Done p"
    by (metis append_Nil2)
qed

theorem channel_data_interop_witness:
  "\<exists>hdr. relay_encode_header_to_slice 0x4001 (of_nat (length [7, 8 :: u8])) [0, 0, 0, 0]
      = Done (length [7, 8 :: u8] + 4, hdr) \<and> snownet_decode (hdr @ [7, 8]) = Inr (0x4001, [7, 8])"
  using channel_data_interop [of sample_env "0x4001" "[7, 8]" "[0, 0, 0, 0]"]
  by (simp add: sample_env_simps HEADER_LEN_def)

lemma channel_frame_first:
  "channel_frame c p = ucast (drop_bit 8 c) # tl (channel_frame c p)"
  by (simp add: channel_frame_def u16_to_be_bytes_def)

lemma first_byte_range:
  "64 \<le> (ucast (drop_bit 8 c) :: u8) \<and> (ucast (drop_bit 8 c) :: u8) \<le> 79 \<longleftrightarrow> 0x4000 \<le> c \<and> c \<le> (0x4FFF :: u16)"
proof -
  have "unat (ucast (drop_bit 8 c) :: u8) = unat c div 256"
  proof -
    have "unat c div 256 < 256" using unat_u16_less [of c] by (simp add: less_mult_imp_div_less)
    then show ?thesis
      by (simp add: unsigned_ucast_eq unsigned_drop_bit_eq take_bit_eq_mod drop_bit_eq_div unat_div)
  qed
  then show ?thesis by (auto simp: word_le_nat_alt)
qed

text \<open>
  The demultiplexer finds channel data: a frame on a channel number from \<open>0x4000\<close> to \<open>0x4FFF\<close>, with
  anything behind it, is decoded to a channel-data message with that channel and payload, and
  nothing else is: bytes decode to channel data only if they start with such a frame.
\<close>

theorem decode_channel_frame:
  assumes "channel_number_ok E c" "length p < 65536"
  shows "(0x4000 \<le> c \<and> c \<le> 0x4FFF) \<longleftrightarrow>
    (\<exists>cd. decode E (channel_frame c p @ rest) = Inr (Inr (ChannelData cd))
      \<and> cd_channel cd = c \<and> channel_data_data cd = Done p)"
proof -
  obtain cd where cd: "channel_data_parse E (channel_frame c p @ rest) = Inr cd" "cd_channel cd = c"
    "channel_data_data cd = Done p"
    using channel_data_parse_frame [OF assms] by blast
  let ?b = "ucast (drop_bit 8 c) :: u8"
  obtain bs where bs: "channel_frame c p @ rest = ?b # bs"
    using channel_frame_first [of c p] by (metis append_Cons)
  have "\<not> ?b \<le> 3" if "64 \<le> ?b" using that by (auto simp: word_le_nat_alt)
  with cd bs have "decode E (channel_frame c p @ rest) = Inr (Inr (ChannelData cd))"
    if "64 \<le> ?b" "?b \<le> 79" using that by (simp add: decode_def)
  moreover have "64 \<le> ?b \<and> ?b \<le> 79"
    if "decode E (channel_frame c p @ rest) = Inr (Inr (ChannelData cd'))" for cd'
    using that unfolding bs
    by (auto simp: decode_def stun_dispatch_def split: if_splits sum.splits prod.splits
        stun_method.splits message_class.splits)
  ultimately show ?thesis using first_byte_range [of c] cd(2,3) by blast
qed

theorem decode_channel_frame_witness:
  "\<exists>cd. decode sample_env (channel_frame 0x4000 [42] @ [1, 2]) = Inr (Inr (ChannelData cd))
      \<and> cd_channel cd = 0x4000 \<and> channel_data_data cd = Done [42]"
  using decode_channel_frame [of sample_env "0x4000" "[42]" "[1, 2]"] by (simp add: sample_env_simps)

end
