(* ===== verification/Relay_Sockets.thy ===== *)
theory Relay_Sockets
  imports Prelude
begin

text \<open>
  The dynamic collection of UDP sockets of the relay, \<^verbatim>\<open>rust/relay/src/sockets.rs\<close>. A socket is
  known by a token that packs its port and address family into one integer. Packets that the
  operating system does not take at once are buffered and flushed later, in order.

  The operating system is a parameter whose calls act on an abstract network state \<open>'net\<close>. The two
  channels between the collection and its worker thread are lists: the commands that the worker has
  not taken yet, and the events that \<^verbatim>\<open>poll_recv_from\<close> has not consumed yet. The worker is a machine
  of small steps, each of which takes or sends at most one message, so that its steps can interleave
  with those of the event loop.
\<close>

section \<open>Tokens\<close>

type_synonym token = u64

definition token_from_port_and_address_family :: "u16 \<Rightarrow> address_family \<Rightarrow> token" where
  "token_from_port_and_address_family port family =
     (let is_ipv6 = (family = AF_V6);
          af_bit = push_bit 16 (of_bool is_ipv6)
      in ucast port OR af_bit)"

definition token_to_port_and_address_family :: "token \<Rightarrow> u16 \<times> address_family" where
  "token_to_port_and_address_family token =
     (let port = ucast (token AND 0xFFFF);
          is_ipv6 = (drop_bit 16 token AND 1 \<noteq> 0)
      in (port, if is_ipv6 then AF_V6 else AF_V4))"

section \<open>State\<close>

datatype io_kind = WouldBlock | NotConnected | OtherIo nat

record pending_packet =
  src :: u16
  dst :: socket_addr
  payload :: bytes

datatype 'sock sock_command = NewSocketCmd u16 address_family | DisposeSocket 'sock

datatype 'sock sock_event = NewSocketEv token 'sock | SocketReady token bool bool | Crashed

record 'sock sockets =
  sk_inner :: "(token, 'sock) hmap"
  sk_current_ready_socket :: "token option"
  sk_flush_waker :: bool
  sk_cmd_tx :: "'sock sock_command list"
  sk_cmd_open :: bool
  sk_event_rx :: "'sock sock_event list"
  sk_event_open :: bool
  sk_pending_packets :: "pending_packet list"

text \<open>
  The operating system, acting on the network state \<open>'net\<close>: sockets, and the readiness queue of
  \<^verbatim>\<open>mio\<close>.
\<close>

record ('net, 'sock) os =
  send_to :: "'net \<Rightarrow> 'sock \<Rightarrow> bytes \<Rightarrow> socket_addr \<Rightarrow> 'net \<times> (io_kind + nat)"
  recv_from :: "'net \<Rightarrow> 'sock \<Rightarrow> 'net \<times> (io_kind + (bytes \<times> socket_addr))"
  socket_new :: "address_family \<Rightarrow> 'net \<Rightarrow> 'net \<times> (io_kind + 'sock)"
  set_only_v6 :: "'sock \<Rightarrow> bool \<Rightarrow> 'net \<Rightarrow> 'net \<times> (io_kind + unit)"
  set_nonblocking :: "'sock \<Rightarrow> bool \<Rightarrow> 'net \<Rightarrow> 'net \<times> (io_kind + unit)"
  socket_bind :: "'sock \<Rightarrow> socket_addr \<Rightarrow> 'net \<Rightarrow> 'net \<times> (io_kind + unit)"
  poll_new :: "'net \<Rightarrow> 'net \<times> (io_kind + unit)"
  poll_register :: "'sock \<Rightarrow> token \<Rightarrow> 'net \<Rightarrow> 'net \<times> (io_kind + unit)"
  poll_deregister :: "'sock \<Rightarrow> 'net \<Rightarrow> 'net \<times> (io_kind + unit)"
  poll_poll :: "'net \<Rightarrow> 'net \<times> (io_kind + (token \<times> bool \<times> bool) list)"

text \<open>A call of the operating system followed by \<^verbatim>\<open>?\<close>.\<close>

definition io_then :: "('net \<Rightarrow> 'net \<times> (io_kind + 'a)) \<Rightarrow> ('a \<Rightarrow> 'net \<Rightarrow> 'net \<times> (io_kind + 'b)) \<Rightarrow> 'net \<Rightarrow> 'net \<times> (io_kind + 'b)" where
  "io_then m f net = (case m net of (net', Inl e) \<Rightarrow> (net', Inl e) | (net', Inr x) \<Rightarrow> f x net')"

section \<open>Operations\<close>

definition sockets_new :: "'sock sockets" where
  "sockets_new = \<lparr>sk_inner = [], sk_current_ready_socket = None, sk_flush_waker = False,
     sk_cmd_tx = [], sk_cmd_open = True, sk_event_rx = [], sk_event_open = True,
     sk_pending_packets = []\<rparr>"

text \<open>
  \<^verbatim>\<open>mpsc::Sender::try_send\<close>: fails when the worker is gone or a million commands wait in the channel.
\<close>

definition cmd_try_send :: "'sock sock_command \<Rightarrow> 'sock sockets \<Rightarrow> 'sock sockets option" where
  "cmd_try_send c s =
     (if sk_cmd_open s \<and> length (sk_cmd_tx s) < 1000000
      then Some (s\<lparr>sk_cmd_tx := sk_cmd_tx s @ [c]\<rparr>) else None)"

definition sockets_bind :: "u16 \<Rightarrow> address_family \<Rightarrow> 'sock sockets \<Rightarrow> 'sock sockets option" where
  "sockets_bind port family s = cmd_try_send (NewSocketCmd port family) s"

definition sockets_unbind :: "u16 \<Rightarrow> address_family \<Rightarrow> 'sock sockets \<Rightarrow> 'sock sockets option" where
  "sockets_unbind port family s =
     (let token = token_from_port_and_address_family port family
      in case hm_get (sk_inner s) token of
           None \<Rightarrow> Some s
         | Some socket \<Rightarrow>
             cmd_try_send (DisposeSocket socket) (s\<lparr>sk_inner := hm_remove token (sk_inner s)\<rparr>))"

definition try_send_internal ::
    "('net, 'sock) os \<Rightarrow> (token, 'sock) hmap \<Rightarrow> 'net \<Rightarrow> u16 \<Rightarrow> socket_addr \<Rightarrow> bytes
     \<Rightarrow> ('net \<times> (io_kind + unit)) outcome" where
  "try_send_internal os inner net port dest msg =
     (let token = token_from_port_and_address_family port (sock_family dest)
      in case hm_get inner token of
           None \<Rightarrow> Done (net, Inl NotConnected)
         | Some socket \<Rightarrow>
             (case send_to os net socket msg dest of
                (net', Inl e) \<Rightarrow> Done (net', Inl e)
              | (net', Inr num_sent) \<Rightarrow>
                  and_then (assert_that (num_sent = length msg)) (\<lambda>_. Done (net', Inr ()))))"

definition try_send ::
    "('net, 'sock) os \<Rightarrow> 'net \<Rightarrow> 'sock sockets \<Rightarrow> u16 \<Rightarrow> socket_addr \<Rightarrow> bytes
     \<Rightarrow> ('net \<times> 'sock sockets \<times> (io_kind + unit)) outcome" where
  "try_send os net s port dest msg =
     and_then (try_send_internal os (sk_inner s) net port dest msg) (\<lambda>(net', r).
       case r of
         Inr u \<Rightarrow> Done (net', s, Inr u)
       | Inl e \<Rightarrow>
           if e = WouldBlock then
             Done (net', s\<lparr>sk_pending_packets := sk_pending_packets s @
                     [\<lparr>src = port, dst = dest, payload = msg\<rparr>]\<rparr>, Inr ())
           else Done (net', s, Inl e))"

datatype flush_result = FlushPending | FlushReady "io_kind + unit"

text \<open>The loop of \<^verbatim>\<open>flush\<close> over the buffered packets.\<close>

fun flush_packets ::
    "('net, 'sock) os \<Rightarrow> (token, 'sock) hmap \<Rightarrow> 'net \<Rightarrow> pending_packet list
     \<Rightarrow> ('net \<times> pending_packet list \<times> flush_result) outcome" where
  "flush_packets os inner net [] = Done (net, [], FlushReady (Inr ()))"
| "flush_packets os inner net (packet # rest) =
     and_then (try_send_internal os inner net (src packet) (dst packet) (payload packet)) (\<lambda>(net', r).
       case r of
         Inr _ \<Rightarrow> flush_packets os inner net' rest
       | Inl e \<Rightarrow>
           if e = WouldBlock then Done (net', packet # rest, FlushPending)
           else Done (net', rest, FlushReady (Inl e)))"

definition flush ::
    "('net, 'sock) os \<Rightarrow> 'net \<Rightarrow> 'sock sockets \<Rightarrow> ('net \<times> 'sock sockets \<times> flush_result) outcome" where
  "flush os net s =
     and_then (flush_packets os (sk_inner s) net (sk_pending_packets s)) (\<lambda>(net', rest, r).
       Done (net', s\<lparr>sk_pending_packets := rest,
               sk_flush_waker := (r = FlushPending \<or> sk_flush_waker s)\<rparr>, r))"

record received =
  rc_port :: u16
  rc_from :: socket_addr
  rc_packet :: bytes

datatype recv_result = RecvPending | RecvReady received | RecvIo io_kind | RecvCrashed

definition ready_socket :: "'sock sockets \<Rightarrow> (token \<times> 'sock) option" where
  "ready_socket s =
     (case sk_current_ready_socket s of
        None \<Rightarrow> None
      | Some current \<Rightarrow> map_option (Pair current) (hm_get (sk_inner s) current))"

text \<open>
  The loop of \<^verbatim>\<open>poll_recv_from\<close>: read from the socket that is ready, or else take the next event of
  the worker. It panics when the worker's channel is closed.
\<close>

function poll_recv_from ::
    "('net, 'sock) os \<Rightarrow> 'net \<Rightarrow> 'sock sockets \<Rightarrow> ('net \<times> 'sock sockets \<times> recv_result) outcome" where
  "poll_recv_from os net s =
     (case ready_socket s of
        Some (current, socket) \<Rightarrow>
          (case recv_from os net socket of
             (net', Inr (packet, sender)) \<Rightarrow>
               Done (net', s, RecvReady \<lparr>rc_port = fst (token_to_port_and_address_family current),
                                 rc_from = sender, rc_packet = packet\<rparr>)
           | (net', Inl e) \<Rightarrow>
               if e = WouldBlock then poll_recv_from os net' (s\<lparr>sk_current_ready_socket := None\<rparr>)
               else Done (net', s\<lparr>sk_current_ready_socket := None\<rparr>, RecvIo e))
      | None \<Rightarrow>
          (case sk_event_rx s of
             [] \<Rightarrow> if sk_event_open s then Done (net, s, RecvPending) else Panicked
           | NewSocketEv t socket # es \<Rightarrow>
               poll_recv_from os net (s\<lparr>sk_event_rx := es, sk_inner := hm_insert t socket (sk_inner s)\<rparr>)
           | SocketReady t readable writeable # es \<Rightarrow>
               poll_recv_from os net
                 (s\<lparr>sk_event_rx := es,
                    sk_current_ready_socket := (if readable then Some t else sk_current_ready_socket s),
                    sk_flush_waker := (sk_flush_waker s \<and> \<not> writeable)\<rparr>)
           | Crashed # es \<Rightarrow> Done (net, s\<lparr>sk_event_rx := es\<rparr>, RecvCrashed)))"
  by pat_completeness auto
termination
  by (relation "measure (\<lambda>(os, net, s). 2 * length (sk_event_rx s)
        + (if sk_current_ready_socket s = None then 0 else 1))")
    (auto simp: ready_socket_def split: option.splits)

declare poll_recv_from.simps [simp del]

section \<open>The worker thread\<close>

definition make_wildcard_socket :: "('net, 'sock) os \<Rightarrow> address_family \<Rightarrow> u16 \<Rightarrow> 'net \<Rightarrow> 'net \<times> (io_kind + 'sock)" where
  "make_wildcard_socket os family port =
     (let address = (case family of AF_V4 \<Rightarrow> SockV4 0 port | AF_V6 \<Rightarrow> SockV6 0 port 0 0)
      in io_then (socket_new os family) (\<lambda>socket.
         io_then (if family = AF_V6 then set_only_v6 os socket True else (\<lambda>net. (net, Inr ()))) (\<lambda>_.
         io_then (set_nonblocking os socket True) (\<lambda>_.
         io_then (socket_bind os socket address) (\<lambda>_ net. (net, Inr socket))))))"

text \<open>
  \<^verbatim>\<open>mpsc::Sender::blocking_send\<close> of the worker: it waits (\<open>None\<close>) while 1024 events are in the channel.
  The receiver is never dropped before the worker ends, so it does not fail.
\<close>

definition event_blocking_send :: "'sock sock_event \<Rightarrow> 'sock sockets \<Rightarrow> 'sock sockets option" where
  "event_blocking_send e s =
     (if length (sk_event_rx s) < 1024 then Some (s\<lparr>sk_event_rx := sk_event_rx s @ [e]\<rparr>) else None)"

text \<open>
  Where the worker is in its loop: before \<^verbatim>\<open>mio::Poll::new\<close>, about to poll, with events left to
  send, draining the commands, with a new socket to hand over, about to report its failure, gone.
\<close>

datatype 'sock worker =
    WorkerStart
  | WorkerPoll
  | WorkerEvents "(token \<times> bool \<times> bool) list"
  | WorkerDrain
  | WorkerHandOver token 'sock
  | WorkerCrash
  | WorkerGone

text \<open>
  An error ends \<^verbatim>\<open>mio_worker_task\<close>, which drops the receiver of the commands.
\<close>

definition worker_io :: "('net \<Rightarrow> 'net \<times> (io_kind + 'a)) \<Rightarrow> ('a \<Rightarrow> 'sock worker) \<Rightarrow> 'net \<Rightarrow> 'sock sockets
    \<Rightarrow> ('net \<times> 'sock worker \<times> 'sock sockets) option" where
  "worker_io m k net s = (case m net of
       (net', Inl e) \<Rightarrow> Some (net', WorkerCrash, s\<lparr>sk_cmd_open := False\<rparr>)
     | (net', Inr x) \<Rightarrow> Some (net', k x, s))"

text \<open>One step of the worker; \<open>None\<close> when it waits or is gone.\<close>

primrec worker_step :: "('net, 'sock) os \<Rightarrow> 'sock worker \<Rightarrow> 'net \<Rightarrow> 'sock sockets
    \<Rightarrow> ('net \<times> 'sock worker \<times> 'sock sockets) option" where
  "worker_step os WorkerStart net s = worker_io (poll_new os) (\<lambda>_. WorkerPoll) net s"
| "worker_step os WorkerPoll net s = worker_io (poll_poll os) WorkerEvents net s"
| "worker_step os (WorkerEvents events) net s = (case events of
       [] \<Rightarrow> Some (net, WorkerDrain, s)
     | (token, readable, writeable) # events \<Rightarrow>
         map_option (\<lambda>s. (net, WorkerEvents events, s)) (event_blocking_send (SocketReady token readable writeable) s))"
| "worker_step os WorkerDrain net s = (case sk_cmd_tx s of
       [] \<Rightarrow> Some (net, WorkerPoll, s)
     | NewSocketCmd port af # cmds \<Rightarrow>
         (let token = token_from_port_and_address_family port af
          in worker_io (io_then (make_wildcard_socket os af port) (\<lambda>socket.
                        io_then (poll_register os socket token) (\<lambda>_ net. (net, Inr socket))))
               (WorkerHandOver token) net (s\<lparr>sk_cmd_tx := cmds\<rparr>))
     | DisposeSocket socket # cmds \<Rightarrow>
         worker_io (poll_deregister os socket) (\<lambda>_. WorkerDrain) net (s\<lparr>sk_cmd_tx := cmds\<rparr>))"
| "worker_step os (WorkerHandOver token socket) net s =
     map_option (\<lambda>s. (net, WorkerDrain, s)) (event_blocking_send (NewSocketEv token socket) s)"
| "worker_step os WorkerCrash net s =
     map_option (\<lambda>s. (net, WorkerGone, s\<lparr>sk_event_open := False\<rparr>)) (event_blocking_send Crashed s)"
| "worker_step os WorkerGone net s = None"

section \<open>Lemmas\<close>

text \<open>
  Tokens determine port and address family.
\<close>

lemma token_roundtrip [simp]:
  "token_to_port_and_address_family (token_from_port_and_address_family port family) = (port, family)"
proof -
  have mask: "(0xFFFF :: u64) = mask 16" by (simp add: mask_eq_exp_minus_1)
  have port: "(ucast ((ucast port OR push_bit 16 (of_bool b)) AND 0xFFFF :: u64) :: u16) = port" for b
    unfolding mask by (rule bit_word_eqI) (auto simp: bit_simps)
  have family: "drop_bit 16 ((ucast port OR push_bit 16 (of_bool b)) :: u64) AND 1 = of_bool b" for b
    by (rule bit_word_eqI) (auto simp: bit_simps dest: bit_imp_le_length)
  show ?thesis
    unfolding token_to_port_and_address_family_def token_from_port_and_address_family_def Let_def
    by (simp only: port family) (cases family; simp)
qed

lemma token_inj [simp]:
  "token_from_port_and_address_family p f = token_from_port_and_address_family q g \<longleftrightarrow> p = q \<and> f = g"
  by (metis token_roundtrip prod.inject)

text \<open>
  The connection invariant: the socket of every buffered packet is open. It makes the error
  \<^verbatim>\<open>NotConnected\<close> impossible while flushing.
\<close>

definition connected :: "(token, 'sock) hmap \<Rightarrow> pending_packet \<Rightarrow> bool" where
  "connected inner packet \<longleftrightarrow>
     hm_get inner (token_from_port_and_address_family (src packet) (sock_family (dst packet))) \<noteq> None"

definition pending_connected :: "'sock sockets \<Rightarrow> bool" where
  "pending_connected s \<longleftrightarrow> list_all (connected (sk_inner s)) (sk_pending_packets s)"

text \<open>
  The event loop learns of the end of the worker: the channel of the events is closed only behind
  the event that reports the crash.
\<close>

definition crash_reported :: "'sock sockets \<Rightarrow> bool" where
  "crash_reported s \<longleftrightarrow> sk_event_open s \<or> Crashed \<in> set (sk_event_rx s)"

lemma worker_io_cases:
  assumes "worker_io m k net s = Some (net', w', s')"
  shows "s' = s \<and> (\<exists>x. w' = k x) \<or> s' = s\<lparr>sk_cmd_open := False\<rparr> \<and> w' = WorkerCrash"
  using assms by (auto simp: worker_io_def split: prod.splits sum.splits)

text \<open>
  What a step of the worker leaves alone: the open sockets, the buffered packets and the events sent
  before; at most one event is added, and the channel closes only behind a report.
\<close>

lemma worker_step_frame:
  assumes "worker_step os w net s = Some (net', w', s')"
  shows "sk_inner s' = sk_inner s \<and> sk_pending_packets s' = sk_pending_packets s \<and>
    (\<exists>es. sk_event_rx s' = sk_event_rx s @ es \<and> length es \<le> 1) \<and> (crash_reported s \<longrightarrow> crash_reported s')"
proof (cases w)
  case WorkerDrain
  show ?thesis
  proof (cases "sk_cmd_tx s")
    case (Cons c cs)
    with assms WorkerDrain show ?thesis
      by (cases c) (auto simp: Let_def crash_reported_def dest!: worker_io_cases)
  qed (use assms WorkerDrain in simp)
qed (use assms in \<open>auto simp: crash_reported_def event_blocking_send_def split: list.splits if_splits dest!: worker_io_cases\<close>)

text \<open>The channels never hold more than their capacities.\<close>

definition channels_bounded :: "'sock sockets \<Rightarrow> bool" where
  "channels_bounded s \<longleftrightarrow> length (sk_cmd_tx s) \<le> 1000000 \<and> length (sk_event_rx s) \<le> 1024"

lemma cmd_try_send_bounded: "cmd_try_send c s = Some s' \<Longrightarrow> channels_bounded s \<Longrightarrow> channels_bounded s'"
  by (auto simp: cmd_try_send_def channels_bounded_def split: if_splits)

lemma worker_step_bounded:
  assumes "worker_step os w net s = Some (net', w', s')" "channels_bounded s"
  shows "channels_bounded s'"
proof (cases w)
  case WorkerDrain
  show ?thesis
  proof (cases "sk_cmd_tx s")
    case (Cons c cs)
    with assms WorkerDrain show ?thesis
      by (cases c) (auto simp: Let_def channels_bounded_def dest!: worker_io_cases)
  qed (use assms WorkerDrain in simp)
qed (use assms in \<open>auto simp: channels_bounded_def event_blocking_send_def split: list.splits if_splits dest!: worker_io_cases\<close>)

text \<open>What the operating system promises: it never claims that an open socket is not connected.\<close>

definition os_laws :: "('net, 'sock) os \<Rightarrow> bool" where
  "os_laws os \<longleftrightarrow> (\<forall>net s m d net' e. send_to os net s m d = (net', Inl e) \<longrightarrow> e \<noteq> NotConnected) \<and>
     (\<forall>net s m d net' n. send_to os net s m d = (net', Inr n) \<longrightarrow> n = length m)"

lemma try_send_internal_total:
  assumes "os_laws os"
  shows "\<exists>net' r. try_send_internal os inner net port dest msg = Done (net', r)
    \<and> (r = Inl NotConnected \<longrightarrow>
        hm_get inner (token_from_port_and_address_family port (sock_family dest)) = None)"
proof (cases "hm_get inner (token_from_port_and_address_family port (sock_family dest))")
  case None
  then show ?thesis by (simp add: try_send_internal_def)
next
  case (Some socket)
  obtain net' r where r: "send_to os net socket msg dest = (net', r)" by fastforce
  with assms Some show ?thesis
    by (cases r) (auto simp: try_send_internal_def os_laws_def)
qed

text \<open>A failed send of a packet that is not buffered, or a buffered packet with its socket open.\<close>

lemma try_send_spec:
  assumes os: "os_laws os" and conn: "pending_connected s"
  shows "\<exists>net' s' r. try_send os net s port dest msg = Done (net', s', r) \<and> pending_connected s'
    \<and> sk_inner s' = sk_inner s \<and> sk_event_rx s' = sk_event_rx s"
proof -
  obtain net' r where r: "try_send_internal os (sk_inner s) net port dest msg = Done (net', r)"
    "r = Inl NotConnected \<longrightarrow> hm_get (sk_inner s)
       (token_from_port_and_address_family port (sock_family dest)) = None"
    using try_send_internal_total [OF os] by blast
  have blocked: "hm_get (sk_inner s) (token_from_port_and_address_family port (sock_family dest)) \<noteq> None"
    if "r = Inl WouldBlock"
    using r(1) that by (auto simp: try_send_internal_def split: option.splits)
  show ?thesis
  proof (cases r)
    case (Inl e)
    with r(1) conn blocked show ?thesis
      by (cases "e = WouldBlock") (auto simp: try_send_def pending_connected_def connected_def)
  qed (use r(1) conn in \<open>simp add: try_send_def\<close>)
qed

lemma flush_packets_spec:
  assumes os: "os_laws os" and "list_all (connected inner) ps"
  shows "\<exists>net' n r. flush_packets os inner net ps = Done (net', drop n ps, r)
    \<and> (r = FlushReady (Inr ()) \<longleftrightarrow> n = length ps \<and> (\<forall>e. r \<noteq> FlushReady (Inl e)))
    \<and> (r = FlushPending \<longrightarrow> n < length ps) \<and> r \<noteq> FlushReady (Inl NotConnected)"
  using assms(2)
proof (induction ps arbitrary: net)
  case Nil
  then show ?case by auto
next
  case (Cons p ps)
  obtain net' r where r: "try_send_internal os inner net (src p) (dst p) (payload p) = Done (net', r)"
    "r \<noteq> Inl NotConnected"
    using try_send_internal_total [OF os, of inner net "src p" "dst p" "payload p"] Cons.prems
    by (auto simp: connected_def)
  show ?case
  proof (cases r)
    case (Inl e)
    show ?thesis
    proof (cases "e = WouldBlock")
      case True
      with r Inl show ?thesis
        by (intro exI [of _ net'] exI [of _ 0] exI [of _ FlushPending]) simp
    next
      case False
      with r Inl show ?thesis
        by (intro exI [of _ net'] exI [of _ 1] exI [of _ "FlushReady (Inl e)"]) simp
    qed
  next
    case (Inr u)
    from Cons.IH [of net'] Cons.prems obtain net2 n q where
      "flush_packets os inner net' ps = Done (net2, drop n ps, q)"
      "q = FlushReady (Inr ()) \<longleftrightarrow> n = length ps \<and> (\<forall>e. q \<noteq> FlushReady (Inl e))"
      "q = FlushPending \<longrightarrow> n < length ps" "q \<noteq> FlushReady (Inl NotConnected)" by auto
    with r Inr show ?thesis
      by (intro exI [of _ net2] exI [of _ "Suc n"] exI [of _ q]) auto
  qed
qed

end
