(* ===== verification/Relay_Eventloop.thy ===== *)
theory Relay_Eventloop
  imports Relay_Properties Relay_Sockets
begin

text \<open>
  The event loop of the relay, \<^verbatim>\<open>struct Eventloop\<close> of \<^verbatim>\<open>rust/relay/src/main.rs\<close>, with the timer
  of \<^verbatim>\<open>rust/relay/src/sleep.rs\<close>: one iteration flushes buffered packets, executes a command of the
  server, reads and relays a packet, handles a timeout, the portal and signals. What the outside
  world does during the iteration is its argument.
\<close>

section \<open>State\<close>

datatype portal_event =
    PortalSuccessResponse | JoinedRoom | PortalErrorResponse | HeartbeatSent | InboundInit
  | PortalClosed | Hiccup

text \<open>The pending sleep is its deadline; \<open>el_channel\<close> says whether the portal is connected.\<close>

record ('net, 'sock, 'r) eventloop =
  el_net :: 'net
  el_sockets :: "'sock sockets"
  el_server :: "'r server"
  el_channel :: bool
  el_sleep :: "instant option"
  el_shutting_down :: bool
  el_last_num_bytes_relayed :: u64
  el_last_heartbeat_sent :: "instant option"
  el_header :: bytes

record loop_input =
  in_now :: instant
  in_wall :: nat
  in_portal :: "(unit + portal_event) option"
  in_portal_closes :: bool
  in_sigterm :: bool
  in_stats_tick :: bool

datatype ('net, 'sock, 'r) loop_result =
    Again "('net, 'sock, 'r) eventloop"
  | Suspended "('net, 'sock, 'r) eventloop"
  | Exited
  | Failed

definition sleep_reset :: "instant \<Rightarrow> instant option \<Rightarrow> instant option" where
  "sleep_reset deadline sl =
     (case sl of Some d \<Rightarrow> if d \<noteq> deadline then Some deadline else Some d | None \<Rightarrow> Some deadline)"

definition sleep_poll :: "instant \<Rightarrow> instant option \<Rightarrow> instant option \<times> instant option" where
  "sleep_poll now sl =
     (case sl of Some deadline \<Rightarrow> if deadline \<le> now then (None, Some deadline) else (sl, None)
      | None \<Rightarrow> (sl, None))"

definition eventloop_new :: "'r server \<Rightarrow> ip_stack \<Rightarrow> 'net \<Rightarrow> ('net, 'sock, 'r) eventloop option" where
  "eventloop_new server public_addr net =
     (let s0 = sockets_new;
          s1 = (if as_v4 public_addr \<noteq> None then sockets_bind (listen_port server) AF_V4 s0 else Some s0)
      in case s1 of
           None \<Rightarrow> None
         | Some s1' \<Rightarrow>
             (case (if as_v6 public_addr \<noteq> None then sockets_bind (listen_port server) AF_V6 s1'
                    else Some s1') of
                None \<Rightarrow> None
              | Some s2 \<Rightarrow> Some \<lparr>el_net = net, el_sockets = s2, el_server = server, el_channel = True,
                  el_sleep = None, el_shutting_down = False, el_last_num_bytes_relayed = 0,
                  el_last_heartbeat_sent = None, el_header = [0, 0, 0, 0]\<rparr>))"

section \<open>The parts of an iteration\<close>

text \<open>A send whose failure is only logged.\<close>

definition send_or_warn ::
    "('net, 'sock) os \<Rightarrow> u16 \<Rightarrow> socket_addr \<Rightarrow> bytes \<Rightarrow> ('net, 'sock, 'r) eventloop
     \<Rightarrow> ('net, 'sock, 'r) eventloop outcome" where
  "send_or_warn os port dest msg el =
     and_then (try_send os (el_net el) (el_sockets el) port dest msg) (\<lambda>(net, s, r).
       Done (el\<lparr>el_net := net, el_sockets := s\<rparr>))"

text \<open>Priority 1: one command of the server. \<open>None\<close> is a failure that ends the loop.\<close>

definition loop_command ::
    "('net, 'sock) os \<Rightarrow> ('net, 'sock, 'r) eventloop
     \<Rightarrow> (('net, 'sock, 'r) eventloop \<times> bool) option outcome" where
  "loop_command os el =
     (let (server, cmd) = next_command (el_server el); el' = el\<lparr>el_server := server\<rparr>
      in case cmd of
           None \<Rightarrow> Done (Some (el', False))
         | Some (SendMessage bs recipient) \<Rightarrow>
             and_then (send_or_warn os (listen_port server) recipient bs el') (\<lambda>el2. Done (Some (el2, True)))
         | Some (CreateAllocation port family) \<Rightarrow>
             Done (map_option (\<lambda>s. (el'\<lparr>el_sockets := s\<rparr>, True)) (sockets_bind port family (el_sockets el')))
         | Some (FreeAllocation port family) \<Rightarrow>
             Done (map_option (\<lambda>s. (el'\<lparr>el_sockets := s\<rparr>, True)) (sockets_unbind port family (el_sockets el'))))"

text \<open>Priority 2: one received packet, of a client on the TURN port or of a peer on any other.\<close>

definition loop_client_packet ::
    "('msg, 'mi, 'r) relay_env \<Rightarrow> ('net, 'sock) os \<Rightarrow> loop_input \<Rightarrow> socket_addr \<Rightarrow> bytes
     \<Rightarrow> ('net, 'sock, 'r) eventloop \<Rightarrow> ('net, 'sock, 'r) eventloop outcome" where
  "loop_client_packet E os i sender packet el =
     and_then (handle_client_input E (el_server el) packet sender (in_now i) (in_wall i)) (\<lambda>(server, relay_to).
       let el' = el\<lparr>el_server := server\<rparr>
       in case relay_to of
            None \<Rightarrow> Done el'
          | Some (port, peer) \<Rightarrow>
              (case channel_data_parse E packet of
                 Inl e \<Rightarrow> Panicked
               | Inr cd \<Rightarrow> and_then (channel_data_data cd) (\<lambda>data. send_or_warn os port peer data el')))"

definition loop_peer_packet ::
    "('net, 'sock) os \<Rightarrow> u16 \<Rightarrow> socket_addr \<Rightarrow> bytes \<Rightarrow> ('net, 'sock, 'r) eventloop
     \<Rightarrow> ('net, 'sock, 'r) eventloop outcome" where
  "loop_peer_packet os port sender packet el =
     (let (server, relay_to) = handle_peer_traffic (el_server el) packet sender port;
          el' = el\<lparr>el_server := server\<rparr>
      in case relay_to of
           None \<Rightarrow> Done el'
         | Some (client, chan) \<Rightarrow>
             and_then (relay_encode_header_to_slice chan (of_nat (length packet)) (el_header el'))
               (\<lambda>(total_length, header).
                 send_or_warn os (listen_port server) client (take total_length (header @ packet))
                   (el'\<lparr>el_header := header\<rparr>)))"

definition loop_recv ::
    "('msg, 'mi, 'r) relay_env \<Rightarrow> ('net, 'sock) os \<Rightarrow> loop_input \<Rightarrow> ('net, 'sock, 'r) eventloop
     \<Rightarrow> (('net, 'sock, 'r) eventloop \<times> bool) option outcome" where
  "loop_recv E os i el =
     and_then (poll_recv_from os (el_net el) (el_sockets el)) (\<lambda>(net, s, r).
       let el' = el\<lparr>el_net := net, el_sockets := s\<rparr>
       in case r of
            RecvReady rc \<Rightarrow>
              and_then
                (if rc_port rc = listen_port (el_server el')
                 then loop_client_packet E os i (rc_from rc) (rc_packet rc) el'
                 else loop_peer_packet os (rc_port rc) (rc_from rc) (rc_packet rc) el')
                (\<lambda>el2. Done (Some (el2, True)))
          | RecvIo e \<Rightarrow> Done (Some (el', True))
          | RecvCrashed \<Rightarrow> Done None
          | RecvPending \<Rightarrow> Done (Some (el', False)))"

text \<open>Priorities 3 and 4: the timer.\<close>

definition loop_timer ::
    "loop_input \<Rightarrow> ('net, 'sock, 'r) eventloop \<Rightarrow> (('net, 'sock, 'r) eventloop \<times> bool) outcome" where
  "loop_timer i el =
     (let sl = (case poll_timeout (el_server el) of
                  Some timeout \<Rightarrow> sleep_reset timeout (el_sleep el) | None \<Rightarrow> el_sleep el);
          (sl', fired) = sleep_poll (in_now i) sl
      in case fired of
           None \<Rightarrow> Done (el\<lparr>el_sleep := sl'\<rparr>, False)
         | Some deadline \<Rightarrow>
             and_then (handle_timeout (el_server el) deadline) (\<lambda>server.
               Done (el\<lparr>el_sleep := sl', el_server := server\<rparr>, True)))"

definition handle_portal_event ::
    "instant \<Rightarrow> portal_event \<Rightarrow> ('net, 'sock, 'r) eventloop \<Rightarrow> ('net, 'sock, 'r) eventloop" where
  "handle_portal_event now ev el =
     (case ev of
        HeartbeatSent \<Rightarrow> el\<lparr>el_last_heartbeat_sent := Some now\<rparr>
      | PortalClosed \<Rightarrow> el\<lparr>el_channel := False\<rparr>
      | PortalSuccessResponse \<Rightarrow> el | JoinedRoom \<Rightarrow> el | PortalErrorResponse \<Rightarrow> el
      | InboundInit \<Rightarrow> el | Hiccup \<Rightarrow> el)"

text \<open>Priority 5: the portal. A failed connection ends the loop.\<close>

definition loop_portal ::
    "loop_input \<Rightarrow> ('net, 'sock, 'r) eventloop \<Rightarrow> (('net, 'sock, 'r) eventloop \<times> bool) option" where
  "loop_portal i el =
     (if \<not> el_channel el then Some (el, False)
      else case in_portal i of
             None \<Rightarrow> Some (el, False)
           | Some (Inl _) \<Rightarrow> None
           | Some (Inr ev) \<Rightarrow> Some (handle_portal_event (in_now i) ev el, True))"

definition loop_signals ::
    "loop_input \<Rightarrow> ('net, 'sock, 'r) eventloop \<Rightarrow> (('net, 'sock, 'r) eventloop \<times> bool) option" where
  "loop_signals i el =
     (if \<not> in_sigterm i then Some (el, False)
      else if el_shutting_down el then None
      else Some (el\<lparr>el_shutting_down := True,
                    el_channel := (el_channel el \<and> in_portal_closes i)\<rparr>, True))"

definition STATS_LOG_INTERVAL :: duration where
  "STATS_LOG_INTERVAL = from_secs 10"

text \<open>
  The statistics: what is logged, if anything. The bytes since the last tick are a difference of two
  \<^verbatim>\<open>u64\<close> counters; both the counter and the difference wrap around.
\<close>

record stats =
  st_allocations :: nat
  st_channels :: nat
  st_avg_throughput :: u64

definition loop_stats ::
    "loop_input \<Rightarrow> ('net, 'sock, 'r) eventloop \<Rightarrow> ('net, 'sock, 'r) eventloop \<times> stats option" where
  "loop_stats i el =
     (if in_stats_tick i then
        (let bytes_relayed_since_last_tick = num_relayed_bytes (el_server el) - el_last_num_bytes_relayed el
         in (el\<lparr>el_last_num_bytes_relayed := num_relayed_bytes (el_server el)\<rparr>,
             Some \<lparr>st_allocations = num_allocations (el_server el), st_channels = num_active_channels (el_server el),
                   st_avg_throughput = bytes_relayed_since_last_tick div of_nat (as_secs STATS_LOG_INTERVAL)\<rparr>))
      else (el, None))"

section \<open>An iteration\<close>

text \<open>The end of an iteration; \<open>ready\<close> says whether anything before it made progress.\<close>

definition loop_tail ::
    "loop_input \<Rightarrow> bool \<Rightarrow> ('net, 'sock, 'r) eventloop \<Rightarrow> ('net, 'sock, 'r) loop_result" where
  "loop_tail i ready el =
     (case loop_portal i el of
        None \<Rightarrow> Failed
      | Some (el4, ready4) \<Rightarrow>
          (case loop_signals i el4 of
             None \<Rightarrow> Exited
           | Some (el5, ready5) \<Rightarrow>
               let (el6, logged) = loop_stats i el5
               in if ready \<or> ready4 \<or> ready5 \<or> logged \<noteq> None then Again el6 else Suspended el6))"

definition eventloop_iteration ::
    "('msg, 'mi, 'r) relay_env \<Rightarrow> ('net, 'sock) os \<Rightarrow> loop_input \<Rightarrow> ('net, 'sock, 'r) eventloop
     \<Rightarrow> ('net, 'sock, 'r) loop_result outcome" where
  "eventloop_iteration E os i el =
     (if el_shutting_down el \<and> \<not> el_channel el \<and> num_allocations (el_server el) = 0 then Done Exited
      else
        and_then (flush os (el_net el) (el_sockets el)) (\<lambda>(net, s, fl).
          let el0 = el\<lparr>el_net := net, el_sockets := s\<rparr>
          in case fl of
               FlushPending \<Rightarrow> Done (Suspended el0)
             | FlushReady (Inl e) \<Rightarrow> Done Failed
             | FlushReady (Inr _) \<Rightarrow>
        and_then (loop_command os el0) (\<lambda>c. case c of None \<Rightarrow> Done Failed | Some (el1, ready1) \<Rightarrow>
        and_then (loop_recv E os i el1) (\<lambda>r. case r of None \<Rightarrow> Done Failed | Some (el2, ready2) \<Rightarrow>
        and_then (loop_timer i el2) (\<lambda>(el3, ready3).
          Done (loop_tail i (ready1 \<or> ready2 \<or> ready3) el3))))))"

definition MAX_PARTITION_TIME :: duration where
  "MAX_PARTITION_TIME = from_secs (60 * 15)"

definition is_healthy :: "instant \<Rightarrow> instant option \<Rightarrow> bool" where
  "is_healthy now last_heartbeat_sent =
     (case last_heartbeat_sent of
        None \<Rightarrow> True
      | Some sent \<Rightarrow> now - sent < MAX_PARTITION_TIME)"

section \<open>Relaying\<close>

lemma handle_client_input_frame:
  assumes "channel_number_ok E n" "0x4000 \<le> n" "n \<le> 0x4FFF" "length p < 65536"
    and "hm_get (channels_by_client_and_number s) (c, n) = Some ch" "bound ch"
  shows "handle_client_input E s (channel_frame n p) c now wall
    = Done (count_relayed (length p) s, Some (c_allocation ch, peer_address ch))"
proof -
  obtain cd where cd: "channel_data_parse E (channel_frame n p) = Inr cd" "cd_channel cd = n"
    "channel_data_data cd = Done p"
    using channel_data_parse_frame [OF assms(1,4), of "[]"] by auto
  have first: "64 \<le> (ucast (drop_bit 8 n) :: u8) \<and> (ucast (drop_bit 8 n) :: u8) \<le> 79"
    using assms(2,3) first_byte_range by blast
  then have "\<not> (ucast (drop_bit 8 n) :: u8) \<le> 3" by (auto simp: word_le_nat_alt)
  moreover obtain bs where "channel_frame n p = ucast (drop_bit 8 n) # bs"
    using channel_frame_first [of n p] by blast
  ultimately have "decode E (channel_frame n p) = Inr (Inr (ChannelData cd))"
    using first cd(1) by (simp add: decode_def)
  with cd assms(5,6) show ?thesis
    by (simp add: handle_client_input_def handle_client_message_def handle_channel_data_message_def)
qed

text \<open>
  C19. The relay as a whole relays: for a bound channel, a channel-data frame of the client leaves the
  relay as its bare payload, from the client's allocation port, to the channel's peer; and a packet
  of that peer to that port leaves it on the TURN port, to the client, as a frame that the client
  library decodes to the same channel and payload.
\<close>

theorem eventloop_relays:
  assumes "server_inv (el_server el)" "channel_number_ok E n" "0x4000 \<le> n" "n \<le> 0x4FFF"
    and "hm_get (channels_by_client_and_number (el_server el)) (c, n) = Some ch" "bound ch"
    and "length p < 65536" "length (el_header el) = 4"
  shows "loop_client_packet E os i c (channel_frame n p) el
      = send_or_warn os (c_allocation ch) (peer_address ch) p
          (el\<lparr>el_server := count_relayed (length p) (el_server el)\<rparr>)
    \<and> (\<exists>header. loop_peer_packet os (c_allocation ch) (peer_address ch) p el
      = send_or_warn os (listen_port (el_server el)) c (header @ p)
          (el\<lparr>el_server := count_relayed (length p) (el_server el), el_header := header\<rparr>)
      \<and> snownet_decode (header @ p) = Inr (n, p))"
proof
  let ?s = "el_server el"
  obtain cd where cd: "channel_data_parse E (channel_frame n p) = Inr cd" "channel_data_data cd = Done p"
    using channel_data_parse_frame [OF assms(2,7), of "[]"] by auto
  show "loop_client_packet E os i c (channel_frame n p) el
      = send_or_warn os (c_allocation ch) (peer_address ch) p (el\<lparr>el_server := count_relayed (length p) ?s\<rparr>)"
    using handle_client_input_frame [OF assms(2-4,7,5,6)] cd by (simp add: loop_client_packet_def)
  have "fast ?s (c_allocation ch, peer_address ch) = Some (c, n)"
    using fast_iff [OF assms(1)] assms(5,6) by blast
  then have peer: "handle_peer_traffic ?s p (peer_address ch) (c_allocation ch)
      = (count_relayed (length p) ?s, Some (c, n))"
    by (simp add: handle_peer_traffic_def)
  obtain header where h: "relay_encode_header_to_slice n (of_nat (length p)) (el_header el)
      = Done (length p + 4, header)" "header @ p = channel_frame n p"
    using relay_encode_frame [of "el_header el" p n] assms(7,8) by (auto simp: HEADER_LEN_def)
  have "take (length p + 4) (header @ p) = header @ p"
    using h(2) arg_cong [OF h(2), of length] by (simp add: channel_frame_def split: prod.splits)
  moreover have "n \<le> 0x7FFF" by (rule order_trans [OF assms(4)]) simp
  then have "snownet_decode (header @ p) = Inr (n, p)"
    using snownet_decode_frame [OF assms(3) _ assms(7), of "[]"] h(2) by simp
  ultimately show "\<exists>header. loop_peer_packet os (c_allocation ch) (peer_address ch) p el
      = send_or_warn os (listen_port ?s) c (header @ p)
          (el\<lparr>el_server := count_relayed (length p) ?s, el_header := header\<rparr>)
      \<and> snownet_decode (header @ p) = Inr (n, p)"
    using peer h(1) by (intro exI [of _ header])
      (simp add: loop_peer_packet_def count_relayed_def)
qed

section \<open>The loop never panics\<close>

lemma relayed_is_channel_data:
  assumes "handle_client_input E s bs c now wall = Done (t, Some x)"
  shows "\<exists>cd d. channel_data_parse E bs = Inr cd \<and> channel_data_data cd = Done d"
proof -
  from assms obtain msg where msg: "decode E bs = Inr (Inr msg)"
    "handle_client_message E s msg c now wall = Done (t, Some x)"
    by (auto simp: handle_client_input_def elim!: and_then_DoneE split: sum.splits)
  then obtain cd where "msg = ChannelData cd"
    by (cases msg) (auto simp: handle_client_message_def elim!: and_then_DoneE split: sum.splits)
  with msg(1) have "channel_data_parse E bs = Inr cd" by (simp add: decode_channel_data)
  with channel_data_parse_data show ?thesis by blast
qed

text \<open>
  The invariant of the loop: the invariant of the server, no buffered packet without its socket, a
  header buffer of four bytes, and a worker thread that did not hang up without saying so.
\<close>

definition loop_inv :: "('net, 'sock, 'r) eventloop \<Rightarrow> bool" where
  "loop_inv el \<longleftrightarrow> server_inv (el_server el) \<and> pending_connected (el_sockets el)
     \<and> length (el_header el) = 4 \<and> crash_reported (el_sockets el)"

definition packets_ok :: "('msg, 'mi, 'r) relay_env \<Rightarrow> ('net, 'sock) os \<Rightarrow> bool" where
  "packets_ok E os \<longleftrightarrow>
     (\<forall>net s net' p a. recv_from os net s = (net', Inr (p, a)) \<longrightarrow> input_expiry_ok E p)"

lemma try_send_open: "try_send os net s port dest msg = Done (net', s', r) \<Longrightarrow> crash_reported s' = crash_reported s"
  by (auto simp: try_send_def crash_reported_def elim!: and_then_DoneE split: sum.splits if_splits)

lemma send_or_warn_inv:
  assumes "os_laws os" "loop_inv el"
  shows "\<exists>el'. send_or_warn os port dest msg el = Done el' \<and> loop_inv el' \<and> el_server el' = el_server el
    \<and> el_shutting_down el' = el_shutting_down el \<and> el_channel el' = el_channel el"
proof -
  obtain net' s' r where t: "try_send os (el_net el) (el_sockets el) port dest msg = Done (net', s', r)"
    "pending_connected s'"
    using try_send_spec [OF assms(1), of "el_sockets el"] assms(2) unfolding loop_inv_def by blast
  with assms(2) try_send_open [OF t(1)] show ?thesis
    by (simp add: send_or_warn_def loop_inv_def)
qed

definition recv_good :: "('net, 'sock) os \<Rightarrow> ('net \<times> 'sock sockets \<times> recv_result) outcome \<Rightarrow> bool" where
  "recv_good os res \<longleftrightarrow> (\<exists>net s r. res = Done (net, s, r) \<and> pending_connected s \<and> (r \<noteq> RecvCrashed \<longrightarrow> crash_reported s)
     \<and> (\<forall>rc. r = RecvReady rc \<longrightarrow> (\<exists>n1 k n2. recv_from os n1 k = (n2, Inr (rc_packet rc, rc_from rc)))))"

lemma recv_good_simps:
  "recv_good os (Done (net, s, r)) \<longleftrightarrow> pending_connected s \<and> (r \<noteq> RecvCrashed \<longrightarrow> crash_reported s)
     \<and> (\<forall>rc. r = RecvReady rc \<longrightarrow> (\<exists>n1 k n2. recv_from os n1 k = (n2, Inr (rc_packet rc, rc_from rc))))"
  by (auto simp: recv_good_def)

lemma pending_connected_upd [simp]:
  "pending_connected (s\<lparr>sk_current_ready_socket := x\<rparr>) = pending_connected s"
  "pending_connected (s\<lparr>sk_flush_waker := b\<rparr>) = pending_connected s"
  "pending_connected (s\<lparr>sk_event_rx := es\<rparr>) = pending_connected s"
  "pending_connected s \<Longrightarrow> pending_connected (s\<lparr>sk_event_rx := es, sk_inner := hm_insert t k (sk_inner s)\<rparr>)"
  by (auto simp: pending_connected_def connected_def list_all_iff)

lemma crash_reported_upd [simp]:
  "crash_reported (s\<lparr>sk_current_ready_socket := x\<rparr>) = crash_reported s"
  "crash_reported (s\<lparr>sk_inner := m\<rparr>) = crash_reported s"
  "crash_reported (s\<lparr>sk_pending_packets := ps\<rparr>) = crash_reported s"
  "crash_reported (s\<lparr>sk_cmd_tx := cs\<rparr>) = crash_reported s"
  "crash_reported (s\<lparr>sk_flush_waker := b\<rparr>) = crash_reported s"
  by (simp_all add: crash_reported_def)

lemma poll_recv_from_good:
  assumes "pending_connected s" "crash_reported s"
  shows "recv_good os (poll_recv_from os net s)"
  using assms
proof (induction os net s rule: poll_recv_from.induct)
  case (1 os net s)
  show ?case
  proof (cases "ready_socket s")
    case (Some x)
    obtain t k where x: "x = (t, k)" by fastforce
    obtain net' r where r: "recv_from os net k = (net', r)" by fastforce
    show ?thesis
    proof (cases r)
      case (Inl e)
      with "1.prems" "1.IH"(3) Some x r show ?thesis
        by (subst poll_recv_from.simps) (auto simp: recv_good_simps)
    next
      case (Inr y)
      with "1.prems" Some x r show ?thesis
        by (subst poll_recv_from.simps) (cases y, auto simp: recv_good_simps)
    qed
  next
    case None
    with "1.prems" "1.IH"(1,2) show ?thesis
      by (subst poll_recv_from.simps)
        (auto simp: recv_good_simps crash_reported_def split: list.split sock_event.split)
  qed
qed

text \<open>What each part of an iteration keeps: the invariant, and whether the relay is shutting down.\<close>

definition part_ok ::
    "('net, 'sock, 'r) eventloop \<Rightarrow> (('net, 'sock, 'r) eventloop \<times> bool) option outcome \<Rightarrow> bool" where
  "part_ok el res \<longleftrightarrow> (\<exists>x. res = Done x \<and>
     (\<forall>el' ready. x = Some (el', ready) \<longrightarrow> loop_inv el' \<and> el_shutting_down el' = el_shutting_down el))"

lemma send_part:
  assumes "os_laws os" "loop_inv el'" "el_shutting_down el' = el_shutting_down el"
  shows "part_ok el (and_then (send_or_warn os port dest msg el') (\<lambda>el2. Done (Some (el2, b))))"
  using send_or_warn_inv [OF assms(1,2), of port dest msg] assms(3) by (auto simp: part_ok_def)

lemma cmd_try_send_open:
  "cmd_try_send c s = Some s' \<Longrightarrow> crash_reported s' = crash_reported s \<and>
     sk_inner s' = sk_inner s \<and> sk_pending_packets s' = sk_pending_packets s"
  by (auto simp: cmd_try_send_def split: if_splits)

lemma loop_command_ok:
  assumes os: "os_laws os" and inv: "loop_inv el" and drained: "sk_pending_packets (el_sockets el) = []"
  shows "part_ok el (loop_command os el)"
proof -
  obtain server cmd where n: "next_command (el_server el) = (server, cmd)" by fastforce
  then have "core server = core (el_server el)"
    by (auto simp: next_command_def core_def split: list.splits)
  then have inv': "loop_inv (el\<lparr>el_server := server\<rparr>)"
    using inv server_inv_cong [of server "el_server el"] by (simp add: loop_inv_def)
  have none: "pending_connected s'" if "sk_pending_packets s' = []" for s' :: "'b sockets"
    using that by (simp add: pending_connected_def)
  show ?thesis
  proof (cases cmd)
    case None
    with n inv' show ?thesis by (simp add: loop_command_def part_ok_def)
  next
    case (Some c)
    show ?thesis
    proof (cases c)
      case (SendMessage bs r)
      with n Some send_part [OF os inv', of el] show ?thesis by (simp add: loop_command_def)
    next
      case (CreateAllocation port family)
      with n Some inv' drained none show ?thesis
        by (auto simp: loop_command_def part_ok_def loop_inv_def sockets_bind_def dest: cmd_try_send_open)
    next
      case (FreeAllocation port family)
      with n Some inv' drained none show ?thesis
        by (auto simp: loop_command_def part_ok_def loop_inv_def sockets_unbind_def Let_def
            dest: cmd_try_send_open split: option.splits)
    qed
  qed
qed

lemma loop_client_packet_ok:
  assumes laws: "stun_laws E" "draws_all E" "os_laws os" and inv: "loop_inv el" and bs: "input_expiry_ok E bs"
  shows "\<exists>el'. loop_client_packet E os i c bs el = Done el' \<and> loop_inv el'
    \<and> el_shutting_down el' = el_shutting_down el"
proof -
  have "server_inv (el_server el)" using inv by (simp add: loop_inv_def)
  from handle_client_input_ok [OF laws(1,2) this bs, of c "in_now i" "in_wall i"] obtain t r where
    t: "handle_client_input E (el_server el) bs c (in_now i) (in_wall i) = Done (t, r)" "server_inv t"
    by (auto simp: input_ok_def)
  have inv': "loop_inv (el\<lparr>el_server := t\<rparr>)" using inv t(2) by (simp add: loop_inv_def)
  show ?thesis
  proof (cases r)
    case None
    with t(1) inv' show ?thesis by (simp add: loop_client_packet_def)
  next
    case (Some x)
    obtain port peer where x: "x = (port, peer)" by fastforce
    obtain cd d where "channel_data_parse E bs = Inr cd" "channel_data_data cd = Done d"
      using relayed_is_channel_data [OF t(1) [unfolded Some]] by blast
    with t(1) Some x send_or_warn_inv [OF laws(3) inv', of port peer d] show ?thesis
      by (auto simp: loop_client_packet_def)
  qed
qed

lemma loop_peer_packet_ok:
  assumes laws: "os_laws os" and inv: "loop_inv el"
  shows "\<exists>el'. loop_peer_packet os port c bs el = Done el' \<and> loop_inv el'
    \<and> el_shutting_down el' = el_shutting_down el"
proof -
  obtain t r where t: "handle_peer_traffic (el_server el) bs c port = (t, r)" by fastforce
  then have "core t = core (el_server el)" by (auto simp: handle_peer_traffic_def split: option.splits)
  then have inv': "loop_inv (el\<lparr>el_server := t\<rparr>)"
    using inv server_inv_cong [of t "el_server el"] by (simp add: loop_inv_def)
  show ?thesis
  proof (cases r)
    case (Some x)
    obtain client n where x: "x = (client, n)" by fastforce
    obtain len header where h: "relay_encode_header_to_slice n (of_nat (length bs)) (el_header el) = Done (len, header)"
      "length header = 4"
      using inv by (cases "u16_to_be_bytes n"; cases "u16_to_be_bytes (of_nat (length bs))")
        (auto simp: relay_encode_header_to_slice_def loop_inv_def)
    have "loop_inv (el\<lparr>el_server := t, el_header := header\<rparr>)" using inv' h(2) by (simp add: loop_inv_def)
    from send_or_warn_inv [OF laws this, of "listen_port t" client "take len (header @ bs)"] t Some x h(1)
    show ?thesis by (auto simp: loop_peer_packet_def)
  qed (use t inv' in \<open>simp add: loop_peer_packet_def\<close>)
qed

lemma loop_recv_ok:
  assumes laws: "stun_laws E" "draws_all E" "os_laws os" "packets_ok E os" and inv: "loop_inv el"
  shows "part_ok el (loop_recv E os i el)"
proof -
  from poll_recv_from_good [of "el_sockets el" os "el_net el"] inv obtain net s r where
    r: "poll_recv_from os (el_net el) (el_sockets el) = Done (net, s, r)" "pending_connected s" "r \<noteq> RecvCrashed \<longrightarrow> crash_reported s"
      "\<forall>rc. r = RecvReady rc \<longrightarrow> (\<exists>n1 k n2. recv_from os n1 k = (n2, Inr (rc_packet rc, rc_from rc)))"
    by (auto simp: loop_inv_def recv_good_def)
  let ?el = "el\<lparr>el_net := net, el_sockets := s\<rparr>"
  have inv': "loop_inv ?el" if "r \<noteq> RecvCrashed" using that inv r by (simp add: loop_inv_def)
  show ?thesis
  proof (cases r)
    case (RecvReady rc)
    note inv' = inv' [unfolded RecvReady, simplified]
    from RecvReady r(4) laws(4) have "input_expiry_ok E (rc_packet rc)" unfolding packets_ok_def by blast
    then obtain el' where "(if rc_port rc = listen_port (el_server ?el)
        then loop_client_packet E os i (rc_from rc) (rc_packet rc) ?el
        else loop_peer_packet os (rc_port rc) (rc_from rc) (rc_packet rc) ?el) = Done el'"
      "loop_inv el'" "el_shutting_down el' = el_shutting_down el"
      using loop_client_packet_ok [OF laws(1-3) inv', of "rc_packet rc" i "rc_from rc"]
        loop_peer_packet_ok [OF laws(3) inv', of "rc_port rc" "rc_from rc" "rc_packet rc"]
      by (cases "rc_port rc = listen_port (el_server ?el)") auto
    with r(1) RecvReady show ?thesis by (simp add: loop_recv_def part_ok_def)
  qed (use r(1) inv' in \<open>simp_all add: loop_recv_def part_ok_def\<close>)
qed

lemma loop_timer_ok:
  assumes inv: "loop_inv el"
  shows "\<exists>el' ready. loop_timer i el = Done (el', ready) \<and> loop_inv el'
    \<and> el_shutting_down el' = el_shutting_down el"
proof -
  let ?sl = "case poll_timeout (el_server el) of
      Some timeout \<Rightarrow> sleep_reset timeout (el_sleep el) | None \<Rightarrow> el_sleep el"
  obtain sl fired where p: "sleep_poll (in_now i) ?sl = (sl, fired)" by fastforce
  show ?thesis
  proof (cases fired)
    case None
    with p inv show ?thesis by (auto simp: loop_timer_def loop_inv_def)
  next
    case (Some d)
    obtain t where "handle_timeout (el_server el) d = Done t" "server_inv t"
      using handle_timeout_spec inv loop_inv_def by metis
    with p Some inv show ?thesis by (auto simp: loop_timer_def loop_inv_def)
  qed
qed

lemma loop_portal_ok:
  "loop_portal i el = Some (el', ready) \<Longrightarrow> loop_inv el \<Longrightarrow>
     loop_inv el' \<and> el_shutting_down el' = el_shutting_down el"
  by (auto simp: loop_portal_def handle_portal_event_def loop_inv_def
      split: if_splits option.splits sum.splits portal_event.splits)

lemma loop_signals_ok: "loop_signals i el = Some (el', ready) \<Longrightarrow> loop_inv el \<Longrightarrow> loop_inv el'"
  by (auto simp: loop_signals_def loop_inv_def split: if_splits)

lemma loop_stats_ok: "loop_stats i el = (el', logged) \<Longrightarrow> loop_inv el \<Longrightarrow> loop_inv el'"
  by (auto simp: loop_stats_def loop_inv_def Let_def split: if_splits)

text \<open>
  The logged throughput is right even when the counter wrapped around since the last tick, as long as
  fewer than \<open>2 ^ 64\<close> bytes were relayed in between.
\<close>

lemma loop_stats_throughput:
  assumes "in_stats_tick i" "num_relayed_bytes (el_server el) = el_last_num_bytes_relayed el + of_nat n" "n < 2 ^ 64"
  shows "\<exists>el' st. loop_stats i el = (el', Some st) \<and> unat (st_avg_throughput st) = n div 10"
  using assms by (simp add: loop_stats_def Let_def STATS_LOG_INTERVAL_def as_secs_def from_secs_def unat_div unat_of_nat)

lemma loop_tail_ok:
  assumes "loop_inv el" "loop_tail i ready el = Again el' \<or> loop_tail i ready el = Suspended el'"
  shows "loop_inv el'"
  using assms(2) loop_portal_ok [OF _ assms(1)] loop_signals_ok loop_stats_ok
  by (fastforce simp: loop_tail_def split: option.splits prod.splits if_splits)

lemma flush_ok:
  assumes os: "os_laws os" and inv: "loop_inv el"
  shows "\<exists>net s r. flush os (el_net el) (el_sockets el) = Done (net, s, r)
    \<and> loop_inv (el\<lparr>el_net := net, el_sockets := s\<rparr>) \<and> r \<noteq> FlushReady (Inl NotConnected)
    \<and> (r = FlushReady (Inr ()) \<longrightarrow> sk_pending_packets s = [])"
proof -
  let ?s = "el_sockets el"
  have conn: "list_all (connected (sk_inner ?s)) (sk_pending_packets ?s)"
    using inv by (simp add: loop_inv_def pending_connected_def)
  obtain net n r where f: "flush_packets os (sk_inner ?s) (el_net el) (sk_pending_packets ?s)
      = Done (net, drop n (sk_pending_packets ?s), r)"
    "r = FlushReady (Inr ()) \<longleftrightarrow> n = length (sk_pending_packets ?s) \<and> (\<forall>e. r \<noteq> FlushReady (Inl e))"
    "r \<noteq> FlushReady (Inl NotConnected)"
    using flush_packets_spec [OF os conn, of "el_net el"] by blast
  have "list_all (connected (sk_inner ?s)) (drop n (sk_pending_packets ?s))"
    using conn by (auto simp: list_all_iff dest: in_set_dropD)
  with f inv show ?thesis
    by (simp add: flush_def loop_inv_def pending_connected_def)
qed

lemma eventloop_iteration_ok:
  assumes laws: "stun_laws E" "draws_all E" "os_laws os" "packets_ok E os" and inv: "loop_inv el"
  shows "\<exists>r. eventloop_iteration E os i el = Done r
    \<and> (\<forall>el'. r = Again el' \<or> r = Suspended el' \<longrightarrow> loop_inv el')"
proof (cases "el_shutting_down el \<and> \<not> el_channel el \<and> num_allocations (el_server el) = 0")
  case False
  obtain net s fl where f: "flush os (el_net el) (el_sockets el) = Done (net, s, fl)"
    "loop_inv (el\<lparr>el_net := net, el_sockets := s\<rparr>)"
    "fl = FlushReady (Inr ()) \<longrightarrow> sk_pending_packets s = []"
    using flush_ok [OF laws(3) inv] by blast
  let ?el = "el\<lparr>el_net := net, el_sockets := s\<rparr>"
  show ?thesis
  proof (cases "fl = FlushReady (Inr ())")
    case True
    then have "part_ok ?el (loop_command os ?el)" using loop_command_ok [OF laws(3) f(2)] f(3) by simp
    then obtain c where c: "loop_command os ?el = Done c"
      "\<And>el1 b. c = Some (el1, b) \<Longrightarrow> loop_inv el1" by (auto simp: part_ok_def)
    show ?thesis
    proof (cases c)
      case (Some x)
      obtain el1 b1 where x: "x = (el1, b1)" by fastforce
      then have "part_ok el1 (loop_recv E os i el1)" using loop_recv_ok [OF laws] c(2) Some by blast
      then obtain r where r: "loop_recv E os i el1 = Done r"
        "\<And>el2 b. r = Some (el2, b) \<Longrightarrow> loop_inv el2" by (auto simp: part_ok_def)
      show ?thesis
      proof (cases r)
        case y: (Some y)
        obtain el2 b2 where y2: "y = (el2, b2)" by fastforce
        then obtain el3 b3 where t: "loop_timer i el2 = Done (el3, b3)" "loop_inv el3"
          using loop_timer_ok r(2) y by metis
        show ?thesis
          using False True f(1) c(1) Some x r(1) y y2 t loop_tail_ok [OF t(2)]
          by (simp add: eventloop_iteration_def) blast
      qed (use False True f(1) c(1) Some x r(1) in \<open>simp add: eventloop_iteration_def\<close>)
    qed (use False True f(1) c(1) in \<open>simp add: eventloop_iteration_def\<close>)
  qed (use False f in \<open>auto simp: eventloop_iteration_def Let_def split: flush_result.split sum.split\<close>)
qed (simp add: eventloop_iteration_def)

section \<open>The loop and its worker\<close>

text \<open>
  The whole relay: iterations of the event loop, with any input, and steps of the worker thread, in
  any order.
\<close>

inductive relay_runs :: "('msg, 'mi, 'r) relay_env \<Rightarrow> ('net, 'sock) os \<Rightarrow> ('net, 'sock, 'r) eventloop
    \<Rightarrow> 'sock worker \<Rightarrow> bool" for E os where
  started: "eventloop_new (server_new E addr r port port_range) addr net = Some el \<Longrightarrow> relay_runs E os el WorkerStart"
| iterated: "relay_runs E os el w \<Longrightarrow>
    eventloop_iteration E os i el = Done (Again el') \<or> eventloop_iteration E os i el = Done (Suspended el') \<Longrightarrow>
    relay_runs E os el' w"
| worked: "relay_runs E os el w \<Longrightarrow> worker_step os w (el_net el) (el_sockets el) = Some (net', w', s') \<Longrightarrow>
    relay_runs E os (el\<lparr>el_net := net', el_sockets := s'\<rparr>) w'"

lemma eventloop_new_inv:
  assumes "eventloop_new server addr net = Some el" "server_inv server"
  shows "loop_inv el"
  using assms by (auto simp: eventloop_new_def sockets_new_def sockets_bind_def cmd_try_send_def loop_inv_def
      pending_connected_def crash_reported_def Let_def split: if_splits option.splits)

lemma worker_keeps_loop:
  assumes "loop_inv el" "worker_step os w (el_net el) (el_sockets el) = Some (net', w', s')"
  shows "loop_inv (el\<lparr>el_net := net', el_sockets := s'\<rparr>)"
  using worker_step_frame [OF assms(2)] assms(1) by (simp add: loop_inv_def pending_connected_def)

lemma relay_runs_inv:
  assumes "relay_runs E os el w" "stun_laws E" "draws_all E" "os_laws os" "packets_ok E os"
  shows "loop_inv el"
  using assms(1)
proof induction
  case (started addr r port port_range net el)
  from eventloop_new_inv [OF started server_new_inv] show ?case .
next
  case (iterated el w i el')
  then show ?case using eventloop_iteration_ok [OF assms(2-5), of el i] by auto
next
  case (worked el w net' w' s')
  show ?case by (rule worker_keeps_loop [OF worked.IH worked.hyps(2)])
qed

text \<open>
  C20. The event loop never panics: from its start, however its iterations interleave with the steps of the worker thread
  and whatever the portal, the timer and the signals do, the next iteration returns. A buffered packet
  always has its socket, since a socket is closed only when nothing is buffered, so flushing never fails for want of one. The
  loop never polls a channel that the worker has closed, since it stops at the crash report before it. Two things are required of the
  operating system (a datagram is sent whole or not at all, and an open socket is not reported as unconnected), and one of the
  packets it delivers: the expiry in a user name is below \<open>2 ^ 63\<close> seconds (the relay panics on others).
\<close>

theorem eventloop_iteration_total:
  assumes laws: "stun_laws E" "draws_all E" "os_laws os" "packets_ok E os" and runs: "relay_runs E os el w"
  shows "(\<exists>r. eventloop_iteration E os i el = Done r)
    \<and> (\<exists>net s r. flush os (el_net el) (el_sockets el) = Done (net, s, r) \<and> r \<noteq> FlushReady (Inl NotConnected))
    \<and> list_all (\<lambda>p. hm_get (sk_inner (el_sockets el)) (token_from_port_and_address_family (src p) (sock_family (dst p))) \<noteq> None)
        (sk_pending_packets (el_sockets el))"
proof -
  have inv: "loop_inv el" using relay_runs_inv [OF runs laws] .
  then have "list_all (\<lambda>p. hm_get (sk_inner (el_sockets el)) (token_from_port_and_address_family (src p) (sock_family (dst p))) \<noteq> None)
        (sk_pending_packets (el_sockets el))"
    by (simp add: loop_inv_def pending_connected_def connected_def list_all_iff)
  then show ?thesis using eventloop_iteration_ok [OF laws inv] flush_ok [OF laws(3) inv] by blast
qed

text \<open>
  An operating system for the witnesses: it records what is sent and takes everything, except that
  the socket 13 refuses; nothing is ever received.
\<close>

definition sample_os :: "((nat \<times> bytes \<times> socket_addr) list, nat) os" where
  "sample_os = \<lparr>
     send_to = (\<lambda>net k m d. if k = 13 then (net, Inl (OtherIo 111)) else (net @ [(k, m, d)], Inr (length m))),
     recv_from = (\<lambda>net k. (net, Inl WouldBlock)),
     socket_new = (\<lambda>family net. (net, Inr (if family = AF_V6 then 6 else 4))),
     set_only_v6 = (\<lambda>k b net. (net, Inr ())), set_nonblocking = (\<lambda>k b net. (net, Inr ())),
     socket_bind = (\<lambda>k a net. (net, Inr ())), poll_new = (\<lambda>net. (net, Inr ())),
     poll_register = (\<lambda>k t net. (net, Inr ())), poll_deregister = (\<lambda>k net. (net, Inr ())),
     poll_poll = (\<lambda>net. (net, Inr []))\<rparr>"

lemma sample_os_laws: "os_laws sample_os" "packets_ok E sample_os"
  by (auto simp: sample_os_def os_laws_def packets_ok_def)

definition sample_loop :: "((nat \<times> bytes \<times> socket_addr) list, nat, u128) eventloop" where
  "sample_loop = \<lparr>el_net = [],
     el_sockets = sockets_new\<lparr>sk_inner := [(token_from_port_and_address_family 3478 AF_V4, 1),
       (token_from_port_and_address_family 49154 AF_V4, 2)]\<rparr>,
     el_server = sample_bound, el_channel = True, el_sleep = None, el_shutting_down = False,
     el_last_num_bytes_relayed = 0, el_last_heartbeat_sent = None, el_header = [0, 0, 0, 0]\<rparr>"

definition sample_input :: loop_input where
  "sample_input = \<lparr>in_now = 8, in_wall = 0, in_portal = None, in_portal_closes = True,
     in_sigterm = False, in_stats_tick = False\<rparr>"

lemma sample_loop_inv: "loop_inv sample_loop"
  using sample_inv(4) by (simp add: sample_loop_def loop_inv_def pending_connected_def crash_reported_def sockets_new_def)

lemma sample_runs:
  "\<exists>el. relay_runs sample_env sample_os el WorkerDrain
     \<and> sk_event_rx (el_sockets el) = [NewSocketEv (token_from_port_and_address_family 3478 AF_V4) 4]"
proof -
  let ?el = "\<lambda>s. \<lparr>el_net = [], el_sockets = s, el_server = sample_new, el_channel = True, el_sleep = None,
      el_shutting_down = False, el_last_num_bytes_relayed = 0, el_last_heartbeat_sent = None, el_header = [0, 0, 0, 0]\<rparr>"
  let ?s = "sockets_new\<lparr>sk_cmd_tx := [NewSocketCmd 3478 AF_V4, NewSocketCmd 3478 AF_V6]\<rparr>"
  have port: "listen_port sample_new = 3478" by (simp add: sample_new_def server_new_def sample_env_simps)
  have "eventloop_new sample_new (Dual 1 2) [] = Some (?el ?s)"
    by (simp add: eventloop_new_def port sockets_bind_def cmd_try_send_def sockets_new_def)
  then have "relay_runs sample_env sample_os (?el ?s) WorkerStart" unfolding sample_new_def by (rule started)
  then have "relay_runs sample_env sample_os (?el ?s) WorkerPoll"
    using worked [of sample_env sample_os "?el ?s" WorkerStart "[]" WorkerPoll ?s] by (simp add: worker_io_def sample_os_def)
  then have "relay_runs sample_env sample_os (?el ?s) (WorkerEvents [])"
    using worked [of sample_env sample_os "?el ?s" WorkerPoll "[]" "WorkerEvents []" ?s] by (simp add: worker_io_def sample_os_def)
  then have "relay_runs sample_env sample_os (?el ?s) WorkerDrain"
    using worked [of sample_env sample_os "?el ?s" "WorkerEvents []" "[]" WorkerDrain ?s] by simp
  then have "relay_runs sample_env sample_os (?el (?s\<lparr>sk_cmd_tx := [NewSocketCmd 3478 AF_V6]\<rparr>))
      (WorkerHandOver (token_from_port_and_address_family 3478 AF_V4) 4)"
    using worked [of sample_env sample_os "?el ?s" WorkerDrain "[]" "WorkerHandOver (token_from_port_and_address_family 3478 AF_V4) 4"
        "?s\<lparr>sk_cmd_tx := [NewSocketCmd 3478 AF_V6]\<rparr>"]
    by (simp add: worker_io_def io_then_def make_wildcard_socket_def sample_os_def)
  from worked [OF this, of "[]" WorkerDrain "?s\<lparr>sk_cmd_tx := [NewSocketCmd 3478 AF_V6],
      sk_event_rx := [NewSocketEv (token_from_port_and_address_family 3478 AF_V4) 4]\<rparr>"]
  show ?thesis by (force simp: event_blocking_send_def sockets_new_def)
qed

theorem eventloop_iteration_total_witness:
  "\<exists>el. relay_runs sample_env sample_os el WorkerDrain
     \<and> sk_event_rx (el_sockets el) = [NewSocketEv (token_from_port_and_address_family 3478 AF_V4) 4]
     \<and> (\<exists>r. eventloop_iteration sample_env sample_os sample_input el = Done r)"
  using sample_runs eventloop_iteration_total [OF sample_env_laws sample_env_draws sample_os_laws, where i = sample_input] by blast

theorem eventloop_relays_witness:
  "loop_client_packet sample_env sample_os sample_input (SockV4 1 1) (channel_frame 0x4000 [42]) sample_loop
     = send_or_warn sample_os 49154 (SockV4 0x0A000001 5000) [42]
         (sample_loop\<lparr>el_server := count_relayed 1 sample_bound\<rparr>)"
proof -
  have pre: "server_inv (el_server sample_loop)" "channel_number_ok sample_env 0x4000"
    "hm_get (channels_by_client_and_number (el_server sample_loop)) (SockV4 1 1, 0x4000) = Some sample_channel"
    "bound sample_channel" "length (el_header sample_loop) = 4"
    using sample_inv(4) by (simp_all add: sample_loop_def sample_env_simps sample_states hm_get_def)
  have sel: "c_allocation sample_channel = 49154" "peer_address sample_channel = SockV4 0x0A000001 5000"
    "el_server sample_loop = sample_bound" "length [42 :: u8] = 1"
    by (simp_all add: sample_states sample_loop_def)
  from eventloop_relays [OF pre(1,2) _ _ pre(3,4) _ pre(5), of "[42]" sample_os sample_input]
  show ?thesis unfolding sel by simp
qed

text \<open>
  C39. A send error while flushing ends the relay, the same error at the first attempt does not: when
  the operating system refuses a buffered packet (for example because the destination became
  unreachable), the iteration fails and the event loop returns the error; when it refuses a packet
  that is sent directly, the loop only logs it.
\<close>

theorem flush_error_ends_loop:
  assumes "os_laws os" "sk_pending_packets (el_sockets el) = packet # rest"
    and "hm_get (sk_inner (el_sockets el))
      (token_from_port_and_address_family (src packet) (sock_family (dst packet))) = Some socket"
    and "send_to os (el_net el) socket (payload packet) (dst packet) = (net, Inl e)" "e \<noteq> WouldBlock"
    and "\<not> el_shutting_down el"
  shows "eventloop_iteration E os i el = Done Failed
    \<and> send_or_warn os (src packet) (dst packet) (payload packet) el = Done (el\<lparr>el_net := net\<rparr>)"
proof -
  have "try_send_internal os (sk_inner (el_sockets el)) (el_net el) (src packet) (dst packet) (payload packet)
      = Done (net, Inl e)"
    using assms(3,4) by (simp add: try_send_internal_def)
  with assms(2,5,6) show ?thesis
    by (simp add: eventloop_iteration_def flush_def send_or_warn_def try_send_def)
qed

theorem flush_error_ends_loop_witness:
  "eventloop_iteration sample_env sample_os sample_input (sample_loop\<lparr>el_sockets := sockets_new\<lparr>
     sk_inner := [(token_from_port_and_address_family 3478 AF_V4, 13)],
     sk_pending_packets := [\<lparr>src = 3478, dst = SockV4 1 1, payload = [7]\<rparr>]\<rparr>\<rparr>) = Done Failed"
  using flush_error_ends_loop [OF sample_os_laws(1), of "sample_loop\<lparr>el_sockets := sockets_new\<lparr>
     sk_inner := [(token_from_port_and_address_family 3478 AF_V4, 13)],
     sk_pending_packets := [\<lparr>src = 3478, dst = SockV4 1 1, payload = [7]\<rparr>]\<rparr>\<rparr>"
     "\<lparr>src = 3478, dst = SockV4 1 1, payload = [7]\<rparr>" "[]" 13 "[]" "OtherIo 111" sample_env sample_input]
  by (simp add: sample_os_def sample_loop_def hm_get_def)

text \<open>
  Graceful shutdown: the event loop exits without an error only while shutting down, and then
  only when the portal is disconnected and no allocation is left, or on a second signal.
\<close>

theorem eventloop_exit:
  assumes laws: "stun_laws E" "draws_all E" "os_laws os" "packets_ok E os" and inv: "loop_inv el"
    and exit: "eventloop_iteration E os i el = Done Exited"
  shows "el_shutting_down el \<and>
    (\<not> el_channel el \<and> num_allocations (el_server el) = 0 \<or> in_sigterm i)"
proof (rule ccontr)
  assume no: "\<not> ?thesis"
  obtain net s fl where f: "flush os (el_net el) (el_sockets el) = Done (net, s, fl)"
    "loop_inv (el\<lparr>el_net := net, el_sockets := s\<rparr>)"
    "fl = FlushReady (Inr ()) \<longrightarrow> sk_pending_packets s = []"
    using flush_ok [OF laws(3) inv] by blast
  let ?el = "el\<lparr>el_net := net, el_sockets := s\<rparr>"
  from exit no f(1) have fl: "fl = FlushReady (Inr ())"
    by (auto simp: eventloop_iteration_def Let_def split: flush_result.splits sum.splits if_splits)
  from exit no f(1) fl obtain el1 b1 where c: "loop_command os ?el = Done (Some (el1, b1))"
    by (auto simp: eventloop_iteration_def elim!: and_then_DoneE split: option.splits if_splits)
  then have el1: "loop_inv el1" "el_shutting_down el1 = el_shutting_down el"
    using loop_command_ok [OF laws(3) f(2)] f(3) fl by (simp_all add: part_ok_def)
  from exit no f(1) fl c obtain el2 b2 where r: "loop_recv E os i el1 = Done (Some (el2, b2))"
    by (auto simp: eventloop_iteration_def elim!: and_then_DoneE split: option.splits if_splits)
  then have el2: "loop_inv el2" "el_shutting_down el2 = el_shutting_down el"
    using loop_recv_ok [OF laws el1(1), of i] el1(2) by (simp_all add: part_ok_def)
  obtain el3 b3 where t: "loop_timer i el2 = Done (el3, b3)" "loop_inv el3"
    "el_shutting_down el3 = el_shutting_down el"
    using loop_timer_ok [OF el2(1), of i] el2(2) by auto
  from exit no f(1) fl c r t(1) have "loop_tail i (b1 \<or> b2 \<or> b3) el3 = Exited"
    by (auto simp: eventloop_iteration_def split: if_splits)
  then obtain el4 b4 where p: "loop_portal i el3 = Some (el4, b4)" "loop_signals i el4 = None"
    by (auto simp: loop_tail_def Let_def split: option.splits prod.splits if_splits)
  from loop_portal_ok [OF p(1) t(2)] t(3) p(2) no show False
    by (auto simp: loop_signals_def split: if_splits)
qed

theorem eventloop_exit_witness:
  "eventloop_iteration sample_env sample_os sample_input
     (sample_loop\<lparr>el_server := sample_new, el_shutting_down := True, el_channel := False\<rparr>) = Done Exited
   \<and> el_shutting_down (sample_loop\<lparr>el_server := sample_new, el_shutting_down := True, el_channel := False\<rparr>)"
proof -
  let ?el = "sample_loop\<lparr>el_server := sample_new, el_shutting_down := True, el_channel := False\<rparr>"
  have "num_allocations sample_new = 0"
    by (simp add: num_allocations_def sample_new_def server_new_def sample_env_simps hm_len_def)
  then have "eventloop_iteration sample_env sample_os sample_input ?el = Done Exited"
    by (simp add: eventloop_iteration_def)
  moreover have "loop_inv ?el" using sample_loop_inv sample_inv(1) by (simp add: loop_inv_def)
  ultimately show ?thesis
    using eventloop_exit [OF sample_env_laws sample_env_draws sample_os_laws, of ?el sample_input] by blast
qed

end
