(* ===== verification/Fallible.thy ===== *)
theory Fallible
  imports Prelude
begin

text \<open>
  Shared vocabulary of the tunnel components: code that returns \<^verbatim>\<open>anyhow::Result\<close> and may also
  panic, slices of byte buffers with the bounds checks of Rust, and the octets of IP addresses in
  network byte order.
\<close>

section \<open>Results of code that may panic\<close>

type_synonym ('e, 'a) fallible = "('e + 'a) outcome"

abbreviation fail :: "'e \<Rightarrow> ('e, 'a) fallible" where
  "fail e \<equiv> Done (Inl e)"

abbreviation succeed :: "'a \<Rightarrow> ('e, 'a) fallible" where
  "succeed x \<equiv> Done (Inr x)"

text \<open>The question mark operator.\<close>

definition try_then :: "('e, 'a) fallible \<Rightarrow> ('a \<Rightarrow> ('e, 'b) fallible) \<Rightarrow> ('e, 'b) fallible" where
  "try_then m f = and_then m (\<lambda>r. case r of Inl e \<Rightarrow> fail e | Inr x \<Rightarrow> f x)"

definition ok_or :: "'e \<Rightarrow> 'a option \<Rightarrow> ('e, 'a) fallible" where
  "ok_or e x = (case x of None \<Rightarrow> fail e | Some y \<Rightarrow> succeed y)"

definition ensure :: "'e \<Rightarrow> bool \<Rightarrow> ('e, unit) fallible" where
  "ensure e b = (if b then succeed () else fail e)"

section \<open>Slices\<close>

text \<open>\<^verbatim>\<open>&xs[a..b]\<close> panics when the range does not lie in \<open>xs\<close>.\<close>

definition slice :: "nat \<Rightarrow> nat \<Rightarrow> bytes \<Rightarrow> bytes outcome" where
  "slice a b xs = (if a \<le> b \<and> b \<le> length xs then Done (take (b - a) (drop a xs)) else Panicked)"

text \<open>The bytes \<open>bs\<close> written over those of \<open>xs\<close> that start at \<open>off\<close>.\<close>

definition overwrite :: "nat \<Rightarrow> bytes \<Rightarrow> bytes \<Rightarrow> bytes" where
  "overwrite off bs xs = take off xs @ bs @ drop (off + length bs) xs"

text \<open>\<^verbatim>\<open>slice_utils::write_to_offset_unchecked\<close>, with its \<^verbatim>\<open>debug_assert!\<close>.\<close>

definition write_to_offset_unchecked :: "nat \<Rightarrow> bytes \<Rightarrow> bytes \<Rightarrow> bytes outcome" where
  "write_to_offset_unchecked off bs xs =
     and_then (assert_that (off + length bs \<le> length xs)) (\<lambda>_. Done (overwrite off bs xs))"

section \<open>Octets\<close>

primrec be_bytes :: "nat \<Rightarrow> 'a::len word \<Rightarrow> bytes" where
  "be_bytes 0 w = []"
| "be_bytes (Suc n) w = ucast (drop_bit (8 * n) w) # be_bytes n w"

definition be_word :: "bytes \<Rightarrow> 'a::len word" where
  "be_word bs = fold (\<lambda>b acc. push_bit 8 acc OR ucast b) bs 0"

abbreviation octets4 :: "ipv4 \<Rightarrow> bytes" where
  "octets4 a \<equiv> be_bytes 4 a"

abbreviation octets6 :: "ipv6 \<Rightarrow> bytes" where
  "octets6 a \<equiv> be_bytes 16 a"

abbreviation octets2 :: "u16 \<Rightarrow> bytes" where
  "octets2 a \<equiv> be_bytes 2 a"

text \<open>The field of \<open>n\<close> bytes at offset \<open>off\<close>.\<close>

definition field_at :: "nat \<Rightarrow> nat \<Rightarrow> bytes \<Rightarrow> 'a::len word" where
  "field_at off n bs = be_word (take n (drop off bs))"

section \<open>Lemmas\<close>

subsection \<open>Results\<close>

lemma try_then_simps [simp]:
  "try_then (Done r) f = (case r of Inl e \<Rightarrow> fail e | Inr x \<Rightarrow> f x)"
  "try_then Panicked f = Panicked" "try_then Diverges f = Diverges"
  by (simp_all add: try_then_def)

lemma try_then_succeed_iff [outcome_simps]:
  "try_then m f = succeed y \<longleftrightarrow> (\<exists>x. m = succeed x \<and> f x = succeed y)"
  by (cases m) (auto split: sum.splits)

lemma try_then_succeedE:
  assumes "try_then m f = succeed y"
  obtains x where "m = succeed x" "f x = succeed y"
  using assms by (auto simp: try_then_succeed_iff)

lemma and_then_sumE:
  assumes "and_then m (\<lambda>r. case r of Inl e \<Rightarrow> f e | Inr x \<Rightarrow> g x) = Done y"
  obtains (error) e where "m = fail e" "f e = Done y" | (success) x where "m = succeed x" "g x = Done y"
proof (cases m)
  case (Done r)
  with assms that show ?thesis by (cases r) simp_all
qed (use assms in simp_all)

lemma ok_or_simps [simp]:
  "ok_or e (Some x) = succeed x" "ok_or e None = fail e"
  "ok_or e y = succeed z \<longleftrightarrow> y = Some z"
  by (auto simp: ok_or_def split: option.splits)

lemma ensure_simps [simp]:
  "ensure e True = succeed ()" "ensure e False = fail e"
  "ensure e b = succeed u \<longleftrightarrow> b"
  by (auto simp: ensure_def)

subsection \<open>Slices\<close>

lemma slice_ok [simp]: "a \<le> b \<Longrightarrow> b \<le> length xs \<Longrightarrow> slice a b xs = Done (take (b - a) (drop a xs))"
  by (simp add: slice_def)

lemma slice_Done_iff: "slice a b xs = Done ys \<longleftrightarrow> a \<le> b \<and> b \<le> length xs \<and> ys = take (b - a) (drop a xs)"
  by (auto simp: slice_def)

lemma length_overwrite [simp]: "off + length bs \<le> length xs \<Longrightarrow> length (overwrite off bs xs) = length xs"
  by (simp add: overwrite_def)

lemma write_ok [simp]:
  "off + length bs \<le> length xs \<Longrightarrow> write_to_offset_unchecked off bs xs = Done (overwrite off bs xs)"
  by (simp add: write_to_offset_unchecked_def)

lemma overwrite_before:
  assumes "a + n \<le> off" "off + length bs \<le> length xs"
  shows "take n (drop a (overwrite off bs xs)) = take n (drop a xs)"
  using assms by (simp add: overwrite_def take_drop min_def)

lemma overwrite_after:
  assumes "off + length bs \<le> a" "off + length bs \<le> length xs"
  shows "drop a (overwrite off bs xs) = drop a xs"
  using assms by (simp add: overwrite_def)

lemma overwrite_at:
  assumes "off + length bs \<le> length xs"
  shows "take (length bs) (drop off (overwrite off bs xs)) = bs"
  using assms by (simp add: overwrite_def)

lemma overwrite_nth:
  assumes "off + length bs \<le> length xs" "i < length xs"
  shows "overwrite off bs xs ! i = (if off \<le> i \<and> i < off + length bs then bs ! (i - off) else xs ! i)"
  using assms by (auto simp: overwrite_def nth_append min_def)

subsection \<open>Octets\<close>

lemma length_be_bytes [simp]: "length (be_bytes n w) = n"
  by (induction n) auto

lemma fold_be_bytes:
  fixes w acc :: "'a::len word"
  shows "fold (\<lambda>b acc. push_bit 8 acc OR ucast b) (be_bytes n w) acc = push_bit (8 * n) acc OR take_bit (8 * n) w"
proof (induction n arbitrary: acc)
  case 0
  show ?case by simp
next
  case (Suc n)
  have "push_bit (8 * n) (push_bit 8 acc OR ucast (ucast (drop_bit (8 * n) w) :: u8)) OR take_bit (8 * n) w
        = push_bit (8 * Suc n) acc OR take_bit (8 * Suc n) w"
    by (rule bit_word_eqI) (auto simp: bit_simps ac_simps)
  with Suc show ?case by simp
qed

lemma be_word_be_bytes:
  fixes w :: "'a::len word"
  assumes "LENGTH('a) \<le> 8 * n"
  shows "be_word (be_bytes n w) = w"
  using assms by (simp add: be_word_def fold_be_bytes take_bit_word_eq_self)

lemma be_roundtrips [simp]:
  "be_word (octets4 a) = a" "be_word (octets6 b) = b" "be_word (octets2 c) = c"
  by (simp_all add: be_word_be_bytes)

lemma field_at_overwrite:
  assumes "off + length bs \<le> length xs"
  shows "field_at off (length bs) (overwrite off bs xs) = be_word bs"
  using overwrite_at [OF assms] by (simp add: field_at_def)

lemma field_at_octets:
  "off + 4 \<le> length xs \<Longrightarrow> field_at off 4 (overwrite off (octets4 a) xs) = a"
  "off + 16 \<le> length xs \<Longrightarrow> field_at off 16 (overwrite off (octets6 b) xs) = b"
  "off + 2 \<le> length xs \<Longrightarrow> field_at off 2 (overwrite off (octets2 c) xs) = c"
  using field_at_overwrite [where bs = "octets4 a" and xs = xs and off = off]
    field_at_overwrite [where bs = "octets6 b" and xs = xs and off = off]
    field_at_overwrite [where bs = "octets2 c" and xs = xs and off = off]
  by (simp_all add: field_at_def overwrite_def)

lemma field_at_before:
  "a + n \<le> off \<Longrightarrow> off + length bs \<le> length xs \<Longrightarrow> field_at a n (overwrite off bs xs) = field_at a n xs"
  by (simp add: field_at_def overwrite_before)

lemma field_at_after:
  "off + length bs \<le> a \<Longrightarrow> off + length bs \<le> length xs \<Longrightarrow> field_at a n (overwrite off bs xs) = field_at a n xs"
  by (simp add: field_at_def overwrite_after)

end
