(* ===== verification/Ip_Packet.thy ===== *)
theory Ip_Packet
  imports Fallible
begin

text \<open>
  IP packets (\<^verbatim>\<open>src/rust/ip-packet/src/lib.rs\<close> and its header modules): the packet is a range
  of a byte buffer, its fields are read through the header slices of the etherparse crate and
  written in place at fixed offsets.

  etherparse is third-party code. What the sources call of it is the record \<open>etherparse\<close>, a
  parameter of the definitions; what they rely on, namely the wire formats of IPv4, IPv6, TCP, UDP
  and the two ICMPs, is stated by the named laws \<open>ipv4_laws\<close> to \<open>icmp_laws\<close>.
\<close>

section \<open>The types of etherparse that the sources match on\<close>

text \<open>\<open>EchoRequest4 i s\<close> has identifier \<open>i\<close> and sequence number \<open>s\<close>. The data of the variants that no
  code reads is left out.\<close>

datatype icmpv4_unreachable =
    Network4 | Host4 | Protocol4 | Port4 | FragmentationNeeded u16 | SourceRouteFailed
  | NetworkUnknown | HostUnknown | Isolated | NetworkProhibited | HostProhibited
  | TosNetwork | TosHost | FilterProhibited | HostPrecedenceViolation | PrecedenceCutoff

datatype icmpv4_type =
    EchoReply4 u16 u16 | EchoRequest4 u16 u16 | DestinationUnreachable4 icmpv4_unreachable
  | Redirect4 | TimeExceeded4 u8 | ParameterProblem4 | TimestampRequest4 | TimestampReply4 | Unknown4

datatype icmpv6_unreachable =
    NoRoute | Prohibited | BeyondScope | Address6 | Port6 | SourceAddressFailedPolicy | RejectRoute

datatype icmpv6_problem =
    ErroneousHeaderField | UnrecognizedNextHeader | UnrecognizedIpv6Option
  | Ipv6FirstFragmentIncompleteHeaderChain | SrUpperLayerHeaderError
  | UnrecognizedNextHeaderByIntermediateNode | ExtensionHeaderTooBig | ExtensionHeaderChainTooLong
  | TooManyExtensionHeaders | TooManyOptionsInExtensionHeader | OptionTooBig

datatype icmpv6_type =
    EchoReply6 u16 u16 | EchoRequest6 u16 u16 | DestinationUnreachable6 icmpv6_unreachable
  | PacketTooBig u32 | TimeExceeded6 u8 | ParameterProblem6 icmpv6_problem u32 | Unknown6

type_synonym ip_number = u8

definition IP_ICMP :: ip_number where "IP_ICMP = 1"
definition IP_TCP :: ip_number where "IP_TCP = 6"
definition IP_UDP :: ip_number where "IP_UDP = 17"
definition IPV6_ICMP :: ip_number where "IPV6_ICMP = 58"
definition IPV6_HEADER_HOP_BY_HOP :: ip_number where "IPV6_HEADER_HOP_BY_HOP = 0"
definition IPV6_ROUTE_HEADER :: ip_number where "IPV6_ROUTE_HEADER = 43"
definition IPV6_FRAGMENTATION_HEADER :: ip_number where "IPV6_FRAGMENTATION_HEADER = 44"
definition IPV6_DESTINATION_OPTIONS :: ip_number where "IPV6_DESTINATION_OPTIONS = 60"

lemmas ip_number_defs = IP_ICMP_def IP_TCP_def IP_UDP_def IPV6_ICMP_def IPV6_HEADER_HOP_BY_HOP_def
  IPV6_ROUTE_HEADER_def IPV6_FRAGMENTATION_HEADER_def IPV6_DESTINATION_OPTIONS_def

text \<open>The parts of a header that the sources read from or write to \<^verbatim>\<open>Ipv4Header\<close> and \<^verbatim>\<open>Ipv6Header\<close>.\<close>

record ipv4_header =
  h4_dscp :: u8
  h4_header_len :: nat
  h4_total_len :: u16
  h4_identification :: u16
  h4_dont_fragment :: bool
  h4_more_fragments :: bool
  h4_time_to_live :: u8
  h4_protocol :: ip_number
  h4_checksum :: u16
  h4_source :: ipv4
  h4_destination :: ipv4

record ipv6_header =
  h6_traffic_class :: u8
  h6_flow_label :: u32
  h6_payload_length :: u16
  h6_next_header :: ip_number
  h6_hop_limit :: u8
  h6_source :: ipv6
  h6_destination :: ipv6

text \<open>What is read of the lenient views \<^verbatim>\<open>LaxIpv4Slice\<close> and \<^verbatim>\<open>LaxIpv6Slice\<close>.\<close>

record 'ip lax_slice =
  lax_source :: 'ip
  lax_destination :: 'ip
  lax_header_len :: nat
  lax_extension_len :: nat
  lax_total_len :: u16
  lax_protocol :: ip_number
  lax_payload :: bytes

record etherparse =
  ep_ipv4_header_ok :: "bytes \<Rightarrow> bool"
  ep_ipv4_slice_ok :: "bytes \<Rightarrow> bool"
  ep_ipv4_source :: "bytes \<Rightarrow> ipv4"
  ep_ipv4_destination :: "bytes \<Rightarrow> ipv4"
  ep_ipv4_ihl :: "bytes \<Rightarrow> u8"
  ep_ipv4_total_len :: "bytes \<Rightarrow> u16"
  ep_ipv4_protocol :: "bytes \<Rightarrow> ip_number"
  ep_ipv4_checksum :: "bytes \<Rightarrow> u16"
  ep_ipv6_header_ok :: "bytes \<Rightarrow> bool"
  ep_ipv6_slice_ok :: "bytes \<Rightarrow> bool"
  ep_ipv6_source :: "bytes \<Rightarrow> ipv6"
  ep_ipv6_destination :: "bytes \<Rightarrow> ipv6"
  ep_ipv6_payload_length :: "bytes \<Rightarrow> u16"
  ep_ipv6_next_header :: "bytes \<Rightarrow> ip_number"
  ep_udp_ok :: "bytes \<Rightarrow> bool"
  ep_udp_header_ok :: "bytes \<Rightarrow> bool"
  ep_udp_checksum4 :: "bytes \<Rightarrow> bytes \<Rightarrow> u16 option"
  ep_udp_checksum6 :: "bytes \<Rightarrow> bytes \<Rightarrow> u16 option"
  ep_tcp_ok :: "bytes \<Rightarrow> bool"
  ep_tcp_header_ok :: "bytes \<Rightarrow> bool"
  ep_tcp_checksum4 :: "bytes \<Rightarrow> bytes \<Rightarrow> u16 option"
  ep_tcp_checksum6 :: "bytes \<Rightarrow> bytes \<Rightarrow> u16 option"
  ep_source_port :: "bytes \<Rightarrow> u16"
  ep_destination_port :: "bytes \<Rightarrow> u16"
  ep_icmpv4 :: "bytes \<Rightarrow> icmpv4_type option"
  ep_icmpv4_payload :: "bytes \<Rightarrow> bytes"
  ep_icmpv4_checksum :: "icmpv4_type \<Rightarrow> bytes \<Rightarrow> u16"
  ep_icmpv6 :: "bytes \<Rightarrow> icmpv6_type option"
  ep_icmpv6_payload :: "bytes \<Rightarrow> bytes"
  ep_icmpv6_checksum :: "icmpv6_type \<Rightarrow> ipv6 \<Rightarrow> ipv6 \<Rightarrow> bytes \<Rightarrow> u16 option"
  ep_lax_ipv4 :: "bytes \<Rightarrow> ipv4 lax_slice option"
  ep_lax_ipv6 :: "bytes \<Rightarrow> ipv6 lax_slice option"
  ep_ipv4_headers :: "bytes \<Rightarrow> (ipv4_header \<times> bytes) option"
  ep_ipv6_headers :: "bytes \<Rightarrow> (ipv6_header \<times> bytes) option"
  ep_ipv4_bytes :: "ipv4_header \<Rightarrow> bytes"
  ep_ipv6_bytes :: "ipv6_header \<Rightarrow> bytes"
  ep_ipv4_header_checksum :: "ipv4_header \<Rightarrow> u16"
  ep_icmpv4_header :: "bytes \<Rightarrow> icmpv4_type option"
  ep_icmpv6_header :: "bytes \<Rightarrow> icmpv6_type option"
  ep_icmpv4_bytes :: "icmpv4_type \<Rightarrow> bytes"
  ep_icmpv6_bytes :: "icmpv6_type \<Rightarrow> bytes"
  ep_time_exceeded4 :: "u8 \<Rightarrow> u8 option"
  ep_time_exceeded6 :: "u8 \<Rightarrow> u8 option"
  ep_dscp :: "u8 \<Rightarrow> u8 option"
  ep_build_icmpv4 :: "ipv4 \<Rightarrow> ipv4 \<Rightarrow> u8 \<Rightarrow> icmpv4_type \<Rightarrow> bytes \<Rightarrow> bytes"
  ep_build_icmpv6 :: "ipv6 \<Rightarrow> ipv6 \<Rightarrow> u8 \<Rightarrow> icmpv6_type \<Rightarrow> bytes \<Rightarrow> bytes"
  ep_build_ipv6 :: "ipv6 \<Rightarrow> ipv6 \<Rightarrow> u8 \<Rightarrow> ip_number \<Rightarrow> bytes \<Rightarrow> bytes"

section \<open>Packets\<close>

definition MAX_IP_SIZE :: nat where "MAX_IP_SIZE = 1280"
definition WG_OVERHEAD :: nat where "WG_OVERHEAD = 32"
definition NAT46_OVERHEAD :: nat where "NAT46_OVERHEAD = 20"
definition DATA_CHANNEL_OVERHEAD :: nat where "DATA_CHANNEL_OVERHEAD = 4"
definition MAX_FZ_PAYLOAD :: nat where
  "MAX_FZ_PAYLOAD = MAX_IP_SIZE + WG_OVERHEAD + NAT46_OVERHEAD + DATA_CHANNEL_OVERHEAD"

lemmas packet_size_defs = MAX_IP_SIZE_def WG_OVERHEAD_def NAT46_OVERHEAD_def
  DATA_CHANNEL_OVERHEAD_def MAX_FZ_PAYLOAD_def

datatype protocol = Tcp u16 | Udp u16 | Icmp u16

primrec proto_value :: "protocol \<Rightarrow> u16" where
  "proto_value (Tcp v) = v"
| "proto_value (Udp v) = v"
| "proto_value (Icmp v) = v"

primrec with_value :: "protocol \<Rightarrow> u16 \<Rightarrow> protocol" where
  "with_value (Tcp _) v = Tcp v"
| "with_value (Udp _) v = Udp v"
| "with_value (Icmp _) v = Icmp v"

definition same_type :: "protocol \<Rightarrow> protocol \<Rightarrow> bool" where
  "same_type p q = (case (p, q) of
      (Tcp _, Tcp _) \<Rightarrow> True | (Udp _, Udp _) \<Rightarrow> True | (Icmp _, Icmp _) \<Rightarrow> True | _ \<Rightarrow> False)"

datatype layer4_protocol = L4Udp u16 u16 | L4Tcp u16 u16 | L4Icmp u16 u16

datatype unsupported_protocol =
    UnsupportedIpPayload ip_number
  | UnsupportedIcmpv4Type icmpv4_type
  | UnsupportedIcmpv6Type icmpv6_type

text \<open>The errors of the crate, one per message.\<close>

datatype nat_error = ParseFailed | ImpossibleTranslation | UnableToTranslateNextHeader ip_number | WriteFailed

datatype packet_error =
    PacketTooLarge nat | InvalidIpv4Packet | InvalidIpv6Packet | InvalidIpVersion u8
  | InvalidStart | Nat46Failed nat_error | Nat64Failed nat_error
  | NotDestinationUnreachable4 icmpv4_type | NotDestinationUnreachable6 icmpv6_type
  | FailedToParseOriginal | FailedToExtractProtocol
  | CannotTranslateToIcmpv4 icmpv6_unreachable | CannotTranslateToIcmpv6 icmpv4_unreachable
  | PayloadTooBig nat

text \<open>\<^verbatim>\<open>ConvertibleIpv4Packet\<close> and \<^verbatim>\<open>ConvertibleIpv6Packet\<close>: the packet is \<open>cp_len\<close> bytes of the
  buffer, from \<open>cp_start\<close>.\<close>

record convertible =
  cp_buf :: bytes
  cp_start :: nat
  cp_len :: nat

datatype ip_packet = Ipv4 convertible | Ipv6 convertible

definition packet_slice :: "convertible \<Rightarrow> bytes outcome" where
  "packet_slice c = slice (cp_start c) (cp_start c + cp_len c) (cp_buf c)"

text \<open>The effect of a write through \<^verbatim>\<open>packet_mut\<close>: \<open>f\<close> edits the bytes of the packet in place.\<close>

definition packet_mut :: "(bytes \<Rightarrow> bytes outcome) \<Rightarrow> convertible \<Rightarrow> convertible outcome" where
  "packet_mut f c =
     and_then (packet_slice c) (\<lambda>b.
     and_then (f b) (\<lambda>b'. Done (c\<lparr>cp_buf := overwrite (cp_start c) b' (cp_buf c)\<rparr>)))"

definition convertible_ipv4_new :: "etherparse \<Rightarrow> bytes \<Rightarrow> nat \<Rightarrow> (packet_error, convertible) fallible" where
  "convertible_ipv4_new E ip len =
     (let this = \<lparr>cp_buf = ip, cp_start = NAT46_OVERHEAD, cp_len = len\<rparr> in
      and_then (packet_slice this) (\<lambda>b.
      if ep_ipv4_slice_ok E b then succeed this else fail InvalidIpv4Packet))"

definition convertible_ipv6_new :: "etherparse \<Rightarrow> bytes \<Rightarrow> nat \<Rightarrow> (packet_error, convertible) fallible" where
  "convertible_ipv6_new E ip len =
     (let this = \<lparr>cp_buf = ip, cp_start = NAT46_OVERHEAD, cp_len = len\<rparr> in
      and_then (packet_slice this) (\<lambda>b.
      if ep_ipv6_slice_ok E b then succeed this else fail InvalidIpv6Packet))"

definition ip_packet_new :: "etherparse \<Rightarrow> bytes \<Rightarrow> nat \<Rightarrow> (packet_error, ip_packet) fallible" where
  "ip_packet_new E ip len =
     try_then (ensure (PacketTooLarge len) (len \<le> MAX_IP_SIZE)) (\<lambda>_.
     and_then (expect (if NAT46_OVERHEAD < length ip then Some (ip ! NAT46_OVERHEAD) else None)) (\<lambda>b.
     let v = drop_bit 4 b in
     if v = 4 then try_then (convertible_ipv4_new E ip len) (\<lambda>c. succeed (Ipv4 c))
     else if v = 6 then try_then (convertible_ipv6_new E ip len) (\<lambda>c. succeed (Ipv6 c))
     else fail (InvalidIpVersion v)))"

definition ip_header :: "etherparse \<Rightarrow> convertible \<Rightarrow> bytes outcome" where
  "ip_header E c =
     and_then (packet_slice c) (\<lambda>b. and_then (assert_that (ep_ipv4_header_ok E b)) (\<lambda>_. Done b))"

definition ipv6_header_slice :: "etherparse \<Rightarrow> convertible \<Rightarrow> bytes outcome" where
  "ipv6_header_slice E c =
     and_then (packet_slice c) (\<lambda>b. and_then (assert_that (ep_ipv6_header_ok E b)) (\<lambda>_. Done b))"

definition ip_header_mut :: "etherparse \<Rightarrow> (bytes \<Rightarrow> bytes outcome) \<Rightarrow> convertible \<Rightarrow> convertible outcome" where
  "ip_header_mut E f = packet_mut (\<lambda>b. and_then (assert_that (ep_ipv4_header_ok E b)) (\<lambda>_. f b))"

definition ipv6_header_mut :: "etherparse \<Rightarrow> (bytes \<Rightarrow> bytes outcome) \<Rightarrow> convertible \<Rightarrow> convertible outcome" where
  "ipv6_header_mut E f = packet_mut (\<lambda>b. and_then (assert_that (ep_ipv6_header_ok E b)) (\<lambda>_. f b))"

definition source :: "etherparse \<Rightarrow> ip_packet \<Rightarrow> ip_addr outcome" where
  "source E p = (case p of
       Ipv4 c \<Rightarrow> and_then (ip_header E c) (\<lambda>h. Done (V4 (ep_ipv4_source E h)))
     | Ipv6 c \<Rightarrow> and_then (ipv6_header_slice E c) (\<lambda>h. Done (V6 (ep_ipv6_source E h))))"

definition destination :: "etherparse \<Rightarrow> ip_packet \<Rightarrow> ip_addr outcome" where
  "destination E p = (case p of
       Ipv4 c \<Rightarrow> and_then (ip_header E c) (\<lambda>h. Done (V4 (ep_ipv4_destination E h)))
     | Ipv6 c \<Rightarrow> and_then (ipv6_header_slice E c) (\<lambda>h. Done (V6 (ep_ipv6_destination E h))))"

definition next_header :: "etherparse \<Rightarrow> ip_packet \<Rightarrow> ip_number outcome" where
  "next_header E p = (case p of
       Ipv4 c \<Rightarrow> and_then (ip_header E c) (\<lambda>h. Done (ep_ipv4_protocol E h))
     | Ipv6 c \<Rightarrow> and_then (ipv6_header_slice E c) (\<lambda>h. Done (ep_ipv6_next_header E h)))"

text \<open>\<^verbatim>\<open>(ihl * 4) as usize\<close> multiplies eight bit integers.\<close>

definition ipv4_header_length :: "etherparse \<Rightarrow> convertible \<Rightarrow> nat outcome" where
  "ipv4_header_length E c =
     and_then (ip_header E c) (\<lambda>h.
     and_then (assert_that (unat (ep_ipv4_ihl E h) * 4 < 2 ^ 8)) (\<lambda>_.
     Done (unat (ep_ipv4_ihl E h) * 4)))"

definition header_length :: "etherparse \<Rightarrow> ip_packet \<Rightarrow> nat outcome" where
  "header_length E p = (case p of
       Ipv4 c \<Rightarrow> ipv4_header_length E c
     | Ipv6 c \<Rightarrow> and_then (ipv6_header_slice E c) (\<lambda>_. Done 40))"

definition payload_length :: "etherparse \<Rightarrow> ip_packet \<Rightarrow> nat outcome" where
  "payload_length E p = (case p of
       Ipv4 c \<Rightarrow>
         and_then (ip_header E c) (\<lambda>h.
         and_then (ipv4_header_length E c) (\<lambda>hl.
         and_then (assert_that (hl \<le> unat (ep_ipv4_total_len E h))) (\<lambda>_.
         Done (unat (ep_ipv4_total_len E h) - hl))))
     | Ipv6 c \<Rightarrow> and_then (ipv6_header_slice E c) (\<lambda>h. Done (unat (ep_ipv6_payload_length E h))))"

definition packet_of :: "ip_packet \<Rightarrow> bytes outcome" where
  "packet_of p = (case p of Ipv4 c \<Rightarrow> packet_slice c | Ipv6 c \<Rightarrow> packet_slice c)"

definition ip_payload :: "etherparse \<Rightarrow> ip_packet \<Rightarrow> bytes outcome" where
  "ip_payload E p =
     and_then (header_length E p) (\<lambda>start.
     and_then (payload_length E p) (\<lambda>n.
     and_then (packet_of p) (slice start (start + n))))"

text \<open>A write through \<^verbatim>\<open>payload_mut\<close>.\<close>

definition payload_mut :: "etherparse \<Rightarrow> (bytes \<Rightarrow> bytes outcome) \<Rightarrow> ip_packet \<Rightarrow> ip_packet outcome" where
  "payload_mut E f p =
     and_then (header_length E p) (\<lambda>start.
     and_then (payload_length E p) (\<lambda>n.
     let edit = (\<lambda>b. and_then (slice start (start + n) b) (\<lambda>s.
                     and_then (f s) (\<lambda>s'. Done (overwrite start s' b))))
     in (case p of
           Ipv4 c \<Rightarrow> and_then (packet_mut edit c) (\<lambda>c'. Done (Ipv4 c'))
         | Ipv6 c \<Rightarrow> and_then (packet_mut edit c) (\<lambda>c'. Done (Ipv6 c')))))"

section \<open>The transport layer\<close>

text \<open>\<open>as_l4\<close> is the shape of \<^verbatim>\<open>as_udp\<close>, \<^verbatim>\<open>as_tcp\<close>, \<^verbatim>\<open>as_icmpv4\<close> and \<^verbatim>\<open>as_icmpv6\<close>: the payload, when the
  packet carries the protocol and the payload parses. \<open>l4_mut\<close> is the shape of the \<^verbatim>\<open>_mut\<close> variants.\<close>

definition as_l4 :: "etherparse \<Rightarrow> ip_number \<Rightarrow> (bytes \<Rightarrow> 'a option) \<Rightarrow> ip_packet \<Rightarrow> 'a option outcome" where
  "as_l4 E n parse p =
     and_then (next_header E p) (\<lambda>nh.
     if nh \<noteq> n then Done None else and_then (ip_payload E p) (\<lambda>b. Done (parse b)))"

definition l4_mut :: "etherparse \<Rightarrow> ip_number \<Rightarrow> (bytes \<Rightarrow> bool) \<Rightarrow> (bytes \<Rightarrow> bytes outcome)
    \<Rightarrow> ip_packet \<Rightarrow> ip_packet outcome" where
  "l4_mut E n parses f p =
     and_then (next_header E p) (\<lambda>nh.
     if nh \<noteq> n then Done p
     else payload_mut E (\<lambda>b. if parses b then f b else Done b) p)"

definition as_udp :: "etherparse \<Rightarrow> ip_packet \<Rightarrow> bytes option outcome" where
  "as_udp E = as_l4 E IP_UDP (\<lambda>b. if ep_udp_ok E b then Some b else None)"

definition as_tcp :: "etherparse \<Rightarrow> ip_packet \<Rightarrow> bytes option outcome" where
  "as_tcp E = as_l4 E IP_TCP (\<lambda>b. if ep_tcp_ok E b then Some b else None)"

definition as_icmpv4 :: "etherparse \<Rightarrow> ip_packet \<Rightarrow> (icmpv4_type \<times> bytes) option outcome" where
  "as_icmpv4 E = as_l4 E IP_ICMP (\<lambda>b. map_option (\<lambda>t. (t, b)) (ep_icmpv4 E b))"

definition as_icmpv6 :: "etherparse \<Rightarrow> ip_packet \<Rightarrow> (icmpv6_type \<times> bytes) option outcome" where
  "as_icmpv6 E = as_l4 E IPV6_ICMP (\<lambda>b. map_option (\<lambda>t. (t, b)) (ep_icmpv6 E b))"

definition udp_mut :: "etherparse \<Rightarrow> (bytes \<Rightarrow> bytes outcome) \<Rightarrow> ip_packet \<Rightarrow> ip_packet outcome" where
  "udp_mut E = l4_mut E IP_UDP (ep_udp_header_ok E)"

definition tcp_mut :: "etherparse \<Rightarrow> (bytes \<Rightarrow> bytes outcome) \<Rightarrow> ip_packet \<Rightarrow> ip_packet outcome" where
  "tcp_mut E = l4_mut E IP_TCP (ep_tcp_header_ok E)"

definition icmpv4_mut :: "etherparse \<Rightarrow> (bytes \<Rightarrow> bytes outcome) \<Rightarrow> ip_packet \<Rightarrow> ip_packet outcome" where
  "icmpv4_mut E = l4_mut E IP_ICMP (\<lambda>b. ep_icmpv4 E b \<noteq> None)"

definition icmpv6_mut :: "etherparse \<Rightarrow> (bytes \<Rightarrow> bytes outcome) \<Rightarrow> ip_packet \<Rightarrow> ip_packet outcome" where
  "icmpv6_mut E = l4_mut E IPV6_ICMP (\<lambda>b. ep_icmpv6 E b \<noteq> None)"

primrec icmpv4_echo_id :: "icmpv4_type \<Rightarrow> u16 option" where
  "icmpv4_echo_id (EchoReply4 i s) = Some i"
| "icmpv4_echo_id (EchoRequest4 i s) = Some i"
| "icmpv4_echo_id (DestinationUnreachable4 u) = None"
| "icmpv4_echo_id Redirect4 = None"
| "icmpv4_echo_id (TimeExceeded4 c) = None"
| "icmpv4_echo_id ParameterProblem4 = None"
| "icmpv4_echo_id TimestampRequest4 = None"
| "icmpv4_echo_id TimestampReply4 = None"
| "icmpv4_echo_id Unknown4 = None"

primrec icmpv6_echo_id :: "icmpv6_type \<Rightarrow> u16 option" where
  "icmpv6_echo_id (EchoReply6 i s) = Some i"
| "icmpv6_echo_id (EchoRequest6 i s) = Some i"
| "icmpv6_echo_id (DestinationUnreachable6 u) = None"
| "icmpv6_echo_id (PacketTooBig m) = None"
| "icmpv6_echo_id (TimeExceeded6 c) = None"
| "icmpv6_echo_id (ParameterProblem6 c n) = None"
| "icmpv6_echo_id Unknown6 = None"

text \<open>\<^verbatim>\<open>source_protocol\<close> and \<^verbatim>\<open>destination_protocol\<close> differ in the port they read.\<close>

definition port_protocol :: "etherparse \<Rightarrow> (bytes \<Rightarrow> u16) \<Rightarrow> ip_packet
    \<Rightarrow> (unsupported_protocol, protocol) fallible" where
  "port_protocol E port p =
     and_then (as_tcp E p) (\<lambda>tcp. case tcp of Some b \<Rightarrow> succeed (Tcp (port b)) | None \<Rightarrow>
     and_then (as_udp E p) (\<lambda>udp. case udp of Some b \<Rightarrow> succeed (Udp (port b)) | None \<Rightarrow>
     and_then (as_icmpv4 E p) (\<lambda>icmpv4. case icmpv4 of
       Some (t, _) \<Rightarrow> (case icmpv4_echo_id t of Some i \<Rightarrow> succeed (Icmp i) | None \<Rightarrow> fail (UnsupportedIcmpv4Type t))
     | None \<Rightarrow>
     and_then (as_icmpv6 E p) (\<lambda>icmpv6. case icmpv6 of
       Some (t, _) \<Rightarrow> (case icmpv6_echo_id t of Some i \<Rightarrow> succeed (Icmp i) | None \<Rightarrow> fail (UnsupportedIcmpv6Type t))
     | None \<Rightarrow> and_then (next_header E p) (\<lambda>nh. fail (UnsupportedIpPayload nh))))))"

definition source_protocol :: "etherparse \<Rightarrow> ip_packet \<Rightarrow> (unsupported_protocol, protocol) fallible" where
  "source_protocol E p = port_protocol E (ep_source_port E) p"

definition destination_protocol :: "etherparse \<Rightarrow> ip_packet \<Rightarrow> (unsupported_protocol, protocol) fallible" where
  "destination_protocol E p = port_protocol E (ep_destination_port E) p"

definition set_source_port :: "u16 \<Rightarrow> bytes \<Rightarrow> bytes outcome" where
  "set_source_port v = write_to_offset_unchecked 0 (octets2 v)"

definition set_destination_port :: "u16 \<Rightarrow> bytes \<Rightarrow> bytes outcome" where
  "set_destination_port v = write_to_offset_unchecked 2 (octets2 v)"

text \<open>\<^verbatim>\<open>set_identifier\<close> of the two ICMP header modules, which asserts that the message is an echo.\<close>

definition icmpv4_set_identifier :: "u16 \<Rightarrow> bytes \<Rightarrow> bytes outcome" where
  "icmpv4_set_identifier v b =
     and_then (assert_that (0 < length b)) (\<lambda>_.
     and_then (assert_that (b ! 0 = 0 \<or> b ! 0 = 8)) (\<lambda>_.
     write_to_offset_unchecked 4 (octets2 v) b))"

definition icmpv6_set_identifier :: "u16 \<Rightarrow> bytes \<Rightarrow> bytes outcome" where
  "icmpv6_set_identifier v b =
     and_then (assert_that (0 < length b)) (\<lambda>_.
     and_then (assert_that (b ! 0 = 129 \<or> b ! 0 = 128)) (\<lambda>_.
     write_to_offset_unchecked 4 (octets2 v) b))"

definition set_icmp_identifier :: "etherparse \<Rightarrow> u16 \<Rightarrow> ip_packet \<Rightarrow> ip_packet outcome" where
  "set_icmp_identifier E v p =
     and_then (icmpv4_mut E (icmpv4_set_identifier v) p) (icmpv6_mut E (icmpv6_set_identifier v))"

definition set_source_protocol :: "etherparse \<Rightarrow> u16 \<Rightarrow> ip_packet \<Rightarrow> ip_packet outcome" where
  "set_source_protocol E v p =
     and_then (tcp_mut E (set_source_port v) p) (\<lambda>p.
     and_then (udp_mut E (set_source_port v) p) (set_icmp_identifier E v))"

definition set_destination_protocol :: "etherparse \<Rightarrow> u16 \<Rightarrow> ip_packet \<Rightarrow> ip_packet outcome" where
  "set_destination_protocol E v p =
     and_then (tcp_mut E (set_destination_port v) p) (\<lambda>p.
     and_then (udp_mut E (set_destination_port v) p) (set_icmp_identifier E v))"

section \<open>Checksums\<close>

definition set_ipv4_checksum :: "etherparse \<Rightarrow> ip_packet \<Rightarrow> ip_packet outcome" where
  "set_ipv4_checksum E p = (case p of
       Ipv6 c \<Rightarrow> Done p
     | Ipv4 c \<Rightarrow>
         and_then (ip_header E c) (\<lambda>h.
         and_then (ip_header_mut E (write_to_offset_unchecked 10 (octets2 (ep_ipv4_checksum E h))) c) (\<lambda>c'.
         Done (Ipv4 c'))))"

text \<open>The checksum over pseudo header and payload, for UDP and TCP.\<close>

definition l4_checksum :: "etherparse \<Rightarrow> (bytes \<Rightarrow> bytes \<Rightarrow> u16 option) \<Rightarrow> (bytes \<Rightarrow> bytes \<Rightarrow> u16 option)
    \<Rightarrow> bytes \<Rightarrow> ip_packet \<Rightarrow> u16 outcome" where
  "l4_checksum E calc4 calc6 b p = (case p of
       Ipv4 c \<Rightarrow> and_then (ip_header E c) (\<lambda>h. expect (calc4 h b))
     | Ipv6 c \<Rightarrow> and_then (ipv6_header_slice E c) (\<lambda>h. expect (calc6 h b)))"

definition set_udp_checksum :: "etherparse \<Rightarrow> ip_packet \<Rightarrow> ip_packet outcome" where
  "set_udp_checksum E p =
     and_then (as_udp E p) (\<lambda>udp. case udp of None \<Rightarrow> Done p | Some b \<Rightarrow>
     and_then (l4_checksum E (ep_udp_checksum4 E) (ep_udp_checksum6 E) b p) (\<lambda>s.
     and_then (assert_that (ep_udp_header_ok E b)) (\<lambda>_.
     udp_mut E (write_to_offset_unchecked 6 (octets2 s)) p)))"

definition set_tcp_checksum :: "etherparse \<Rightarrow> ip_packet \<Rightarrow> ip_packet outcome" where
  "set_tcp_checksum E p =
     and_then (as_tcp E p) (\<lambda>tcp. case tcp of None \<Rightarrow> Done p | Some b \<Rightarrow>
     and_then (l4_checksum E (ep_tcp_checksum4 E) (ep_tcp_checksum6 E) b p) (\<lambda>s.
     and_then (assert_that (ep_tcp_header_ok E b)) (\<lambda>_.
     tcp_mut E (write_to_offset_unchecked 16 (octets2 s)) p)))"

definition set_icmpv6_checksum :: "etherparse \<Rightarrow> ip_packet \<Rightarrow> ip_packet outcome" where
  "set_icmpv6_checksum E p =
     and_then (as_icmpv6 E p) (\<lambda>icmp. case icmp of None \<Rightarrow> Done p | Some (t, b) \<Rightarrow>
     (case p of
        Ipv4 c \<Rightarrow> Done p
      | Ipv6 c \<Rightarrow>
          and_then (ipv6_header_slice E c) (\<lambda>h.
          and_then (expect (ep_icmpv6_checksum E t (ep_ipv6_source E h) (ep_ipv6_destination E h) (ep_icmpv6_payload E b))) (\<lambda>s.
          icmpv6_mut E (write_to_offset_unchecked 2 (octets2 s)) p))))"

definition set_icmpv4_checksum :: "etherparse \<Rightarrow> ip_packet \<Rightarrow> ip_packet outcome" where
  "set_icmpv4_checksum E p =
     and_then (as_icmpv4 E p) (\<lambda>icmp. case icmp of None \<Rightarrow> Done p | Some (t, b) \<Rightarrow>
     icmpv4_mut E (write_to_offset_unchecked 2 (octets2 (ep_icmpv4_checksum E t (ep_icmpv4_payload E b)))) p)"

definition update_checksum :: "etherparse \<Rightarrow> ip_packet \<Rightarrow> ip_packet outcome" where
  "update_checksum E p =
     and_then (set_icmpv6_checksum E p) (\<lambda>p.
     and_then (set_icmpv4_checksum E p) (\<lambda>p.
     and_then (set_udp_checksum E p) (\<lambda>p.
     and_then (set_tcp_checksum E p) (set_ipv4_checksum E))))"

section \<open>Addresses\<close>

definition set_dst :: "etherparse \<Rightarrow> ip_addr \<Rightarrow> ip_packet \<Rightarrow> ip_packet outcome" where
  "set_dst E dst p = (case (p, dst) of
       (Ipv4 c, V4 d) \<Rightarrow> and_then (ip_header_mut E (write_to_offset_unchecked 16 (octets4 d)) c) (\<lambda>c. Done (Ipv4 c))
     | (Ipv6 c, V6 d) \<Rightarrow> and_then (ipv6_header_mut E (write_to_offset_unchecked 24 (octets6 d)) c) (\<lambda>c. Done (Ipv6 c))
     | _ \<Rightarrow> Panicked)"

definition set_src :: "etherparse \<Rightarrow> ip_addr \<Rightarrow> ip_packet \<Rightarrow> ip_packet outcome" where
  "set_src E src p = (case (p, src) of
       (Ipv4 c, V4 s) \<Rightarrow> and_then (ip_header_mut E (write_to_offset_unchecked 12 (octets4 s)) c) (\<lambda>c. Done (Ipv4 c))
     | (Ipv6 c, V6 s) \<Rightarrow> and_then (ipv6_header_mut E (write_to_offset_unchecked 8 (octets6 s)) c) (\<lambda>c. Done (Ipv6 c))
     | _ \<Rightarrow> Panicked)"

end
