(* ===== verification/Nat46_64.thy ===== *)
theory Nat46_64
  imports Ip_Packet
begin

text \<open>
  Translation of packets between IPv4 and IPv6 (\<^verbatim>\<open>src/rust/ip-packet/src/nat46.rs\<close> and
  \<^verbatim>\<open>nat64.rs\<close>), of the ICMP errors a translated packet may cause
  (\<^verbatim>\<open>icmp_dest_unreachable.rs\<close>), and the two operations of \<^verbatim>\<open>IpPacket\<close> that change the
  addresses and ports of a packet and translate it when the address families differ.
\<close>

section \<open>ICMP types\<close>

definition PLATEAU_VALUES :: "u16 list" where
  "PLATEAU_VALUES = [68, 296, 508, 1006, 1492, 2002, 4352, 8166, 32000, 65535]"

definition iter_max :: "u16 list \<Rightarrow> u16 option" where
  "iter_max xs = (case xs of [] \<Rightarrow> None | y # ys \<Rightarrow> Some (fold max ys y))"

definition translate_icmp_unreachable :: "icmpv4_unreachable \<Rightarrow> u16 \<Rightarrow> icmpv6_type option" where
  "translate_icmp_unreachable h total_length = (case h of
       Network4 \<Rightarrow> Some (DestinationUnreachable6 NoRoute)
     | Host4 \<Rightarrow> Some (DestinationUnreachable6 NoRoute)
     | Protocol4 \<Rightarrow> Some (ParameterProblem6 UnrecognizedNextHeader 6)
     | Port4 \<Rightarrow> Some (DestinationUnreachable6 Port6)
     | FragmentationNeeded next_hop_mtu \<Rightarrow>
         (if next_hop_mtu = 0
          then map_option (\<lambda>mtu. PacketTooBig (ucast mtu)) (iter_max (filter (\<lambda>mtu. mtu < total_length) PLATEAU_VALUES))
          else Some (PacketTooBig (ucast next_hop_mtu + 20)))
     | SourceRouteFailed \<Rightarrow> Some (DestinationUnreachable6 NoRoute)
     | NetworkUnknown \<Rightarrow> Some (DestinationUnreachable6 NoRoute)
     | HostUnknown \<Rightarrow> Some (DestinationUnreachable6 NoRoute)
     | Isolated \<Rightarrow> Some (DestinationUnreachable6 NoRoute)
     | NetworkProhibited \<Rightarrow> Some (DestinationUnreachable6 Prohibited)
     | HostProhibited \<Rightarrow> Some (DestinationUnreachable6 Prohibited)
     | TosNetwork \<Rightarrow> Some (DestinationUnreachable6 NoRoute)
     | TosHost \<Rightarrow> Some (DestinationUnreachable6 NoRoute)
     | FilterProhibited \<Rightarrow> Some (DestinationUnreachable6 Prohibited)
     | HostPrecedenceViolation \<Rightarrow> None
     | PrecedenceCutoff \<Rightarrow> Some (DestinationUnreachable6 Prohibited))"

definition translate_icmpv4_header :: "etherparse \<Rightarrow> u16 \<Rightarrow> icmpv4_type \<Rightarrow> icmpv6_type option" where
  "translate_icmpv4_header E total_length t = (case t of
       EchoRequest4 i s \<Rightarrow> Some (EchoRequest6 i s)
     | EchoReply4 i s \<Rightarrow> Some (EchoReply6 i s)
     | TimeExceeded4 c \<Rightarrow> map_option TimeExceeded6 (ep_time_exceeded6 E c)
     | DestinationUnreachable4 h \<Rightarrow> translate_icmp_unreachable h total_length
     | Redirect4 \<Rightarrow> None
     | ParameterProblem4 \<Rightarrow> None
     | TimestampRequest4 \<Rightarrow> None
     | TimestampReply4 \<Rightarrow> None
     | Unknown4 \<Rightarrow> None)"

definition translate_dest_unreachable :: "icmpv6_unreachable \<Rightarrow> icmpv4_unreachable option" where
  "translate_dest_unreachable c = (case c of
       NoRoute \<Rightarrow> Some Host4
     | Prohibited \<Rightarrow> Some HostProhibited
     | BeyondScope \<Rightarrow> Some Host4
     | Address6 \<Rightarrow> Some Host4
     | Port6 \<Rightarrow> Some Port4
     | SourceAddressFailedPolicy \<Rightarrow> None
     | RejectRoute \<Rightarrow> None)"

text \<open>\<^verbatim>\<open>mtu - 20\<close> is a subtraction of sixteen bit integers; it panics below twenty.\<close>

definition translate_packet_too_big :: "u32 \<Rightarrow> icmpv4_unreachable outcome" where
  "translate_packet_too_big mtu =
     (let m = (if unat mtu < 2 ^ 16 then unat mtu else 2 ^ 16 - 1) in
      and_then (assert_that (20 \<le> m)) (\<lambda>_. Done (FragmentationNeeded (of_nat (m - 20)))))"

definition translate_icmpv6_header :: "etherparse \<Rightarrow> icmpv6_type \<Rightarrow> icmpv4_type option outcome" where
  "translate_icmpv6_header E t = (case t of
       EchoRequest6 i s \<Rightarrow> Done (Some (EchoRequest4 i s))
     | EchoReply6 i s \<Rightarrow> Done (Some (EchoReply4 i s))
     | DestinationUnreachable6 c \<Rightarrow> Done (map_option DestinationUnreachable4 (translate_dest_unreachable c))
     | PacketTooBig mtu \<Rightarrow> and_then (translate_packet_too_big mtu) (\<lambda>h. Done (Some (DestinationUnreachable4 h)))
     | TimeExceeded6 c \<Rightarrow> Done (map_option TimeExceeded4 (ep_time_exceeded4 E c))
     | ParameterProblem6 c ptr \<Rightarrow>
         Done (if c = UnrecognizedNextHeader then Some (DestinationUnreachable4 Protocol4) else None)
     | Unknown6 \<Rightarrow> Done None)"

section \<open>Packets\<close>

text \<open>
  \<^verbatim>\<open>buf.split_at_mut(off)\<close> followed by a write of \<open>bs\<close> through a cursor over the second half: the
  split panics when \<open>off\<close> lies outside the buffer, the write fails when the bytes do not fit.
\<close>

definition cursor_write :: "nat \<Rightarrow> bytes \<Rightarrow> bytes \<Rightarrow> (nat_error, bytes) fallible" where
  "cursor_write off bs buf =
     and_then (assert_that (off \<le> length buf)) (\<lambda>_.
     if off + length bs \<le> length buf then succeed (overwrite off bs buf) else fail WriteFailed)"

definition nat46_header :: "ipv4_header \<Rightarrow> ipv6 \<Rightarrow> ipv6 \<Rightarrow> ipv6_header outcome" where
  "nat46_header h src dst =
     and_then (assert_that (h4_header_len h \<le> unat (h4_total_len h))) (\<lambda>_.
     Done \<lparr>h6_traffic_class = h4_dscp h,
           h6_flow_label = 0,
           h6_payload_length = of_nat (unat (h4_total_len h) - h4_header_len h),
           h6_next_header = (if h4_protocol h = IP_ICMP then IPV6_ICMP else h4_protocol h),
           h6_hop_limit = h4_time_to_live h,
           h6_source = src,
           h6_destination = dst\<rparr>)"

definition nat46_translate_in_place :: "etherparse \<Rightarrow> bytes \<Rightarrow> ipv6 \<Rightarrow> ipv6 \<Rightarrow> (nat_error, bytes \<times> nat) fallible" where
  "nat46_translate_in_place E buf src dst =
     and_then (slice NAT46_OVERHEAD (length buf) buf) (\<lambda>ipv4_packet.
     try_then (ok_or ParseFailed (ep_ipv4_headers E ipv4_packet)) (\<lambda>(h, payload).
     let start_of_ip_payload = 20 + h4_header_len h in
     and_then (nat46_header h src dst) (\<lambda>h6.
     try_then
       (if h4_protocol h = IP_ICMP then
          try_then (ok_or ParseFailed (ep_icmpv4_header E payload)) (\<lambda>t.
          try_then (ok_or ImpossibleTranslation (translate_icmpv4_header E (h4_total_len h) t)) (\<lambda>t'.
          and_then (assert_that (length (ep_icmpv4_bytes E t) = length (ep_icmpv6_bytes E t'))) (\<lambda>_.
          cursor_write start_of_ip_payload (ep_icmpv6_bytes E t') buf)))
        else succeed buf) (\<lambda>buf.
     and_then (assert_that (40 \<le> start_of_ip_payload)) (\<lambda>_.
     try_then (cursor_write (start_of_ip_payload - 40) (ep_ipv6_bytes E h6) buf) (\<lambda>buf.
     succeed (buf, start_of_ip_payload - 40)))))))"

definition nat64_header :: "etherparse \<Rightarrow> ipv6_header \<Rightarrow> ipv4 \<Rightarrow> ipv4 \<Rightarrow> (nat_error, ipv4_header) fallible" where
  "nat64_header E h src dst =
     and_then (assert_that (unat (h6_payload_length h) + 20 < 2 ^ 16)) (\<lambda>_.
     if h6_next_header h \<in> {IPV6_FRAGMENTATION_HEADER, IPV6_HEADER_HOP_BY_HOP, IPV6_ROUTE_HEADER, IPV6_DESTINATION_OPTIONS}
     then fail (UnableToTranslateNextHeader (h6_next_header h))
     else succeed
       \<lparr>h4_dscp = (case ep_dscp E (h6_traffic_class h) of Some d \<Rightarrow> d | None \<Rightarrow> 0),
        h4_header_len = 20,
        h4_total_len = h6_payload_length h + 20,
        h4_identification = 0,
        h4_dont_fragment = True,
        h4_more_fragments = False,
        h4_time_to_live = h6_hop_limit h,
        h4_protocol = (if h6_next_header h = IPV6_ICMP then IP_ICMP else h6_next_header h),
        h4_checksum = 0,
        h4_source = src,
        h4_destination = dst\<rparr>)"

definition nat64_translate_in_place :: "etherparse \<Rightarrow> bytes \<Rightarrow> ipv4 \<Rightarrow> ipv4 \<Rightarrow> (nat_error, bytes) fallible" where
  "nat64_translate_in_place E buf src dst =
     try_then (ok_or ParseFailed (ep_ipv6_headers E buf)) (\<lambda>(h, payload).
     try_then (nat64_header E h src dst) (\<lambda>h4.
     try_then
       (if h6_next_header h = IPV6_ICMP then
          try_then (ok_or ParseFailed (ep_icmpv6_header E payload)) (\<lambda>t.
          and_then (translate_icmpv6_header E t) (\<lambda>r.
          try_then (ok_or ImpossibleTranslation r) (\<lambda>t'.
          and_then (assert_that (length (ep_icmpv4_bytes E t') = length (ep_icmpv6_bytes E t))) (\<lambda>_.
          cursor_write 40 (ep_icmpv4_bytes E t') buf))))
        else succeed buf) (\<lambda>buf.
     let h4 = h4\<lparr>h4_checksum := ep_ipv4_header_checksum E h4\<rparr> in
     and_then (assert_that (40 \<le> length buf)) (\<lambda>_.
     cursor_write 20 (ep_ipv4_bytes E h4) (overwrite 0 (replicate 40 0) buf)))))"

definition lift_error :: "('e \<Rightarrow> 'f) \<Rightarrow> ('e, 'a) fallible \<Rightarrow> ('f, 'a) fallible" where
  "lift_error g m = and_then m (\<lambda>r. case r of Inl e \<Rightarrow> fail (g e) | Inr x \<Rightarrow> succeed x)"

definition consume_to_ipv6 :: "etherparse \<Rightarrow> convertible \<Rightarrow> ipv6 \<Rightarrow> ipv6 \<Rightarrow> (packet_error, convertible) fallible" where
  "consume_to_ipv6 E c src dst =
     try_then (ok_or InvalidStart (if NAT46_OVERHEAD \<le> cp_start c then Some (cp_start c - NAT46_OVERHEAD) else None)) (\<lambda>pad.
     and_then (slice pad (cp_start c + cp_len c) (cp_buf c)) (\<lambda>b.
     try_then (lift_error Nat46Failed (nat46_translate_in_place E b src dst)) (\<lambda>(b', off).
     succeed \<lparr>cp_buf = overwrite pad b' (cp_buf c),
              cp_start = pad + off,
              cp_len = nat (int (cp_len c) + (int NAT46_OVERHEAD - int off))\<rparr>)))"

definition consume_to_ipv4 :: "etherparse \<Rightarrow> convertible \<Rightarrow> ipv4 \<Rightarrow> ipv4 \<Rightarrow> (packet_error, convertible) fallible" where
  "consume_to_ipv4 E c src dst =
     and_then (packet_slice c) (\<lambda>b.
     try_then (lift_error Nat64Failed (nat64_translate_in_place E b src dst)) (\<lambda>b'.
     and_then (assert_that (20 \<le> cp_len c)) (\<lambda>_.
     succeed \<lparr>cp_buf = overwrite (cp_start c) b' (cp_buf c),
              cp_start = cp_start c + 20,
              cp_len = cp_len c - 20\<rparr>)))"

definition translate_destination ::
    "etherparse \<Rightarrow> ip_packet \<Rightarrow> ipv4 \<Rightarrow> ipv6 \<Rightarrow> protocol \<Rightarrow> ip_addr \<Rightarrow> (packet_error, ip_packet) fallible" where
  "translate_destination E p src_v4 src_v6 src_proto dst =
     try_then (case (p, dst) of
         (Ipv4 c, V6 d) \<Rightarrow> try_then (consume_to_ipv6 E c src_v6 d) (\<lambda>c. succeed (Ipv6 c))
       | (Ipv6 c, V4 d) \<Rightarrow> try_then (consume_to_ipv4 E c src_v4 d) (\<lambda>c. succeed (Ipv4 c))
       | _ \<Rightarrow> and_then (set_dst E dst p) succeed) (\<lambda>p.
     and_then (set_source_protocol E (proto_value src_proto) p) succeed)"

definition translate_source ::
    "etherparse \<Rightarrow> ip_packet \<Rightarrow> ipv4 \<Rightarrow> ipv6 \<Rightarrow> protocol \<Rightarrow> ip_addr \<Rightarrow> (packet_error, ip_packet) fallible" where
  "translate_source E p dst_v4 dst_v6 dst_proto src =
     try_then (case (p, src) of
         (Ipv4 c, V6 s) \<Rightarrow> try_then (consume_to_ipv6 E c s dst_v6) (\<lambda>c. succeed (Ipv6 c))
       | (Ipv6 c, V4 s) \<Rightarrow> try_then (consume_to_ipv4 E c s dst_v4) (\<lambda>c. succeed (Ipv4 c))
       | _ \<Rightarrow> and_then (set_src E src p) succeed) (\<lambda>p.
     and_then (set_destination_protocol E (proto_value dst_proto) p) succeed)"

section \<open>ICMP errors\<close>

datatype dest_unreachable =
    UnreachableV4 icmpv4_unreachable u16
  | V6Unreachable icmpv6_unreachable
  | V6PacketTooBig u32

definition into_icmp_v4_type :: "dest_unreachable \<Rightarrow> (packet_error, icmpv4_type) fallible" where
  "into_icmp_v4_type e =
     try_then (case e of
         UnreachableV4 h n \<Rightarrow> succeed h
       | V6Unreachable c \<Rightarrow> ok_or (CannotTranslateToIcmpv4 c) (translate_dest_unreachable c)
       | V6PacketTooBig mtu \<Rightarrow> and_then (translate_packet_too_big mtu) succeed) (\<lambda>h.
     succeed (DestinationUnreachable4 h))"

definition into_icmp_v6_type :: "dest_unreachable \<Rightarrow> (packet_error, icmpv6_type) fallible" where
  "into_icmp_v6_type e = (case e of
       UnreachableV4 h total_length \<Rightarrow> ok_or (CannotTranslateToIcmpv6 h) (translate_icmp_unreachable h total_length)
     | V6Unreachable c \<Rightarrow> succeed (DestinationUnreachable6 c)
     | V6PacketTooBig mtu \<Rightarrow> succeed (PacketTooBig mtu))"

record failed_packet =
  fp_src :: ip_addr
  fp_dst :: ip_addr
  fp_l4 :: layer4_protocol
  fp_raw :: bytes

definition failed_src_proto :: "failed_packet \<Rightarrow> protocol" where
  "failed_src_proto f = (case fp_l4 f of L4Udp s d \<Rightarrow> Udp s | L4Tcp s d \<Rightarrow> Tcp s | L4Icmp sq i \<Rightarrow> Icmp i)"

definition extract_l4_proto :: "etherparse \<Rightarrow> bytes \<Rightarrow> ip_number \<Rightarrow> layer4_protocol option" where
  "extract_l4_proto E b n =
     (if n = IP_UDP then
        (if ep_udp_header_ok E b then Some (L4Udp (ep_source_port E b) (ep_destination_port E b)) else None)
      else if n = IP_TCP then
        (if ep_tcp_header_ok E b then Some (L4Tcp (ep_source_port E b) (ep_destination_port E b)) else None)
      else if n = IP_ICMP then
        (case ep_icmpv4 E b of Some (EchoRequest4 i s) \<Rightarrow> Some (L4Icmp s i) | _ \<Rightarrow> None)
      else if n = IPV6_ICMP then
        (case ep_icmpv6 E b of Some (EchoRequest6 i s) \<Rightarrow> Some (L4Icmp s i) | _ \<Rightarrow> None)
      else None)"

definition unreachable4 :: "etherparse \<Rightarrow> icmpv4_type \<Rightarrow> bytes
    \<Rightarrow> (packet_error, (failed_packet \<times> dest_unreachable) option) fallible" where
  "unreachable4 E t b =
     (if icmpv4_echo_id t \<noteq> None then succeed None
      else (case t of
        DestinationUnreachable4 err \<Rightarrow>
          try_then (ok_or FailedToParseOriginal (ep_lax_ipv4 E (ep_icmpv4_payload E b))) (\<lambda>ip.
          try_then (ok_or FailedToExtractProtocol (extract_l4_proto E (lax_payload ip) (lax_protocol ip))) (\<lambda>l4.
          succeed (Some (\<lparr>fp_src = V4 (lax_source ip), fp_dst = V4 (lax_destination ip),
                          fp_l4 = l4, fp_raw = ep_icmpv4_payload E b\<rparr>,
                         UnreachableV4 err (lax_total_len ip)))))
      | _ \<Rightarrow> fail (NotDestinationUnreachable4 t)))"

definition unreachable6 :: "etherparse \<Rightarrow> icmpv6_type \<Rightarrow> bytes
    \<Rightarrow> (packet_error, (failed_packet \<times> dest_unreachable) option) fallible" where
  "unreachable6 E t b =
     (if icmpv6_echo_id t \<noteq> None then succeed None
      else try_then (case t of
          DestinationUnreachable6 c \<Rightarrow> succeed (V6Unreachable c)
        | PacketTooBig mtu \<Rightarrow> succeed (V6PacketTooBig mtu)
        | _ \<Rightarrow> fail (NotDestinationUnreachable6 t)) (\<lambda>err.
      try_then (ok_or FailedToParseOriginal (ep_lax_ipv6 E (ep_icmpv6_payload E b))) (\<lambda>ip.
      try_then (ok_or FailedToExtractProtocol (extract_l4_proto E (lax_payload ip) (lax_protocol ip))) (\<lambda>l4.
      succeed (Some (\<lparr>fp_src = V6 (lax_source ip), fp_dst = V6 (lax_destination ip),
                      fp_l4 = l4, fp_raw = ep_icmpv6_payload E b\<rparr>, err))))))"

definition icmp_unreachable_destination :: "etherparse \<Rightarrow> ip_packet
    \<Rightarrow> (packet_error, (failed_packet \<times> dest_unreachable) option) fallible" where
  "icmp_unreachable_destination E p =
     and_then (as_icmpv4 E p) (\<lambda>icmpv4. case icmpv4 of
       Some (t, b) \<Rightarrow> unreachable4 E t b
     | None \<Rightarrow>
     and_then (as_icmpv6 E p) (\<lambda>icmpv6. case icmpv6 of
       Some (t, b) \<Rightarrow> unreachable6 E t b
     | None \<Rightarrow> succeed None))"

text \<open>\<^verbatim>\<open>original_packet[a..b].copy_from_slice(..)\<close> panics outside the packet.\<close>

definition copy_into :: "nat \<Rightarrow> bytes \<Rightarrow> bytes \<Rightarrow> bytes outcome" where
  "copy_into off bs xs =
     and_then (assert_that (off + length bs \<le> length xs)) (\<lambda>_. Done (overwrite off bs xs))"

definition translate_original_packet_protocol :: "bytes \<Rightarrow> nat \<Rightarrow> protocol \<Rightarrow> bytes outcome" where
  "translate_original_packet_protocol b payload_start inside_proto =
     (let off = (case inside_proto of Tcp _ \<Rightarrow> 0 | Udp _ \<Rightarrow> 0 | Icmp _ \<Rightarrow> 4)
      in copy_into (payload_start + off) (octets2 (proto_value inside_proto)) b)"

definition translate_original_ipv4_packet ::
    "etherparse \<Rightarrow> bytes \<Rightarrow> ipv4 \<Rightarrow> protocol \<Rightarrow> (packet_error, bytes) fallible" where
  "translate_original_ipv4_packet E b inside_dst inside_proto =
     and_then (copy_into 16 (octets4 inside_dst) b) (\<lambda>b.
     try_then (ok_or FailedToParseOriginal (ep_lax_ipv4 E b)) (\<lambda>ip.
     and_then (assert_that (lax_destination ip = inside_dst)) (\<lambda>_.
     and_then (translate_original_packet_protocol b (lax_header_len ip + lax_extension_len ip) inside_proto) succeed)))"

definition translate_original_ipv6_packet ::
    "etherparse \<Rightarrow> bytes \<Rightarrow> ipv6 \<Rightarrow> protocol \<Rightarrow> (packet_error, bytes) fallible" where
  "translate_original_ipv6_packet E b inside_dst inside_proto =
     and_then (copy_into 24 (octets6 inside_dst) b) (\<lambda>b.
     try_then (ok_or FailedToParseOriginal (ep_lax_ipv6 E b)) (\<lambda>ip.
     and_then (assert_that (lax_destination ip = inside_dst)) (\<lambda>_.
     and_then (translate_original_packet_protocol b (lax_header_len ip + lax_extension_len ip) inside_proto) succeed)))"

text \<open>\<^verbatim>\<open>Vec::split_off\<close> panics when the position lies outside the vector.\<close>

definition split_off :: "nat \<Rightarrow> bytes \<Rightarrow> bytes outcome" where
  "split_off n b = and_then (assert_that (n \<le> length b)) (\<lambda>_. Done (drop n b))"

definition failed_translate_destination ::
    "etherparse \<Rightarrow> failed_packet \<Rightarrow> ip_addr \<Rightarrow> protocol \<Rightarrow> ipv4 \<Rightarrow> ipv6 \<Rightarrow> (packet_error, bytes) fallible" where
  "failed_translate_destination E f dst src_proto src_v4 src_v6 = (case (fp_dst f, dst) of
       (V4 _, V4 d) \<Rightarrow> translate_original_ipv4_packet E (fp_raw f) d src_proto
     | (V6 _, V6 d) \<Rightarrow> translate_original_ipv6_packet E (fp_raw f) d src_proto
     | (V6 _, V4 d) \<Rightarrow>
         try_then (lift_error Nat64Failed (nat64_translate_in_place E (fp_raw f) src_v4 d)) (\<lambda>b.
         and_then (split_off 20 b) (\<lambda>b.
         translate_original_ipv4_packet E b d src_proto))
     | (V4 _, V6 d) \<Rightarrow>
         try_then (lift_error Nat46Failed (nat46_translate_in_place E (replicate 20 0 @ fp_raw f) src_v6 d)) (\<lambda>(b, off).
         and_then (split_off off b) (\<lambda>b.
         translate_original_ipv6_packet E b d src_proto)))"

section \<open>Building packets\<close>

text \<open>
  \<^verbatim>\<open>build!\<close>: the bytes a packet builder writes are placed in a fresh buffer behind the headroom; they
  must fit, and the result is parsed like a packet from the network.
\<close>

definition build :: "etherparse \<Rightarrow> bytes \<Rightarrow> (packet_error, ip_packet) fallible" where
  "build E b =
     (if NAT46_OVERHEAD + length b \<le> MAX_FZ_PAYLOAD
      then ip_packet_new E (overwrite NAT46_OVERHEAD b (replicate MAX_FZ_PAYLOAD 0)) (length b)
      else fail (PayloadTooBig (length b)))"

definition fz_p2p_control_addr :: ipv6 where "fz_p2p_control_addr = 0"
definition fz_p2p_control_number :: ip_number where "fz_p2p_control_number = 0xFF"

definition make_fz_p2p_control :: "etherparse \<Rightarrow> bytes \<Rightarrow> bytes \<Rightarrow> (packet_error, ip_packet) fallible" where
  "make_fz_p2p_control E header control_payload =
     try_then (ensure (PayloadTooBig (length header + length control_payload)) (length header + length control_payload \<le> MAX_IP_SIZE)) (\<lambda>_.
     build E (ep_build_ipv6 E fz_p2p_control_addr fz_p2p_control_addr 0 fz_p2p_control_number (header @ control_payload)))"

definition is_fz_p2p_control :: "etherparse \<Rightarrow> ip_packet \<Rightarrow> bool outcome" where
  "is_fz_p2p_control E p =
     and_then (next_header E p) (\<lambda>nh.
     if nh \<noteq> fz_p2p_control_number then Done False
     else and_then (source E p) (\<lambda>s.
     if s \<noteq> V6 fz_p2p_control_addr then Done False
     else and_then (destination E p) (\<lambda>d. Done (d = V6 fz_p2p_control_addr))))"

text \<open>The control message of a packet: its event type and payload.\<close>

definition as_fz_p2p_control :: "etherparse \<Rightarrow> ip_packet \<Rightarrow> (u8 \<times> bytes) option outcome" where
  "as_fz_p2p_control E p =
     and_then (is_fz_p2p_control E p) (\<lambda>control.
     if \<not> control then Done None
     else and_then (ip_payload E p) (\<lambda>b.
     Done (if length b < 8 then None else Some (b ! 0, drop 8 b))))"

end
