(* ===== verification/Packet_View.thy ===== *)
theory Packet_View
  imports Nat46_64
begin

text \<open>
  What the operations on IP packets do, stated on an abstract view of a packet: its two addresses,
  the number of the protocol it carries and its payload. The wire formats that the code reads
  through etherparse are the laws \<open>wire_laws\<close>; a packet is well-formed (\<open>packet_wf\<close>) when the lengths
  in its header fit the buffer. Every operation keeps packets well-formed, never panics on them, and
  acts on the view as a plain record update.
\<close>

section \<open>The wire formats\<close>

definition ihl4 :: "bytes \<Rightarrow> nat" where
  "ihl4 b = 4 * unat (b ! 0 AND 15)"

definition total4 :: "bytes \<Rightarrow> nat" where
  "total4 b = unat (field_at 2 2 b :: u16)"

definition plen6 :: "bytes \<Rightarrow> nat" where
  "plen6 b = unat (field_at 4 2 b :: u16)"

definition ipv4_laws :: "etherparse \<Rightarrow> bool" where
  "ipv4_laws E \<longleftrightarrow>
     (\<forall>b. ep_ipv4_header_ok E b \<longleftrightarrow> 20 \<le> length b \<and> drop_bit 4 (b ! 0) = 4 \<and> 20 \<le> ihl4 b \<and> ihl4 b \<le> length b) \<and>
     (\<forall>b. ep_ipv4_header_ok E b \<longrightarrow>
        ep_ipv4_ihl E b = b ! 0 AND 15 \<and> ep_ipv4_total_len E b = field_at 2 2 b \<and> ep_ipv4_protocol E b = b ! 9 \<and>
        ep_ipv4_source E b = field_at 12 4 b \<and> ep_ipv4_destination E b = field_at 16 4 b) \<and>
     (\<forall>b. ep_ipv4_slice_ok E b \<longrightarrow> ep_ipv4_header_ok E b \<and> ihl4 b \<le> total4 b \<and> total4 b \<le> length b)"

definition ipv6_laws :: "etherparse \<Rightarrow> bool" where
  "ipv6_laws E \<longleftrightarrow>
     (\<forall>b. ep_ipv6_header_ok E b \<longleftrightarrow> 40 \<le> length b \<and> drop_bit 4 (b ! 0) = 6) \<and>
     (\<forall>b. ep_ipv6_header_ok E b \<longrightarrow>
        ep_ipv6_payload_length E b = field_at 4 2 b \<and> ep_ipv6_next_header E b = b ! 6 \<and>
        ep_ipv6_source E b = field_at 8 16 b \<and> ep_ipv6_destination E b = field_at 24 16 b) \<and>
     (\<forall>b. ep_ipv6_slice_ok E b \<longrightarrow> ep_ipv6_header_ok E b \<and> 40 + plen6 b \<le> length b)"

text \<open>Whether TCP and UDP parse depends on the length of the payload and on the fields that hold a length.\<close>

definition parse_laws :: "etherparse \<Rightarrow> bool" where
  "parse_laws E \<longleftrightarrow>
     (\<forall>b c. length b = length c \<and> (field_at 4 2 b :: u16) = field_at 4 2 c \<longrightarrow> ep_udp_ok E b = ep_udp_ok E c) \<and>
     (\<forall>b c. length b = length c \<and> b ! 12 = c ! 12 \<longrightarrow> ep_tcp_ok E b = ep_tcp_ok E c)"

text \<open>Checksums exist for every payload an IP packet can carry.\<close>

definition port_laws :: "etherparse \<Rightarrow> bool" where
  "port_laws E \<longleftrightarrow>
     (\<forall>b. ep_udp_header_ok E b \<longleftrightarrow> 8 \<le> length b) \<and>
     (\<forall>b. ep_udp_ok E b \<longrightarrow> 8 \<le> length b) \<and>
     (\<forall>b. ep_tcp_ok E b \<longrightarrow> ep_tcp_header_ok E b) \<and>
     (\<forall>b. ep_tcp_header_ok E b \<longrightarrow> 20 \<le> length b) \<and>
     (\<forall>b. 8 \<le> length b \<longrightarrow> ep_source_port E b = field_at 0 2 b \<and> ep_destination_port E b = field_at 2 2 b) \<and>
     (\<forall>h b. length b < 2 ^ 16 \<longrightarrow> ep_udp_checksum4 E h b \<noteq> None \<and> ep_udp_checksum6 E h b \<noteq> None \<and>
        ep_tcp_checksum4 E h b \<noteq> None \<and> ep_tcp_checksum6 E h b \<noteq> None)"

definition icmp_laws :: "etherparse \<Rightarrow> bool" where
  "icmp_laws E \<longleftrightarrow>
     (\<forall>b t. ep_icmpv4 E b = Some t \<longrightarrow> 8 \<le> length b) \<and>
     (\<forall>b i s. ep_icmpv4 E b = Some (EchoRequest4 i s) \<longleftrightarrow>
        8 \<le> length b \<and> b ! 0 = 8 \<and> b ! 1 = 0 \<and> i = field_at 4 2 b \<and> s = field_at 6 2 b) \<and>
     (\<forall>b i s. ep_icmpv4 E b = Some (EchoReply4 i s) \<longleftrightarrow>
        8 \<le> length b \<and> b ! 0 = 0 \<and> b ! 1 = 0 \<and> i = field_at 4 2 b \<and> s = field_at 6 2 b) \<and>
     (\<forall>b t. ep_icmpv6 E b = Some t \<longrightarrow> 8 \<le> length b) \<and>
     (\<forall>b i s. ep_icmpv6 E b = Some (EchoRequest6 i s) \<longleftrightarrow>
        8 \<le> length b \<and> b ! 0 = 128 \<and> b ! 1 = 0 \<and> i = field_at 4 2 b \<and> s = field_at 6 2 b) \<and>
     (\<forall>b i s. ep_icmpv6 E b = Some (EchoReply6 i s) \<longleftrightarrow>
        8 \<le> length b \<and> b ! 0 = 129 \<and> b ! 1 = 0 \<and> i = field_at 4 2 b \<and> s = field_at 6 2 b) \<and>
     (\<forall>t s d b. length b < 2 ^ 16 \<longrightarrow> ep_icmpv6_checksum E t s d b \<noteq> None) \<and>
     (\<forall>b. length (ep_icmpv6_payload E b) \<le> length b)"

text \<open>The headers that translation parses and writes.\<close>

definition translation_laws :: "etherparse \<Rightarrow> bool" where
  "translation_laws E \<longleftrightarrow>
     (\<forall>b. ep_ipv4_header_ok E b \<and> ihl4 b \<le> total4 b \<and> total4 b \<le> length b \<and> b ! 9 \<in> {IP_ICMP, IP_TCP, IP_UDP, IPV6_ICMP} \<longrightarrow>
        (\<exists>h. ep_ipv4_headers E b = Some (h, take (total4 b - ihl4 b) (drop (ihl4 b) b)) \<and>
             h4_header_len h = ihl4 b \<and> h4_total_len h = field_at 2 2 b \<and> h4_protocol h = b ! 9)) \<and>
     (\<forall>b. ep_ipv6_header_ok E b \<and> 40 + plen6 b \<le> length b \<and> b ! 6 \<in> {IP_ICMP, IP_TCP, IP_UDP, IPV6_ICMP} \<longrightarrow>
        (\<exists>h. ep_ipv6_headers E b = Some (h, take (plen6 b) (drop 40 b)) \<and>
             h6_payload_length h = field_at 4 2 b \<and> h6_next_header h = b ! 6)) \<and>
     (\<forall>h. h4_header_len h = 20 \<longrightarrow> length (ep_ipv4_bytes E h) = 20 \<and> ep_ipv4_bytes E h ! 0 = 0x45 \<and>
        field_at 2 2 (ep_ipv4_bytes E h) = h4_total_len h \<and> ep_ipv4_bytes E h ! 9 = h4_protocol h \<and>
        field_at 12 4 (ep_ipv4_bytes E h) = h4_source h \<and> field_at 16 4 (ep_ipv4_bytes E h) = h4_destination h) \<and>
     (\<forall>h. length (ep_ipv6_bytes E h) = 40 \<and> drop_bit 4 (ep_ipv6_bytes E h ! 0) = 6 \<and>
        field_at 4 2 (ep_ipv6_bytes E h) = h6_payload_length h \<and> ep_ipv6_bytes E h ! 6 = h6_next_header h \<and>
        field_at 8 16 (ep_ipv6_bytes E h) = h6_source h \<and> field_at 24 16 (ep_ipv6_bytes E h) = h6_destination h) \<and>
     (\<forall>b t i. ep_icmpv4 E b = Some t \<and> icmpv4_echo_id t = Some i \<longrightarrow> ep_icmpv4_header E b = Some t) \<and>
     (\<forall>b t i. ep_icmpv6 E b = Some t \<and> icmpv6_echo_id t = Some i \<longrightarrow> ep_icmpv6_header E b = Some t) \<and>
     (\<forall>i s. ep_icmpv4_bytes E (EchoRequest4 i s) = [8, 0, 0, 0] @ octets2 i @ octets2 s \<and>
            ep_icmpv4_bytes E (EchoReply4 i s) = [0, 0, 0, 0] @ octets2 i @ octets2 s \<and>
            ep_icmpv6_bytes E (EchoRequest6 i s) = [128, 0, 0, 0] @ octets2 i @ octets2 s \<and>
            ep_icmpv6_bytes E (EchoReply6 i s) = [129, 0, 0, 0] @ octets2 i @ octets2 s)"

definition wire_laws :: "etherparse \<Rightarrow> bool" where
  "wire_laws E \<longleftrightarrow> ipv4_laws E \<and> ipv6_laws E \<and> parse_laws E \<and> port_laws E \<and> icmp_laws E \<and> translation_laws E"

section \<open>Views\<close>

record view =
  vw_src :: ip_addr
  vw_dst :: ip_addr
  vw_next :: ip_number
  vw_payload :: bytes

definition raw :: "convertible \<Rightarrow> bytes" where
  "raw c = take (cp_len c) (drop (cp_start c) (cp_buf c))"

definition valid4 :: "bytes \<Rightarrow> bool" where
  "valid4 b \<longleftrightarrow> 20 \<le> length b \<and> drop_bit 4 (b ! 0) = 4 \<and> 20 \<le> ihl4 b \<and> ihl4 b \<le> total4 b \<and> total4 b \<le> length b"

definition valid6 :: "bytes \<Rightarrow> bool" where
  "valid6 b \<longleftrightarrow> 40 \<le> length b \<and> drop_bit 4 (b ! 0) = 6 \<and> 40 + plen6 b \<le> length b"

definition in_buffer :: "convertible \<Rightarrow> bool" where
  "in_buffer c \<longleftrightarrow> cp_start c + cp_len c \<le> length (cp_buf c) \<and> length (cp_buf c) = MAX_FZ_PAYLOAD"

definition packet_wf :: "ip_packet \<Rightarrow> bool" where
  "packet_wf p = (case p of
       Ipv4 c \<Rightarrow> in_buffer c \<and> NAT46_OVERHEAD \<le> cp_start c \<and> valid4 (raw c)
     | Ipv6 c \<Rightarrow> in_buffer c \<and> valid6 (raw c))"

definition view4 :: "bytes \<Rightarrow> view" where
  "view4 b = \<lparr>vw_src = V4 (field_at 12 4 b), vw_dst = V4 (field_at 16 4 b), vw_next = b ! 9,
              vw_payload = take (total4 b - ihl4 b) (drop (ihl4 b) b)\<rparr>"

definition view6 :: "bytes \<Rightarrow> view" where
  "view6 b = \<lparr>vw_src = V6 (field_at 8 16 b), vw_dst = V6 (field_at 24 16 b), vw_next = b ! 6,
              vw_payload = take (plen6 b) (drop 40 b)\<rparr>"

definition view_of :: "ip_packet \<Rightarrow> view" where
  "view_of p = (case p of Ipv4 c \<Rightarrow> view4 (raw c) | Ipv6 c \<Rightarrow> view6 (raw c))"

text \<open>The ports of a view.\<close>

definition view_protocol :: "etherparse \<Rightarrow> (bytes \<Rightarrow> u16) \<Rightarrow> view \<Rightarrow> unsupported_protocol + protocol" where
  "view_protocol E port v =
     (let n = vw_next v; b = vw_payload v in
      if n = IP_TCP \<and> ep_tcp_ok E b then Inr (Tcp (port b))
      else if n = IP_UDP \<and> ep_udp_ok E b then Inr (Udp (port b))
      else if n = IP_ICMP \<and> ep_icmpv4 E b \<noteq> None then
        (let t = the (ep_icmpv4 E b) in
         case icmpv4_echo_id t of Some i \<Rightarrow> Inr (Icmp i) | None \<Rightarrow> Inl (UnsupportedIcmpv4Type t))
      else if n = IPV6_ICMP \<and> ep_icmpv6 E b \<noteq> None then
        (let t = the (ep_icmpv6 E b) in
         case icmpv6_echo_id t of Some i \<Rightarrow> Inr (Icmp i) | None \<Rightarrow> Inl (UnsupportedIcmpv6Type t))
      else Inl (UnsupportedIpPayload n))"

section \<open>Reading\<close>

lemma packet_slice_raw: "in_buffer c \<Longrightarrow> packet_slice c = Done (raw c)"
  by (simp add: packet_slice_def in_buffer_def raw_def)

lemma length_raw: "in_buffer c \<Longrightarrow> length (raw c) = cp_len c"
  by (auto simp: in_buffer_def raw_def)

lemma valid4_header:
  assumes "wire_laws E" "valid4 b"
  shows "ep_ipv4_header_ok E b" "ep_ipv4_ihl E b = b ! 0 AND 15" "ep_ipv4_total_len E b = field_at 2 2 b"
    "ep_ipv4_protocol E b = b ! 9" "ep_ipv4_source E b = field_at 12 4 b"
    "ep_ipv4_destination E b = field_at 16 4 b"
proof -
  show ok: "ep_ipv4_header_ok E b"
    using assms by (auto simp: wire_laws_def ipv4_laws_def valid4_def)
  show "ep_ipv4_ihl E b = b ! 0 AND 15" "ep_ipv4_total_len E b = field_at 2 2 b"
    "ep_ipv4_protocol E b = b ! 9" "ep_ipv4_source E b = field_at 12 4 b"
    "ep_ipv4_destination E b = field_at 16 4 b"
    using assms(1) ok by (simp_all add: wire_laws_def ipv4_laws_def)
qed

lemma valid6_header:
  assumes "wire_laws E" "valid6 b"
  shows "ep_ipv6_header_ok E b" "ep_ipv6_payload_length E b = field_at 4 2 b"
    "ep_ipv6_next_header E b = b ! 6" "ep_ipv6_source E b = field_at 8 16 b"
    "ep_ipv6_destination E b = field_at 24 16 b"
proof -
  show ok: "ep_ipv6_header_ok E b"
    using assms by (auto simp: wire_laws_def ipv6_laws_def valid6_def)
  show "ep_ipv6_payload_length E b = field_at 4 2 b"
    "ep_ipv6_next_header E b = b ! 6" "ep_ipv6_source E b = field_at 8 16 b"
    "ep_ipv6_destination E b = field_at 24 16 b"
    using assms(1) ok by (simp_all add: wire_laws_def ipv6_laws_def)
qed

lemma ihl4_bound: "ihl4 b \<le> 60"
proof -
  have "b ! 0 AND 15 \<le> (15 :: u8)" by (rule word_and_le1)
  then have "unat (b ! 0 AND 15) \<le> unat (15 :: u8)" by (simp only: word_le_nat_alt)
  then show ?thesis by (simp add: ihl4_def)
qed

lemma packet_reads:
  assumes "wire_laws E" "packet_wf p"
  shows "source E p = Done (vw_src (view_of p))" "destination E p = Done (vw_dst (view_of p))"
    "next_header E p = Done (vw_next (view_of p))" "ip_payload E p = Done (vw_payload (view_of p))"
proof -
  have "source E p = Done (vw_src (view_of p)) \<and> destination E p = Done (vw_dst (view_of p)) \<and>
        next_header E p = Done (vw_next (view_of p)) \<and> ip_payload E p = Done (vw_payload (view_of p))"
  proof (cases p)
    case (Ipv4 c)
    with assms(2) have c: "in_buffer c" "valid4 (raw c)" by (auto simp: packet_wf_def)
    note h = valid4_header [OF assms(1) c(2)]
    have len: "unat (ep_ipv4_ihl E (raw c)) * 4 = ihl4 (raw c)" using h(2) by (simp add: ihl4_def)
    have "ihl4 (raw c) < 256" using ihl4_bound [of "raw c"] by simp
    with c h len show ?thesis
      by (simp add: Ipv4 source_def destination_def next_header_def ip_payload_def header_length_def
          payload_length_def ipv4_header_length_def packet_of_def ip_header_def packet_slice_raw
          view_of_def view4_def total4_def [symmetric] valid4_def)
  next
    case (Ipv6 c)
    with assms(2) have c: "in_buffer c" "valid6 (raw c)" by (auto simp: packet_wf_def)
    note h = valid6_header [OF assms(1) c(2)]
    from c h show ?thesis
      by (simp add: Ipv6 source_def destination_def next_header_def ip_payload_def header_length_def
          payload_length_def packet_of_def ipv6_header_slice_def packet_slice_raw
          view_of_def view6_def plen6_def [symmetric] valid6_def)
  qed
  then show "source E p = Done (vw_src (view_of p))" "destination E p = Done (vw_dst (view_of p))"
    "next_header E p = Done (vw_next (view_of p))" "ip_payload E p = Done (vw_payload (view_of p))"
    by simp_all
qed

lemma as_l4_view:
  assumes "wire_laws E" "packet_wf p"
  shows "as_l4 E n parse p = Done (if vw_next (view_of p) = n then parse (vw_payload (view_of p)) else None)"
  by (simp add: as_l4_def packet_reads [OF assms])

lemma port_protocol_view:
  assumes "wire_laws E" "packet_wf p"
  shows "port_protocol E port p = Done (view_protocol E port (view_of p))"
  by (auto simp: port_protocol_def as_tcp_def as_udp_def as_icmpv4_def as_icmpv6_def
      as_l4_view [OF assms] packet_reads [OF assms] view_protocol_def ip_number_defs Let_def
      split: option.splits)

end
