(* ===== verification/Packet_Edit.thy ===== *)
theory Packet_Edit
  imports Packet_View
begin

text \<open>
  Writing to packets: the effect of each mutator of \<^verbatim>\<open>IpPacket\<close> on the view of the packet. The
  relation \<open>edits p p' v\<close> says that \<open>p'\<close> is well-formed, of the same IP version as \<open>p\<close>, and has view \<open>v\<close>.
\<close>

definition version4 :: "ip_packet \<Rightarrow> bool" where
  "version4 p = (case p of Ipv4 _ \<Rightarrow> True | Ipv6 _ \<Rightarrow> False)"

definition edits :: "ip_packet \<Rightarrow> ip_packet \<Rightarrow> view \<Rightarrow> bool" where
  "edits p p' v \<longleftrightarrow> packet_wf p' \<and> version4 p' = version4 p \<and> view_of p' = v"

lemma packet_mut_raw:
  assumes "in_buffer c" "f (raw c) = Done b" "length b = length (raw c)"
  shows "\<exists>c'. packet_mut f c = Done c' \<and> in_buffer c' \<and> raw c' = b \<and> cp_start c' = cp_start c"
proof -
  let ?c = "c\<lparr>cp_buf := overwrite (cp_start c) b (cp_buf c)\<rparr>"
  have len: "length b = cp_len c" "cp_start c + length b \<le> length (cp_buf c)"
    using assms(1,3) by (simp_all add: length_raw) (simp add: in_buffer_def)
  have "packet_mut f c = Done ?c"
    using assms by (simp add: packet_mut_def packet_slice_raw)
  moreover have "in_buffer ?c" using assms(1) len by (simp add: in_buffer_def)
  moreover have "raw ?c = b" using len overwrite_at [OF len(2)] by (simp add: raw_def)
  ultimately show ?thesis by (intro exI [of _ ?c]) simp
qed

lemma valid4_overwrite:
  assumes "valid4 b" "4 \<le> off" "off + length bs \<le> length b"
  shows "valid4 (overwrite off bs b)" "ihl4 (overwrite off bs b) = ihl4 b" "total4 (overwrite off bs b) = total4 b"
proof -
  have z: "overwrite off bs b ! 0 = b ! 0" using assms by (subst overwrite_nth) (auto simp: valid4_def)
  then show i: "ihl4 (overwrite off bs b) = ihl4 b" by (simp add: ihl4_def)
  show t: "total4 (overwrite off bs b) = total4 b" using assms by (simp add: total4_def field_at_before)
  show "valid4 (overwrite off bs b)" using assms z i t by (simp add: valid4_def)
qed

lemma valid6_overwrite:
  assumes "valid6 b" "6 \<le> off" "off + length bs \<le> length b"
  shows "valid6 (overwrite off bs b)" "plen6 (overwrite off bs b) = plen6 b"
proof -
  have z: "overwrite off bs b ! 0 = b ! 0" using assms by (subst overwrite_nth) (auto simp: valid6_def)
  show p: "plen6 (overwrite off bs b) = plen6 b" using assms by (simp add: plen6_def field_at_before)
  show "valid6 (overwrite off bs b)" using assms z p by (simp add: valid6_def)
qed

lemma view4_address:
  assumes "valid4 b"
  shows "view4 (overwrite 16 (octets4 d) b) = (view4 b)\<lparr>vw_dst := V4 d\<rparr>"
    and "view4 (overwrite 12 (octets4 d) b) = (view4 b)\<lparr>vw_src := V4 d\<rparr>"
proof -
  have b: "20 \<le> length b" "20 \<le> ihl4 b" using assms by (auto simp: valid4_def)
  note v = valid4_overwrite(2,3) [OF assms]
  have n: "overwrite off bs b ! 9 = b ! 9" if "10 \<le> off" "off + length bs \<le> length b" for off bs
    using that b by (subst overwrite_nth) auto
  show "view4 (overwrite 16 (octets4 d) b) = (view4 b)\<lparr>vw_dst := V4 d\<rparr>"
    using b by (simp add: view4_def v n field_at_before overwrite_after field_at_octets)
  show "view4 (overwrite 12 (octets4 d) b) = (view4 b)\<lparr>vw_src := V4 d\<rparr>"
    using b by (simp add: view4_def v n field_at_after overwrite_after field_at_octets)
qed

lemma view6_address:
  assumes "valid6 b"
  shows "view6 (overwrite 24 (octets6 d) b) = (view6 b)\<lparr>vw_dst := V6 d\<rparr>"
    and "view6 (overwrite 8 (octets6 d) b) = (view6 b)\<lparr>vw_src := V6 d\<rparr>"
proof -
  have b: "40 \<le> length b" using assms by (auto simp: valid6_def)
  note v = valid6_overwrite(2) [OF assms]
  have n: "overwrite off bs b ! 6 = b ! 6" if "8 \<le> off" "off + length bs \<le> length b" for off bs
    using that b by (subst overwrite_nth) auto
  show "view6 (overwrite 24 (octets6 d) b) = (view6 b)\<lparr>vw_dst := V6 d\<rparr>"
    using b by (simp add: view6_def v n field_at_before overwrite_after field_at_octets)
  show "view6 (overwrite 8 (octets6 d) b) = (view6 b)\<lparr>vw_src := V6 d\<rparr>"
    using b by (simp add: view6_def v n field_at_after overwrite_after field_at_octets)
qed

lemma header_write4:
  assumes "wire_laws E" "packet_wf (Ipv4 c)" "10 \<le> off" "off + length bs \<le> 20"
  shows "\<exists>c'. ip_header_mut E (write_to_offset_unchecked off bs) c = Done c' \<and> packet_wf (Ipv4 c')
              \<and> raw c' = overwrite off bs (raw c)"
proof -
  have c: "in_buffer c" "valid4 (raw c)" "NAT46_OVERHEAD \<le> cp_start c"
    using assms(2) by (simp_all add: packet_wf_def)
  have l: "off + length bs \<le> length (raw c)" using assms c(2) by (simp add: valid4_def)
  have "\<exists>c'. packet_mut (\<lambda>b. and_then (assert_that (ep_ipv4_header_ok E b)) (\<lambda>_. write_to_offset_unchecked off bs b)) c
               = Done c' \<and> in_buffer c' \<and> raw c' = overwrite off bs (raw c) \<and> cp_start c' = cp_start c"
    using valid4_header(1) [OF assms(1) c(2)] c(1) l by (intro packet_mut_raw) simp_all
  with c(2,3) valid4_overwrite(1) [of "raw c" off bs] assms(3) l show ?thesis
    by (auto simp: ip_header_mut_def packet_wf_def)
qed

lemma header_write6:
  assumes "wire_laws E" "packet_wf (Ipv6 c)" "8 \<le> off" "off + length bs \<le> 40"
  shows "\<exists>c'. ipv6_header_mut E (write_to_offset_unchecked off bs) c = Done c' \<and> packet_wf (Ipv6 c')
              \<and> raw c' = overwrite off bs (raw c)"
proof -
  have c: "in_buffer c" "valid6 (raw c)"
    using assms(2) by (simp_all add: packet_wf_def)
  have l: "off + length bs \<le> length (raw c)" using assms c(2) by (simp add: valid6_def)
  have "\<exists>c'. packet_mut (\<lambda>b. and_then (assert_that (ep_ipv6_header_ok E b)) (\<lambda>_. write_to_offset_unchecked off bs b)) c
               = Done c' \<and> in_buffer c' \<and> raw c' = overwrite off bs (raw c) \<and> cp_start c' = cp_start c"
    using valid6_header(1) [OF assms(1) c(2)] c(1) l by (intro packet_mut_raw) simp_all
  with c(2) valid6_overwrite(1) [of "raw c" off bs] assms(3) l show ?thesis
    by (auto simp: ipv6_header_mut_def packet_wf_def)
qed

lemma set_dst_view:
  assumes "wire_laws E" "packet_wf p" "version4 p = is_ipv4 d"
  shows "\<exists>p'. set_dst E d p = Done p' \<and> edits p p' ((view_of p)\<lparr>vw_dst := d\<rparr>)"
proof (cases p)
  case (Ipv4 c)
  with assms(3) obtain a where d: "d = V4 a" by (cases d) (auto simp: version4_def)
  obtain c' where "ip_header_mut E (write_to_offset_unchecked 16 (octets4 a)) c = Done c'"
      "packet_wf (Ipv4 c')" "raw c' = overwrite 16 (octets4 a) (raw c)"
    using header_write4 [of E c 16 "octets4 a"] assms Ipv4 by auto
  with assms(2) Ipv4 d show ?thesis
    by (simp add: set_dst_def edits_def version4_def view_of_def packet_wf_def view4_address)
next
  case (Ipv6 c)
  with assms(3) obtain a where d: "d = V6 a" by (cases d) (auto simp: version4_def)
  obtain c' where "ipv6_header_mut E (write_to_offset_unchecked 24 (octets6 a)) c = Done c'"
      "packet_wf (Ipv6 c')" "raw c' = overwrite 24 (octets6 a) (raw c)"
    using header_write6 [of E c 24 "octets6 a"] assms Ipv6 by auto
  with assms(2) Ipv6 d show ?thesis
    by (simp add: set_dst_def edits_def version4_def view_of_def packet_wf_def view6_address)
qed

lemma set_src_view:
  assumes "wire_laws E" "packet_wf p" "version4 p = is_ipv4 d"
  shows "\<exists>p'. set_src E d p = Done p' \<and> edits p p' ((view_of p)\<lparr>vw_src := d\<rparr>)"
proof (cases p)
  case (Ipv4 c)
  with assms(3) obtain a where d: "d = V4 a" by (cases d) (auto simp: version4_def)
  obtain c' where "ip_header_mut E (write_to_offset_unchecked 12 (octets4 a)) c = Done c'"
      "packet_wf (Ipv4 c')" "raw c' = overwrite 12 (octets4 a) (raw c)"
    using header_write4 [of E c 12 "octets4 a"] assms Ipv4 by auto
  with assms(2) Ipv4 d show ?thesis
    by (simp add: set_src_def edits_def version4_def view_of_def packet_wf_def view4_address)
next
  case (Ipv6 c)
  with assms(3) obtain a where d: "d = V6 a" by (cases d) (auto simp: version4_def)
  obtain c' where "ipv6_header_mut E (write_to_offset_unchecked 8 (octets6 a)) c = Done c'"
      "packet_wf (Ipv6 c')" "raw c' = overwrite 8 (octets6 a) (raw c)"
    using header_write6 [of E c 8 "octets6 a"] assms Ipv6 by auto
  with assms(2) Ipv6 d show ?thesis
    by (simp add: set_src_def edits_def version4_def view_of_def packet_wf_def view6_address)
qed

text \<open>The payload.\<close>

lemma view4_payload:
  assumes "valid4 b" "length s = total4 b - ihl4 b"
  shows "valid4 (overwrite (ihl4 b) s b)"
    and "view4 (overwrite (ihl4 b) s b) = (view4 b)\<lparr>vw_payload := s\<rparr>"
proof -
  have b: "20 \<le> length b" "20 \<le> ihl4 b" "ihl4 b + length s \<le> length b"
    using assms by (auto simp: valid4_def)
  have v: "valid4 (overwrite (ihl4 b) s b)" "ihl4 (overwrite (ihl4 b) s b) = ihl4 b"
    "total4 (overwrite (ihl4 b) s b) = total4 b"
    using assms b by (intro valid4_overwrite; simp)+
  then show "valid4 (overwrite (ihl4 b) s b)" by simp
  have "overwrite (ihl4 b) s b ! 9 = b ! 9" using b by (subst overwrite_nth) auto
  then show "view4 (overwrite (ihl4 b) s b) = (view4 b)\<lparr>vw_payload := s\<rparr>"
    using b v overwrite_at [OF b(3)] assms(2) by (simp add: view4_def field_at_before)
qed

lemma view6_payload:
  assumes "valid6 b" "length s = plen6 b"
  shows "valid6 (overwrite 40 s b)"
    and "view6 (overwrite 40 s b) = (view6 b)\<lparr>vw_payload := s\<rparr>"
proof -
  have b: "40 \<le> length b" "40 + length s \<le> length b"
    using assms by (auto simp: valid6_def)
  have v: "valid6 (overwrite 40 s b)" "plen6 (overwrite 40 s b) = plen6 b"
    using assms b by (intro valid6_overwrite; simp)+
  then show "valid6 (overwrite 40 s b)" by simp
  have "overwrite 40 s b ! 6 = b ! 6" using b by (subst overwrite_nth) auto
  then show "view6 (overwrite 40 s b) = (view6 b)\<lparr>vw_payload := s\<rparr>"
    using b v overwrite_at [OF b(2)] assms(2) by (simp add: view6_def field_at_before)
qed

lemma payload_mut_view:
  assumes "wire_laws E" "packet_wf p" "f (vw_payload (view_of p)) = Done s"
    "length s = length (vw_payload (view_of p))"
  shows "\<exists>p'. payload_mut E f p = Done p' \<and> edits p p' ((view_of p)\<lparr>vw_payload := s\<rparr>)"
proof (cases p)
  case (Ipv4 c)
  with assms(2) have c: "in_buffer c" "valid4 (raw c)" "NAT46_OVERHEAD \<le> cp_start c"
    by (auto simp: packet_wf_def)
  let ?b = "raw c" let ?n = "total4 ?b - ihl4 ?b"
  let ?edit = "\<lambda>b. and_then (slice (ihl4 ?b) (ihl4 ?b + ?n) b) (\<lambda>s. and_then (f s) (\<lambda>s'. Done (overwrite (ihl4 ?b) s' b)))"
  note h = valid4_header [OF assms(1) c(2)]
  have len: "unat (ep_ipv4_ihl E ?b) * 4 = ihl4 ?b" using h(2) by (simp add: ihl4_def)
  have "ihl4 ?b < 256" using ihl4_bound [of ?b] by simp
  then have pm: "payload_mut E f p = and_then (packet_mut ?edit c) (\<lambda>c'. Done (Ipv4 c'))"
    using c h len by (simp add: Ipv4 payload_mut_def header_length_def payload_length_def
        ipv4_header_length_def ip_header_def packet_slice_raw total4_def [symmetric] valid4_def Let_def)
  have s: "f (take ?n (drop (ihl4 ?b) ?b)) = Done s" "length s = ?n"
    using assms(3,4) c(2) by (auto simp: Ipv4 view_of_def view4_def valid4_def)
  have "?edit ?b = Done (overwrite (ihl4 ?b) s ?b)" "ihl4 ?b + length s \<le> length ?b"
    using c(2) s by (auto simp: valid4_def)
  then obtain c' where "packet_mut ?edit c = Done c'" "in_buffer c'" "raw c' = overwrite (ihl4 ?b) s ?b"
      "cp_start c' = cp_start c"
    using packet_mut_raw [OF c(1), of ?edit] by auto
  with pm c s(2) view4_payload [OF c(2) s(2)] show ?thesis
    by (simp add: Ipv4 edits_def packet_wf_def version4_def view_of_def)
next
  case (Ipv6 c)
  with assms(2) have c: "in_buffer c" "valid6 (raw c)" by (auto simp: packet_wf_def)
  let ?b = "raw c"
  let ?edit = "\<lambda>b. and_then (slice 40 (40 + plen6 ?b) b) (\<lambda>s. and_then (f s) (\<lambda>s'. Done (overwrite 40 s' b)))"
  note h = valid6_header [OF assms(1) c(2)]
  have pm: "payload_mut E f p = and_then (packet_mut ?edit c) (\<lambda>c'. Done (Ipv6 c'))"
    using c h by (simp add: Ipv6 payload_mut_def header_length_def payload_length_def
        ipv6_header_slice_def packet_slice_raw plen6_def [symmetric] Let_def)
  have s: "f (take (plen6 ?b) (drop 40 ?b)) = Done s" "length s = plen6 ?b"
    using assms(3,4) c(2) by (auto simp: Ipv6 view_of_def view6_def valid6_def)
  have "?edit ?b = Done (overwrite 40 s ?b)" "40 + length s \<le> length ?b"
    using c(2) s by (auto simp: valid6_def)
  then obtain c' where "packet_mut ?edit c = Done c'" "in_buffer c'" "raw c' = overwrite 40 s ?b"
    using packet_mut_raw [OF c(1), of ?edit] by auto
  with pm c s(2) view6_payload [OF c(2) s(2)] show ?thesis
    by (simp add: Ipv6 edits_def packet_wf_def version4_def view_of_def)
qed

lemma l4_mut_view:
  assumes "wire_laws E" "packet_wf p"
    and "vw_next (view_of p) = n \<Longrightarrow> parses (vw_payload (view_of p))
           \<Longrightarrow> f (vw_payload (view_of p)) = Done s \<and> length s = length (vw_payload (view_of p))"
  shows "\<exists>p'. l4_mut E n parses f p = Done p' \<and>
     edits p p' (if vw_next (view_of p) = n \<and> parses (vw_payload (view_of p))
                 then (view_of p)\<lparr>vw_payload := s\<rparr> else view_of p)"
proof (cases "vw_next (view_of p) = n")
  case True
  show ?thesis
  proof (cases "parses (vw_payload (view_of p))")
    case parses: True
    with assms(3) True have "f (vw_payload (view_of p)) = Done s"
      "length s = length (vw_payload (view_of p))" by simp_all
    with payload_mut_view [OF assms(1,2), of "\<lambda>b. if parses b then f b else Done b" s] parses True
    show ?thesis by (simp add: l4_mut_def packet_reads(3) [OF assms(1,2)])
  next
    case False
    with payload_mut_view [OF assms(1,2), of "\<lambda>b. if parses b then f b else Done b"
        "vw_payload (view_of p)"] True
    show ?thesis by (simp add: l4_mut_def packet_reads(3) [OF assms(1,2)])
  qed
next
  case False
  with assms show ?thesis by (simp add: l4_mut_def packet_reads(3) edits_def)
qed

end
