(* ===== verification/Packet_Ports.thy ===== *)
theory Packet_Ports
  imports Packet_Edit
begin

text \<open>
  Ports and checksums: rewriting the source or destination port (the identifier, for ICMP echo
  messages) of a packet and refreshing its checksums, as updates of the payload of its view.
\<close>

section \<open>Payloads\<close>

text \<open>The four kinds of payload that have a port or an identifier.\<close>

definition echo4 :: "etherparse \<Rightarrow> bytes \<Rightarrow> bool" where
  "echo4 E b \<longleftrightarrow> (\<exists>t. ep_icmpv4 E b = Some t \<and> icmpv4_echo_id t \<noteq> None)"

definition echo6 :: "etherparse \<Rightarrow> bytes \<Rightarrow> bool" where
  "echo6 E b \<longleftrightarrow> (\<exists>t. ep_icmpv6 E b = Some t \<and> icmpv6_echo_id t \<noteq> None)"

lemma echo4_iff:
  assumes "wire_laws E"
  shows "echo4 E b \<longleftrightarrow> 8 \<le> length b \<and> (b ! 0 = 0 \<or> b ! 0 = 8) \<and> b ! 1 = 0"
proof
  assume "echo4 E b"
  then obtain t where t: "ep_icmpv4 E b = Some t" "icmpv4_echo_id t \<noteq> None" by (auto simp: echo4_def)
  then show "8 \<le> length b \<and> (b ! 0 = 0 \<or> b ! 0 = 8) \<and> b ! 1 = 0"
    using assms by (cases t) (auto simp: wire_laws_def icmp_laws_def)
next
  assume b: "8 \<le> length b \<and> (b ! 0 = 0 \<or> b ! 0 = 8) \<and> b ! 1 = 0"
  have "\<exists>t. ep_icmpv4 E b = Some t \<and> icmpv4_echo_id t = Some (field_at 4 2 b)"
  proof (cases "b ! 0 = 8")
    case True
    with b assms have "ep_icmpv4 E b = Some (EchoRequest4 (field_at 4 2 b) (field_at 6 2 b))"
      by (simp add: wire_laws_def icmp_laws_def)
    then show ?thesis by simp
  next
    case False
    with b assms have "ep_icmpv4 E b = Some (EchoReply4 (field_at 4 2 b) (field_at 6 2 b))"
      by (simp add: wire_laws_def icmp_laws_def)
    then show ?thesis by simp
  qed
  then show "echo4 E b" by (auto simp: echo4_def)
qed

lemma echo6_iff:
  assumes "wire_laws E"
  shows "echo6 E b \<longleftrightarrow> 8 \<le> length b \<and> (b ! 0 = 129 \<or> b ! 0 = 128) \<and> b ! 1 = 0"
proof
  assume "echo6 E b"
  then obtain t where t: "ep_icmpv6 E b = Some t" "icmpv6_echo_id t \<noteq> None" by (auto simp: echo6_def)
  then show "8 \<le> length b \<and> (b ! 0 = 129 \<or> b ! 0 = 128) \<and> b ! 1 = 0"
    using assms by (cases t) (auto simp: wire_laws_def icmp_laws_def)
next
  assume b: "8 \<le> length b \<and> (b ! 0 = 129 \<or> b ! 0 = 128) \<and> b ! 1 = 0"
  have "\<exists>t. ep_icmpv6 E b = Some t \<and> icmpv6_echo_id t = Some (field_at 4 2 b)"
  proof (cases "b ! 0 = 128")
    case True
    with b assms have "ep_icmpv6 E b = Some (EchoRequest6 (field_at 4 2 b) (field_at 6 2 b))"
      by (simp add: wire_laws_def icmp_laws_def)
    then show ?thesis by simp
  next
    case False
    with b assms have "ep_icmpv6 E b = Some (EchoReply6 (field_at 4 2 b) (field_at 6 2 b))"
      by (simp add: wire_laws_def icmp_laws_def)
    then show ?thesis by simp
  qed
  then show "echo6 E b" by (auto simp: echo6_def)
qed

lemma echo_ids:
  assumes "wire_laws E"
  shows "ep_icmpv4 E b = Some t \<Longrightarrow> icmpv4_echo_id t = Some i \<Longrightarrow> i = field_at 4 2 b"
    and "ep_icmpv6 E b = Some u \<Longrightarrow> icmpv6_echo_id u = Some i \<Longrightarrow> i = field_at 4 2 b"
  using assms by (cases t; auto simp: wire_laws_def icmp_laws_def)
    (use assms in \<open>cases u; auto simp: wire_laws_def icmp_laws_def\<close>)

text \<open>A payload with ports: which protocol it is, and where its identifying number sits.\<close>

definition ported :: "etherparse \<Rightarrow> ip_number \<Rightarrow> bytes \<Rightarrow> bool" where
  "ported E n b \<longleftrightarrow>
     n = IP_TCP \<and> ep_tcp_ok E b \<or> n = IP_UDP \<and> ep_udp_ok E b \<or> n = IP_ICMP \<and> echo4 E b \<or> n = IPV6_ICMP \<and> echo6 E b"

definition proto_kind :: "ip_number \<Rightarrow> u16 \<Rightarrow> protocol" where
  "proto_kind n = (if n = IP_TCP then Tcp else if n = IP_UDP then Udp else Icmp)"

definition has_ports :: "ip_number \<Rightarrow> bool" where
  "has_ports n \<longleftrightarrow> n = IP_TCP \<or> n = IP_UDP"

definition source_number :: "ip_number \<Rightarrow> bytes \<Rightarrow> u16" where
  "source_number n b = (if has_ports n then field_at 0 2 b else field_at 4 2 b)"

definition destination_number :: "ip_number \<Rightarrow> bytes \<Rightarrow> u16" where
  "destination_number n b = (if has_ports n then field_at 2 2 b else field_at 4 2 b)"

lemma ip_numbers_distinct [simp]:
  "IP_TCP \<noteq> IP_UDP" "IP_UDP \<noteq> IP_TCP" "IP_TCP \<noteq> IP_ICMP" "IP_ICMP \<noteq> IP_TCP" "IP_TCP \<noteq> IPV6_ICMP"
  "IPV6_ICMP \<noteq> IP_TCP" "IP_UDP \<noteq> IP_ICMP" "IP_ICMP \<noteq> IP_UDP" "IP_UDP \<noteq> IPV6_ICMP" "IPV6_ICMP \<noteq> IP_UDP"
  "IP_ICMP \<noteq> IPV6_ICMP" "IPV6_ICMP \<noteq> IP_ICMP"
  by (simp_all add: ip_number_defs)

lemma port_reads:
  assumes "wire_laws E"
  shows "ep_tcp_ok E b \<Longrightarrow> ep_source_port E b = field_at 0 2 b" "ep_tcp_ok E b \<Longrightarrow> ep_destination_port E b = field_at 2 2 b"
    "ep_udp_ok E b \<Longrightarrow> ep_source_port E b = field_at 0 2 b" "ep_udp_ok E b \<Longrightarrow> ep_destination_port E b = field_at 2 2 b"
    "ep_tcp_ok E b \<Longrightarrow> 20 \<le> length b" "ep_udp_ok E b \<Longrightarrow> 8 \<le> length b"
proof -
  have p: "port_laws E" using assms by (simp add: wire_laws_def)
  have r: "ep_source_port E b = field_at 0 2 b \<and> ep_destination_port E b = field_at 2 2 b" if "8 \<le> length b"
    using p that by (simp add: port_laws_def)
  have t: "20 \<le> length b" if "ep_tcp_ok E b" using p that unfolding port_laws_def by blast
  have u: "8 \<le> length b" if "ep_udp_ok E b" using p that unfolding port_laws_def by blast
  show "ep_tcp_ok E b \<Longrightarrow> 20 \<le> length b" by (rule t)
  show "ep_udp_ok E b \<Longrightarrow> 8 \<le> length b" by (rule u)
  show "ep_tcp_ok E b \<Longrightarrow> ep_source_port E b = field_at 0 2 b" "ep_tcp_ok E b \<Longrightarrow> ep_destination_port E b = field_at 2 2 b"
    using t r by simp_all
  show "ep_udp_ok E b \<Longrightarrow> ep_source_port E b = field_at 0 2 b" "ep_udp_ok E b \<Longrightarrow> ep_destination_port E b = field_at 2 2 b"
    using u r by simp_all
qed

lemma view_protocol_ported:
  assumes "wire_laws E" "ported E (vw_next v) (vw_payload v)"
  shows "view_protocol E (ep_source_port E) v = Inr (proto_kind (vw_next v) (source_number (vw_next v) (vw_payload v)))"
    and "view_protocol E (ep_destination_port E) v = Inr (proto_kind (vw_next v) (destination_number (vw_next v) (vw_payload v)))"
  using assms(2) port_reads [OF assms(1)] echo_ids [OF assms(1)]
  by (auto simp: ported_def view_protocol_def proto_kind_def source_number_def destination_number_def
      has_ports_def Let_def echo4_def echo6_def)

lemma view_protocol_Inr:
  assumes "view_protocol E port v = Inr q"
  shows "ported E (vw_next v) (vw_payload v)"
  using assms by (auto simp: view_protocol_def ported_def echo4_def echo6_def Let_def split: if_splits option.splits)

section \<open>Writes that keep a payload ported\<close>

lemma ported_overwrite:
  assumes "wire_laws E" "ported E n b"
    and "off + length bs \<le> length b"
    and "n = IP_TCP \<Longrightarrow> 12 < off \<or> off + length bs \<le> 12"
    and "n = IP_UDP \<Longrightarrow> 6 \<le> off \<or> off + length bs \<le> 4"
    and "n = IP_ICMP \<or> n = IPV6_ICMP \<Longrightarrow> 2 \<le> off"
  shows "ported E n (overwrite off bs b)"
proof -
  have p: "parse_laws E" using assms(1) by (simp add: wire_laws_def)
  consider "n = IP_TCP" "ep_tcp_ok E b" | "n = IP_UDP" "ep_udp_ok E b"
    | "n = IP_ICMP" "echo4 E b" | "n = IPV6_ICMP" "echo6 E b"
    using assms(2) by (auto simp: ported_def)
  then show ?thesis
  proof cases
    case 1
    have "20 \<le> length b" using port_reads(5) [OF assms(1)] 1 by simp
    then have "overwrite off bs b ! 12 = b ! 12"
      using assms(3,4) 1 by (subst overwrite_nth) auto
    with p 1 assms(3) have "ep_tcp_ok E (overwrite off bs b)"
      unfolding parse_laws_def by (metis length_overwrite)
    with 1 show ?thesis by (simp add: ported_def)
  next
    case 2
    have l: "8 \<le> length b" using port_reads(6) [OF assms(1)] 2 by simp
    have "(field_at 4 2 (overwrite off bs b) :: u16) = field_at 4 2 b"
    proof (cases "6 \<le> off")
      case True
      with assms(3) show ?thesis by (simp add: field_at_before)
    next
      case False
      with assms(5) 2 have "off + length bs \<le> 4" by simp
      with assms(3) show ?thesis by (simp add: field_at_after)
    qed
    with p 2 assms(3) have "ep_udp_ok E (overwrite off bs b)"
      unfolding parse_laws_def by (metis length_overwrite)
    with 2 show ?thesis by (simp add: ported_def)
  next
    case 3
    have l: "8 \<le> length b" using 3 echo4_iff [OF assms(1)] by simp
    have "overwrite off bs b ! 0 = b ! 0" "overwrite off bs b ! 1 = b ! 1"
      using assms(3,6) 3 l by (subst overwrite_nth; auto)+
    with 3 l assms(1,3) show ?thesis by (auto simp: ported_def echo4_iff)
  next
    case 4
    have l: "8 \<le> length b" using 4 echo6_iff [OF assms(1)] by simp
    have "overwrite off bs b ! 0 = b ! 0" "overwrite off bs b ! 1 = b ! 1"
      using assms(3,6) 4 l by (subst overwrite_nth; auto)+
    with 4 l assms(1,3) show ?thesis by (auto simp: ported_def echo6_iff)
  qed
qed

lemma ported_length: "wire_laws E \<Longrightarrow> ported E n b \<Longrightarrow> 8 \<le> length b"
  using port_reads(5,6) [of E b] by (auto simp: ported_def echo4_iff echo6_iff)

definition source_offset :: "ip_number \<Rightarrow> nat" where
  "source_offset n = (if has_ports n then 0 else 4)"

definition destination_offset :: "ip_number \<Rightarrow> nat" where
  "destination_offset n = (if has_ports n then 2 else 4)"

lemma ported_set_source:
  fixes v :: u16
  assumes "wire_laws E" "ported E n b"
  defines "b' \<equiv> overwrite (source_offset n) (octets2 v) b"
  shows "ported E n b'" "source_number n b' = v"
    "has_ports n \<Longrightarrow> destination_number n b' = destination_number n b" "length b' = length b"
proof -
  have l: "8 \<le> length b" by (rule ported_length [OF assms(1,2)])
  show "ported E n b'" unfolding b'_def using assms(1,2) l
    by (intro ported_overwrite) (auto simp: source_offset_def has_ports_def)
  show "source_number n b' = v" "has_ports n \<Longrightarrow> destination_number n b' = destination_number n b"
    "length b' = length b"
    using l by (auto simp: b'_def source_number_def destination_number_def source_offset_def
        field_at_octets field_at_after)
qed

lemma ported_set_destination:
  fixes v :: u16
  assumes "wire_laws E" "ported E n b"
  defines "b' \<equiv> overwrite (destination_offset n) (octets2 v) b"
  shows "ported E n b'" "destination_number n b' = v"
    "has_ports n \<Longrightarrow> source_number n b' = source_number n b" "length b' = length b"
proof -
  have l: "8 \<le> length b" by (rule ported_length [OF assms(1,2)])
  show "ported E n b'" unfolding b'_def using assms(1,2) l
    by (intro ported_overwrite) (auto simp: destination_offset_def has_ports_def)
  show "destination_number n b' = v" "has_ports n \<Longrightarrow> source_number n b' = source_number n b"
    "length b' = length b"
    using l by (auto simp: b'_def source_number_def destination_number_def destination_offset_def
        field_at_octets field_at_before)
qed

section \<open>Setting ports\<close>

lemma l4_mut_other:
  "wire_laws E \<Longrightarrow> packet_wf p \<Longrightarrow> vw_next (view_of p) \<noteq> n \<Longrightarrow> l4_mut E n parses f p = Done p"
  by (simp add: l4_mut_def packet_reads(3))

lemma l4_mut_write:
  assumes "wire_laws E" "packet_wf p" "vw_next (view_of p) = n" "parses (vw_payload (view_of p))"
    "f (vw_payload (view_of p)) = Done (overwrite off bs (vw_payload (view_of p)))"
    "off + length bs \<le> length (vw_payload (view_of p))"
  obtains p' where "l4_mut E n parses f p = Done p'"
    "edits p p' ((view_of p)\<lparr>vw_payload := overwrite off bs (vw_payload (view_of p))\<rparr>)"
  using l4_mut_view [OF assms(1,2), of n parses f "overwrite off bs (vw_payload (view_of p))"] assms
  by auto

lemmas ports_mut_defs = tcp_mut_def udp_mut_def icmpv4_mut_def icmpv6_mut_def

lemma ported_parses:
  assumes "wire_laws E" "ported E n b"
  shows "n = IP_TCP \<Longrightarrow> ep_tcp_header_ok E b" "n = IP_UDP \<Longrightarrow> ep_udp_header_ok E b"
    "n = IP_ICMP \<Longrightarrow> ep_icmpv4 E b \<noteq> None" "n = IPV6_ICMP \<Longrightarrow> ep_icmpv6 E b \<noteq> None"
    "n = IP_ICMP \<Longrightarrow> b ! 0 = 0 \<or> b ! 0 = 8" "n = IPV6_ICMP \<Longrightarrow> b ! 0 = 129 \<or> b ! 0 = 128"
    "n = IP_TCP \<or> n = IP_UDP \<or> n = IP_ICMP \<or> n = IPV6_ICMP"
proof -
  have "port_laws E" using assms(1) by (simp add: wire_laws_def)
  then show "n = IP_TCP \<Longrightarrow> ep_tcp_header_ok E b" "n = IP_UDP \<Longrightarrow> ep_udp_header_ok E b"
    using assms(2) by (auto simp: port_laws_def ported_def)
  show "n = IP_ICMP \<Longrightarrow> ep_icmpv4 E b \<noteq> None" "n = IPV6_ICMP \<Longrightarrow> ep_icmpv6 E b \<noteq> None"
    using assms(2) by (auto simp: ported_def echo4_def echo6_def)
  show "n = IP_ICMP \<Longrightarrow> b ! 0 = 0 \<or> b ! 0 = 8" "n = IPV6_ICMP \<Longrightarrow> b ! 0 = 129 \<or> b ! 0 = 128"
    using assms(2) by (auto simp: ported_def echo4_iff [OF assms(1)] echo6_iff [OF assms(1)])
  show "n = IP_TCP \<or> n = IP_UDP \<or> n = IP_ICMP \<or> n = IPV6_ICMP"
    using assms(2) by (auto simp: ported_def)
qed

text \<open>
  Both setters run all four writers; only the one of the protocol that the packet carries has an
  effect. \<open>off\<close> is the offset of the port for TCP and UDP.
\<close>

definition set_ports :: "etherparse \<Rightarrow> (bytes \<Rightarrow> bytes outcome) \<Rightarrow> u16 \<Rightarrow> ip_packet \<Rightarrow> ip_packet outcome" where
  "set_ports E f v p =
     and_then (tcp_mut E f p) (\<lambda>p. and_then (udp_mut E f p) (set_icmp_identifier E v))"

lemma set_ports_view:
  assumes E: "wire_laws E" and p: "packet_wf p"
    and ported: "ported E (vw_next (view_of p)) (vw_payload (view_of p))"
    and f: "\<And>b. 8 \<le> length b \<Longrightarrow> f b = Done (overwrite off (octets2 v) b)" and off: "off \<le> 2"
  defines "b \<equiv> vw_payload (view_of p)" and "n \<equiv> vw_next (view_of p)"
  shows "\<exists>p'. set_ports E f v p = Done p' \<and>
     edits p p' ((view_of p)\<lparr>vw_payload := overwrite (if has_ports n then off else 4) (octets2 v) b\<rparr>)"
proof -
  let ?w = "\<lambda>off. (view_of p)\<lparr>vw_payload := overwrite off (octets2 v) b\<rparr>"
  have l: "8 \<le> length b" "b \<noteq> []" using ported_length [OF E ported] by (auto simp: b_def)
  note parses = ported_parses [OF E ported, folded b_def n_def]
  have same: "vw_next (view_of q) = n" "packet_wf q" if "edits p q (?w x)" for q x
    using that by (simp_all add: edits_def n_def)
  consider "n = IP_TCP" | "n = IP_UDP" | "n = IP_ICMP" | "n = IPV6_ICMP" using parses(7) by blast
  then show ?thesis
  proof cases
    case 1
    obtain q where q: "tcp_mut E f p = Done q" "edits p q (?w off)"
      using l4_mut_write [OF E p, of IP_TCP "ep_tcp_header_ok E" f off "octets2 v"] 1 parses f l off
      by (auto simp: tcp_mut_def b_def n_def)
    with 1 same [OF q(2)] E show ?thesis
      by (simp add: set_ports_def set_icmp_identifier_def ports_mut_defs l4_mut_other has_ports_def)
  next
    case 2
    obtain q where q: "udp_mut E f p = Done q" "edits p q (?w off)"
      using l4_mut_write [OF E p, of IP_UDP "ep_udp_header_ok E" f off "octets2 v"] 2 parses f l off
      by (auto simp: udp_mut_def b_def n_def)
    with 2 same [OF q(2)] E p show ?thesis
      by (simp add: set_ports_def set_icmp_identifier_def ports_mut_defs l4_mut_other has_ports_def n_def)
  next
    case 3
    obtain q where q: "icmpv4_mut E (icmpv4_set_identifier v) p = Done q" "edits p q (?w 4)"
      using l4_mut_write [OF E p, of IP_ICMP "\<lambda>b. ep_icmpv4 E b \<noteq> None" "icmpv4_set_identifier v" 4 "octets2 v"] 3 parses l
      by (auto simp: icmpv4_mut_def icmpv4_set_identifier_def b_def n_def)
    with 3 same [OF q(2)] E p show ?thesis
      by (simp add: set_ports_def set_icmp_identifier_def ports_mut_defs l4_mut_other has_ports_def n_def)
  next
    case 4
    obtain q where q: "icmpv6_mut E (icmpv6_set_identifier v) p = Done q" "edits p q (?w 4)"
      using l4_mut_write [OF E p, of IPV6_ICMP "\<lambda>b. ep_icmpv6 E b \<noteq> None" "icmpv6_set_identifier v" 4 "octets2 v"] 4 parses l
      by (auto simp: icmpv6_mut_def icmpv6_set_identifier_def b_def n_def)
    with 4 same [OF q(2)] E p show ?thesis
      by (simp add: set_ports_def set_icmp_identifier_def ports_mut_defs l4_mut_other has_ports_def n_def)
  qed
qed

lemma set_source_protocol_view:
  assumes "wire_laws E" "packet_wf p" "ported E (vw_next (view_of p)) (vw_payload (view_of p))"
  shows "\<exists>p'. set_source_protocol E v p = Done p' \<and> edits p p' ((view_of p)\<lparr>vw_payload :=
     overwrite (source_offset (vw_next (view_of p))) (octets2 v) (vw_payload (view_of p))\<rparr>)"
  using set_ports_view [OF assms, of "set_source_port v" 0 v]
  by (simp add: set_source_protocol_def set_ports_def source_offset_def set_source_port_def)

lemma set_destination_protocol_view:
  assumes "wire_laws E" "packet_wf p" "ported E (vw_next (view_of p)) (vw_payload (view_of p))"
  shows "\<exists>p'. set_destination_protocol E v p = Done p' \<and> edits p p' ((view_of p)\<lparr>vw_payload :=
     overwrite (destination_offset (vw_next (view_of p))) (octets2 v) (vw_payload (view_of p))\<rparr>)"
  using set_ports_view [OF assms, of "set_destination_port v" 2 v]
  by (simp add: set_destination_protocol_def set_ports_def destination_offset_def set_destination_port_def)

end
