(* ===== verification/Packet_Translate.thy ===== *)
theory Packet_Translate
  imports Packet_Ports
begin

text \<open>
  Address and port translation of whole packets: refreshing checksums, the conversions between IPv4
  and IPv6, and the two operations the NAT of the gateway is built from. For a packet with ports the
  operations succeed and change exactly the addresses and the port they are asked to change, whatever
  the two address families are.
\<close>

section \<open>Flows\<close>

text \<open>Two packets of the same flow, as far as ports go: \<open>p'\<close> carries the transport ports of \<open>p\<close>.\<close>

definition same_ports :: "etherparse \<Rightarrow> view \<Rightarrow> view \<Rightarrow> bool" where
  "same_ports E v w \<longleftrightarrow> ported E (vw_next w) (vw_payload w) \<and> proto_kind (vw_next w) = proto_kind (vw_next v) \<and>
     has_ports (vw_next w) = has_ports (vw_next v) \<and>
     source_number (vw_next w) (vw_payload w) = source_number (vw_next v) (vw_payload v) \<and>
     destination_number (vw_next w) (vw_payload w) = destination_number (vw_next v) (vw_payload v)"

definition keeps :: "etherparse \<Rightarrow> ip_packet \<Rightarrow> ip_packet \<Rightarrow> bool" where
  "keeps E p p' \<longleftrightarrow> packet_wf p' \<and> version4 p' = version4 p \<and> vw_src (view_of p') = vw_src (view_of p) \<and>
     vw_dst (view_of p') = vw_dst (view_of p) \<and> same_ports E (view_of p) (view_of p')"

lemma keeps_refl: "packet_wf p \<Longrightarrow> ported E (vw_next (view_of p)) (vw_payload (view_of p)) \<Longrightarrow> keeps E p p"
  by (simp add: keeps_def same_ports_def)

lemma keeps_trans: "keeps E p q \<Longrightarrow> keeps E q r \<Longrightarrow> keeps E p r"
  by (simp add: keeps_def same_ports_def)

lemma keepsD: "keeps E p q \<Longrightarrow> packet_wf q" "keeps E p q \<Longrightarrow> ported E (vw_next (view_of q)) (vw_payload (view_of q))"
  by (simp_all add: keeps_def same_ports_def)

section \<open>Checksums\<close>

lemma payload_bound:
  assumes "packet_wf p" shows "length (vw_payload (view_of p)) < 2 ^ 16"
proof (cases p)
  case (Ipv4 c)
  with assms have "length (raw c) \<le> 1336" by (auto simp: packet_wf_def in_buffer_def raw_def packet_size_defs)
  with Ipv4 show ?thesis by (simp add: view_of_def view4_def)
next
  case (Ipv6 c)
  with assms have "length (raw c) \<le> 1336" by (auto simp: packet_wf_def in_buffer_def raw_def packet_size_defs)
  with Ipv6 show ?thesis by (simp add: view_of_def view6_def)
qed

text \<open>The fields that a checksum write must not touch.\<close>

lemma keeps_write:
  assumes "wire_laws E" "packet_wf p" "ported E (vw_next (view_of p)) (vw_payload (view_of p))"
    and "edits p p' ((view_of p)\<lparr>vw_payload := overwrite off (octets2 s) (vw_payload (view_of p))\<rparr>)"
    and "off + 2 \<le> length (vw_payload (view_of p))"
    and "vw_next (view_of p) = IP_TCP \<and> off = 16 \<or> vw_next (view_of p) = IP_UDP \<and> off = 6
         \<or> vw_next (view_of p) \<in> {IP_ICMP, IPV6_ICMP} \<and> off = 2"
  shows "keeps E p p'"
proof -
  let ?n = "vw_next (view_of p)" let ?b = "vw_payload (view_of p)" let ?b' = "overwrite off (octets2 s) ?b"
  have "ported E ?n ?b'" using assms by (intro ported_overwrite) auto
  moreover have "source_number ?n ?b' = source_number ?n ?b \<and> destination_number ?n ?b' = destination_number ?n ?b"
    using assms(5,6) by (auto simp: source_number_def destination_number_def has_ports_def field_at_before field_at_after)
  ultimately show ?thesis using assms(4) by (simp add: keeps_def edits_def same_ports_def)
qed

lemma l4_checksum_ok:
  assumes E: "wire_laws E" and p: "packet_wf p"
    and sums: "\<And>h. calc4 h b \<noteq> None" "\<And>h. calc6 h b \<noteq> None"
  shows "\<exists>s. l4_checksum E calc4 calc6 b p = Done s"
proof (cases p)
  case (Ipv4 c)
  have "ip_header E c = Done (raw c)" using p Ipv4 valid4_header(1) [OF E]
    by (auto simp: ip_header_def packet_wf_def packet_slice_raw)
  with sums(1) [of "raw c"] Ipv4 show ?thesis by (auto simp: l4_checksum_def)
next
  case (Ipv6 c)
  have "ipv6_header_slice E c = Done (raw c)" using p Ipv6 valid6_header(1) [OF E]
    by (auto simp: ipv6_header_slice_def packet_wf_def packet_slice_raw)
  with sums(2) [of "raw c"] Ipv6 show ?thesis by (auto simp: l4_checksum_def)
qed

lemma set_udp_checksum_keeps:
  assumes E: "wire_laws E" and p: "packet_wf p" and q: "ported E (vw_next (view_of p)) (vw_payload (view_of p))"
  shows "\<exists>p'. set_udp_checksum E p = Done p' \<and> keeps E p p'"
proof (cases "vw_next (view_of p) = IP_UDP")
  case True
  let ?b = "vw_payload (view_of p)"
  have ok: "ep_udp_ok E ?b" "ep_udp_header_ok E ?b" "8 \<le> length ?b"
    using q True ported_parses(2) [OF E q] port_reads(6) [OF E] by (auto simp: ported_def)
  have "port_laws E" using E by (simp add: wire_laws_def)
  then obtain s where s: "l4_checksum E (ep_udp_checksum4 E) (ep_udp_checksum6 E) ?b p = Done s"
    using payload_bound [OF p] l4_checksum_ok [OF E p, of "ep_udp_checksum4 E" ?b "ep_udp_checksum6 E"]
    by (auto simp: port_laws_def)
  obtain p' where p': "udp_mut E (write_to_offset_unchecked 6 (octets2 s)) p = Done p'"
      "edits p p' ((view_of p)\<lparr>vw_payload := overwrite 6 (octets2 s) ?b\<rparr>)"
    using l4_mut_write [OF E p True, of "ep_udp_header_ok E" "write_to_offset_unchecked 6 (octets2 s)" 6 "octets2 s"] ok
    by (auto simp: udp_mut_def)
  have "keeps E p p'" using keeps_write [OF E p q p'(2)] ok True by simp
  with p'(1) s ok True show ?thesis
    by (simp add: set_udp_checksum_def as_udp_def as_l4_view [OF E p])
next
  case False
  with keeps_refl [OF p q] show ?thesis by (simp add: set_udp_checksum_def as_udp_def as_l4_view [OF E p])
qed

lemma set_tcp_checksum_keeps:
  assumes E: "wire_laws E" and p: "packet_wf p" and q: "ported E (vw_next (view_of p)) (vw_payload (view_of p))"
  shows "\<exists>p'. set_tcp_checksum E p = Done p' \<and> keeps E p p'"
proof (cases "vw_next (view_of p) = IP_TCP")
  case True
  let ?b = "vw_payload (view_of p)"
  have ok: "ep_tcp_ok E ?b" "ep_tcp_header_ok E ?b" "20 \<le> length ?b"
    using q True ported_parses(1) [OF E q] port_reads(5) [OF E] by (auto simp: ported_def)
  have "port_laws E" using E by (simp add: wire_laws_def)
  then obtain s where s: "l4_checksum E (ep_tcp_checksum4 E) (ep_tcp_checksum6 E) ?b p = Done s"
    using payload_bound [OF p] l4_checksum_ok [OF E p, of "ep_tcp_checksum4 E" ?b "ep_tcp_checksum6 E"]
    by (auto simp: port_laws_def)
  obtain p' where p': "tcp_mut E (write_to_offset_unchecked 16 (octets2 s)) p = Done p'"
      "edits p p' ((view_of p)\<lparr>vw_payload := overwrite 16 (octets2 s) ?b\<rparr>)"
    using l4_mut_write [OF E p True, of "ep_tcp_header_ok E" "write_to_offset_unchecked 16 (octets2 s)" 16 "octets2 s"] ok
    by (auto simp: tcp_mut_def)
  have "keeps E p p'" using keeps_write [OF E p q p'(2)] ok True by simp
  with p'(1) s ok True show ?thesis
    by (simp add: set_tcp_checksum_def as_tcp_def as_l4_view [OF E p])
next
  case False
  with keeps_refl [OF p q] show ?thesis by (simp add: set_tcp_checksum_def as_tcp_def as_l4_view [OF E p])
qed

lemma set_icmpv4_checksum_keeps:
  assumes E: "wire_laws E" and p: "packet_wf p" and q: "ported E (vw_next (view_of p)) (vw_payload (view_of p))"
  shows "\<exists>p'. set_icmpv4_checksum E p = Done p' \<and> keeps E p p'"
proof (cases "vw_next (view_of p) = IP_ICMP")
  case True
  let ?b = "vw_payload (view_of p)"
  obtain t where t: "ep_icmpv4 E ?b = Some t" using q True ported_parses(3) [OF E q] by auto
  have l: "8 \<le> length ?b" by (rule ported_length [OF E q])
  let ?s = "ep_icmpv4_checksum E t (ep_icmpv4_payload E ?b)"
  obtain p' where p': "icmpv4_mut E (write_to_offset_unchecked 2 (octets2 ?s)) p = Done p'"
      "edits p p' ((view_of p)\<lparr>vw_payload := overwrite 2 (octets2 ?s) ?b\<rparr>)"
    using l4_mut_write [OF E p True, of "\<lambda>b. ep_icmpv4 E b \<noteq> None" "write_to_offset_unchecked 2 (octets2 ?s)" 2 "octets2 ?s"] t l
    by (auto simp: icmpv4_mut_def)
  have "keeps E p p'" using keeps_write [OF E p q p'(2)] l True by simp
  with p'(1) t True show ?thesis
    by (simp add: set_icmpv4_checksum_def as_icmpv4_def as_l4_view [OF E p])
next
  case False
  with keeps_refl [OF p q] show ?thesis by (simp add: set_icmpv4_checksum_def as_icmpv4_def as_l4_view [OF E p])
qed

lemma set_icmpv6_checksum_keeps:
  assumes E: "wire_laws E" and p: "packet_wf p" and q: "ported E (vw_next (view_of p)) (vw_payload (view_of p))"
  shows "\<exists>p'. set_icmpv6_checksum E p = Done p' \<and> keeps E p p'"
proof (cases "vw_next (view_of p) = IPV6_ICMP \<and> \<not> version4 p")
  case True
  let ?b = "vw_payload (view_of p)"
  have n: "vw_next (view_of p) = IPV6_ICMP" using True by simp
  obtain c where c: "p = Ipv6 c" using True by (cases p) (auto simp: version4_def)
  have h: "ipv6_header_slice E c = Done (raw c)" using p c valid6_header(1) [OF E]
    by (auto simp: ipv6_header_slice_def packet_wf_def packet_slice_raw)
  obtain t where t: "ep_icmpv6 E ?b = Some t" using q n ported_parses(4) [OF E q] by auto
  have l: "8 \<le> length ?b" by (rule ported_length [OF E q])
  have i: "icmp_laws E" using E by (simp add: wire_laws_def)
  then have "length (ep_icmpv6_payload E ?b) < 2 ^ 16"
    using payload_bound [OF p] unfolding icmp_laws_def by (meson le_less_trans)
  with i have "ep_icmpv6_checksum E t (ep_ipv6_source E (raw c)) (ep_ipv6_destination E (raw c)) (ep_icmpv6_payload E ?b) \<noteq> None"
    unfolding icmp_laws_def by blast
  then obtain s where s: "ep_icmpv6_checksum E t (ep_ipv6_source E (raw c)) (ep_ipv6_destination E (raw c)) (ep_icmpv6_payload E ?b) = Some s"
    by auto
  obtain p' where p': "icmpv6_mut E (write_to_offset_unchecked 2 (octets2 s)) p = Done p'"
      "edits p p' ((view_of p)\<lparr>vw_payload := overwrite 2 (octets2 s) ?b\<rparr>)"
    using l4_mut_write [OF E p n, of "\<lambda>b. ep_icmpv6 E b \<noteq> None" "write_to_offset_unchecked 2 (octets2 s)" 2 "octets2 s"] t l
    by (auto simp: icmpv6_mut_def)
  have "keeps E p p'" using keeps_write [OF E p q p'(2)] l n by simp
  with p'(1) t n h s c show ?thesis
    by (simp add: set_icmpv6_checksum_def as_icmpv6_def as_l4_view [OF E p [unfolded c]])
next
  case False
  then have "set_icmpv6_checksum E p = Done p"
    unfolding set_icmpv6_checksum_def as_icmpv6_def as_l4_view [OF E p]
    by (cases p) (auto simp: version4_def split: option.splits)
  with keeps_refl [OF p q] show ?thesis by simp
qed

lemma set_ipv4_checksum_keeps:
  assumes E: "wire_laws E" and p: "packet_wf p" and q: "ported E (vw_next (view_of p)) (vw_payload (view_of p))"
  shows "\<exists>p'. set_ipv4_checksum E p = Done p' \<and> keeps E p p'"
proof (cases p)
  case (Ipv4 c)
  have v: "valid4 (raw c)" "in_buffer c" using p Ipv4 by (auto simp: packet_wf_def)
  have h: "ip_header E c = Done (raw c)" using v valid4_header(1) [OF E]
    by (auto simp: ip_header_def packet_slice_raw)
  let ?s = "octets2 (ep_ipv4_checksum E (raw c))" let ?b = "overwrite 10 ?s (raw c)"
  obtain c' where c': "ip_header_mut E (write_to_offset_unchecked 10 ?s) c = Done c'" "packet_wf (Ipv4 c')" "raw c' = ?b"
    using header_write4 [OF E, of c 10 ?s] p Ipv4 by auto
  have l: "20 \<le> length (raw c)" "20 \<le> ihl4 (raw c)" using v(1) by (auto simp: valid4_def)
  have i: "ihl4 ?b = ihl4 (raw c)" "total4 ?b = total4 (raw c)"
    using valid4_overwrite(2,3) [OF v(1), of 10 ?s] l by simp_all
  have "?b ! 9 = raw c ! 9" using l by (subst overwrite_nth) auto
  then have "view4 ?b = view4 (raw c)"
    using l i by (simp add: view4_def field_at_after overwrite_after)
  with c' h p q Ipv4 show ?thesis
    by (simp add: set_ipv4_checksum_def keeps_def version4_def view_of_def same_ports_def)
next
  case (Ipv6 c)
  with keeps_refl [OF p q] show ?thesis by (simp add: set_ipv4_checksum_def)
qed

lemma update_checksum_keeps:
  assumes E: "wire_laws E" and p: "packet_wf p" "ported E (vw_next (view_of p)) (vw_payload (view_of p))"
  shows "\<exists>p'. update_checksum E p = Done p' \<and> keeps E p p'"
proof -
  obtain p1 where 1: "set_icmpv6_checksum E p = Done p1" "keeps E p p1"
    using set_icmpv6_checksum_keeps [OF E p] by blast
  obtain p2 where 2: "set_icmpv4_checksum E p1 = Done p2" "keeps E p1 p2"
    using set_icmpv4_checksum_keeps [OF E keepsD [OF 1(2)]] by blast
  obtain p3 where 3: "set_udp_checksum E p2 = Done p3" "keeps E p2 p3"
    using set_udp_checksum_keeps [OF E keepsD [OF 2(2)]] by blast
  obtain p4 where 4: "set_tcp_checksum E p3 = Done p4" "keeps E p3 p4"
    using set_tcp_checksum_keeps [OF E keepsD [OF 3(2)]] by blast
  obtain p5 where 5: "set_ipv4_checksum E p4 = Done p5" "keeps E p4 p5"
    using set_ipv4_checksum_keeps [OF E keepsD [OF 4(2)]] by blast
  have "keeps E p p5"
    using 1(2) 2(2) 3(2) 4(2) 5(2) keeps_trans by blast
  with 1(1) 2(1) 3(1) 4(1) 5(1) show ?thesis by (simp add: update_checksum_def)
qed

end
