(* ===== verification/Packet_Nat.thy ===== *)
theory Packet_Nat
  imports Packet_Translate
begin

text \<open>
  NAT46 and NAT64 on whole packets, and the two translations of \<^verbatim>\<open>IpPacket\<close> that the gateway calls.
  A packet with ports is always translated, its ports survive the change of the address family, and the
  result is a well-formed packet with the requested addresses.
\<close>

section \<open>Headers in front of a payload\<close>

lemma field_at_append: "off + n \<le> length h \<Longrightarrow> field_at off n (h @ r) = field_at off n h"
  by (simp add: field_at_def)

text \<open>ICMP echo headers of the other version over an echo payload.\<close>

lemma echo_translate:
  fixes i s :: u16
  assumes "8 \<le> length b"
  defines "m \<equiv> \<lambda>ty. overwrite 0 ([ty, 0, 0, 0] @ octets2 i @ octets2 s) b"
  shows "length (m ty) = length b" "m ty ! 0 = ty" "m ty ! 1 = 0" "field_at 4 2 (m ty) = i"
proof -
  let ?h = "[ty, 0, 0, 0] @ octets2 i @ octets2 s"
  have l: "length ?h = 8" by simp
  have e: "m ty = ?h @ drop 8 b" by (simp add: m_def overwrite_def)
  show "length (m ty) = length b" using assms(1) e by simp
  show "m ty ! 0 = ty" "m ty ! 1 = 0" by (simp_all add: e)
  have "field_at 4 2 (m ty) = field_at 4 2 ?h" unfolding e by (rule field_at_append) simp
  also have "\<dots> = (be_word (octets2 i) :: u16)" by (simp add: field_at_def numeral_2_eq_2)
  finally show "field_at 4 2 (m ty) = i" by simp
qed

text \<open>The payload after the ICMP header has been translated; other payloads stay.\<close>

definition payload46 :: "etherparse \<Rightarrow> ip_number \<Rightarrow> bytes \<Rightarrow> bytes" where
  "payload46 E n b =
     (if n = IP_ICMP then
        (case ep_icmpv4 E b of
           Some (EchoRequest4 i s) \<Rightarrow> overwrite 0 (ep_icmpv6_bytes E (EchoRequest6 i s)) b
         | Some (EchoReply4 i s) \<Rightarrow> overwrite 0 (ep_icmpv6_bytes E (EchoReply6 i s)) b
         | _ \<Rightarrow> b)
      else b)"

definition payload64 :: "etherparse \<Rightarrow> ip_number \<Rightarrow> bytes \<Rightarrow> bytes" where
  "payload64 E n b =
     (if n = IPV6_ICMP then
        (case ep_icmpv6 E b of
           Some (EchoRequest6 i s) \<Rightarrow> overwrite 0 (ep_icmpv4_bytes E (EchoRequest4 i s)) b
         | Some (EchoReply6 i s) \<Rightarrow> overwrite 0 (ep_icmpv4_bytes E (EchoReply4 i s)) b
         | _ \<Rightarrow> b)
      else b)"

definition next46 :: "ip_number \<Rightarrow> ip_number" where
  "next46 n = (if n = IP_ICMP then IPV6_ICMP else n)"

definition next64 :: "ip_number \<Rightarrow> ip_number" where
  "next64 n = (if n = IPV6_ICMP then IP_ICMP else n)"

lemma echo_cases:
  assumes E: "wire_laws E"
  shows "echo4 E b \<Longrightarrow> \<exists>i s. (ep_icmpv4 E b = Some (EchoRequest4 i s) \<or> ep_icmpv4 E b = Some (EchoReply4 i s)) \<and> i = field_at 4 2 b"
    and "echo6 E b \<Longrightarrow> \<exists>i s. (ep_icmpv6 E b = Some (EchoRequest6 i s) \<or> ep_icmpv6 E b = Some (EchoReply6 i s)) \<and> i = field_at 4 2 b"
proof -
  assume "echo4 E b"
  then obtain t where t: "ep_icmpv4 E b = Some t" "icmpv4_echo_id t \<noteq> None" by (auto simp: echo4_def)
  then show "\<exists>i s. (ep_icmpv4 E b = Some (EchoRequest4 i s) \<or> ep_icmpv4 E b = Some (EchoReply4 i s)) \<and> i = field_at 4 2 b"
    using echo_ids(1) [OF E t(1)] by (cases t) auto
next
  assume "echo6 E b"
  then obtain t where t: "ep_icmpv6 E b = Some t" "icmpv6_echo_id t \<noteq> None" by (auto simp: echo6_def)
  then show "\<exists>i s. (ep_icmpv6 E b = Some (EchoRequest6 i s) \<or> ep_icmpv6 E b = Some (EchoReply6 i s)) \<and> i = field_at 4 2 b"
    using echo_ids(2) [OF E t(1)] by (cases t) auto
qed

lemma echo_bytes:
  assumes "wire_laws E"
  shows "ep_icmpv4_bytes E (EchoRequest4 i s) = [8, 0, 0, 0] @ octets2 i @ octets2 s"
    "ep_icmpv4_bytes E (EchoReply4 i s) = [0, 0, 0, 0] @ octets2 i @ octets2 s"
    "ep_icmpv6_bytes E (EchoRequest6 i s) = [128, 0, 0, 0] @ octets2 i @ octets2 s"
    "ep_icmpv6_bytes E (EchoReply6 i s) = [129, 0, 0, 0] @ octets2 i @ octets2 s"
  using assms unfolding wire_laws_def translation_laws_def by blast+

lemma same_ports_46:
  assumes E: "wire_laws E" and q: "ported E (vw_next v) (vw_payload v)"
    and w: "vw_next w = next46 (vw_next v)" "vw_payload w = payload46 E (vw_next v) (vw_payload v)"
  shows "same_ports E v w" "length (payload46 E (vw_next v) (vw_payload v)) = length (vw_payload v)"
proof -
  have "same_ports E v w \<and> length (payload46 E (vw_next v) (vw_payload v)) = length (vw_payload v)"
  proof (cases "vw_next v = IP_ICMP")
    case True
    with q have e: "echo4 E (vw_payload v)" by (simp add: ported_def)
    then have l: "8 \<le> length (vw_payload v)" by (simp add: echo4_iff [OF E])
    from echo_cases(1) [OF E e] obtain i s where
      "ep_icmpv4 E (vw_payload v) = Some (EchoRequest4 i s) \<or> ep_icmpv4 E (vw_payload v) = Some (EchoReply4 i s)"
      "i = field_at 4 2 (vw_payload v)" by blast
    with True w l echo_translate [OF l, of _ i s] show ?thesis
      by (auto simp: same_ports_def ported_def echo6_iff [OF E] next46_def payload46_def echo_bytes [OF E]
          proto_kind_def has_ports_def source_number_def destination_number_def)
  next
    case False
    with q w show ?thesis by (simp add: same_ports_def next46_def payload46_def)
  qed
  then show "same_ports E v w" "length (payload46 E (vw_next v) (vw_payload v)) = length (vw_payload v)"
    by simp_all
qed

lemma same_ports_64:
  assumes E: "wire_laws E" and q: "ported E (vw_next v) (vw_payload v)"
    and w: "vw_next w = next64 (vw_next v)" "vw_payload w = payload64 E (vw_next v) (vw_payload v)"
  shows "same_ports E v w" "length (payload64 E (vw_next v) (vw_payload v)) = length (vw_payload v)"
proof -
  have "same_ports E v w \<and> length (payload64 E (vw_next v) (vw_payload v)) = length (vw_payload v)"
  proof (cases "vw_next v = IPV6_ICMP")
    case True
    with q have e: "echo6 E (vw_payload v)" by (simp add: ported_def)
    then have l: "8 \<le> length (vw_payload v)" by (simp add: echo6_iff [OF E])
    from echo_cases(2) [OF E e] obtain i s where
      "ep_icmpv6 E (vw_payload v) = Some (EchoRequest6 i s) \<or> ep_icmpv6 E (vw_payload v) = Some (EchoReply6 i s)"
      "i = field_at 4 2 (vw_payload v)" by blast
    with True w l echo_translate [OF l, of _ i s] show ?thesis
      by (auto simp: same_ports_def ported_def echo4_iff [OF E] next64_def payload64_def echo_bytes [OF E]
          proto_kind_def has_ports_def source_number_def destination_number_def)
  next
    case False
    with q w show ?thesis by (simp add: same_ports_def next64_def payload64_def)
  qed
  then show "same_ports E v w" "length (payload64 E (vw_next v) (vw_payload v)) = length (vw_payload v)"
    by simp_all
qed

section \<open>NAT46\<close>

lemma overwrite_payload:
  assumes "a + length b \<le> length x" "n = length b" "take n (drop a x) = b" "length h \<le> length b"
  shows "take n (drop a (overwrite a h x)) = overwrite 0 h b" "drop (a + n) (overwrite a h x) = drop (a + n) x"
proof -
  have "drop a x = b @ drop n (drop a x)" using assms(3) append_take_drop_id [of n "drop a x"] by simp
  then have "drop (a + length h) x = drop (length h) (b @ drop n (drop a x))"
    by (metis add.commute drop_drop)
  then have "take (n - length h) (drop (a + length h) x) = drop (length h) b"
    using assms(2,4) by simp
  then show "take n (drop a (overwrite a h x)) = overwrite 0 h b"
    using assms by (simp add: overwrite_def)
  show "drop (a + n) (overwrite a h x) = drop (a + n) x"
    using assms by (intro overwrite_after) simp_all
qed

lemma drop_overwrite: "k \<le> off \<Longrightarrow> off \<le> length x \<Longrightarrow> drop k (overwrite off h x) = overwrite (off - k) h (drop k x)"
  by (simp add: overwrite_def drop_take)

lemma cursor_write_ok: "off + length bs \<le> length buf \<Longrightarrow> cursor_write off bs buf = succeed (overwrite off bs buf)"
  by (simp add: cursor_write_def)

lemma echo_headers:
  assumes "wire_laws E"
  shows "ep_icmpv4 E b = Some t \<Longrightarrow> icmpv4_echo_id t = Some i \<Longrightarrow> ep_icmpv4_header E b = Some t"
    and "ep_icmpv6 E b = Some u \<Longrightarrow> icmpv6_echo_id u = Some i \<Longrightarrow> ep_icmpv6_header E b = Some u"
  using assms unfolding wire_laws_def translation_laws_def by blast+

lemma headers_of:
  assumes "wire_laws E"
  shows "ep_ipv4_header_ok E b \<Longrightarrow> ihl4 b \<le> total4 b \<Longrightarrow> total4 b \<le> length b \<Longrightarrow> b ! 9 \<in> {IP_ICMP, IP_TCP, IP_UDP, IPV6_ICMP}
      \<Longrightarrow> \<exists>h. ep_ipv4_headers E b = Some (h, take (total4 b - ihl4 b) (drop (ihl4 b) b)) \<and>
             h4_header_len h = ihl4 b \<and> h4_total_len h = field_at 2 2 b \<and> h4_protocol h = b ! 9"
    and "ep_ipv6_header_ok E b \<Longrightarrow> 40 + plen6 b \<le> length b \<Longrightarrow> b ! 6 \<in> {IP_ICMP, IP_TCP, IP_UDP, IPV6_ICMP}
      \<Longrightarrow> \<exists>h. ep_ipv6_headers E b = Some (h, take (plen6 b) (drop 40 b)) \<and>
             h6_payload_length h = field_at 4 2 b \<and> h6_next_header h = b ! 6"
proof -
  have t: "translation_laws E" using assms by (simp add: wire_laws_def)
  note l = t [unfolded translation_laws_def]
  show "ep_ipv4_header_ok E b \<Longrightarrow> ihl4 b \<le> total4 b \<Longrightarrow> total4 b \<le> length b \<Longrightarrow> b ! 9 \<in> {IP_ICMP, IP_TCP, IP_UDP, IPV6_ICMP}
      \<Longrightarrow> \<exists>h. ep_ipv4_headers E b = Some (h, take (total4 b - ihl4 b) (drop (ihl4 b) b)) \<and>
             h4_header_len h = ihl4 b \<and> h4_total_len h = field_at 2 2 b \<and> h4_protocol h = b ! 9"
    by (rule l [THEN conjunct1, rule_format, of b]) simp
  show "ep_ipv6_header_ok E b \<Longrightarrow> 40 + plen6 b \<le> length b \<Longrightarrow> b ! 6 \<in> {IP_ICMP, IP_TCP, IP_UDP, IPV6_ICMP}
      \<Longrightarrow> \<exists>h. ep_ipv6_headers E b = Some (h, take (plen6 b) (drop 40 b)) \<and>
             h6_payload_length h = field_at 4 2 b \<and> h6_next_header h = b ! 6"
    by (rule l [THEN conjunct2, THEN conjunct1, rule_format, of b]) simp
qed

text \<open>The translation of the ICMP header, which happens in place before the IP header is replaced.\<close>

definition icmp46 :: "etherparse \<Rightarrow> ipv4_header \<Rightarrow> nat \<Rightarrow> bytes \<Rightarrow> bytes \<Rightarrow> (nat_error, bytes) fallible" where
  "icmp46 E h start payload buf =
     (if h4_protocol h = IP_ICMP then
        try_then (ok_or ParseFailed (ep_icmpv4_header E payload)) (\<lambda>t.
        try_then (ok_or ImpossibleTranslation (translate_icmpv4_header E (h4_total_len h) t)) (\<lambda>t'.
        and_then (assert_that (length (ep_icmpv4_bytes E t) = length (ep_icmpv6_bytes E t'))) (\<lambda>_.
        cursor_write start (ep_icmpv6_bytes E t') buf)))
      else succeed buf)"

lemma icmp46_ok:
  assumes E: "wire_laws E" and q: "ported E (h4_protocol h) b" and b: "take (length b) (drop a x) = b" "a + length b \<le> length x"
  shows "\<exists>x'. icmp46 E h a b x = succeed x' \<and> length x' = length x \<and> take a x' = take a x \<and>
     take (length b) (drop a x') = payload46 E (h4_protocol h) b"
proof (cases "h4_protocol h = IP_ICMP")
  case True
  with q have e: "echo4 E b" by (simp add: ported_def)
  then have l: "8 \<le> length b" by (simp add: echo4_iff [OF E])
  from echo_cases(1) [OF E e] obtain i s where
    c: "ep_icmpv4 E b = Some (EchoRequest4 i s) \<or> ep_icmpv4 E b = Some (EchoReply4 i s)" by blast
  then obtain t t' where t: "ep_icmpv4 E b = Some t" "ep_icmpv4_header E b = Some t"
      "translate_icmpv4_header E (h4_total_len h) t = Some t'"
      "length (ep_icmpv4_bytes E t) = 8" "length (ep_icmpv6_bytes E t') = 8"
      "payload46 E IP_ICMP b = overwrite 0 (ep_icmpv6_bytes E t') b"
    using echo_headers(1) [OF E, of b]
    by (auto simp: translate_icmpv4_header_def echo_bytes [OF E] payload46_def)
  let ?x = "overwrite a (ep_icmpv6_bytes E t') x"
  have "icmp46 E h a b x = succeed ?x"
    using True t l b by (simp add: icmp46_def cursor_write_ok)
  moreover have "take (length b) (drop a ?x) = overwrite 0 (ep_icmpv6_bytes E t') b"
    using overwrite_payload(1) [OF b(2) _ b(1), of "ep_icmpv6_bytes E t'"] t l by simp
  moreover have "length ?x = length x" "take a ?x = take a x" using t l b by (simp_all add: overwrite_def)
  ultimately show ?thesis using True t(6) by simp
next
  case False
  with b show ?thesis by (simp add: icmp46_def payload46_def)
qed

lemma nat46_unfold:
  "nat46_translate_in_place E buf src dst =
     and_then (slice NAT46_OVERHEAD (length buf) buf) (\<lambda>ipv4_packet.
     try_then (ok_or ParseFailed (ep_ipv4_headers E ipv4_packet)) (\<lambda>(h, payload).
     let start_of_ip_payload = 20 + h4_header_len h in
     and_then (nat46_header h src dst) (\<lambda>h6.
     try_then (icmp46 E h start_of_ip_payload payload buf) (\<lambda>buf.
     and_then (assert_that (40 \<le> start_of_ip_payload)) (\<lambda>_.
     try_then (cursor_write (start_of_ip_payload - 40) (ep_ipv6_bytes E h6) buf) (\<lambda>buf.
     succeed (buf, start_of_ip_payload - 40)))))))"
  unfolding nat46_translate_in_place_def icmp46_def ..

lemma nat46_in_place:
  assumes E: "wire_laws E" and r: "valid4 r" "length x = 20 + length r" "drop 20 x = r"
    and q: "ported E (r ! 9) (vw_payload (view4 r))"
  shows "\<exists>x' y. nat46_translate_in_place E x s d = succeed (x', ihl4 r - 20) \<and> length x' = length x \<and>
     drop (ihl4 r - 20) x' = y \<and> valid6 y \<and> length y + ihl4 r = 40 + length r \<and>
     view6 y = \<lparr>vw_src = V6 s, vw_dst = V6 d, vw_next = next46 (r ! 9),
               vw_payload = payload46 E (r ! 9) (vw_payload (view4 r))\<rparr>"
proof -
  let ?hl = "ihl4 r" let ?n = "total4 r - ?hl" let ?b = "vw_payload (view4 r)"
  have "unat (field_at 2 2 r :: u16) < 2 ^ LENGTH(16)" by (rule unsigned_less)
  then have v: "20 \<le> length r" "20 \<le> ?hl" "?hl \<le> total4 r" "total4 r \<le> length r" "total4 r < 2 ^ 16"
    using r(1) by (auto simp: valid4_def total4_def)
  have b: "?b = take ?n (drop ?hl r)" "length ?b = ?n" using v by (simp_all add: view4_def)
  have "ep_ipv4_header_ok E r" by (rule valid4_header(1) [OF E r(1)])
  moreover have "r ! 9 \<in> {IP_ICMP, IP_TCP, IP_UDP, IPV6_ICMP}" using ported_parses(7) [OF E q] by blast
  ultimately obtain h where h: "ep_ipv4_headers E r = Some (h, ?b)" "h4_header_len h = ?hl"
      "h4_total_len h = field_at 2 2 r" "h4_protocol h = r ! 9"
    using headers_of(1) [OF E] v b(1) by metis
  have tl: "unat (h4_total_len h) = total4 r" using h(3) by (simp add: total4_def)
  obtain h6 where h6: "nat46_header h s d = Done h6" "h6_payload_length h6 = of_nat ?n"
      "h6_next_header h6 = next46 (r ! 9)" "h6_source h6 = s" "h6_destination h6 = d"
    using h tl v by (simp add: nat46_header_def next46_def)
  let ?h6 = "ep_ipv6_bytes E h6"
  have bytes: "length ?h6 = 40" "drop_bit 4 (?h6 ! 0) = 6" "field_at 4 2 ?h6 = h6_payload_length h6"
    "?h6 ! 6 = h6_next_header h6" "field_at 8 16 ?h6 = s" "field_at 24 16 ?h6 = d"
    using E h6 unfolding wire_laws_def translation_laws_def by blast+
  have x: "take (length ?b) (drop (20 + ?hl) x) = ?b" "20 + ?hl + length ?b \<le> length x"
    using r(2) v b drop_drop [of ?hl 20 x] by (simp_all add: r(3) add.commute)
  obtain x1 where x1: "icmp46 E h (20 + ?hl) ?b x = succeed x1" "length x1 = length x"
      "take (20 + ?hl) x1 = take (20 + ?hl) x" "take (length ?b) (drop (20 + ?hl) x1) = payload46 E (r ! 9) ?b"
    using icmp46_ok [OF E _ x, of h] q h(4) by auto
  let ?x = "overwrite (?hl - 20) ?h6 x1" let ?y = "?h6 @ drop (20 + ?hl) x1"
  have run: "nat46_translate_in_place E x s d = succeed (?x, ?hl - 20)"
    using r h h6(1) x1(1,2) bytes(1) v
    by (simp add: nat46_unfold NAT46_OVERHEAD_def cursor_write_ok)
  have y: "drop (?hl - 20) ?x = ?y" using v x1(2) bytes(1) r(2) by (simp add: overwrite_def)
  have p: "plen6 ?y = ?n"
    using bytes(1,3) h6(2) v by (simp add: plen6_def field_at_append unsigned_of_nat take_bit_nat_eq_self del: of_nat_diff)
  have "valid6 ?y" using bytes(1,2) p v x1(2) r(2) by (simp add: valid6_def nth_append) arith
  moreover have "view6 ?y = \<lparr>vw_src = V6 s, vw_dst = V6 d, vw_next = next46 (r ! 9), vw_payload = payload46 E (r ! 9) ?b\<rparr>"
    using bytes h6(3) p x1(4) b(2) by (simp add: view6_def field_at_append nth_append)
  moreover have "length ?y + ?hl = 40 + length r" using bytes(1) x1(2) r(2) v by simp
  moreover have "length ?x = length x" using bytes(1) x1(2) r(2) v by simp
  ultimately show ?thesis using run y by blast
qed

lemma consume_to_ipv6_view:
  assumes E: "wire_laws E" and p: "packet_wf (Ipv4 c)"
    and q: "ported E (vw_next (view_of (Ipv4 c))) (vw_payload (view_of (Ipv4 c)))"
  shows "\<exists>c'. consume_to_ipv6 E c s d = succeed c' \<and> packet_wf (Ipv6 c') \<and>
     view_of (Ipv6 c') = \<lparr>vw_src = V6 s, vw_dst = V6 d, vw_next = next46 (vw_next (view_of (Ipv4 c))),
        vw_payload = payload46 E (vw_next (view_of (Ipv4 c))) (vw_payload (view_of (Ipv4 c)))\<rparr>"
proof -
  let ?r = "raw c" let ?pad = "cp_start c - 20" let ?hl = "ihl4 ?r"
  let ?x = "take (cp_len c + 20) (drop ?pad (cp_buf c))"
  have c: "20 \<le> cp_start c" "cp_start c + cp_len c \<le> length (cp_buf c)" "length (cp_buf c) = MAX_FZ_PAYLOAD"
    "valid4 ?r" "length ?r = cp_len c"
    using p length_raw [of c] by (auto simp: packet_wf_def in_buffer_def NAT46_OVERHEAD_def)
  have v: "20 \<le> ?hl" "?hl \<le> cp_len c" using c(4,5) by (auto simp: valid4_def)
  have x: "length ?x = 20 + length ?r" "drop 20 ?x = ?r"
    using c by (simp_all add: raw_def drop_take)
  have q': "ported E (?r ! 9) (vw_payload (view4 ?r))" using q by (simp add: view_of_def view4_def)
  from nat46_in_place [OF E c(4) x q', of s d] obtain x' y where
    n: "nat46_translate_in_place E ?x s d = succeed (x', ?hl - 20)" "length x' = length ?x" "drop (?hl - 20) x' = y"
       "valid6 y" "length y + ?hl = 40 + length ?r"
       "view6 y = \<lparr>vw_src = V6 s, vw_dst = V6 d, vw_next = next46 (?r ! 9), vw_payload = payload46 E (?r ! 9) (vw_payload (view4 ?r))\<rparr>"
    by blast
  let ?c = "\<lparr>cp_buf = overwrite ?pad x' (cp_buf c), cp_start = ?pad + (?hl - 20), cp_len = 40 + cp_len c - ?hl\<rparr>"
  have len: "nat (int (cp_len c) + (int NAT46_OVERHEAD - int (?hl - 20))) = 40 + cp_len c - ?hl"
    using v by (simp add: NAT46_OVERHEAD_def)
  have run: "consume_to_ipv6 E c s d = succeed ?c"
    using c n(1) len v by (simp add: consume_to_ipv6_def NAT46_OVERHEAD_def lift_error_def)
  have lx: "?pad + length x' \<le> length (cp_buf c)" using n(2) x(1) c by simp
  have "take (length x') (drop ?pad (cp_buf ?c)) = x'" using overwrite_at [OF lx] by simp
  then have "drop (?hl - 20) (take (length x') (drop ?pad (cp_buf ?c))) = y" using n(3) by simp
  moreover have "length x' = 20 + cp_len c" using n(2) x(1) c(5) by simp
  ultimately have raw: "raw ?c = y"
    using v by (simp add: raw_def drop_take add.commute)
  have "in_buffer ?c" using lx c v n(2) x(1) by (simp add: in_buffer_def)
  with raw n(4,6) run show ?thesis
    by (intro exI [of _ ?c]) (simp add: packet_wf_def view_of_def view4_def)
qed

section \<open>NAT64\<close>

definition icmp64 :: "etherparse \<Rightarrow> ipv6_header \<Rightarrow> bytes \<Rightarrow> bytes \<Rightarrow> (nat_error, bytes) fallible" where
  "icmp64 E h payload buf =
     (if h6_next_header h = IPV6_ICMP then
        try_then (ok_or ParseFailed (ep_icmpv6_header E payload)) (\<lambda>t.
        and_then (translate_icmpv6_header E t) (\<lambda>r.
        try_then (ok_or ImpossibleTranslation r) (\<lambda>t'.
        and_then (assert_that (length (ep_icmpv4_bytes E t') = length (ep_icmpv6_bytes E t))) (\<lambda>_.
        cursor_write 40 (ep_icmpv4_bytes E t') buf))))
      else succeed buf)"

lemma icmp64_ok:
  assumes E: "wire_laws E" and q: "ported E (h6_next_header h) b" and b: "take (length b) (drop 40 x) = b" "40 + length b \<le> length x"
  shows "\<exists>x'. icmp64 E h b x = succeed x' \<and> length x' = length x \<and>
     take (length b) (drop 40 x') = payload64 E (h6_next_header h) b"
proof (cases "h6_next_header h = IPV6_ICMP")
  case True
  with q have e: "echo6 E b" by (simp add: ported_def)
  then have l: "8 \<le> length b" by (simp add: echo6_iff [OF E])
  from echo_cases(2) [OF E e] obtain i s where
    c: "ep_icmpv6 E b = Some (EchoRequest6 i s) \<or> ep_icmpv6 E b = Some (EchoReply6 i s)" by blast
  then obtain t t' where t: "ep_icmpv6 E b = Some t" "ep_icmpv6_header E b = Some t"
      "translate_icmpv6_header E t = Done (Some t')"
      "length (ep_icmpv6_bytes E t) = 8" "length (ep_icmpv4_bytes E t') = 8"
      "payload64 E IPV6_ICMP b = overwrite 0 (ep_icmpv4_bytes E t') b"
    using echo_headers(2) [OF E, of b]
    by (auto simp: translate_icmpv6_header_def echo_bytes [OF E] payload64_def)
  let ?x = "overwrite 40 (ep_icmpv4_bytes E t') x"
  have "icmp64 E h b x = succeed ?x"
    using True t l b by (simp add: icmp64_def cursor_write_ok)
  moreover have "take (length b) (drop 40 ?x) = overwrite 0 (ep_icmpv4_bytes E t') b"
    using overwrite_payload(1) [OF b(2) _ b(1), of "ep_icmpv4_bytes E t'"] t l by simp
  moreover have "length ?x = length x" using t l b by simp
  ultimately show ?thesis using True t(6) by simp
next
  case False
  with b show ?thesis by (simp add: icmp64_def payload64_def)
qed

lemma ipv4_bytes_of:
  assumes "wire_laws E" "h4_header_len h = 20"
  shows "length (ep_ipv4_bytes E h) = 20" "ep_ipv4_bytes E h ! 0 = 0x45"
    "field_at 2 2 (ep_ipv4_bytes E h) = h4_total_len h" "ep_ipv4_bytes E h ! 9 = h4_protocol h"
    "field_at 12 4 (ep_ipv4_bytes E h) = h4_source h" "field_at 16 4 (ep_ipv4_bytes E h) = h4_destination h"
  using assms unfolding wire_laws_def translation_laws_def by blast+

lemma nat64_unfold:
  "nat64_translate_in_place E buf src dst =
     try_then (ok_or ParseFailed (ep_ipv6_headers E buf)) (\<lambda>(h, payload).
     try_then (nat64_header E h src dst) (\<lambda>h4.
     try_then (icmp64 E h payload buf) (\<lambda>buf.
     let h4 = h4\<lparr>h4_checksum := ep_ipv4_header_checksum E h4\<rparr> in
     and_then (assert_that (40 \<le> length buf)) (\<lambda>_.
     cursor_write 20 (ep_ipv4_bytes E h4) (overwrite 0 (replicate 40 0) buf)))))"
  unfolding nat64_translate_in_place_def icmp64_def ..

lemma nat64_in_place:
  assumes E: "wire_laws E" and r: "valid6 r" "length r \<le> 1336"
    and q: "ported E (r ! 6) (vw_payload (view6 r))"
  shows "\<exists>x y. nat64_translate_in_place E r s d = succeed x \<and> length x = length r \<and> drop 20 x = y \<and> valid4 y \<and>
     view4 y = \<lparr>vw_src = V4 s, vw_dst = V4 d, vw_next = next64 (r ! 6),
               vw_payload = payload64 E (r ! 6) (vw_payload (view6 r))\<rparr>"
proof -
  let ?n = "plen6 r" let ?b = "vw_payload (view6 r)"
  have v: "40 \<le> length r" "40 + ?n \<le> length r" using r(1) by (auto simp: valid6_def)
  have b: "?b = take ?n (drop 40 r)" "length ?b = ?n" using v by (simp_all add: view6_def)
  have nh: "r ! 6 \<in> {IP_ICMP, IP_TCP, IP_UDP, IPV6_ICMP}" using ported_parses(7) [OF E q] by blast
  obtain h where h: "ep_ipv6_headers E r = Some (h, ?b)" "h6_payload_length h = field_at 4 2 r" "h6_next_header h = r ! 6"
    using headers_of(2) [OF E valid6_header(1) [OF E r(1)] v(2) nh] b(1) by metis
  have pl: "unat (h6_payload_length h) = ?n" "?n + 20 < 2 ^ 16" using h(2) v r(2) by (simp_all add: plen6_def)
  have "r ! 6 \<notin> {IPV6_FRAGMENTATION_HEADER, IPV6_HEADER_HOP_BY_HOP, IPV6_ROUTE_HEADER, IPV6_DESTINATION_OPTIONS}"
    using nh by (auto simp: ip_number_defs)
  then obtain h4 where h4: "nat64_header E h s d = succeed h4" "h4_header_len h4 = 20" "h4_total_len h4 = h6_payload_length h + 20"
      "h4_protocol h4 = next64 (r ! 6)" "h4_source h4 = s" "h4_destination h4 = d"
    using h pl by (simp add: nat64_header_def next64_def)
  let ?h4 = "h4\<lparr>h4_checksum := ep_ipv4_header_checksum E h4\<rparr>" let ?H = "ep_ipv4_bytes E ?h4"
  note bytes = ipv4_bytes_of [OF E, of ?h4, simplified, OF h4(2)]
  obtain x1 where x1: "icmp64 E h ?b r = succeed x1" "length x1 = length r"
      "take (length ?b) (drop 40 x1) = payload64 E (r ! 6) ?b"
    using icmp64_ok [OF E, of h ?b r] q h(3) b v by auto
  let ?x = "overwrite 20 ?H (overwrite 0 (replicate 40 0) x1)" let ?y = "?H @ drop 40 x1"
  have run: "nat64_translate_in_place E r s d = succeed ?x"
    using h h4(1) x1(1,2) bytes(1) v
    by (simp add: nat64_unfold cursor_write_ok Let_def)
  have y: "drop 20 ?x = ?y" using v x1(2) bytes(1) by (simp add: overwrite_def)
  have "unat (h6_payload_length h + 20) = ?n + 20"
    using pl by (subst unat_word_ariths) simp
  then have t: "total4 ?y = ?n + 20" using bytes(1,3) h4(3) by (simp add: total4_def field_at_append)
  have i: "ihl4 ?y = 20" using bytes(1,2) by (simp add: ihl4_def nth_append)
  have "valid4 ?y" using bytes(1,2) t i v x1(2) by (simp add: valid4_def nth_append) arith
  moreover have "view4 ?y = \<lparr>vw_src = V4 s, vw_dst = V4 d, vw_next = next64 (r ! 6), vw_payload = payload64 E (r ! 6) ?b\<rparr>"
    using bytes h4 t i x1(3) b(2) by (simp add: view4_def field_at_append nth_append)
  moreover have "length ?x = length r" using bytes(1) x1(2) v by simp
  ultimately show ?thesis using run y by blast
qed

lemma consume_to_ipv4_view:
  assumes E: "wire_laws E" and p: "packet_wf (Ipv6 c)"
    and q: "ported E (vw_next (view_of (Ipv6 c))) (vw_payload (view_of (Ipv6 c)))"
  shows "\<exists>c'. consume_to_ipv4 E c s d = succeed c' \<and> packet_wf (Ipv4 c') \<and>
     view_of (Ipv4 c') = \<lparr>vw_src = V4 s, vw_dst = V4 d, vw_next = next64 (vw_next (view_of (Ipv6 c))),
        vw_payload = payload64 E (vw_next (view_of (Ipv6 c))) (vw_payload (view_of (Ipv6 c)))\<rparr>"
proof -
  let ?r = "raw c"
  have c: "cp_start c + cp_len c \<le> length (cp_buf c)" "length (cp_buf c) = MAX_FZ_PAYLOAD"
    "valid6 ?r" "length ?r = cp_len c" "packet_slice c = Done ?r"
    using p length_raw [of c] packet_slice_raw [of c] by (auto simp: packet_wf_def in_buffer_def)
  have v: "40 \<le> cp_len c" "length ?r \<le> 1336" using c by (auto simp: valid6_def packet_size_defs)
  have q': "ported E (?r ! 6) (vw_payload (view6 ?r))" using q by (simp add: view_of_def view6_def)
  from nat64_in_place [OF E c(3) v(2) q', of s d] obtain x y where
    n: "nat64_translate_in_place E ?r s d = succeed x" "length x = length ?r" "drop 20 x = y" "valid4 y"
       "view4 y = \<lparr>vw_src = V4 s, vw_dst = V4 d, vw_next = next64 (?r ! 6), vw_payload = payload64 E (?r ! 6) (vw_payload (view6 ?r))\<rparr>"
    by blast
  let ?c = "\<lparr>cp_buf = overwrite (cp_start c) x (cp_buf c), cp_start = cp_start c + 20, cp_len = cp_len c - 20\<rparr>"
  have run: "consume_to_ipv4 E c s d = succeed ?c"
    using c n(1) v by (simp add: consume_to_ipv4_def lift_error_def)
  have lx: "cp_start c + length x \<le> length (cp_buf c)" using n(2) c by simp
  have "drop 20 (take (length x) (drop (cp_start c) (cp_buf ?c))) = y" using overwrite_at [OF lx] n(3) by simp
  then have raw: "raw ?c = y" using v n(2) c(4) by (simp add: raw_def drop_take add.commute)
  have "in_buffer ?c" using lx c v n(2) by (simp add: in_buffer_def)
  with raw n(4,5) run show ?thesis
    by (intro exI [of _ ?c]) (simp add: packet_wf_def view_of_def view6_def NAT46_OVERHEAD_def)
qed

section \<open>Translating packets\<close>

text \<open>
  The effect of \<^verbatim>\<open>translate_destination\<close>: the packet goes to \<open>dst\<close>; its source stays, unless the family
  changes; its source port becomes that of \<open>proto\<close> and its destination port stays.
\<close>

definition family_source :: "ip_packet \<Rightarrow> ip_addr \<Rightarrow> ip_addr \<Rightarrow> ipv4 \<Rightarrow> ipv6 \<Rightarrow> ip_addr" where
  "family_source p old new v4 v6 =
     (if version4 p = is_ipv4 new then old else if is_ipv4 new then V4 v4 else V6 v6)"

lemma convert_destination:
  assumes E: "wire_laws E" and p: "packet_wf p" and q: "ported E (vw_next (view_of p)) (vw_payload (view_of p))"
  shows "\<exists>p'. (case (p, dst) of
         (Ipv4 c, V6 d) \<Rightarrow> try_then (consume_to_ipv6 E c v6 d) (\<lambda>c. succeed (Ipv6 c))
       | (Ipv6 c, V4 d) \<Rightarrow> try_then (consume_to_ipv4 E c v4 d) (\<lambda>c. succeed (Ipv4 c))
       | _ \<Rightarrow> and_then (set_dst E dst p) succeed) = succeed p' \<and> packet_wf p' \<and>
     vw_src (view_of p') = family_source p (vw_src (view_of p)) dst v4 v6 \<and> vw_dst (view_of p') = dst \<and>
     same_ports E (view_of p) (view_of p')"
proof (cases "version4 p = is_ipv4 dst")
  case True
  obtain p' where "set_dst E dst p = Done p'" "edits p p' ((view_of p)\<lparr>vw_dst := dst\<rparr>)"
    using set_dst_view [OF E p True] by blast
  with True q show ?thesis
    by (cases p; cases dst) (auto simp: edits_def same_ports_def family_source_def version4_def)
next
  case False
  show ?thesis
  proof (cases p)
    case (Ipv4 c)
    with False obtain d where d: "dst = V6 d" by (cases dst) (auto simp: version4_def)
    obtain c' where c': "consume_to_ipv6 E c v6 d = succeed c'" "packet_wf (Ipv6 c')"
        "view_of (Ipv6 c') = \<lparr>vw_src = V6 v6, vw_dst = V6 d, vw_next = next46 (vw_next (view_of p)),
           vw_payload = payload46 E (vw_next (view_of p)) (vw_payload (view_of p))\<rparr>"
      using consume_to_ipv6_view [OF E, of c v6 d] p q Ipv4 by auto
    then have "same_ports E (view_of p) (view_of (Ipv6 c'))" by (intro same_ports_46 [OF E q]) simp_all
    with c' Ipv4 d show ?thesis by (auto simp: family_source_def version4_def)
  next
    case (Ipv6 c)
    with False obtain d where d: "dst = V4 d" by (cases dst) (auto simp: version4_def)
    obtain c' where c': "consume_to_ipv4 E c v4 d = succeed c'" "packet_wf (Ipv4 c')"
        "view_of (Ipv4 c') = \<lparr>vw_src = V4 v4, vw_dst = V4 d, vw_next = next64 (vw_next (view_of p)),
           vw_payload = payload64 E (vw_next (view_of p)) (vw_payload (view_of p))\<rparr>"
      using consume_to_ipv4_view [OF E, of c v4 d] p q Ipv6 by auto
    then have "same_ports E (view_of p) (view_of (Ipv4 c'))" by (intro same_ports_64 [OF E q]) simp_all
    with c' Ipv6 d show ?thesis by (auto simp: family_source_def version4_def)
  qed
qed

lemma convert_source:
  assumes E: "wire_laws E" and p: "packet_wf p" and q: "ported E (vw_next (view_of p)) (vw_payload (view_of p))"
  shows "\<exists>p'. (case (p, src) of
         (Ipv4 c, V6 s) \<Rightarrow> try_then (consume_to_ipv6 E c s v6) (\<lambda>c. succeed (Ipv6 c))
       | (Ipv6 c, V4 s) \<Rightarrow> try_then (consume_to_ipv4 E c s v4) (\<lambda>c. succeed (Ipv4 c))
       | _ \<Rightarrow> and_then (set_src E src p) succeed) = succeed p' \<and> packet_wf p' \<and>
     vw_dst (view_of p') = family_source p (vw_dst (view_of p)) src v4 v6 \<and> vw_src (view_of p') = src \<and>
     same_ports E (view_of p) (view_of p')"
proof (cases "version4 p = is_ipv4 src")
  case True
  obtain p' where "set_src E src p = Done p'" "edits p p' ((view_of p)\<lparr>vw_src := src\<rparr>)"
    using set_src_view [OF E p True] by blast
  with True q show ?thesis
    by (cases p; cases src) (auto simp: edits_def same_ports_def family_source_def version4_def)
next
  case False
  show ?thesis
  proof (cases p)
    case (Ipv4 c)
    with False obtain s where d: "src = V6 s" by (cases src) (auto simp: version4_def)
    obtain c' where c': "consume_to_ipv6 E c s v6 = succeed c'" "packet_wf (Ipv6 c')"
        "view_of (Ipv6 c') = \<lparr>vw_src = V6 s, vw_dst = V6 v6, vw_next = next46 (vw_next (view_of p)),
           vw_payload = payload46 E (vw_next (view_of p)) (vw_payload (view_of p))\<rparr>"
      using consume_to_ipv6_view [OF E, of c s v6] p q Ipv4 by auto
    then have "same_ports E (view_of p) (view_of (Ipv6 c'))" by (intro same_ports_46 [OF E q]) simp_all
    with c' Ipv4 d show ?thesis by (auto simp: family_source_def version4_def)
  next
    case (Ipv6 c)
    with False obtain s where d: "src = V4 s" by (cases src) (auto simp: version4_def)
    obtain c' where c': "consume_to_ipv4 E c s v4 = succeed c'" "packet_wf (Ipv4 c')"
        "view_of (Ipv4 c') = \<lparr>vw_src = V4 s, vw_dst = V4 v4, vw_next = next64 (vw_next (view_of p)),
           vw_payload = payload64 E (vw_next (view_of p)) (vw_payload (view_of p))\<rparr>"
      using consume_to_ipv4_view [OF E, of c s v4] p q Ipv6 by auto
    then have "same_ports E (view_of p) (view_of (Ipv4 c'))" by (intro same_ports_64 [OF E q]) simp_all
    with c' Ipv6 d show ?thesis by (auto simp: family_source_def version4_def)
  qed
qed

lemma translate_destination_view:
  assumes E: "wire_laws E" and p: "packet_wf p" and q: "ported E (vw_next (view_of p)) (vw_payload (view_of p))"
  shows "\<exists>p'. translate_destination E p v4 v6 proto dst = succeed p' \<and> packet_wf p' \<and>
     vw_src (view_of p') = family_source p (vw_src (view_of p)) dst v4 v6 \<and> vw_dst (view_of p') = dst \<and>
     ported E (vw_next (view_of p')) (vw_payload (view_of p')) \<and>
     proto_kind (vw_next (view_of p')) = proto_kind (vw_next (view_of p)) \<and>
     has_ports (vw_next (view_of p')) = has_ports (vw_next (view_of p)) \<and>
     source_number (vw_next (view_of p')) (vw_payload (view_of p')) = proto_value proto \<and>
     destination_number (vw_next (view_of p')) (vw_payload (view_of p')) =
       (if has_ports (vw_next (view_of p)) then destination_number (vw_next (view_of p)) (vw_payload (view_of p)) else proto_value proto)"
proof -
  obtain p1 where p1: "(case (p, dst) of
         (Ipv4 c, V6 d) \<Rightarrow> try_then (consume_to_ipv6 E c v6 d) (\<lambda>c. succeed (Ipv6 c))
       | (Ipv6 c, V4 d) \<Rightarrow> try_then (consume_to_ipv4 E c v4 d) (\<lambda>c. succeed (Ipv4 c))
       | _ \<Rightarrow> and_then (set_dst E dst p) succeed) = succeed p1" "packet_wf p1"
     "vw_src (view_of p1) = family_source p (vw_src (view_of p)) dst v4 v6" "vw_dst (view_of p1) = dst"
     "same_ports E (view_of p) (view_of p1)"
    using convert_destination [OF E p q] by blast
  have q1: "ported E (vw_next (view_of p1)) (vw_payload (view_of p1))" using p1(5) by (simp add: same_ports_def)
  obtain p2 where p2: "set_source_protocol E (proto_value proto) p1 = Done p2"
      "edits p1 p2 ((view_of p1)\<lparr>vw_payload := overwrite (source_offset (vw_next (view_of p1))) (octets2 (proto_value proto)) (vw_payload (view_of p1))\<rparr>)"
    using set_source_protocol_view [OF E p1(2) q1] by blast
  note s = ported_set_source [OF E q1, of "proto_value proto"]
  have run: "translate_destination E p v4 v6 proto dst = succeed p2"
    unfolding translate_destination_def p1(1) by (simp add: p2(1))
  show ?thesis using run p2(2) s p1(3,4,5)
    by (intro exI [of _ p2]) (auto simp: edits_def same_ports_def source_number_def destination_number_def)
qed

lemma translate_source_view:
  assumes E: "wire_laws E" and p: "packet_wf p" and q: "ported E (vw_next (view_of p)) (vw_payload (view_of p))"
  shows "\<exists>p'. translate_source E p v4 v6 proto src = succeed p' \<and> packet_wf p' \<and>
     vw_dst (view_of p') = family_source p (vw_dst (view_of p)) src v4 v6 \<and> vw_src (view_of p') = src \<and>
     ported E (vw_next (view_of p')) (vw_payload (view_of p')) \<and>
     proto_kind (vw_next (view_of p')) = proto_kind (vw_next (view_of p)) \<and>
     has_ports (vw_next (view_of p')) = has_ports (vw_next (view_of p)) \<and>
     destination_number (vw_next (view_of p')) (vw_payload (view_of p')) = proto_value proto \<and>
     source_number (vw_next (view_of p')) (vw_payload (view_of p')) =
       (if has_ports (vw_next (view_of p)) then source_number (vw_next (view_of p)) (vw_payload (view_of p)) else proto_value proto)"
proof -
  obtain p1 where p1: "(case (p, src) of
         (Ipv4 c, V6 s) \<Rightarrow> try_then (consume_to_ipv6 E c s v6) (\<lambda>c. succeed (Ipv6 c))
       | (Ipv6 c, V4 s) \<Rightarrow> try_then (consume_to_ipv4 E c s v4) (\<lambda>c. succeed (Ipv4 c))
       | _ \<Rightarrow> and_then (set_src E src p) succeed) = succeed p1" "packet_wf p1"
     "vw_dst (view_of p1) = family_source p (vw_dst (view_of p)) src v4 v6" "vw_src (view_of p1) = src"
     "same_ports E (view_of p) (view_of p1)"
    using convert_source [OF E p q] by blast
  have q1: "ported E (vw_next (view_of p1)) (vw_payload (view_of p1))" using p1(5) by (simp add: same_ports_def)
  obtain p2 where p2: "set_destination_protocol E (proto_value proto) p1 = Done p2"
      "edits p1 p2 ((view_of p1)\<lparr>vw_payload := overwrite (destination_offset (vw_next (view_of p1))) (octets2 (proto_value proto)) (vw_payload (view_of p1))\<rparr>)"
    using set_destination_protocol_view [OF E p1(2) q1] by blast
  note s = ported_set_destination [OF E q1, of "proto_value proto"]
  have run: "translate_source E p v4 v6 proto src = succeed p2"
    unfolding translate_source_def p1(1) by (simp add: p2(1))
  show ?thesis using run p2(2) s p1(3,4,5)
    by (intro exI [of _ p2]) (auto simp: edits_def same_ports_def source_number_def destination_number_def)
qed

end
