(* ===== verification/Tunnel_Env.thy ===== *)
theory Tunnel_Env
  imports Packet_Nat
begin

text \<open>
  The third-party containers that the gateway uses, as records of the operations the sources call:
  \<^verbatim>\<open>BiMap\<close> (bimap), \<^verbatim>\<open>RangeInclusiveSet\<close> (rangemap), \<^verbatim>\<open>IpNetworkTable\<close> (ip_network_table), and the
  membership test of \<^verbatim>\<open>IpNetwork\<close> (ip_network). What the sources rely on is stated by the laws
  \<open>bimap_laws\<close>, \<open>range_set_laws\<close>, \<open>net_table_laws\<close> and \<open>net_laws\<close>, which follow the documentation of the
  crates.
\<close>

section \<open>Networks\<close>

text \<open>An IP network: its first address and the length of its prefix.\<close>

datatype ip_network = Net4 ipv4 nat | Net6 ipv6 nat

primrec netmask :: "ip_network \<Rightarrow> nat" where
  "netmask (Net4 a k) = k"
| "netmask (Net6 a k) = k"

primrec network_address :: "ip_network \<Rightarrow> ip_addr" where
  "network_address (Net4 a k) = V4 a"
| "network_address (Net6 a k) = V6 a"

text \<open>\<^verbatim>\<open>IpNetwork::from\<close> an address, and the default routes.\<close>

definition net_from :: "ip_addr \<Rightarrow> ip_network" where
  "net_from ip = (case ip of V4 a \<Rightarrow> Net4 a 32 | V6 a \<Rightarrow> Net6 a 128)"

definition DEFAULT_ROUTE4 :: ip_network where "DEFAULT_ROUTE4 = Net4 0 0"
definition DEFAULT_ROUTE6 :: ip_network where "DEFAULT_ROUTE6 = Net6 0 0"

text \<open>The prefix is no longer than an address.\<close>

primrec net_wf :: "ip_network \<Rightarrow> bool" where
  "net_wf (Net4 a k) = (k \<le> 32)"
| "net_wf (Net6 a k) = (k \<le> 128)"

section \<open>Containers\<close>

type_synonym flow = "protocol \<times> ip_addr"

record 'bm bimap =
  bm_new :: 'bm
  bm_get_by_left :: "'bm \<Rightarrow> flow \<Rightarrow> flow option"
  bm_get_by_right :: "'bm \<Rightarrow> flow \<Rightarrow> flow option"
  bm_contains_right :: "'bm \<Rightarrow> flow \<Rightarrow> bool"
  bm_insert :: "flow \<Rightarrow> flow \<Rightarrow> 'bm \<Rightarrow> 'bm"
  bm_remove_by_right :: "flow \<Rightarrow> 'bm \<Rightarrow> (flow \<times> flow) option \<times> 'bm"

record 'rs range_set =
  rs_new :: 'rs
  rs_insert :: "u16 \<Rightarrow> u16 \<Rightarrow> 'rs \<Rightarrow> 'rs outcome"
  rs_contains :: "'rs \<Rightarrow> u16 \<Rightarrow> bool"

record ('t, 'v) net_table =
  nt_new :: 't
  nt_insert :: "ip_network \<Rightarrow> 'v \<Rightarrow> 't \<Rightarrow> 't"
  nt_exact_match :: "'t \<Rightarrow> ip_network \<Rightarrow> 'v option"
  nt_longest_match :: "'t \<Rightarrow> ip_addr \<Rightarrow> (ip_network \<times> 'v) option"
  nt_retain :: "(ip_network \<Rightarrow> 'v \<Rightarrow> bool) \<Rightarrow> 't \<Rightarrow> 't"

section \<open>Laws\<close>

definition net_laws :: "(ip_network \<Rightarrow> ip_addr \<Rightarrow> bool) \<Rightarrow> bool" where
  "net_laws C \<longleftrightarrow>
     (\<forall>a k x. k \<le> 32 \<longrightarrow> C (Net4 a k) (V4 x) = (drop_bit (32 - k) x = drop_bit (32 - k) a)) \<and>
     (\<forall>a k x. k \<le> 128 \<longrightarrow> C (Net6 a k) (V6 x) = (drop_bit (128 - k) x = drop_bit (128 - k) a)) \<and>
     (\<forall>a k x. \<not> C (Net4 a k) (V6 x)) \<and> (\<forall>a k x. \<not> C (Net6 a k) (V4 x))"

text \<open>A bimap: each side determines the other; an insert removes whatever held either of its two keys.\<close>

definition bimap_laws :: "'bm bimap \<Rightarrow> bool" where
  "bimap_laws B \<longleftrightarrow>
     (\<forall>a. bm_get_by_left B (bm_new B) a = None) \<and>
     (\<forall>m a b. (bm_get_by_left B m a = Some b) = (bm_get_by_right B m b = Some a)) \<and>
     (\<forall>m b. bm_contains_right B m b = (bm_get_by_right B m b \<noteq> None)) \<and>
     (\<forall>m a b x. bm_get_by_left B (bm_insert B a b m) x =
        (if x = a then Some b else if bm_get_by_left B m x = Some b then None else bm_get_by_left B m x)) \<and>
     (\<forall>m b. fst (bm_remove_by_right B b m) = map_option (\<lambda>a. (a, b)) (bm_get_by_right B m b)) \<and>
     (\<forall>m b x. bm_get_by_left B (snd (bm_remove_by_right B b m)) x =
        (if bm_get_by_left B m x = Some b then None else bm_get_by_left B m x))"

definition range_set_laws :: "'rs range_set \<Rightarrow> bool" where
  "range_set_laws R \<longleftrightarrow>
     (\<forall>x. \<not> rs_contains R (rs_new R) x) \<and>
     (\<forall>a b s. a \<le> b \<longrightarrow>
        (\<exists>s'. rs_insert R a b s = Done s' \<and> (\<forall>x. rs_contains R s' x = (a \<le> x \<and> x \<le> b \<or> rs_contains R s x)))) \<and>
     (\<forall>a b s. b < a \<longrightarrow> rs_insert R a b s = Panicked)"

definition net_table_laws :: "(ip_network \<Rightarrow> ip_addr \<Rightarrow> bool) \<Rightarrow> ('t, 'v) net_table \<Rightarrow> bool" where
  "net_table_laws C N \<longleftrightarrow>
     (\<forall>n. nt_exact_match N (nt_new N) n = None) \<and>
     (\<forall>n v t m. nt_exact_match N (nt_insert N n v t) m = (if m = n then Some v else nt_exact_match N t m)) \<and>
     (\<forall>f t n. nt_exact_match N (nt_retain N f t) n =
        (case nt_exact_match N t n of None \<Rightarrow> None | Some v \<Rightarrow> if f n v then Some v else None)) \<and>
     (\<forall>t ip n v. nt_longest_match N t ip = Some (n, v) \<longrightarrow>
        nt_exact_match N t n = Some v \<and> C n ip \<and>
        (\<forall>m w. nt_exact_match N t m = Some w \<and> C m ip \<longrightarrow> netmask m \<le> netmask n)) \<and>
     (\<forall>t ip. nt_longest_match N t ip = None \<longrightarrow> (\<forall>m w. nt_exact_match N t m = Some w \<longrightarrow> \<not> C m ip))"

section \<open>Lemmas\<close>

lemma net_from_contains:
  assumes "net_laws C"
  shows "C (net_from ip) x \<longleftrightarrow> x = ip" "net_wf (net_from ip)" "C (net_from ip) ip"
  using assms by (cases ip; cases x; auto simp: net_laws_def net_from_def)+

lemma default_contains:
  assumes "net_laws C"
  shows "C DEFAULT_ROUTE4 x \<longleftrightarrow> is_ipv4 x" "C DEFAULT_ROUTE6 x \<longleftrightarrow> is_ipv6 x"
proof -
  have d: "drop_bit 32 (a :: ipv4) = 0" "drop_bit 128 (b :: ipv6) = 0" for a b
    by (rule bit_word_eqI, simp add: bit_simps)+
  show "C DEFAULT_ROUTE4 x \<longleftrightarrow> is_ipv4 x" "C DEFAULT_ROUTE6 x \<longleftrightarrow> is_ipv6 x"
    using assms by (cases x; simp add: net_laws_def DEFAULT_ROUTE4_def DEFAULT_ROUTE6_def d)+
qed

text \<open>Two networks that contain the same address are nested.\<close>

lemma nested_networks:
  assumes C: "net_laws C" and wf: "net_wf m" "net_wf n" and ip: "C m ip" "C n ip" and le: "netmask m \<le> netmask n"
  shows "C m (network_address n)"
proof (cases ip)
  case (V4 x)
  then obtain a j b k where m: "m = Net4 a j" "n = Net4 b k"
    using C ip by (cases m; cases n) (auto simp: net_laws_def)
  then have b: "j \<le> k" "k \<le> 32" using wf le by auto
  have "drop_bit (32 - j) x = drop_bit (32 - j) a" "drop_bit (32 - k) x = drop_bit (32 - k) b"
    using C ip m V4 b by (auto simp: net_laws_def)
  moreover have "drop_bit (32 - j) y = drop_bit (k - j) (drop_bit (32 - k) y)" for y :: ipv4
    using b by simp
  ultimately have "drop_bit (32 - j) b = drop_bit (32 - j) a" by metis
  then show ?thesis using C m b by (simp add: net_laws_def)
next
  case (V6 x)
  then obtain a j b k where m: "m = Net6 a j" "n = Net6 b k"
    using C ip by (cases m; cases n) (auto simp: net_laws_def)
  then have b: "j \<le> k" "k \<le> 128" using wf le by auto
  have "drop_bit (128 - j) x = drop_bit (128 - j) a" "drop_bit (128 - k) x = drop_bit (128 - k) b"
    using C ip m V6 b by (auto simp: net_laws_def)
  moreover have "drop_bit (128 - j) y = drop_bit (k - j) (drop_bit (128 - k) y)" for y :: ipv6
    using b by simp
  ultimately have "drop_bit (128 - j) b = drop_bit (128 - j) a" by metis
  then show ?thesis using C m b by (simp add: net_laws_def)
qed

text \<open>What contains the address of a network and has no longer prefix contains the network.\<close>

lemma contains_transfer:
  assumes C: "net_laws C" and wf: "net_wf m" "net_wf n" and m: "C m x" and n: "C n x" "C n ip"
    and le: "netmask m \<le> netmask n"
  shows "C m ip"
proof (cases ip)
  case (V4 y)
  obtain a j b k z where e: "m = Net4 a j" "n = Net4 b k" "x = V4 z"
    using C m n V4 by (cases m; cases n; cases x) (auto simp: net_laws_def)
  then have b: "j \<le> k" "k \<le> 32" using wf le by auto
  have "drop_bit (32 - j) z = drop_bit (32 - j) a" "drop_bit (32 - k) z = drop_bit (32 - k) b" "drop_bit (32 - k) y = drop_bit (32 - k) b"
    using C m n e V4 b by (auto simp: net_laws_def)
  moreover have "drop_bit (32 - j) w = drop_bit (k - j) (drop_bit (32 - k) w)" for w :: ipv4
    using b by simp
  ultimately have "drop_bit (32 - j) y = drop_bit (32 - j) a" by metis
  then show ?thesis using C e b V4 by (simp add: net_laws_def)
next
  case (V6 y)
  obtain a j b k z where e: "m = Net6 a j" "n = Net6 b k" "x = V6 z"
    using C m n V6 by (cases m; cases n; cases x) (auto simp: net_laws_def)
  then have b: "j \<le> k" "k \<le> 128" using wf le by auto
  have "drop_bit (128 - j) z = drop_bit (128 - j) a" "drop_bit (128 - k) z = drop_bit (128 - k) b" "drop_bit (128 - k) y = drop_bit (128 - k) b"
    using C m n e V6 b by (auto simp: net_laws_def)
  moreover have "drop_bit (128 - j) w = drop_bit (k - j) (drop_bit (128 - k) w)" for w :: ipv6
    using b by simp
  ultimately have "drop_bit (128 - j) y = drop_bit (128 - j) a" by metis
  then show ?thesis using C e b V6 by (simp add: net_laws_def)
qed

lemma net_from_inject [simp]: "net_from x = net_from y \<longleftrightarrow> x = y"
  by (cases x; cases y) (auto simp: net_from_def)

lemma net_table_exact:
  assumes "net_table_laws C N"
  shows "nt_exact_match N (nt_new N) n = None"
    "nt_exact_match N (nt_insert N n v t) m = (if m = n then Some v else nt_exact_match N t m)"
    "nt_exact_match N (nt_retain N f t) n =
       (case nt_exact_match N t n of None \<Rightarrow> None | Some w \<Rightarrow> if f n w then Some w else None)"
  using assms by (simp_all add: net_table_laws_def)

lemma net_table_longest:
  assumes "net_table_laws C N" "nt_longest_match N t ip = Some (n, v)"
  shows "nt_exact_match N t n = Some v" "C n ip"
    "nt_exact_match N t m = Some w \<Longrightarrow> C m ip \<Longrightarrow> netmask m \<le> netmask n"
  using assms unfolding net_table_laws_def by blast+

lemma net_table_none:
  assumes "net_table_laws C N" "nt_exact_match N t m = Some w" "C m ip"
  obtains n v where "nt_longest_match N t ip = Some (n, v)"
  using assms unfolding net_table_laws_def by (metis option.exhaust surj_pair)

lemma bimap_facts:
  assumes "bimap_laws B"
  shows "bm_get_by_left B (bm_new B) a = None"
    "bm_get_by_left B m a = Some b \<longleftrightarrow> bm_get_by_right B m b = Some a"
    "bm_contains_right B m b \<longleftrightarrow> bm_get_by_right B m b \<noteq> None"
    "bm_get_by_left B (bm_insert B a b m) x =
        (if x = a then Some b else if bm_get_by_left B m x = Some b then None else bm_get_by_left B m x)"
    "fst (bm_remove_by_right B b m) = map_option (\<lambda>a. (a, b)) (bm_get_by_right B m b)"
    "bm_get_by_left B (snd (bm_remove_by_right B b m)) x =
        (if bm_get_by_left B m x = Some b then None else bm_get_by_left B m x)"
  using assms unfolding bimap_laws_def by blast+

lemma bimap_right:
  assumes "bimap_laws B"
  shows "bm_get_by_right B (bm_insert B a b m) y =
      (if y = b then Some a else if bm_get_by_left B m a = Some y then None else bm_get_by_right B m y)"
    and "bm_get_by_right B (snd (bm_remove_by_right B b m)) y =
      (if y = b then None else bm_get_by_right B m y)"
    and "bm_get_by_right B (bm_new B) y = None"
proof -
  have r: "bm_get_by_right B k v = Some u \<longleftrightarrow> bm_get_by_left B k u = Some v" for k u v
    by (rule bimap_facts(2) [OF assms, symmetric])
  have eq: "p = q" if "\<And>x :: flow. p = Some x \<longleftrightarrow> q = Some x" for p q
    by (metis that not_None_eq)
  show "bm_get_by_right B (bm_insert B a b m) y =
      (if y = b then Some a else if bm_get_by_left B m a = Some y then None else bm_get_by_right B m y)"
  proof (rule eq)
    fix x
    have "bm_get_by_right B (bm_insert B a b m) y = Some x \<longleftrightarrow>
      (if x = a then Some b else if bm_get_by_left B m x = Some b then None else bm_get_by_left B m x) = Some y"
      by (simp only: r bimap_facts(4) [OF assms])
    then show "bm_get_by_right B (bm_insert B a b m) y = Some x \<longleftrightarrow>
      (if y = b then Some a else if bm_get_by_left B m a = Some y then None else bm_get_by_right B m y) = Some x"
      using r [of m y x] r [of m y a] by (auto split: if_splits)
  qed
  show "bm_get_by_right B (snd (bm_remove_by_right B b m)) y = (if y = b then None else bm_get_by_right B m y)"
  proof (rule eq)
    fix x
    have "bm_get_by_right B (snd (bm_remove_by_right B b m)) y = Some x \<longleftrightarrow>
      (if bm_get_by_left B m x = Some b then None else bm_get_by_left B m x) = Some y"
      by (simp only: r bimap_facts(6) [OF assms])
    then show "bm_get_by_right B (snd (bm_remove_by_right B b m)) y = Some x \<longleftrightarrow>
      (if y = b then None else bm_get_by_right B m y) = Some x"
      using r [of m y x] by (auto split: if_splits)
  qed
  show "bm_get_by_right B (bm_new B) y = None"
    by (rule eq) (simp add: r bimap_facts(1) [OF assms])
qed

end
