(* ===== verification/Nat_Table.thy ===== *)
theory Nat_Table
  imports Tunnel_Env
begin

text \<open>
  The NAT of the gateway for DNS resources (\<^verbatim>\<open>src/rust/connlib/tunnel/src/peer/nat_table.rs\<close>). A
  session maps the inside of a flow, the source port of the client with the proxy address it talks to, to
  its outside, a source port of the gateway with the real address of the resource.

  An operation that takes \<^verbatim>\<open>&mut self\<close> and returns a \<^verbatim>\<open>Result\<close> yields the state it leaves behind next to
  the result, since the state survives an error.
\<close>

section \<open>State\<close>

datatype tunnel_error =
    UnsupportedProtocol unsupported_protocol
  | ExhaustedNat
  | PacketError packet_error
  | NotClientIp ip_addr
  | NoFilter ip_addr
  | FilteredTcp | FilteredUdp | FilteredIcmp
  | UnknownResource | NotDnsResource | NotSubdomain
  | UnknownPeer | UnknownConnection | EncapsulateFailed | DecapsulateFailed | NoTurnServers | ResolveFailed

type_synonym ('s, 'a) step = "('s \<times> (tunnel_error + 'a)) outcome"

record 'bm nat_table =
  nat_bimap :: 'bm
  nat_last_seen :: "(flow, instant) hmap"
  nat_expired :: "flow set"

definition TTL :: duration where "TTL = from_secs 60"

definition nat_default :: "'bm bimap \<Rightarrow> 'bm nat_table" where
  "nat_default B = \<lparr>nat_bimap = bm_new B, nat_last_seen = [], nat_expired = {}\<rparr>"

section \<open>Operations\<close>

definition expire_session :: "'bm bimap \<Rightarrow> instant \<Rightarrow> flow \<times> instant \<Rightarrow> 'bm nat_table \<Rightarrow> 'bm nat_table" where
  "expire_session B now = (\<lambda>(outside, e) t.
     if TTL \<le> now - e then
       (case bm_remove_by_right B outside (nat_bimap t) of
          (Some (inside, _), m) \<Rightarrow> t\<lparr>nat_bimap := m, nat_expired := insert outside (nat_expired t)\<rparr>
        | (None, m) \<Rightarrow> t\<lparr>nat_bimap := m\<rparr>)
     else t)"

definition nat_handle_timeout :: "'bm bimap \<Rightarrow> instant \<Rightarrow> 'bm nat_table \<Rightarrow> 'bm nat_table" where
  "nat_handle_timeout B now t = fold (expire_session B now) (nat_last_seen t) t"

text \<open>\<^verbatim>\<open>(v..=u16::MAX).chain(1..v)\<close>\<close>

definition candidate_ports :: "u16 \<Rightarrow> u16 list" where
  "candidate_ports v = map of_nat [unat v..<2 ^ 16] @ map of_nat [1..<unat v]"

definition new_session :: "'bm bimap \<Rightarrow> 'bm nat_table \<Rightarrow> flow \<Rightarrow> ip_addr \<Rightarrow> instant
    \<Rightarrow> 'bm nat_table \<times> (tunnel_error + flow)" where
  "new_session B t inside outside_dst now =
     (let src = fst inside in
      case find (\<lambda>outside. \<not> bm_contains_right B (nat_bimap t) outside)
             (map (\<lambda>p. (with_value src p, outside_dst)) (candidate_ports (proto_value src))) of
        None \<Rightarrow> (t, Inl ExhaustedNat)
      | Some outside \<Rightarrow>
          (t\<lparr>nat_bimap := bm_insert B inside outside (nat_bimap t),
             nat_last_seen := hm_insert outside now (nat_last_seen t)\<rparr>, Inr outside))"

definition translate_outgoing :: "etherparse \<Rightarrow> 'bm bimap \<Rightarrow> 'bm nat_table \<Rightarrow> ip_packet \<Rightarrow> ip_addr \<Rightarrow> instant
    \<Rightarrow> ('bm nat_table, flow) step" where
  "translate_outgoing E B t packet outside_dst now =
     and_then (source_protocol E packet) (\<lambda>r. case r of Inl e \<Rightarrow> Done (t, Inl (UnsupportedProtocol e)) | Inr src \<Rightarrow>
     and_then (destination E packet) (\<lambda>dst.
     let inside = (src, dst) in
     Done (case bm_get_by_left B (nat_bimap t) inside of
        Some outside \<Rightarrow>
          (if snd outside = outside_dst
           then (t\<lparr>nat_last_seen := hm_insert outside now (nat_last_seen t)\<rparr>, Inr outside)
           else new_session B t inside outside_dst now)
      | None \<Rightarrow> new_session B t inside outside_dst now)))"

record prototype =
  pr_inside_dst :: ip_addr
  pr_inside_proto :: protocol
  pr_icmp_error :: dest_unreachable
  pr_failed_packet :: failed_packet

datatype translate_incoming_result =
    IncomingOk protocol ip_addr
  | DestinationUnreachable prototype
  | ExpiredNatSession
  | NoNatSession

definition translate_incoming_inner :: "'bm bimap \<Rightarrow> 'bm nat_table \<Rightarrow> flow \<Rightarrow> instant \<Rightarrow> 'bm nat_table \<times> flow option" where
  "translate_incoming_inner B t outside now =
     (case bm_get_by_right B (nat_bimap t) outside of
        None \<Rightarrow> (t, None)
      | Some inside \<Rightarrow> (t\<lparr>nat_last_seen := hm_insert inside now (nat_last_seen t)\<rparr>, Some inside))"

definition no_session :: "'bm nat_table \<Rightarrow> flow \<Rightarrow> translate_incoming_result" where
  "no_session t outside = (if outside \<in> nat_expired t then ExpiredNatSession else NoNatSession)"

definition translate_incoming :: "etherparse \<Rightarrow> 'bm bimap \<Rightarrow> 'bm nat_table \<Rightarrow> ip_packet \<Rightarrow> instant
    \<Rightarrow> ('bm nat_table, translate_incoming_result) step" where
  "translate_incoming E B t packet now =
     and_then (icmp_unreachable_destination E packet) (\<lambda>r. case r of
       Inl e \<Rightarrow> Done (t, Inl (PacketError e))
     | Inr (Some (failed, icmp_error)) \<Rightarrow>
         (let outside = (failed_src_proto failed, fp_dst failed) in
          Done (case translate_incoming_inner B t outside now of
            (t', Some (inside_proto, inside_dst)) \<Rightarrow>
              (t', Inr (DestinationUnreachable
                 \<lparr>pr_inside_dst = inside_dst, pr_inside_proto = inside_proto,
                  pr_icmp_error = icmp_error, pr_failed_packet = failed\<rparr>))
          | (t', None) \<Rightarrow> (t', Inr (no_session t' outside))))
     | Inr None \<Rightarrow>
         and_then (destination_protocol E packet) (\<lambda>r. case r of Inl e \<Rightarrow> Done (t, Inl (UnsupportedProtocol e)) | Inr proto \<Rightarrow>
         and_then (source E packet) (\<lambda>src.
         let outside = (proto, src) in
         Done (case translate_incoming_inner B t outside now of
            (t', Some (inside_proto, inside_src)) \<Rightarrow> (t', Inr (IncomingOk inside_proto inside_src))
          | (t', None) \<Rightarrow> (t', Inr (no_session t' outside))))))"

text \<open>The ICMP error for the client, built from a prototype.\<close>

definition into_packet :: "etherparse \<Rightarrow> prototype \<Rightarrow> ipv4 \<Rightarrow> ipv6 \<Rightarrow> (packet_error, ip_packet) fallible" where
  "into_packet E pr dst_v4 dst_v6 =
     try_then (failed_translate_destination E (pr_failed_packet pr) (pr_inside_dst pr) (pr_inside_proto pr) dst_v4 dst_v6) (\<lambda>original.
     (case pr_inside_dst pr of
        V4 d \<Rightarrow> try_then (into_icmp_v4_type (pr_icmp_error pr)) (\<lambda>t. build E (ep_build_icmpv4 E d dst_v4 20 t original))
      | V6 d \<Rightarrow> try_then (into_icmp_v6_type (pr_icmp_error pr)) (\<lambda>t. build E (ep_build_icmpv6 E d dst_v6 20 t original))))"

section \<open>The invariant\<close>

text \<open>
  Both sides of a session have the same transport protocol, and every session has an entry in
  \<open>nat_last_seen\<close>, so that it is bound to expire.
\<close>

definition nat_inv :: "'bm bimap \<Rightarrow> 'bm nat_table \<Rightarrow> bool" where
  "nat_inv B t \<longleftrightarrow> hm_wf (nat_last_seen t) \<and>
     (\<forall>inside outside. bm_get_by_left B (nat_bimap t) inside = Some outside \<longrightarrow>
        same_type (fst inside) (fst outside) \<and> hm_get (nat_last_seen t) outside \<noteq> None)"

section \<open>Lemmas\<close>

lemma same_type_with_value [simp]: "same_type p (with_value p v)" "same_type p p"
  by (cases p; simp add: same_type_def)+

lemma proto_value_with_value [simp]: "proto_value (with_value p v) = v" "with_value p (proto_value p) = p"
  by (cases p; simp)+

lemma same_type_iff: "same_type p q \<longleftrightarrow> q = with_value p (proto_value q)"
  by (cases p; cases q; simp add: same_type_def)

lemma new_session_cases:
  assumes "new_session B t inside outside_dst now = (t', r)"
  shows "r = Inl ExhaustedNat \<and> t' = t \<and> (\<forall>p \<in> set (candidate_ports (proto_value (fst inside))).
           bm_contains_right B (nat_bimap t) (with_value (fst inside) p, outside_dst))
    \<or> (\<exists>p outside. p \<in> set (candidate_ports (proto_value (fst inside))) \<and> outside = (with_value (fst inside) p, outside_dst) \<and>
          r = Inr outside \<and> \<not> bm_contains_right B (nat_bimap t) outside \<and>
          t' = t\<lparr>nat_bimap := bm_insert B inside outside (nat_bimap t),
                 nat_last_seen := hm_insert outside now (nat_last_seen t)\<rparr>)"
proof (cases "find (\<lambda>outside. \<not> bm_contains_right B (nat_bimap t) outside)
             (map (\<lambda>p. (with_value (fst inside) p, outside_dst)) (candidate_ports (proto_value (fst inside))))")
  case None
  with assms have "r = Inl ExhaustedNat" "t' = t" by (simp_all add: new_session_def Let_def)
  with None show ?thesis by (auto simp: find_None_iff)
next
  case (Some outside)
  then obtain p where "p \<in> set (candidate_ports (proto_value (fst inside)))" "outside = (with_value (fst inside) p, outside_dst)"
      "\<not> bm_contains_right B (nat_bimap t) outside"
    by (auto simp: find_Some_iff in_set_conv_nth) metis
  with Some assms show ?thesis
    by (intro disjI2 exI [of _ p] exI [of _ outside]) (simp add: new_session_def Let_def)
qed

text \<open>What a successful outgoing translation leaves behind: the session of the packet.\<close>

definition session_of :: "'bm bimap \<Rightarrow> 'bm nat_table \<Rightarrow> flow \<Rightarrow> flow \<Rightarrow> instant \<Rightarrow> 'bm nat_table \<Rightarrow> bool" where
  "session_of B t inside outside now t' \<longleftrightarrow>
     (\<forall>x. bm_get_by_left B (nat_bimap t') x = (if x = inside then Some outside else bm_get_by_left B (nat_bimap t) x)) \<and>
     same_type (fst inside) (fst outside) \<and>
     nat_last_seen t' = hm_insert outside now (nat_last_seen t) \<and> nat_expired t' = nat_expired t"

lemma session_of_inv: "nat_inv B t \<Longrightarrow> session_of B t inside outside now t' \<Longrightarrow> nat_inv B t'"
  unfolding nat_inv_def session_of_def by (auto split: if_splits)

lemma new_session_of:
  assumes B: "bimap_laws B" and ns: "new_session B t inside outside_dst now = (t', Inr outside)"
  shows "session_of B t inside outside now t'" "snd outside = outside_dst"
proof -
  from new_session_cases [OF ns] obtain p where p: "outside = (with_value (fst inside) p, outside_dst)"
      "\<not> bm_contains_right B (nat_bimap t) outside"
      "t' = t\<lparr>nat_bimap := bm_insert B inside outside (nat_bimap t), nat_last_seen := hm_insert outside now (nat_last_seen t)\<rparr>"
    by blast
  have "bm_get_by_left B (nat_bimap t) x \<noteq> Some outside" for x
  proof
    assume "bm_get_by_left B (nat_bimap t) x = Some outside"
    then have "bm_get_by_right B (nat_bimap t) outside = Some x" using bimap_facts(2) [OF B] by blast
    then have "bm_contains_right B (nat_bimap t) outside" unfolding bimap_facts(3) [OF B] by blast
    with p(2) show False by blast
  qed
  then have "bm_get_by_left B (nat_bimap t') x = (if x = inside then Some outside else bm_get_by_left B (nat_bimap t) x)" for x
    by (simp add: p(3) bimap_facts(4) [OF B])
  then show "session_of B t inside outside now t'" using p(1,3) by (simp add: session_of_def)
  show "snd outside = outside_dst" using p(1) by simp
qed

lemma translate_outgoing_session:
  assumes B: "bimap_laws B" and inv: "nat_inv B t"
    and run: "translate_outgoing E B t packet outside_dst now = Done (t', Inr outside)"
    and sd: "source_protocol E packet = succeed src" "destination E packet = Done dst"
  shows "session_of B t (src, dst) outside now t'" "snd outside = outside_dst"
proof -
  let ?in = "(src, dst)"
  have run': "(case bm_get_by_left B (nat_bimap t) ?in of
        Some outside \<Rightarrow>
          (if snd outside = outside_dst
           then (t\<lparr>nat_last_seen := hm_insert outside now (nat_last_seen t)\<rparr>, Inr outside)
           else new_session B t ?in outside_dst now)
      | None \<Rightarrow> new_session B t ?in outside_dst now) = (t', Inr outside)"
    using run by (simp add: translate_outgoing_def sd Let_def)
  have "session_of B t ?in outside now t' \<and> snd outside = outside_dst"
  proof (cases "bm_get_by_left B (nat_bimap t) ?in")
    case None
    with run' have "new_session B t ?in outside_dst now = (t', Inr outside)" by simp
    from new_session_of [OF B this] show ?thesis by blast
  next
    case (Some o1)
    show ?thesis
    proof (cases "snd o1 = outside_dst")
      case True
      with run' Some have t': "t' = t\<lparr>nat_last_seen := hm_insert o1 now (nat_last_seen t)\<rparr>" "outside = o1" by auto
      have "same_type src (fst o1)" using inv Some unfolding nat_inv_def by fastforce
      with t' Some True show ?thesis by (simp add: session_of_def)
    next
      case False
      with run' Some have "new_session B t ?in outside_dst now = (t', Inr outside)" by simp
      from new_session_of [OF B this] show ?thesis by blast
    qed
  qed
  then show "session_of B t (src, dst) outside now t'" "snd outside = outside_dst" by simp_all
qed

lemma translate_outgoing_reads:
  assumes "translate_outgoing E B t packet outside_dst now = Done (t', Inr outside)"
  obtains src dst where "source_protocol E packet = succeed src" "destination E packet = Done dst"
  using assms unfolding translate_outgoing_def
  by (elim and_then_sumE and_then_DoneE) simp_all

lemma new_session_error: "new_session B t inside outside_dst now = (t', Inl e) \<Longrightarrow> t' = t"
  using new_session_cases by fastforce

lemma translate_outgoing_error:
  assumes "translate_outgoing E B t packet outside_dst now = Done (t', Inl e)"
  shows "t' = t"
proof (cases "source_protocol E packet")
  case (Done r)
  show ?thesis
  proof (cases r)
    case (Inl e)
    with assms Done show ?thesis by (simp add: translate_outgoing_def)
  next
    case (Inr src)
    with assms Done obtain dst where d: "destination E packet = Done dst"
      by (cases "destination E packet") (simp_all add: translate_outgoing_def)
    show ?thesis
    proof (cases "bm_get_by_left B (nat_bimap t) (src, dst)")
      case None
      with assms Done Inr d have "new_session B t (src, dst) outside_dst now = (t', Inl e)"
        by (simp add: translate_outgoing_def)
      then show ?thesis by (rule new_session_error)
    next
      case (Some o1)
      with assms Done Inr d have "new_session B t (src, dst) outside_dst now = (t', Inl e)"
        by (simp add: translate_outgoing_def split: if_splits)
      then show ?thesis by (rule new_session_error)
    qed
  qed
qed (use assms in \<open>simp_all add: translate_outgoing_def\<close>)

lemma translate_incoming_inv:
  assumes "nat_inv B t" "translate_incoming E B t packet now = Done (t', r)"
  shows "nat_inv B t'" "nat_bimap t' = nat_bimap t" "nat_expired t' = nat_expired t"
proof -
  have inner: "nat_inv B (fst (translate_incoming_inner B t out now))
      \<and> nat_bimap (fst (translate_incoming_inner B t out now)) = nat_bimap t
      \<and> nat_expired (fst (translate_incoming_inner B t out now)) = nat_expired t" for out
    using assms(1) by (auto simp: translate_incoming_inner_def nat_inv_def split: option.splits)
  from assms(2) have "t' = t \<or> (\<exists>out. t' = fst (translate_incoming_inner B t out now))"
    unfolding translate_incoming_def
  proof (cases rule: and_then_sumE)
    case (success x)
    show ?thesis
    proof (cases x)
      case None
      with success(2) have "and_then (destination_protocol E packet) (\<lambda>r. case r of Inl e \<Rightarrow> Done (t, Inl (UnsupportedProtocol e)) | Inr proto \<Rightarrow>
         and_then (source E packet) (\<lambda>src.
         let outside = (proto, src) in
         Done (case translate_incoming_inner B t outside now of
            (t', Some (inside_proto, inside_src)) \<Rightarrow> (t', Inr (IncomingOk inside_proto inside_src))
          | (t', None) \<Rightarrow> (t', Inr (no_session t' outside))))) = Done (t', r)" by simp
      then show ?thesis
      proof (cases rule: and_then_sumE)
        case (success proto)
        then obtain src where "source E packet = Done src" by (elim and_then_DoneE)
        with success(2) show ?thesis
          by (intro disjI2 exI [of _ "(proto, src)"]) (auto simp: Let_def split: prod.splits option.splits)
      qed simp
    next
      case (Some fe)
      obtain f e where fe: "fe = (f, e)" by (cases fe)
      with Some success(2) show ?thesis
        by (intro disjI2 exI [of _ "(failed_src_proto f, fp_dst f)"]) (auto simp: Let_def split: prod.splits option.splits)
    qed
  qed simp
  with inner assms(1) show "nat_inv B t'" "nat_bimap t' = nat_bimap t" "nat_expired t' = nat_expired t"
    by auto
qed

text \<open>The loop of \<open>nat_handle_timeout\<close>.\<close>

lemma expire_fold:
  assumes B: "bimap_laws B"
  shows "bm_get_by_right B (nat_bimap (fold (expire_session B now) xs t)) out =
      (if \<exists>e. (out, e) \<in> set xs \<and> TTL \<le> now - e then None else bm_get_by_right B (nat_bimap t) out)
    \<and> nat_last_seen (fold (expire_session B now) xs t) = nat_last_seen t
    \<and> (out \<in> nat_expired (fold (expire_session B now) xs t) \<longleftrightarrow>
        out \<in> nat_expired t \<or> bm_get_by_right B (nat_bimap t) out \<noteq> None \<and> (\<exists>e. (out, e) \<in> set xs \<and> TTL \<le> now - e))"
proof (induction xs arbitrary: t)
  case Nil
  then show ?case by simp
next
  case (Cons x xs)
  obtain o1 e1 where x: "x = (o1, e1)" by (cases x)
  let ?t = "expire_session B now x t"
  have t: "bm_get_by_right B (nat_bimap ?t) out = (if out = o1 \<and> TTL \<le> now - e1 then None else bm_get_by_right B (nat_bimap t) out)
     \<and> nat_last_seen ?t = nat_last_seen t
     \<and> (out \<in> nat_expired ?t \<longleftrightarrow> out \<in> nat_expired t \<or> bm_get_by_right B (nat_bimap t) out \<noteq> None \<and> out = o1 \<and> TTL \<le> now - e1)"
  proof (cases "TTL \<le> now - e1")
    case True
    obtain r m where r: "bm_remove_by_right B o1 (nat_bimap t) = (r, m)" by (cases "bm_remove_by_right B o1 (nat_bimap t)")
    then have "r = map_option (\<lambda>a. (a, o1)) (bm_get_by_right B (nat_bimap t) o1)"
        "bm_get_by_right B m out = (if out = o1 then None else bm_get_by_right B (nat_bimap t) out)"
      using bimap_facts(5) [OF B, of o1 "nat_bimap t"] bimap_right(2) [OF B, of o1 "nat_bimap t" out] by simp_all
    with True r x show ?thesis
      by (cases "bm_get_by_right B (nat_bimap t) o1") (auto simp: expire_session_def)
  next
    case False
    with x show ?thesis by (simp add: expire_session_def)
  qed
  show ?case using Cons.IH [of ?t] t x by auto
qed

lemma nat_handle_timeout_right:
  assumes "bimap_laws B" "nat_inv B t"
  shows "bm_get_by_right B (nat_bimap (nat_handle_timeout B now t)) out =
     (case hm_get (nat_last_seen t) out of
        Some e \<Rightarrow> if TTL \<le> now - e then None else bm_get_by_right B (nat_bimap t) out
      | None \<Rightarrow> bm_get_by_right B (nat_bimap t) out)"
proof -
  have "hm_wf (nat_last_seen t)" using assms(2) by (simp add: nat_inv_def)
  then show ?thesis
    using expire_fold [OF assms(1), of now "nat_last_seen t" t out]
    by (auto simp: nat_handle_timeout_def hm_in_set_iff split: option.splits)
qed

lemma nat_handle_timeout_inv:
  assumes B: "bimap_laws B" and inv: "nat_inv B t"
  shows "nat_inv B (nat_handle_timeout B now t)"
proof -
  have ls: "nat_last_seen (nat_handle_timeout B now t) = nat_last_seen t"
    using expire_fold [OF B] by (simp add: nat_handle_timeout_def)
  have "bm_get_by_left B (nat_bimap t) i = Some out" if "bm_get_by_left B (nat_bimap (nat_handle_timeout B now t)) i = Some out" for i out
  proof -
    from that have "bm_get_by_right B (nat_bimap (nat_handle_timeout B now t)) out = Some i"
      using bimap_facts(2) [OF B] by blast
    then have "bm_get_by_right B (nat_bimap t) out = Some i"
      using nat_handle_timeout_right [OF B inv, of now out] by (auto split: option.splits if_splits)
    then show ?thesis using bimap_facts(2) [OF B] by blast
  qed
  then show ?thesis using inv unfolding nat_inv_def ls by blast
qed

lemma nat_default_inv: "bimap_laws B \<Longrightarrow> nat_inv B (nat_default B)"
  by (simp add: nat_inv_def nat_default_def bimap_facts(1))

end
