(* ===== verification/Filter_Engine.thy ===== *)
theory Filter_Engine
  imports Nat_Table
begin

text \<open>
  The filter engine of the gateway (\<^verbatim>\<open>src/rust/connlib/tunnel/src/peer/filter_engine.rs\<close>): the filters of
  all resources that cover an address, compiled to sets of port ranges. \<open>permits\<close> is the reference: some
  list of filters is empty, or some filter of some list matches.
\<close>

record port_range =
  port_range_end :: u16
  port_range_start :: u16

datatype gw_filter = FilterUdp port_range | FilterTcp port_range | FilterIcmp

type_synonym filters = "gw_filter list"

record 'rs allow_rules =
  ar_udp :: 'rs
  ar_tcp :: 'rs
  ar_icmp :: bool

datatype 'rs filter_engine = PermitAll | PermitSome "'rs allow_rules"

definition allow_rules_new :: "'rs range_set \<Rightarrow> 'rs allow_rules" where
  "allow_rules_new R = \<lparr>ar_udp = rs_new R, ar_tcp = rs_new R, ar_icmp = False\<rparr>"

definition allow_rules_apply :: "'rs range_set \<Rightarrow> 'rs allow_rules \<Rightarrow> unsupported_protocol + protocol \<Rightarrow> tunnel_error + unit" where
  "allow_rules_apply R rules protocol = (case protocol of
       Inl e \<Rightarrow> Inl (UnsupportedProtocol e)
     | Inr (Tcp port) \<Rightarrow> if rs_contains R (ar_tcp rules) port then Inr () else Inl FilteredTcp
     | Inr (Udp port) \<Rightarrow> if rs_contains R (ar_udp rules) port then Inr () else Inl FilteredUdp
     | Inr (Icmp _) \<Rightarrow> if ar_icmp rules then Inr () else Inl FilteredIcmp)"

definition filter_apply :: "'rs range_set \<Rightarrow> 'rs filter_engine \<Rightarrow> unsupported_protocol + protocol \<Rightarrow> tunnel_error + unit" where
  "filter_apply R engine protocol = (case engine of
       PermitAll \<Rightarrow> Inr ()
     | PermitSome rules \<Rightarrow> allow_rules_apply R rules protocol)"

definition add_filter :: "'rs range_set \<Rightarrow> gw_filter \<Rightarrow> 'rs allow_rules \<Rightarrow> 'rs allow_rules outcome" where
  "add_filter R f rules = (case f of
       FilterUdp rng \<Rightarrow>
         and_then (rs_insert R (port_range_start rng) (port_range_end rng) (ar_udp rules)) (\<lambda>s. Done (rules\<lparr>ar_udp := s\<rparr>))
     | FilterTcp rng \<Rightarrow>
         and_then (rs_insert R (port_range_start rng) (port_range_end rng) (ar_tcp rules)) (\<lambda>s. Done (rules\<lparr>ar_tcp := s\<rparr>))
     | FilterIcmp \<Rightarrow> Done (rules\<lparr>ar_icmp := True\<rparr>))"

definition add_filters :: "'rs range_set \<Rightarrow> gw_filter list \<Rightarrow> 'rs allow_rules \<Rightarrow> 'rs allow_rules outcome" where
  "add_filters R fs rules = fold_outcome (add_filter R) fs rules"

definition with_filters :: "'rs range_set \<Rightarrow> filters list \<Rightarrow> 'rs filter_engine outcome" where
  "with_filters R fs =
     (if \<exists>f \<in> set fs. f = [] then Done PermitAll
      else and_then (add_filters R (concat fs) (allow_rules_new R)) (\<lambda>rules. Done (PermitSome rules)))"

section \<open>Reference\<close>

definition in_range :: "port_range \<Rightarrow> u16 \<Rightarrow> bool" where
  "in_range rng p \<longleftrightarrow> port_range_start rng \<le> p \<and> p \<le> port_range_end rng"

primrec filter_matches :: "gw_filter \<Rightarrow> protocol \<Rightarrow> bool" where
  "filter_matches (FilterUdp rng) q = (case q of Udp p \<Rightarrow> in_range rng p | _ \<Rightarrow> False)"
| "filter_matches (FilterTcp rng) q = (case q of Tcp p \<Rightarrow> in_range rng p | _ \<Rightarrow> False)"
| "filter_matches FilterIcmp q = (case q of Icmp p \<Rightarrow> True | _ \<Rightarrow> False)"

definition permits :: "filters list \<Rightarrow> unsupported_protocol + protocol \<Rightarrow> bool" where
  "permits fs protocol \<longleftrightarrow> (\<exists>f \<in> set fs. f = []) \<or>
     (\<exists>q. protocol = Inr q \<and> (\<exists>f \<in> set fs. \<exists>x \<in> set f. filter_matches x q))"

text \<open>A filter the portal should send: its port rng is not inverted.\<close>

primrec filter_ok :: "gw_filter \<Rightarrow> bool" where
  "filter_ok (FilterUdp rng) = (port_range_start rng \<le> port_range_end rng)"
| "filter_ok (FilterTcp rng) = (port_range_start rng \<le> port_range_end rng)"
| "filter_ok FilterIcmp = True"

section \<open>Lemmas\<close>

lemma range_insert:
  assumes "range_set_laws R" "a \<le> b"
  shows "\<exists>s'. rs_insert R a b s = Done s' \<and> (\<forall>x. rs_contains R s' x = (a \<le> x \<and> x \<le> b \<or> rs_contains R s x))"
  using assms unfolding range_set_laws_def by blast

lemma range_insert_panics: "range_set_laws R \<Longrightarrow> b < a \<Longrightarrow> rs_insert R a b s = Panicked"
  unfolding range_set_laws_def by blast

lemma add_filter_spec:
  assumes R: "range_set_laws R" and ok: "filter_ok f"
  shows "\<exists>rules'. add_filter R f rules = Done rules' \<and>
     (\<forall>q. allow_rules_apply R rules' (Inr q) = Inr () \<longleftrightarrow> filter_matches f q \<or> allow_rules_apply R rules (Inr q) = Inr ())"
proof (cases f)
  case (FilterUdp rng)
  with ok have "port_range_start rng \<le> port_range_end rng" by simp
  then obtain s where s: "rs_insert R (port_range_start rng) (port_range_end rng) (ar_udp rules) = Done s"
      "\<And>x. rs_contains R s x = (port_range_start rng \<le> x \<and> x \<le> port_range_end rng \<or> rs_contains R (ar_udp rules) x)"
    using range_insert [OF R, of "port_range_start rng" "port_range_end rng" "ar_udp rules"] by blast
  have "allow_rules_apply R (rules\<lparr>ar_udp := s\<rparr>) (Inr q) = Inr () \<longleftrightarrow> filter_matches f q \<or> allow_rules_apply R rules (Inr q) = Inr ()" for q
    by (cases q) (simp_all add: FilterUdp allow_rules_apply_def in_range_def s(2))
  with s(1) FilterUdp show ?thesis by (simp add: add_filter_def)
next
  case (FilterTcp rng)
  with ok have "port_range_start rng \<le> port_range_end rng" by simp
  then obtain s where s: "rs_insert R (port_range_start rng) (port_range_end rng) (ar_tcp rules) = Done s"
      "\<And>x. rs_contains R s x = (port_range_start rng \<le> x \<and> x \<le> port_range_end rng \<or> rs_contains R (ar_tcp rules) x)"
    using range_insert [OF R, of "port_range_start rng" "port_range_end rng" "ar_tcp rules"] by blast
  have "allow_rules_apply R (rules\<lparr>ar_tcp := s\<rparr>) (Inr q) = Inr () \<longleftrightarrow> filter_matches f q \<or> allow_rules_apply R rules (Inr q) = Inr ()" for q
    by (cases q) (simp_all add: FilterTcp allow_rules_apply_def in_range_def s(2))
  with s(1) FilterTcp show ?thesis by (simp add: add_filter_def)
next
  case FilterIcmp
  have "allow_rules_apply R (rules\<lparr>ar_icmp := True\<rparr>) (Inr q) = Inr () \<longleftrightarrow> filter_matches f q \<or> allow_rules_apply R rules (Inr q) = Inr ()" for q
    by (cases q) (simp_all add: FilterIcmp allow_rules_apply_def)
  with FilterIcmp show ?thesis by (simp add: add_filter_def)
qed

lemma add_filters_spec:
  assumes R: "range_set_laws R" and ok: "\<forall>f \<in> set fs. filter_ok f"
  shows "\<exists>rules'. add_filters R fs rules = Done rules' \<and>
     (\<forall>q. allow_rules_apply R rules' (Inr q) = Inr () \<longleftrightarrow> (\<exists>f \<in> set fs. filter_matches f q) \<or> allow_rules_apply R rules (Inr q) = Inr ())"
  using ok unfolding add_filters_def
proof (induction fs arbitrary: rules)
  case (Cons f fs)
  obtain r1 where r1: "add_filter R f rules = Done r1"
      "\<And>q. allow_rules_apply R r1 (Inr q) = Inr () \<longleftrightarrow> filter_matches f q \<or> allow_rules_apply R rules (Inr q) = Inr ()"
    using add_filter_spec [OF R, of f rules] Cons.prems by auto
  obtain r2 where r2: "fold_outcome (add_filter R) fs r1 = Done r2"
      "\<And>q. allow_rules_apply R r2 (Inr q) = Inr () \<longleftrightarrow> (\<exists>f \<in> set fs. filter_matches f q) \<or> allow_rules_apply R r1 (Inr q) = Inr ()"
    using Cons.IH [of r1] Cons.prems by auto
  show ?case using r1 r2 by auto
qed simp

lemma new_rules_deny:
  assumes "range_set_laws R" shows "allow_rules_apply R (allow_rules_new R) (Inr q) \<noteq> Inr ()"
  using assms by (cases q) (simp_all add: allow_rules_apply_def allow_rules_new_def range_set_laws_def)

text \<open>The engine decides like the reference.\<close>

lemma with_filters_permits:
  assumes R: "range_set_laws R" and ok: "\<forall>f \<in> set fs. \<forall>x \<in> set f. filter_ok x"
  shows "\<exists>engine. with_filters R fs = Done engine \<and> (\<forall>protocol. filter_apply R engine protocol = Inr () \<longleftrightarrow> permits fs protocol)"
proof (cases "\<exists>f \<in> set fs. f = []")
  case True
  then show ?thesis by (simp add: with_filters_def filter_apply_def permits_def)
next
  case False
  obtain rules where rules: "add_filters R (concat fs) (allow_rules_new R) = Done rules"
      "\<And>q. allow_rules_apply R rules (Inr q) = Inr () \<longleftrightarrow> (\<exists>f \<in> set (concat fs). filter_matches f q)"
    using add_filters_spec [OF R, of "concat fs" "allow_rules_new R"] ok new_rules_deny [OF R] by auto
  have "filter_apply R (PermitSome rules) protocol = Inr () \<longleftrightarrow> permits fs protocol" for protocol
  proof (cases protocol)
    case (Inl e)
    with False show ?thesis by (simp add: filter_apply_def permits_def allow_rules_apply_def)
  next
    case (Inr q)
    with False rules(2) [of q] show ?thesis by (auto simp: filter_apply_def permits_def)
  qed
  with rules(1) False show ?thesis by (auto simp: with_filters_def)
qed

lemma permits_single: "permits fs protocol \<longleftrightarrow> (\<exists>f \<in> set fs. permits [f] protocol)"
  by (auto simp: permits_def)

end
