(* ===== verification/Dns_Pattern.thy ===== *)
theory Dns_Pattern
  imports Fallible
begin

text \<open>
  Domain patterns of DNS resources (module \<^verbatim>\<open>pattern\<close> of \<^verbatim>\<open>src/rust/connlib/tunnel/src/dns.rs\<close>): a pattern is
  a glob over domain names whose dots are written as slashes. Patterns are kept in a \<^verbatim>\<open>BTreeMap\<close>, so
  their hand-written comparison must be a linear order; it is, and it places names before wildcards.

  The glob crate is third-party: \<open>glob_new\<close> says whether a string is a valid glob and \<open>glob_matches\<close>
  whether it matches, with the options the code passes.
\<close>

record glob =
  glob_new :: "string \<Rightarrow> bool"
  glob_matches :: "string \<Rightarrow> string \<Rightarrow> bool"

type_synonym domain_name = string

text \<open>\<^verbatim>\<open>s.replace('.', "/")\<close>\<close>

definition replace_dots :: "string \<Rightarrow> string" where
  "replace_dots s = map (\<lambda>c. if c = CHR ''.'' then CHR ''/'' else c) s"

text \<open>A pattern is determined by its original text; the glob inside it is that text with the dots replaced.\<close>

datatype pattern = Pattern (pat_original: string)

definition pat_inner :: "pattern \<Rightarrow> string" where
  "pat_inner p = replace_dots (pat_original p)"

definition pattern_new :: "glob \<Rightarrow> string \<Rightarrow> pattern option" where
  "pattern_new G p = (if glob_new G (replace_dots p) then Some (Pattern p) else None)"

definition candidate_from_domain :: "domain_name \<Rightarrow> string" where
  "candidate_from_domain d = replace_dots d"

definition strip_prefix :: "string \<Rightarrow> string \<Rightarrow> string option" where
  "strip_prefix p s = (if take (length p) s = p then Some (drop (length p) s) else None)"

definition pattern_matches :: "glob \<Rightarrow> pattern \<Rightarrow> string \<Rightarrow> bool" where
  "pattern_matches G p domain =
     (if strip_prefix ''*/'' (pat_inner p) = Some domain then True else glob_matches G (pat_inner p) domain)"

definition is_subdomain :: "glob \<Rightarrow> domain_name \<Rightarrow> string \<Rightarrow> bool" where
  "is_subdomain G name resource = (case pattern_new G resource of
       None \<Rightarrow> False
     | Some p \<Rightarrow> pattern_matches G p (candidate_from_domain name))"

section \<open>The order of patterns\<close>

datatype ordering = Lower | Same | Greater

definition wildcard :: "char \<Rightarrow> bool" where
  "wildcard c \<longleftrightarrow> c = CHR ''*'' \<or> c = CHR ''?''"

text \<open>The loop over both names from their ends, one character at a time.\<close>

fun cmp_rev :: "string \<Rightarrow> string \<Rightarrow> ordering" where
  "cmp_rev (x # xs) (y # ys) =
     (if x = y then cmp_rev xs ys
      else if x = CHR ''*'' \<and> y = CHR ''?'' then Greater
      else if x = CHR ''?'' \<and> y = CHR ''*'' then Lower
      else if wildcard x \<and> y = CHR ''.'' then Greater
      else if x = CHR ''.'' \<and> wildcard y then Lower
      else if wildcard x then Greater
      else if wildcard y then Lower
      else if (of_char x :: nat) < of_char y then Greater else Lower)"
| "cmp_rev (x # xs) [] = Greater"
| "cmp_rev [] (y # ys) = Lower"
| "cmp_rev [] [] = Same"

definition pattern_cmp :: "pattern \<Rightarrow> pattern \<Rightarrow> ordering" where
  "pattern_cmp p q = cmp_rev (rev (pat_original p)) (rev (pat_original q))"

text \<open>The position of a character in the order: other characters from the last to the first, then the two wildcards.\<close>

definition char_rank :: "char \<Rightarrow> nat" where
  "char_rank c = (if c = CHR ''*'' then 257 else if c = CHR ''?'' then 256 else 255 - of_char c)"

lemma rank_other:
  assumes "\<not> wildcard x" "\<not> wildcard y"
  shows "char_rank x < char_rank y \<longleftrightarrow> (of_char y :: nat) < of_char x" "char_rank x < 256"
proof -
  have "char_rank x = 255 - of_char x" "char_rank y = 255 - of_char y"
    using assms by (simp_all add: char_rank_def wildcard_def)
  moreover have "(of_char x :: nat) < 256" "(of_char y :: nat) < 256" by (rule nat_of_char_less_256)+
  ultimately show "char_rank x < char_rank y \<longleftrightarrow> (of_char y :: nat) < of_char x" "char_rank x < 256"
    by linarith+
qed

lemma rank_wildcard: "char_rank (CHR ''*'') = 257" "char_rank (CHR ''?'') = 256"
  by (simp_all add: char_rank_def)

lemma cmp_rev_head:
  assumes "x \<noteq> y"
  shows "cmp_rev (x # xs) (y # ys) = (if char_rank x < char_rank y then Lower else Greater)"
proof (cases "wildcard x \<or> wildcard y")
  case True
  have "char_rank x < 256" if "\<not> wildcard x" using rank_other(2) that by blast
  moreover have "char_rank y < 256" if "\<not> wildcard y" using rank_other(2) that by blast
  ultimately show ?thesis using True assms
    by (cases "wildcard x"; cases "wildcard y") (auto simp: wildcard_def rank_wildcard)
next
  case False
  moreover have "(of_char x :: nat) \<noteq> of_char y" using assms by simp
  then have "(of_char x :: nat) < of_char y \<longleftrightarrow> \<not> (of_char y :: nat) < of_char x" by linarith
  ultimately show ?thesis using assms rank_other(1) [of x y] by (auto simp: wildcard_def)
qed

lemma char_rank_inject: "char_rank x = char_rank y \<Longrightarrow> x = y"
proof (rule ccontr)
  assume eq: "char_rank x = char_rank y" and ne: "x \<noteq> y"
  have "cmp_rev [x] [y] = Greater" "cmp_rev [y] [x] = Greater"
    using cmp_rev_head [OF ne, of "[]" "[]"] cmp_rev_head [OF ne [symmetric], of "[]" "[]"] eq by simp_all
  with ne show False
    by (auto simp: wildcard_def split: if_splits)
qed

lemma cmp_rev_lex:
  "cmp_rev xs ys = Lower \<longleftrightarrow> (xs, ys) \<in> lexord {(x, y). char_rank x < char_rank y}"
  "cmp_rev xs ys = Same \<longleftrightarrow> xs = ys"
proof (induction xs ys rule: cmp_rev.induct)
  case (1 x xs y ys)
  {
    case 1
    then show ?case using "1.IH" by (cases "x = y") (simp_all add: cmp_rev_head del: cmp_rev.simps(1), simp)
  next
    case 2
    then show ?case using "1.IH" by (cases "x = y") (simp_all add: cmp_rev_head del: cmp_rev.simps(1), simp)
  }
qed simp_all

lemma cmp_rev_Greater: "cmp_rev xs ys = Greater \<longleftrightarrow> (ys, xs) \<in> lexord {(x, y). char_rank x < char_rank y}"
proof (induction xs ys rule: cmp_rev.induct)
  case (1 x xs y ys)
  show ?case
  proof (cases "x = y")
    case True
    with 1 show ?thesis by simp
  next
    case False
    then have "char_rank x \<noteq> char_rank y" using char_rank_inject by blast
    with False show ?thesis by (simp add: cmp_rev_head del: cmp_rev.simps(1))
  qed
qed simp_all

instantiation pattern :: linorder
begin

definition less_eq_pattern :: "pattern \<Rightarrow> pattern \<Rightarrow> bool" where
  "less_eq_pattern p q \<longleftrightarrow> pattern_cmp p q \<noteq> Greater"

definition less_pattern :: "pattern \<Rightarrow> pattern \<Rightarrow> bool" where
  "less_pattern p q \<longleftrightarrow> pattern_cmp p q = Lower"

instance
proof
  let ?r = "{(x, y). char_rank x < char_rank y}"
  have trans: "(xs, zs) \<in> lexord ?r" if "(xs, ys) \<in> lexord ?r" "(ys, zs) \<in> lexord ?r" for xs ys zs
    using that by (rule lexord_trans) (auto intro: transI)
  have irrefl: "(xs, xs) \<notin> lexord ?r" for xs by (rule lexord_irreflexive) simp
  have total: "(xs, ys) \<in> lexord ?r \<or> xs = ys \<or> (ys, xs) \<in> lexord ?r" for xs ys
    by (cases "cmp_rev xs ys") (simp_all add: cmp_rev_lex cmp_rev_Greater)
  note d = less_eq_pattern_def less_pattern_def pattern_cmp_def
  fix p q s :: pattern
  show "p < q \<longleftrightarrow> p \<le> q \<and> \<not> q \<le> p"
    using trans irrefl by (auto simp: d cmp_rev_lex cmp_rev_Greater)
  show "p \<le> p" using irrefl by (simp add: d cmp_rev_Greater)
  show "p \<le> q \<or> q \<le> p" using trans irrefl by (auto simp: d cmp_rev_Greater)
  show "p = q" if "p \<le> q" "q \<le> p"
    using that total [of "rev (pat_original p)" "rev (pat_original q)"]
    by (cases p; cases q) (auto simp: d cmp_rev_Greater)
  show "p \<le> s" if "p \<le> q" "q \<le> s"
    using that total trans irrefl by (simp add: d cmp_rev_Greater) metis
qed

end

text \<open>Names come before wildcards: at the last place where they differ, the pattern without a wildcard is first.\<close>

lemma wildcard_later:
  assumes "wildcard w" "\<not> wildcard c"
  shows "Pattern (a @ [c] @ suffix) < Pattern (b @ [w] @ suffix)" "Pattern suffix < Pattern (b @ [w] @ suffix)"
proof -
  have same: "cmp_rev (zs @ xs) (zs @ ys) = cmp_rev xs ys" for zs xs ys by (induction zs) simp_all
  have "c \<noteq> w" using assms by auto
  moreover have "char_rank c < char_rank w"
    using rank_other(2) [OF assms(2) assms(2)] assms(1) by (auto simp: wildcard_def rank_wildcard)
  ultimately have "cmp_rev (c # rev a) (w # rev b) = Lower" by (simp add: cmp_rev_head del: cmp_rev.simps(1))
  then show "Pattern (a @ [c] @ suffix) < Pattern (b @ [w] @ suffix)"
    using same [of "rev suffix" "c # rev a" "w # rev b"] by (simp add: less_pattern_def pattern_cmp_def)
  show "Pattern suffix < Pattern (b @ [w] @ suffix)"
    using same [of "rev suffix" "[]" "w # rev b"] by (simp add: less_pattern_def pattern_cmp_def)
qed

end
