(* ===== verification/Client_On_Gateway.thy ===== *)
theory Client_On_Gateway
  imports Filter_Engine Dns_Pattern
begin

text \<open>
  One client on a gateway (\<^verbatim>\<open>src/rust/connlib/tunnel/src/peer.rs\<close>): the resources it may access, the
  filters compiled from them, the translations of proxy addresses of DNS resources and the NAT. The
  containers and parsers of other crates are the record \<open>gw_env\<close>.
\<close>

section \<open>Addresses\<close>

text \<open>The derived order of \<^verbatim>\<open>IpAddr\<close>: IPv4 before IPv6, numerically within.\<close>

instantiation ip_addr :: linorder
begin

definition less_eq_ip_addr :: "ip_addr \<Rightarrow> ip_addr \<Rightarrow> bool" where
  "less_eq_ip_addr x y = (case (x, y) of
       (V4 a, V4 b) \<Rightarrow> a \<le> b | (V4 a, V6 b) \<Rightarrow> True | (V6 a, V4 b) \<Rightarrow> False | (V6 a, V6 b) \<Rightarrow> a \<le> b)"

definition less_ip_addr :: "ip_addr \<Rightarrow> ip_addr \<Rightarrow> bool" where
  "less_ip_addr x y \<longleftrightarrow> x \<le> y \<and> x \<noteq> y"

instance
  by standard (auto simp: less_eq_ip_addr_def less_ip_addr_def split: ip_addr.splits)

end

text \<open>\<^verbatim>\<open>BTreeSet::from_iter\<close>: the elements in order, each once.\<close>

definition btree_set :: "'a::linorder list \<Rightarrow> 'a list" where
  "btree_set xs = sort (remdups xs)"

definition network_contains_network :: "(ip_network \<Rightarrow> ip_addr \<Rightarrow> bool) \<Rightarrow> ip_network \<Rightarrow> ip_network \<Rightarrow> bool" where
  "network_contains_network C a b \<longleftrightarrow> C a (network_address b) \<and> netmask a \<le> netmask b"

text \<open>\<^verbatim>\<open>100.96.0.0/11\<close> and \<^verbatim>\<open>fd00:2021:1111:8000::/107\<close>\<close>

definition IPV4_RESOURCES :: ip_network where
  "IPV4_RESOURCES = Net4 0x64600000 11"

definition IPV6_RESOURCES :: ip_network where
  "IPV6_RESOURCES = Net6 0xfd002021111180000000000000000000 107"

definition is_dns_addr :: "(ip_network \<Rightarrow> ip_addr \<Rightarrow> bool) \<Rightarrow> ip_addr \<Rightarrow> bool" where
  "is_dns_addr C addr \<longleftrightarrow> C IPV4_RESOURCES addr \<or> C IPV6_RESOURCES addr"

section \<open>Resources\<close>

text \<open>Identifiers are UUIDs; a \<^verbatim>\<open>DateTime<Utc>\<close> is only compared.\<close>

type_synonym client_id = u128
type_synonym resource_id = u128
type_synonym gateway_id = u128
type_synonym datetime = int

text \<open>The names of resources, used for display only, are left out.\<close>

datatype resource_description =
    DescDns resource_id string filters
  | DescCidr resource_id ip_network filters
  | DescInternet resource_id

primrec description_id :: "resource_description \<Rightarrow> resource_id" where
  "description_id (DescDns i a f) = i"
| "description_id (DescCidr i n f) = i"
| "description_id (DescInternet i) = i"

datatype resource_on_gateway =
    ResCidr ip_network filters "datetime option"
  | ResDns string "(domain_name, ip_addr list) hmap" filters "datetime option"
  | ResInternet "datetime option"

primrec resource_new :: "resource_description \<Rightarrow> datetime option \<Rightarrow> resource_on_gateway" where
  "resource_new (DescDns i a f) expires_at = ResDns a [] f expires_at"
| "resource_new (DescCidr i n f) expires_at = ResCidr n f expires_at"
| "resource_new (DescInternet i) expires_at = ResInternet expires_at"

text \<open>Resources cannot change their type: a description of another type is only logged.\<close>

definition resource_update :: "resource_on_gateway \<Rightarrow> resource_description \<Rightarrow> resource_on_gateway" where
  "resource_update r d = (case (r, d) of
       (ResCidr n f e, DescCidr _ _ f') \<Rightarrow> ResCidr n f' e
     | (ResDns a ds f e, DescDns _ _ f') \<Rightarrow> ResDns a ds f' e
     | _ \<Rightarrow> r)"

primrec resource_ips :: "resource_on_gateway \<Rightarrow> ip_network list" where
  "resource_ips (ResCidr n f e) = [n]"
| "resource_ips (ResDns a domains f e) = map net_from (concat (hm_values domains))"
| "resource_ips (ResInternet e) = [DEFAULT_ROUTE4, DEFAULT_ROUTE6]"

primrec resource_filters :: "resource_on_gateway \<Rightarrow> filters" where
  "resource_filters (ResCidr n f e) = f"
| "resource_filters (ResDns a ds f e) = f"
| "resource_filters (ResInternet e) = []"

primrec resource_expires_at :: "resource_on_gateway \<Rightarrow> datetime option" where
  "resource_expires_at (ResCidr n f e) = e"
| "resource_expires_at (ResDns a ds f e) = e"
| "resource_expires_at (ResInternet e) = e"

definition resource_is_allowed :: "resource_on_gateway \<Rightarrow> datetime \<Rightarrow> bool" where
  "resource_is_allowed r now = (case resource_expires_at r of None \<Rightarrow> True | Some e \<Rightarrow> now < e)"

primrec is_cidr :: "resource_on_gateway \<Rightarrow> bool" where
  "is_cidr (ResCidr n f e) = True"
| "is_cidr (ResDns a ds f e) = False"
| "is_cidr (ResInternet e) = False"

primrec is_dns :: "resource_on_gateway \<Rightarrow> bool" where
  "is_dns (ResCidr n f e) = False"
| "is_dns (ResDns a ds f e) = True"
| "is_dns (ResInternet e) = False"

primrec is_internet_resource :: "resource_on_gateway \<Rightarrow> bool" where
  "is_internet_resource (ResCidr n f e) = False"
| "is_internet_resource (ResDns a ds f e) = False"
| "is_internet_resource (ResInternet e) = True"

section \<open>State\<close>

record ('bm, 'rs, 'ft) gw_env =
  gw_ep :: etherparse
  gw_bimap :: "'bm bimap"
  gw_ranges :: "'rs range_set"
  gw_filters :: "('ft, 'rs filter_engine) net_table"
  gw_contains :: "ip_network \<Rightarrow> ip_addr \<Rightarrow> bool"
  gw_glob :: glob

record translation_state =
  ts_resource_id :: resource_id
  ts_resolved_ip :: ip_addr

record resolve_dns_request =
  rd_domain :: domain_name
  rd_client :: client_id
  rd_resource :: resource_id
  rd_proxy_ips :: "ip_addr list"

datatype gateway_event =
    AddedIceCandidates client_id "string list"
  | RemovedIceCandidates client_id "string list"
  | ResolveDns resolve_dns_request

record ('bm, 'ft) client_on_gateway =
  cl_id :: client_id
  cl_ipv4 :: ipv4
  cl_ipv6 :: ipv6
  cl_resources :: "(resource_id, resource_on_gateway) hmap"
  cl_internet_resource_enabled :: bool
  cl_filters :: 'ft
  cl_permanent_translations :: "(ip_addr, translation_state) hmap"
  cl_nat_table :: "'bm nat_table"
  cl_buffered_events :: "gateway_event list"

definition client_new :: "('bm, 'rs, 'ft) gw_env \<Rightarrow> client_id \<Rightarrow> ipv4 \<Rightarrow> ipv6 \<Rightarrow> ('bm, 'ft) client_on_gateway" where
  "client_new G i a4 a6 =
     \<lparr>cl_id = i, cl_ipv4 = a4, cl_ipv6 = a6, cl_resources = [], cl_internet_resource_enabled = False,
      cl_filters = nt_new (gw_filters G), cl_permanent_translations = [],
      cl_nat_table = nat_default (gw_bimap G), cl_buffered_events = []\<rparr>"

definition allowed_ips :: "('bm, 'ft) client_on_gateway \<Rightarrow> ip_addr list" where
  "allowed_ips c = [V4 (cl_ipv4 c), V6 (cl_ipv6 c)]"

section \<open>Filters\<close>

definition insert_filters :: "('bm, 'rs, 'ft) gw_env \<Rightarrow> ip_network \<Rightarrow> filters list \<Rightarrow> 'ft \<Rightarrow> 'ft outcome" where
  "insert_filters G ip fs store =
     and_then (with_filters (gw_ranges G) fs) (\<lambda>engine. Done (nt_insert (gw_filters G) ip engine store))"

definition covering_filters :: "('bm, 'rs, 'ft) gw_env \<Rightarrow> resource_on_gateway list \<Rightarrow> ip_network \<Rightarrow> filters list" where
  "covering_filters G rs ip = map resource_filters
     (filter (\<lambda>r. \<exists>r_ip \<in> set (resource_ips r). network_contains_network (gw_contains G) r_ip ip) rs)"

definition recalculate_cidr_filters :: "('bm, 'rs, 'ft) gw_env \<Rightarrow> ('bm, 'ft) client_on_gateway \<Rightarrow> ('bm, 'ft) client_on_gateway outcome" where
  "recalculate_cidr_filters G c =
     (let rs = hm_values (cl_resources c) in
      and_then (fold_outcome (\<lambda>resource. fold_outcome (\<lambda>ip. insert_filters G ip (covering_filters G rs ip)) (resource_ips resource))
        (filter is_cidr rs) (cl_filters c)) (\<lambda>fs.
      Done (c\<lparr>cl_filters := fs\<rparr>)))"

definition recalculate_dns_filters :: "('bm, 'rs, 'ft) gw_env \<Rightarrow> ('bm, 'ft) client_on_gateway \<Rightarrow> ('bm, 'ft) client_on_gateway outcome" where
  "recalculate_dns_filters G c =
     and_then (fold_outcome (\<lambda>(addr, state) fs.
         case hm_get (cl_resources c) (ts_resource_id state) of
           None \<Rightarrow> Done fs
         | Some resource \<Rightarrow>
             and_then (assert_that (is_dns resource)) (\<lambda>_.
             insert_filters G (net_from addr) [resource_filters resource] fs))
       (cl_permanent_translations c) (cl_filters c)) (\<lambda>fs.
     Done (c\<lparr>cl_filters := fs\<rparr>))"

definition recalculate_filters :: "('bm, 'rs, 'ft) gw_env \<Rightarrow> ('bm, 'ft) client_on_gateway \<Rightarrow> ('bm, 'ft) client_on_gateway outcome" where
  "recalculate_filters G c =
     and_then (recalculate_cidr_filters G (c\<lparr>cl_filters := nt_new (gw_filters G)\<rparr>)) (\<lambda>c.
     and_then (recalculate_dns_filters G c) (\<lambda>c.
     Done (c\<lparr>cl_internet_resource_enabled := list_ex is_internet_resource (hm_values (cl_resources c))\<rparr>)))"

section \<open>Operations\<close>

definition is_emptied :: "('bm, 'ft) client_on_gateway \<Rightarrow> bool" where
  "is_emptied c \<longleftrightarrow> cl_resources c = []"

definition expire_resources :: "('bm, 'rs, 'ft) gw_env \<Rightarrow> datetime \<Rightarrow> ('bm, 'ft) client_on_gateway \<Rightarrow> ('bm, 'ft) client_on_gateway outcome" where
  "expire_resources G now c =
     (let any_expired = list_ex (\<lambda>r. \<not> resource_is_allowed r now) (hm_values (cl_resources c));
          c' = c\<lparr>cl_resources := filter (\<lambda>(_, r). resource_is_allowed r now) (cl_resources c)\<rparr>
      in if any_expired then recalculate_filters G c' else Done c')"

definition client_poll_event :: "('bm, 'ft) client_on_gateway \<Rightarrow> gateway_event option \<times> ('bm, 'ft) client_on_gateway" where
  "client_poll_event c = (case cl_buffered_events c of
       [] \<Rightarrow> (None, c)
     | e # es \<Rightarrow> (Some e, c\<lparr>cl_buffered_events := es\<rparr>))"

definition client_handle_timeout :: "('bm, 'rs, 'ft) gw_env \<Rightarrow> instant \<Rightarrow> ('bm, 'ft) client_on_gateway \<Rightarrow> ('bm, 'ft) client_on_gateway" where
  "client_handle_timeout G now c = c\<lparr>cl_nat_table := nat_handle_timeout (gw_bimap G) now (cl_nat_table c)\<rparr>"

definition remove_resource :: "('bm, 'rs, 'ft) gw_env \<Rightarrow> resource_id \<Rightarrow> ('bm, 'ft) client_on_gateway \<Rightarrow> ('bm, 'ft) client_on_gateway outcome" where
  "remove_resource G i c = recalculate_filters G (c\<lparr>cl_resources := hm_remove i (cl_resources c)\<rparr>)"

definition add_resource :: "('bm, 'rs, 'ft) gw_env \<Rightarrow> resource_description \<Rightarrow> datetime option
    \<Rightarrow> ('bm, 'ft) client_on_gateway \<Rightarrow> ('bm, 'ft) client_on_gateway outcome" where
  "add_resource G d expires_at c =
     (let r = (case hm_get (cl_resources c) (description_id d) of
                 None \<Rightarrow> resource_new d expires_at
               | Some r \<Rightarrow> resource_update r d)
      in recalculate_filters G (c\<lparr>cl_resources := hm_insert (description_id d) r (cl_resources c)\<rparr>))"

definition update_resource :: "('bm, 'rs, 'ft) gw_env \<Rightarrow> resource_description
    \<Rightarrow> ('bm, 'ft) client_on_gateway \<Rightarrow> ('bm, 'ft) client_on_gateway outcome" where
  "update_resource G d c = (case hm_get (cl_resources c) (description_id d) of
       None \<Rightarrow> Done c
     | Some r \<Rightarrow> recalculate_filters G (c\<lparr>cl_resources := hm_insert (description_id d) (resource_update r d) (cl_resources c)\<rparr>))"

definition is_allowed :: "('bm, 'ft) client_on_gateway \<Rightarrow> resource_id \<Rightarrow> bool" where
  "is_allowed c i \<longleftrightarrow> hm_get (cl_resources c) i \<noteq> None"

section \<open>NAT of DNS resources\<close>

definition ipv4_addresses :: "ip_addr list \<Rightarrow> ip_addr list" where
  "ipv4_addresses ips = filter is_ipv4 ips"

definition ipv6_addresses :: "ip_addr list \<Rightarrow> ip_addr list" where
  "ipv6_addresses ips = filter is_ipv6 ips"

definition mapped_ipv4 :: "ip_addr list \<Rightarrow> ip_addr list" where
  "mapped_ipv4 ips = (if ipv4_addresses ips \<noteq> [] then ipv4_addresses ips else ipv6_addresses ips)"

definition mapped_ipv6 :: "ip_addr list \<Rightarrow> ip_addr list" where
  "mapped_ipv6 ips = (if ipv6_addresses ips \<noteq> [] then ipv6_addresses ips else ipv4_addresses ips)"

text \<open>\<^verbatim>\<open>xs.zip(ys.cycle())\<close>; cycling through nothing yields nothing.\<close>

definition zip_cycle :: "'a list \<Rightarrow> 'b list \<Rightarrow> ('a \<times> 'b) list" where
  "zip_cycle xs ys = (if ys = [] then [] else map (\<lambda>i. (xs ! i, ys ! (i mod length ys))) [0..<length xs])"

definition ip_maps :: "ip_addr list \<Rightarrow> ip_addr list \<Rightarrow> (ip_addr \<times> ip_addr) list" where
  "ip_maps proxy_ips resolved_ips =
     zip_cycle (filter is_ipv4 proxy_ips) (mapped_ipv4 resolved_ips) @
     zip_cycle (filter is_ipv6 proxy_ips) (mapped_ipv6 resolved_ips)"

definition setup_nat :: "('bm, 'rs, 'ft) gw_env \<Rightarrow> domain_name \<Rightarrow> resource_id \<Rightarrow> ip_addr list \<Rightarrow> ip_addr list
    \<Rightarrow> ('bm, 'ft) client_on_gateway \<Rightarrow> (('bm, 'ft) client_on_gateway, unit) step" where
  "setup_nat G name i resolved_ips proxy_ips c = (case hm_get (cl_resources c) i of
       None \<Rightarrow> Done (c, Inl UnknownResource)
     | Some (ResDns address domains fs e) \<Rightarrow>
         (if \<not> is_subdomain (gw_glob G) name address then Done (c, Inl NotSubdomain)
          else and_then (recalculate_filters G
            (c\<lparr>cl_permanent_translations := fold (\<lambda>(proxy_ip, real_ip).
                 hm_insert proxy_ip \<lparr>ts_resource_id = i, ts_resolved_ip = real_ip\<rparr>)
                 (ip_maps proxy_ips resolved_ips) (cl_permanent_translations c),
               cl_resources := hm_insert i (ResDns address (hm_insert name resolved_ips domains) fs e) (cl_resources c)\<rparr>)) (\<lambda>c.
          Done (c, Inr ())))
     | Some _ \<Rightarrow> Done (c, Inl NotDnsResource))"

section \<open>Packets\<close>

definition ensure_client_ip :: "('bm, 'ft) client_on_gateway \<Rightarrow> ip_addr \<Rightarrow> tunnel_error + unit" where
  "ensure_client_ip c ip = (if ip \<in> set (allowed_ips c) then Inr () else Inl (NotClientIp ip))"

definition ensure_allowed_resource :: "('bm, 'rs, 'ft) gw_env \<Rightarrow> ('bm, 'ft) client_on_gateway \<Rightarrow> ip_addr
    \<Rightarrow> unsupported_protocol + protocol \<Rightarrow> tunnel_error + unit" where
  "ensure_allowed_resource G c ip protocol =
     (if cl_internet_resource_enabled c \<and> \<not> is_dns_addr (gw_contains G) ip then Inr ()
      else (case nt_longest_match (gw_filters G) (cl_filters c) ip of
              None \<Rightarrow> Inl (NoFilter ip)
            | Some (_, engine) \<Rightarrow> filter_apply (gw_ranges G) engine protocol))"

definition ensure_allowed_dst :: "('bm, 'rs, 'ft) gw_env \<Rightarrow> ('bm, 'ft) client_on_gateway \<Rightarrow> ip_packet \<Rightarrow> (tunnel_error, unit) fallible" where
  "ensure_allowed_dst G c packet =
     and_then (source (gw_ep G) packet) (\<lambda>src.
     try_then (Done (ensure_client_ip c src)) (\<lambda>_.
     and_then (destination (gw_ep G) packet) (\<lambda>dst.
     and_then (destination_protocol (gw_ep G) packet) (\<lambda>proto.
     Done (ensure_allowed_resource G c dst proto)))))"

definition transform_network_to_tun :: "('bm, 'rs, 'ft) gw_env \<Rightarrow> ip_packet \<Rightarrow> instant
    \<Rightarrow> ('bm, 'ft) client_on_gateway \<Rightarrow> (('bm, 'ft) client_on_gateway, ip_packet) step" where
  "transform_network_to_tun G packet now c =
     and_then (destination (gw_ep G) packet) (\<lambda>dst.
     case hm_get (cl_permanent_translations c) dst of
       None \<Rightarrow> Done (c, Inr packet)
     | Some state \<Rightarrow>
         and_then (translate_outgoing (gw_ep G) (gw_bimap G) (cl_nat_table c) packet (ts_resolved_ip state) now) (\<lambda>(t, r).
         let c = c\<lparr>cl_nat_table := t\<rparr> in
         case r of
           Inl e \<Rightarrow> Done (c, Inl e)
         | Inr (src_proto, real_ip) \<Rightarrow>
             and_then (translate_destination (gw_ep G) packet (cl_ipv4 c) (cl_ipv6 c) src_proto real_ip) (\<lambda>r. case r of
               Inl e \<Rightarrow> Done (c, Inl (PacketError e))
             | Inr packet \<Rightarrow> and_then (update_checksum (gw_ep G) packet) (\<lambda>packet. Done (c, Inr packet)))))"

definition translate_outbound :: "('bm, 'rs, 'ft) gw_env \<Rightarrow> ip_packet \<Rightarrow> instant
    \<Rightarrow> ('bm, 'ft) client_on_gateway \<Rightarrow> (('bm, 'ft) client_on_gateway, ip_packet option) step" where
  "translate_outbound G packet now c =
     and_then (ensure_allowed_dst G c packet) (\<lambda>r. case r of
       Inl e \<Rightarrow> Done (c, Inr None)
     | Inr _ \<Rightarrow>
         and_then (transform_network_to_tun G packet now c) (\<lambda>(c, r). case r of
           Inl e \<Rightarrow> Done (c, Inl e)
         | Inr packet \<Rightarrow> Done (c, Inr (Some packet))))"

definition transform_tun_to_network :: "('bm, 'rs, 'ft) gw_env \<Rightarrow> ip_packet \<Rightarrow> instant
    \<Rightarrow> ('bm, 'ft) client_on_gateway \<Rightarrow> (('bm, 'ft) client_on_gateway, ip_packet option) step" where
  "transform_tun_to_network G packet now c =
     and_then (translate_incoming (gw_ep G) (gw_bimap G) (cl_nat_table c) packet now) (\<lambda>(t, r).
     let c = c\<lparr>cl_nat_table := t\<rparr> in
     case r of
       Inl e \<Rightarrow> Done (c, Inl e)
     | Inr (IncomingOk proto ip) \<Rightarrow>
         and_then (translate_source (gw_ep G) packet (cl_ipv4 c) (cl_ipv6 c) proto ip) (\<lambda>r. case r of
           Inl e \<Rightarrow> Done (c, Inl (PacketError e))
         | Inr packet \<Rightarrow> and_then (update_checksum (gw_ep G) packet) (\<lambda>packet. Done (c, Inr (Some packet))))
     | Inr (DestinationUnreachable prototype) \<Rightarrow>
         and_then (into_packet (gw_ep G) prototype (cl_ipv4 c) (cl_ipv6 c)) (\<lambda>r. case r of
           Inl e \<Rightarrow> Done (c, Inl (PacketError e))
         | Inr icmp_error \<Rightarrow> Done (c, Inr (Some icmp_error)))
     | Inr ExpiredNatSession \<Rightarrow> Done (c, Inr None)
     | Inr NoNatSession \<Rightarrow> Done (c, Inr (Some packet)))"

definition translate_inbound :: "('bm, 'rs, 'ft) gw_env \<Rightarrow> ip_packet \<Rightarrow> instant
    \<Rightarrow> ('bm, 'ft) client_on_gateway \<Rightarrow> (('bm, 'ft) client_on_gateway, ip_packet option) step" where
  "translate_inbound G packet now c =
     and_then (transform_tun_to_network G packet now c) (\<lambda>(c, r). case r of
       Inl e \<Rightarrow> Done (c, Inl e)
     | Inr None \<Rightarrow> Done (c, Inr None)
     | Inr (Some packet) \<Rightarrow>
         and_then (destination (gw_ep G) packet) (\<lambda>dst. case ensure_client_ip c dst of
           Inl e \<Rightarrow> Done (c, Inl e)
         | Inr _ \<Rightarrow>
             and_then (source (gw_ep G) packet) (\<lambda>src.
             and_then (source_protocol (gw_ep G) packet) (\<lambda>proto.
             Done (c, Inr (case ensure_allowed_resource G c src proto of Inl e \<Rightarrow> None | Inr _ \<Rightarrow> Some packet))))))"

end
