(* ===== verification/Client_Invariant.thy ===== *)
theory Client_Invariant
  imports Client_On_Gateway
begin

text \<open>
  The invariant of a client on a gateway: the compiled filters are those of its current resources and
  translations. Every change of the resources keeps it, and under it the code decides about a packet
  like the reference \<open>may_access\<close>, which reads the resources directly.
\<close>

section \<open>The environment\<close>

definition gw_laws :: "('bm, 'rs, 'ft) gw_env \<Rightarrow> bool" where
  "gw_laws G \<longleftrightarrow> wire_laws (gw_ep G) \<and> bimap_laws (gw_bimap G) \<and> range_set_laws (gw_ranges G) \<and>
     net_laws (gw_contains G) \<and> net_table_laws (gw_contains G) (gw_filters G)"

lemma gw_lawsD:
  assumes "gw_laws G"
  shows "wire_laws (gw_ep G)" "bimap_laws (gw_bimap G)" "range_set_laws (gw_ranges G)"
    "net_laws (gw_contains G)" "net_table_laws (gw_contains G) (gw_filters G)"
  using assms by (simp_all add: gw_laws_def)

section \<open>Expected filters\<close>

definition host_of :: "ip_network \<Rightarrow> ip_addr option" where
  "host_of n = (case n of
       Net4 a k \<Rightarrow> if k = 32 then Some (V4 a) else None
     | Net6 a k \<Rightarrow> if k = 128 then Some (V6 a) else None)"

lemma host_of_iff: "host_of n = Some ip \<longleftrightarrow> n = net_from ip"
  by (cases n; cases ip) (auto simp: host_of_def net_from_def)

lemma host_of_net_from [simp]: "host_of (net_from ip) = Some ip"
  by (simp add: host_of_iff)

text \<open>The filters of the DNS resource that a proxy address belongs to.\<close>

definition dns_filters :: "('bm, 'ft) client_on_gateway \<Rightarrow> ip_addr \<Rightarrow> filters option" where
  "dns_filters c ip = (case hm_get (cl_permanent_translations c) ip of
       None \<Rightarrow> None
     | Some s \<Rightarrow> map_option resource_filters (hm_get (cl_resources c) (ts_resource_id s)))"

definition cidr_networks :: "('bm, 'ft) client_on_gateway \<Rightarrow> ip_network list" where
  "cidr_networks c = concat (map resource_ips (filter is_cidr (hm_values (cl_resources c))))"

definition expected_filters :: "('bm, 'rs, 'ft) gw_env \<Rightarrow> ('bm, 'ft) client_on_gateway \<Rightarrow> ip_network \<Rightarrow> filters list option" where
  "expected_filters G c n = (case Option.bind (host_of n) (dns_filters c) of
       Some f \<Rightarrow> Some [f]
     | None \<Rightarrow> if n \<in> set (cidr_networks c) then Some (covering_filters G (hm_values (cl_resources c)) n) else None)"

definition compiled :: "('bm, 'rs, 'ft) gw_env \<Rightarrow> filters list option \<Rightarrow> 'rs filter_engine option \<Rightarrow> bool" where
  "compiled G fs engine = (case fs of
       None \<Rightarrow> engine = None
     | Some fs \<Rightarrow> \<exists>e. engine = Some e \<and> with_filters (gw_ranges G) fs = Done e)"

section \<open>The invariant\<close>

datatype resource_kind = KindCidr | KindDns | KindInternet

primrec resource_kind_of :: "resource_on_gateway \<Rightarrow> resource_kind" where
  "resource_kind_of (ResCidr n f e) = KindCidr"
| "resource_kind_of (ResDns a ds f e) = KindDns"
| "resource_kind_of (ResInternet e) = KindInternet"

primrec description_kind :: "resource_description \<Rightarrow> resource_kind" where
  "description_kind (DescDns i a f) = KindDns"
| "description_kind (DescCidr i n f) = KindCidr"
| "description_kind (DescInternet i) = KindInternet"

lemma is_dns_kind: "is_dns r \<longleftrightarrow> resource_kind_of r = KindDns"
  by (cases r) simp_all

primrec resource_ok :: "resource_on_gateway \<Rightarrow> bool" where
  "resource_ok (ResCidr n f e) = (net_wf n \<and> list_all filter_ok f)"
| "resource_ok (ResDns a ds f e) = list_all filter_ok f"
| "resource_ok (ResInternet e) = True"

text \<open>
  The portal describes networks and port ranges that exist, and the type of a resource is fixed by its
  identifier (the function \<open>kind\<close>).
\<close>

primrec description_ok :: "resource_description \<Rightarrow> bool" where
  "description_ok (DescDns i a f) = list_all filter_ok f"
| "description_ok (DescCidr i n f) = (net_wf n \<and> list_all filter_ok f)"
| "description_ok (DescInternet i) = True"

definition resources_ok :: "(resource_id \<Rightarrow> resource_kind) \<Rightarrow> ('bm, 'ft) client_on_gateway \<Rightarrow> bool" where
  "resources_ok kind c \<longleftrightarrow> hm_wf (cl_resources c) \<and> hm_wf (cl_permanent_translations c) \<and>
     (\<forall>i r. hm_get (cl_resources c) i = Some r \<longrightarrow> resource_ok r \<and> resource_kind_of r = kind i) \<and>
     (\<forall>ip s. hm_get (cl_permanent_translations c) ip = Some s \<longrightarrow> kind (ts_resource_id s) = KindDns)"

definition filters_current :: "('bm, 'rs, 'ft) gw_env \<Rightarrow> ('bm, 'ft) client_on_gateway \<Rightarrow> bool" where
  "filters_current G c \<longleftrightarrow>
     (\<forall>n. compiled G (expected_filters G c n) (nt_exact_match (gw_filters G) (cl_filters c) n)) \<and>
     (cl_internet_resource_enabled c \<longleftrightarrow> (\<exists>r \<in> set (hm_values (cl_resources c)). is_internet_resource r))"

definition client_inv :: "('bm, 'rs, 'ft) gw_env \<Rightarrow> (resource_id \<Rightarrow> resource_kind) \<Rightarrow> ('bm, 'ft) client_on_gateway \<Rightarrow> bool" where
  "client_inv G kind c \<longleftrightarrow> resources_ok kind c \<and> filters_current G c \<and> nat_inv (gw_bimap G) (cl_nat_table c)"

section \<open>Recalculation\<close>

lemma resource_filters_ok: "resource_ok r \<Longrightarrow> x \<in> set (resource_filters r) \<Longrightarrow> filter_ok x"
  by (cases r) (auto simp: list_all_iff)

lemma insert_filters_ok:
  assumes G: "gw_laws G" and ok: "\<forall>f \<in> set fs. \<forall>x \<in> set f. filter_ok x"
  shows "\<exists>e. with_filters (gw_ranges G) fs = Done e \<and> insert_filters G n fs store = Done (nt_insert (gw_filters G) n e store)"
  using with_filters_permits [OF gw_lawsD(3) [OF G] ok] by (auto simp: insert_filters_def)

lemma covering_filters_ok:
  assumes "\<forall>r \<in> set rs. resource_ok r"
  shows "\<forall>f \<in> set (covering_filters G rs n). \<forall>x \<in> set f. filter_ok x"
  using assms by (auto simp: covering_filters_def dest: resource_filters_ok)

text \<open>A loop that writes the filters of some networks.\<close>

lemma insert_filters_fold:
  assumes G: "gw_laws G" and ok: "\<And>n. \<forall>f \<in> set (fs n). \<forall>x \<in> set f. filter_ok x"
  shows "\<exists>store'. fold_outcome (\<lambda>n. insert_filters G n (fs n)) ns store = Done store' \<and>
     (\<forall>m. if m \<in> set ns then compiled G (Some (fs m)) (nt_exact_match (gw_filters G) store' m)
          else nt_exact_match (gw_filters G) store' m = nt_exact_match (gw_filters G) store m)"
proof (induction ns arbitrary: store)
  case (Cons n ns)
  obtain e where e: "with_filters (gw_ranges G) (fs n) = Done e" "insert_filters G n (fs n) store = Done (nt_insert (gw_filters G) n e store)"
    using insert_filters_ok [OF G ok] by blast
  obtain s' where s': "fold_outcome (\<lambda>n. insert_filters G n (fs n)) ns (nt_insert (gw_filters G) n e store) = Done s'"
     "\<And>m. if m \<in> set ns then compiled G (Some (fs m)) (nt_exact_match (gw_filters G) s' m)
          else nt_exact_match (gw_filters G) s' m = nt_exact_match (gw_filters G) (nt_insert (gw_filters G) n e store) m"
    using Cons.IH by blast
  have "if m \<in> set (n # ns) then compiled G (Some (fs m)) (nt_exact_match (gw_filters G) s' m)
          else nt_exact_match (gw_filters G) s' m = nt_exact_match (gw_filters G) store m" for m
    using s'(2) [of m] e(1) by (cases "m \<in> set ns") (auto simp: net_table_exact(2) [OF gw_lawsD(5) [OF G]] compiled_def)
  with s'(1) e(2) show ?case by auto
qed simp

lemma fold_outcome_append: "fold_outcome f (ys @ zs) s = and_then (fold_outcome f ys s) (fold_outcome f zs)"
proof (induction ys arbitrary: s)
  case (Cons y ys)
  then have "fold_outcome f (ys @ zs) = (\<lambda>s. and_then (fold_outcome f ys s) (fold_outcome f zs))" by (simp add: fun_eq_iff)
  then show ?case by (simp add: and_then_assoc)
qed simp

lemma fold_outcome_concat:
  "fold_outcome (\<lambda>x. fold_outcome f (g x)) xs s = fold_outcome f (concat (map g xs)) s"
proof (induction xs arbitrary: s)
  case (Cons x xs)
  then have "fold_outcome (\<lambda>x. fold_outcome f (g x)) xs = fold_outcome f (concat (map g xs))" by (simp add: fun_eq_iff)
  then show ?case by (simp add: fold_outcome_append)
qed simp

lemma values_ok:
  assumes "resources_ok kind c"
  shows "\<forall>r \<in> set (hm_values (cl_resources c)). resource_ok r"
  using assms by (auto simp: resources_ok_def hm_values_iff)

lemma recalculate_cidr:
  assumes G: "gw_laws G" and ok: "resources_ok kind c"
  shows "\<exists>store. recalculate_cidr_filters G (c\<lparr>cl_filters := nt_new (gw_filters G)\<rparr>) = Done (c\<lparr>cl_filters := store\<rparr>) \<and>
     (\<forall>n. compiled G (if n \<in> set (cidr_networks c) then Some (covering_filters G (hm_values (cl_resources c)) n) else None)
        (nt_exact_match (gw_filters G) store n))"
proof -
  let ?rs = "hm_values (cl_resources c)"
  obtain store where store: "fold_outcome (\<lambda>n. insert_filters G n (covering_filters G ?rs n)) (cidr_networks c) (nt_new (gw_filters G)) = Done store"
     "\<And>m. if m \<in> set (cidr_networks c) then compiled G (Some (covering_filters G ?rs m)) (nt_exact_match (gw_filters G) store m)
          else nt_exact_match (gw_filters G) store m = nt_exact_match (gw_filters G) (nt_new (gw_filters G)) m"
    using insert_filters_fold [OF G, of "covering_filters G ?rs" "cidr_networks c" "nt_new (gw_filters G)"]
      covering_filters_ok [OF values_ok [OF ok]] by blast
  have "recalculate_cidr_filters G (c\<lparr>cl_filters := nt_new (gw_filters G)\<rparr>) = Done (c\<lparr>cl_filters := store\<rparr>)"
    using store(1) by (simp add: recalculate_cidr_filters_def fold_outcome_concat cidr_networks_def)
  moreover have "compiled G (if n \<in> set (cidr_networks c) then Some (covering_filters G ?rs n) else None)
        (nt_exact_match (gw_filters G) store n)" for n
    using store(2) [of n] by (simp add: net_table_exact(1) [OF gw_lawsD(5) [OF G]] compiled_def split: if_splits)
  ultimately show ?thesis by blast
qed

text \<open>The loop over the translations: the last write to a host wins over the networks before it.\<close>

definition dns_step :: "('bm, 'rs, 'ft) gw_env \<Rightarrow> (resource_id, resource_on_gateway) hmap
    \<Rightarrow> ip_addr \<times> translation_state \<Rightarrow> 'ft \<Rightarrow> 'ft outcome" where
  "dns_step G rs = (\<lambda>(addr, state) fs. case hm_get rs (ts_resource_id state) of
       None \<Rightarrow> Done fs
     | Some resource \<Rightarrow>
         and_then (assert_that (is_dns resource)) (\<lambda>_.
         insert_filters G (net_from addr) [resource_filters resource] fs))"

definition dns_lookup :: "(resource_id, resource_on_gateway) hmap \<Rightarrow> (ip_addr, translation_state) hmap \<Rightarrow> ip_addr \<Rightarrow> filters option" where
  "dns_lookup rs ts ip = Option.bind (map_of ts ip) (\<lambda>s. map_option resource_filters (hm_get rs (ts_resource_id s)))"

lemma dns_lookup_simps [simp]:
  "dns_lookup rs [] ip = None"
  "dns_lookup rs ((addr, s) # ts) ip = (if ip = addr then map_option resource_filters (hm_get rs (ts_resource_id s)) else dns_lookup rs ts ip)"
  by (simp_all add: dns_lookup_def)

lemma dns_lookup_new: "map_of ts ip = None \<Longrightarrow> dns_lookup rs ts ip = None"
  by (simp add: dns_lookup_def)

lemma dns_step_fold:
  assumes G: "gw_laws G"
    and ok: "\<And>i r. hm_get rs i = Some r \<Longrightarrow> resource_ok r"
    and dns: "\<And>ip s r. (ip, s) \<in> set ts \<Longrightarrow> hm_get rs (ts_resource_id s) = Some r \<Longrightarrow> is_dns r"
    and dist: "distinct (map fst ts)"
  shows "\<exists>store'. fold_outcome (dns_step G rs) ts store = Done store' \<and>
     (\<forall>m. case Option.bind (host_of m) (dns_lookup rs ts) of
        Some f \<Rightarrow> compiled G (Some [f]) (nt_exact_match (gw_filters G) store' m)
      | None \<Rightarrow> nt_exact_match (gw_filters G) store' m = nt_exact_match (gw_filters G) store m)"
  using dns dist
proof (induction ts arbitrary: store)
  case Nil
  then show ?case by (auto split: option.splits simp: bind_eq_Some_conv dns_lookup_def)
next
  case (Cons t ts)
  obtain addr s where t: "t = (addr, s)" by (cases t)
  have new: "map_of ts addr = None" using Cons.prems(2) by (simp add: t map_of_eq_None_iff)
  show ?case
  proof (cases "hm_get rs (ts_resource_id s)")
    case None
    then have step: "dns_step G rs t store = Done store" by (simp add: dns_step_def t)
    obtain s' where s': "fold_outcome (dns_step G rs) ts store = Done s'"
      "\<And>m. case Option.bind (host_of m) (dns_lookup rs ts) of
        Some f \<Rightarrow> compiled G (Some [f]) (nt_exact_match (gw_filters G) s' m)
      | None \<Rightarrow> nt_exact_match (gw_filters G) s' m = nt_exact_match (gw_filters G) store m"
      using Cons.IH [of store] Cons.prems by auto
    have same: "dns_lookup rs (t # ts) = dns_lookup rs ts"
      using None dns_lookup_new [OF new] by (auto simp: t)
    have "fold_outcome (dns_step G rs) (t # ts) store = Done s'" using step s'(1) by simp
    then show ?thesis using s'(2) unfolding same by blast
  next
    case (Some r)
    have "is_dns r" using Cons.prems(1) [of addr s r] Some by (simp add: t)
    moreover have "\<forall>f \<in> set [resource_filters r]. \<forall>x \<in> set f. filter_ok x"
      using resource_filters_ok [OF ok [OF Some]] by auto
    then obtain e where e: "with_filters (gw_ranges G) [resource_filters r] = Done e"
       "insert_filters G (net_from addr) [resource_filters r] store = Done (nt_insert (gw_filters G) (net_from addr) e store)"
      using insert_filters_ok [OF G] by blast
    ultimately have step: "dns_step G rs t store = Done (nt_insert (gw_filters G) (net_from addr) e store)"
      using Some by (simp add: dns_step_def t)
    let ?store = "nt_insert (gw_filters G) (net_from addr) e store"
    obtain s' where s': "fold_outcome (dns_step G rs) ts ?store = Done s'"
      "\<And>m. case Option.bind (host_of m) (dns_lookup rs ts) of
        Some f \<Rightarrow> compiled G (Some [f]) (nt_exact_match (gw_filters G) s' m)
      | None \<Rightarrow> nt_exact_match (gw_filters G) s' m = nt_exact_match (gw_filters G) ?store m"
      using Cons.IH [of ?store] Cons.prems by auto
    have "case Option.bind (host_of m) (dns_lookup rs (t # ts)) of
        Some f \<Rightarrow> compiled G (Some [f]) (nt_exact_match (gw_filters G) s' m)
      | None \<Rightarrow> nt_exact_match (gw_filters G) s' m = nt_exact_match (gw_filters G) store m" for m
    proof (cases "host_of m = Some addr")
      case True
      then have m: "m = net_from addr" by (simp add: host_of_iff)
      show ?thesis using s'(2) [of m] dns_lookup_new [OF new] e(1) Some
        by (simp add: True t m net_table_exact(2) [OF gw_lawsD(5) [OF G]] compiled_def)
    next
      case False
      then have m: "m \<noteq> net_from addr" by (auto simp: host_of_iff)
      have "Option.bind (host_of m) (dns_lookup rs (t # ts)) = Option.bind (host_of m) (dns_lookup rs ts)"
        using False by (cases "host_of m") (auto simp: t)
      then show ?thesis using s'(2) [of m] m by (simp only: net_table_exact(2) [OF gw_lawsD(5) [OF G]] if_False)
    qed
    with step s'(1) show ?thesis by auto
  qed
qed

lemma recalculate_dns:
  assumes G: "gw_laws G" and ok: "resources_ok kind c"
  shows "\<exists>store'. recalculate_dns_filters G (c\<lparr>cl_filters := store\<rparr>) = Done (c\<lparr>cl_filters := store'\<rparr>) \<and>
     (\<forall>m. case Option.bind (host_of m) (dns_filters c) of
        Some f \<Rightarrow> compiled G (Some [f]) (nt_exact_match (gw_filters G) store' m)
      | None \<Rightarrow> nt_exact_match (gw_filters G) store' m = nt_exact_match (gw_filters G) store m)"
proof -
  let ?rs = "cl_resources c" and ?ts = "cl_permanent_translations c"
  have "\<exists>store'. fold_outcome (dns_step G ?rs) ?ts store = Done store' \<and>
     (\<forall>m. case Option.bind (host_of m) (dns_lookup ?rs ?ts) of
        Some f \<Rightarrow> compiled G (Some [f]) (nt_exact_match (gw_filters G) store' m)
      | None \<Rightarrow> nt_exact_match (gw_filters G) store' m = nt_exact_match (gw_filters G) store m)"
  proof (rule dns_step_fold [OF G])
    show "resource_ok r" if "hm_get ?rs i = Some r" for i r using ok that by (simp add: resources_ok_def)
    show "distinct (map fst ?ts)" using ok by (simp add: resources_ok_def hm_wf_def)
    show "is_dns r" if "(ip, s) \<in> set ?ts" "hm_get ?rs (ts_resource_id s) = Some r" for ip s r
    proof -
      have "hm_get ?ts ip = Some s" using that(1) ok by (simp add: resources_ok_def hm_in_set_iff)
      then have "kind (ts_resource_id s) = KindDns" using ok unfolding resources_ok_def by blast
      moreover have "resource_kind_of r = kind (ts_resource_id s)" using that(2) ok unfolding resources_ok_def by blast
      ultimately show ?thesis by (simp add: is_dns_kind)
    qed
  qed
  moreover have "dns_lookup ?rs ?ts = dns_filters c"
    by (rule ext) (simp add: dns_filters_def dns_lookup_def hm_get_def split: option.splits)
  ultimately show ?thesis by (auto simp: recalculate_dns_filters_def dns_step_def)
qed

lemma expected_filters_cong:
  assumes "cl_resources c = cl_resources d" "cl_permanent_translations c = cl_permanent_translations d"
  shows "expected_filters G c = expected_filters G d"
proof -
  have dns: "dns_filters c = dns_filters d" using assms by (simp add: fun_eq_iff dns_filters_def split: option.splits)
  have cidr: "cidr_networks c = cidr_networks d" using assms by (simp add: cidr_networks_def)
  show ?thesis by (rule ext) (simp only: expected_filters_def dns cidr assms(1))
qed

text \<open>What the operations do besides the filters: the client with other filters.\<close>

lemma recalculate_filters_ok:
  assumes G: "gw_laws G" and ok: "resources_ok kind c" and nat: "nat_inv (gw_bimap G) (cl_nat_table c)"
  shows "\<exists>store flag. recalculate_filters G c = Done (c\<lparr>cl_filters := store, cl_internet_resource_enabled := flag\<rparr>) \<and>
     client_inv G kind (c\<lparr>cl_filters := store, cl_internet_resource_enabled := flag\<rparr>)"
proof -
  let ?rs = "hm_values (cl_resources c)"
  obtain s1 where s1: "recalculate_cidr_filters G (c\<lparr>cl_filters := nt_new (gw_filters G)\<rparr>) = Done (c\<lparr>cl_filters := s1\<rparr>)"
     "\<And>n. compiled G (if n \<in> set (cidr_networks c) then Some (covering_filters G ?rs n) else None) (nt_exact_match (gw_filters G) s1 n)"
    using recalculate_cidr [OF G ok] by blast
  obtain s2 where s2: "recalculate_dns_filters G (c\<lparr>cl_filters := s1\<rparr>) = Done (c\<lparr>cl_filters := s2\<rparr>)"
     "\<And>m. case Option.bind (host_of m) (dns_filters c) of
        Some f \<Rightarrow> compiled G (Some [f]) (nt_exact_match (gw_filters G) s2 m)
      | None \<Rightarrow> nt_exact_match (gw_filters G) s2 m = nt_exact_match (gw_filters G) s1 m"
    using recalculate_dns [OF G ok] by blast
  let ?c = "c\<lparr>cl_filters := s2, cl_internet_resource_enabled := list_ex is_internet_resource ?rs\<rparr>"
  have "compiled G (expected_filters G c n) (nt_exact_match (gw_filters G) s2 n)" for n
    using s1(2) [of n] s2(2) [of n] by (simp add: expected_filters_def split: option.splits if_splits)
  moreover have "expected_filters G ?c = expected_filters G c" by (rule expected_filters_cong) simp_all
  ultimately have "filters_current G ?c" by (simp add: filters_current_def list_ex_iff)
  moreover have "resources_ok kind ?c" using ok by (simp add: resources_ok_def)
  ultimately have "client_inv G kind ?c" using nat by (simp add: client_inv_def)
  moreover have "recalculate_filters G c = Done ?c" using s1(1) s2(1) by (simp add: recalculate_filters_def)
  ultimately show ?thesis by blast
qed

section \<open>Operations keep the invariant\<close>

lemma client_new_inv:
  assumes "gw_laws G"
  shows "client_inv G kind (client_new G i a4 a6)"
proof -
  let ?c = "client_new G i a4 a6"
  have "dns_filters ?c = (\<lambda>_. None)" by (simp add: fun_eq_iff dns_filters_def client_new_def)
  moreover have "cidr_networks ?c = []" by (simp add: cidr_networks_def client_new_def)
  ultimately have "expected_filters G ?c n = None" for n
    by (cases "host_of n") (simp_all add: expected_filters_def)
  then show ?thesis using nat_default_inv [OF gw_lawsD(2) [OF assms]] net_table_exact(1) [OF gw_lawsD(5) [OF assms]]
    by (simp add: client_inv_def resources_ok_def filters_current_def compiled_def) (simp add: client_new_def)
qed

lemma resource_new_ok: "description_ok d \<Longrightarrow> resource_ok (resource_new d e) \<and> resource_kind_of (resource_new d e) = description_kind d"
  by (cases d) simp_all

lemma resource_update_ok: "resource_ok r \<Longrightarrow> description_ok d \<Longrightarrow> resource_ok (resource_update r d) \<and> resource_kind_of (resource_update r d) = resource_kind_of r"
  by (cases r; cases d) (simp_all add: resource_update_def)

lemma add_resource_ok:
  assumes G: "gw_laws G" and inv: "client_inv G kind c" and d: "description_ok d" "description_kind d = kind (description_id d)"
  shows "\<exists>c'. add_resource G d e c = Done c' \<and> client_inv G kind c' \<and>
     cl_id c' = cl_id c \<and> cl_ipv4 c' = cl_ipv4 c \<and> cl_ipv6 c' = cl_ipv6 c \<and> cl_nat_table c' = cl_nat_table c \<and>
     cl_permanent_translations c' = cl_permanent_translations c \<and>
     (\<forall>i. hm_get (cl_resources c') i = (if i = description_id d then
        Some (case hm_get (cl_resources c) i of None \<Rightarrow> resource_new d e | Some r \<Rightarrow> resource_update r d)
      else hm_get (cl_resources c) i))"
proof -
  let ?r = "case hm_get (cl_resources c) (description_id d) of None \<Rightarrow> resource_new d e | Some r \<Rightarrow> resource_update r d"
  let ?c = "c\<lparr>cl_resources := hm_insert (description_id d) ?r (cl_resources c)\<rparr>"
  have "resource_ok ?r \<and> resource_kind_of ?r = kind (description_id d)"
  proof (cases "hm_get (cl_resources c) (description_id d)")
    case None
    then show ?thesis using resource_new_ok [OF d(1)] d(2) by simp
  next
    case (Some r)
    then have "resource_ok r \<and> resource_kind_of r = kind (description_id d)" using inv by (simp add: client_inv_def resources_ok_def)
    then show ?thesis using Some resource_update_ok [of r d] d(1) by simp
  qed
  then have "resources_ok kind ?c" using inv by (auto simp: client_inv_def resources_ok_def)
  moreover have "nat_inv (gw_bimap G) (cl_nat_table ?c)" using inv by (simp add: client_inv_def)
  ultimately obtain store flag where
      "recalculate_filters G ?c = Done (?c\<lparr>cl_filters := store, cl_internet_resource_enabled := flag\<rparr>)"
      "client_inv G kind (?c\<lparr>cl_filters := store, cl_internet_resource_enabled := flag\<rparr>)"
    using recalculate_filters_ok [OF G] by blast
  then show ?thesis by (simp add: add_resource_def)
qed

lemma update_resource_ok:
  assumes G: "gw_laws G" and inv: "client_inv G kind c" and d: "description_ok d"
  shows "\<exists>c'. update_resource G d c = Done c' \<and> client_inv G kind c' \<and>
     cl_id c' = cl_id c \<and> cl_ipv4 c' = cl_ipv4 c \<and> cl_ipv6 c' = cl_ipv6 c \<and> cl_nat_table c' = cl_nat_table c \<and>
     cl_permanent_translations c' = cl_permanent_translations c \<and>
     (\<forall>i. hm_get (cl_resources c') i = (if i = description_id d then map_option (\<lambda>r. resource_update r d) (hm_get (cl_resources c) i)
      else hm_get (cl_resources c) i))"
proof (cases "hm_get (cl_resources c) (description_id d)")
  case None
  with inv show ?thesis by (auto simp: update_resource_def)
next
  case (Some r)
  let ?c = "c\<lparr>cl_resources := hm_insert (description_id d) (resource_update r d) (cl_resources c)\<rparr>"
  have "resource_ok r \<and> resource_kind_of r = kind (description_id d)" using inv Some by (simp add: client_inv_def resources_ok_def)
  then have "resource_ok (resource_update r d) \<and> resource_kind_of (resource_update r d) = kind (description_id d)"
    using resource_update_ok [of r d] d by simp
  then have "resources_ok kind ?c" using inv by (auto simp: client_inv_def resources_ok_def)
  moreover have "nat_inv (gw_bimap G) (cl_nat_table ?c)" using inv by (simp add: client_inv_def)
  ultimately obtain store flag where
      "recalculate_filters G ?c = Done (?c\<lparr>cl_filters := store, cl_internet_resource_enabled := flag\<rparr>)"
      "client_inv G kind (?c\<lparr>cl_filters := store, cl_internet_resource_enabled := flag\<rparr>)"
    using recalculate_filters_ok [OF G] by blast
  then show ?thesis using Some by (simp add: update_resource_def)
qed

lemma remove_resource_ok:
  assumes G: "gw_laws G" and inv: "client_inv G kind c"
  shows "\<exists>c'. remove_resource G i c = Done c' \<and> client_inv G kind c' \<and>
     cl_id c' = cl_id c \<and> cl_ipv4 c' = cl_ipv4 c \<and> cl_ipv6 c' = cl_ipv6 c \<and> cl_nat_table c' = cl_nat_table c \<and>
     cl_permanent_translations c' = cl_permanent_translations c \<and> cl_resources c' = hm_remove i (cl_resources c)"
proof -
  let ?c = "c\<lparr>cl_resources := hm_remove i (cl_resources c)\<rparr>"
  have "resources_ok kind ?c" using inv by (auto simp: client_inv_def resources_ok_def)
  moreover have "nat_inv (gw_bimap G) (cl_nat_table ?c)" using inv by (simp add: client_inv_def)
  ultimately obtain store flag where
      "recalculate_filters G ?c = Done (?c\<lparr>cl_filters := store, cl_internet_resource_enabled := flag\<rparr>)"
      "client_inv G kind (?c\<lparr>cl_filters := store, cl_internet_resource_enabled := flag\<rparr>)"
    using recalculate_filters_ok [OF G] by blast
  then show ?thesis by (simp add: remove_resource_def)
qed

lemma expire_resources_ok:
  assumes G: "gw_laws G" and inv: "client_inv G kind c"
  shows "\<exists>c'. expire_resources G now c = Done c' \<and> client_inv G kind c' \<and>
     cl_id c' = cl_id c \<and> cl_ipv4 c' = cl_ipv4 c \<and> cl_ipv6 c' = cl_ipv6 c \<and> cl_nat_table c' = cl_nat_table c \<and>
     cl_permanent_translations c' = cl_permanent_translations c \<and>
     cl_resources c' = filter (\<lambda>(_, r). resource_is_allowed r now) (cl_resources c)"
proof -
  let ?rs = "filter (\<lambda>(_, r). resource_is_allowed r now) (cl_resources c)"
  let ?c = "c\<lparr>cl_resources := ?rs\<rparr>"
  have wf: "hm_wf (cl_resources c)" using inv by (simp add: client_inv_def resources_ok_def)
  show ?thesis
  proof (cases "list_ex (\<lambda>r. \<not> resource_is_allowed r now) (hm_values (cl_resources c))")
    case True
    have "resources_ok kind ?c" using inv
      by (auto simp: client_inv_def resources_ok_def hm_get_filter split: option.splits if_splits)
    moreover have "nat_inv (gw_bimap G) (cl_nat_table ?c)" using inv by (simp add: client_inv_def)
    ultimately obtain store flag where
        "recalculate_filters G ?c = Done (?c\<lparr>cl_filters := store, cl_internet_resource_enabled := flag\<rparr>)"
        "client_inv G kind (?c\<lparr>cl_filters := store, cl_internet_resource_enabled := flag\<rparr>)"
      using recalculate_filters_ok [OF G] by blast
    then show ?thesis using True by (simp add: expire_resources_def Let_def)
  next
    case False
    then have eq: "?rs = cl_resources c"
      by (intro filter_True) (auto simp: list_ex_iff hm_values_def)
    then have "?c = c" by simp
    with False inv show ?thesis by (simp add: expire_resources_def Let_def eq)
  qed
qed

lemma nat_table_inv:
  assumes "client_inv G kind c" "nat_inv (gw_bimap G) t"
  shows "client_inv G kind (c\<lparr>cl_nat_table := t\<rparr>)"
proof -
  have "expected_filters G (c\<lparr>cl_nat_table := t\<rparr>) = expected_filters G c" by (rule expected_filters_cong) simp_all
  with assms show ?thesis by (simp add: client_inv_def resources_ok_def filters_current_def)
qed

lemma client_handle_timeout_inv:
  assumes "gw_laws G" "client_inv G kind c"
  shows "client_inv G kind (client_handle_timeout G now c)"
  unfolding client_handle_timeout_def
  using assms by (intro nat_table_inv nat_handle_timeout_inv [OF gw_lawsD(2)]) (simp_all add: client_inv_def)

end
