(* ===== verification/Client_Access.thy ===== *)
theory Client_Access
  imports Client_Invariant
begin

text \<open>
  What a client on a gateway may access, read directly off its resources (\<open>may_access\<close>), and the
  proof that the compiled filters decide the same.
\<close>

section \<open>The reference\<close>

definition cidr_covers :: "('bm, 'rs, 'ft) gw_env \<Rightarrow> ip_addr \<Rightarrow> resource_on_gateway \<Rightarrow> bool" where
  "cidr_covers G ip r \<longleftrightarrow> is_cidr r \<and> (\<exists>n \<in> set (resource_ips r). gw_contains G n ip)"

text \<open>
  Whether the filters of a resource count for an address that some CIDR resource covers: those of every
  CIDR resource that covers it, those of the Internet resource, and those of a DNS resource that resolved
  to the address if a CIDR resource is just that address.
\<close>

definition contributes :: "('bm, 'rs, 'ft) gw_env \<Rightarrow> ('bm, 'ft) client_on_gateway \<Rightarrow> ip_addr \<Rightarrow> resource_on_gateway \<Rightarrow> bool" where
  "contributes G c ip r \<longleftrightarrow> cidr_covers G ip r \<or> is_internet_resource r \<or>
     is_dns r \<and> net_from ip \<in> set (resource_ips r) \<and> net_from ip \<in> set (cidr_networks c)"

definition may_access :: "('bm, 'rs, 'ft) gw_env \<Rightarrow> ('bm, 'ft) client_on_gateway \<Rightarrow> ip_addr \<Rightarrow> unsupported_protocol + protocol \<Rightarrow> bool" where
  "may_access G c ip protocol \<longleftrightarrow>
     (let rs = set (hm_values (cl_resources c)) in
      (\<exists>r \<in> rs. is_internet_resource r) \<and> \<not> is_dns_addr (gw_contains G) ip \<or>
      (case dns_filters c ip of
         Some f \<Rightarrow> permits [f] protocol
       | None \<Rightarrow> (\<exists>r \<in> rs. cidr_covers G ip r) \<and> (\<exists>r \<in> rs. contributes G c ip r \<and> permits [resource_filters r] protocol)))"

section \<open>The filters decide like the reference\<close>

lemma netmask_bound:
  assumes C: "net_laws C" and n: "net_wf n" "C n ip"
  shows "netmask n \<le> netmask (net_from ip)" "netmask n = netmask (net_from ip) \<Longrightarrow> n = net_from ip"
  using assms by (cases n; cases ip; auto simp: net_laws_def net_from_def)+

lemma cidr_networks_iff: "n \<in> set (cidr_networks c) \<longleftrightarrow> (\<exists>f e. ResCidr n f e \<in> set (hm_values (cl_resources c)))"
proof -
  have "is_cidr r \<and> n \<in> set (resource_ips r) \<longleftrightarrow> (\<exists>f e. r = ResCidr n f e)" for r by (cases r) auto
  then show ?thesis by (auto simp: cidr_networks_def)
qed

lemma cidr_networks_wf:
  assumes "resources_ok kind c" "n \<in> set (cidr_networks c)" shows "net_wf n"
  using values_ok [OF assms(1)] assms(2) by (auto simp: cidr_networks_iff)

lemma cidr_covers_iff: "(\<exists>r \<in> set (hm_values (cl_resources c)). cidr_covers G ip r) \<longleftrightarrow> (\<exists>n \<in> set (cidr_networks c). gw_contains G n ip)"
  by (auto simp: cidr_covers_def cidr_networks_def)

text \<open>The resources whose networks contain the longest matching network are those that count.\<close>

lemma covering_contributes:
  assumes G: "gw_laws G" and ok: "resources_ok kind c" and r: "r \<in> set (hm_values (cl_resources c))"
    and n: "n \<in> set (cidr_networks c)" "gw_contains G n ip"
    and longest: "\<And>m. m \<in> set (cidr_networks c) \<Longrightarrow> gw_contains G m ip \<Longrightarrow> netmask m \<le> netmask n"
  shows "(\<exists>r_ip \<in> set (resource_ips r). network_contains_network (gw_contains G) r_ip n) \<longleftrightarrow> contributes G c ip r"
proof -
  let ?C = "gw_contains G"
  note C = gw_lawsD(4) [OF G]
  have wf: "net_wf n" using cidr_networks_wf [OF ok n(1)] .
  have addr: "?C n (network_address n)" using wf C by (cases n) (auto simp: net_laws_def)
  have contains: "network_contains_network ?C m n \<longleftrightarrow> ?C m ip \<and> netmask m \<le> netmask n" if "net_wf m" for m
  proof
    assume "network_contains_network ?C m n"
    then have m: "?C m (network_address n)" "netmask m \<le> netmask n" by (simp_all add: network_contains_network_def)
    have "?C m ip" using contains_transfer [OF C that wf m(1) addr n(2) m(2)] .
    with m show "?C m ip \<and> netmask m \<le> netmask n" by simp
  next
    assume "?C m ip \<and> netmask m \<le> netmask n"
    then show "network_contains_network ?C m n"
      using nested_networks [OF C that wf _ n(2)] by (simp add: network_contains_network_def)
  qed
  show ?thesis
  proof (cases r)
    case (ResCidr m f e)
    then have m: "m \<in> set (cidr_networks c)" using r by (auto simp: cidr_networks_iff)
    then have "net_wf m" using cidr_networks_wf [OF ok] by blast
    then show ?thesis using longest [OF m] ResCidr by (auto simp: contains contributes_def cidr_covers_def)
  next
    case (ResDns a ds f e)
    have "network_contains_network ?C (net_from x) n \<longleftrightarrow> x = ip \<and> n = net_from ip" for x
      using contains [of "net_from x"] net_from_contains [OF C] netmask_bound [OF C wf n(2)] by auto
    moreover have "n = net_from ip" if "net_from ip \<in> set (cidr_networks c)"
      using longest [OF that net_from_contains(3) [OF C]] netmask_bound [OF C wf n(2)] by simp
    ultimately show ?thesis using n(1) ResDns
      by (auto simp: contributes_def cidr_covers_def)
  next
    case (ResInternet e)
    have "net_wf DEFAULT_ROUTE4" "net_wf DEFAULT_ROUTE6" "netmask DEFAULT_ROUTE4 = 0" "netmask DEFAULT_ROUTE6 = 0"
      by (simp_all add: DEFAULT_ROUTE4_def DEFAULT_ROUTE6_def)
    then show ?thesis using ResInternet default_contains [OF C, of ip]
      by (cases ip) (auto simp: contains contributes_def)
  qed
qed

lemma filter_decides:
  assumes G: "gw_laws G" and ok: "\<forall>f \<in> set fs. \<forall>x \<in> set f. filter_ok x" and e: "with_filters (gw_ranges G) fs = Done engine"
  shows "filter_apply (gw_ranges G) engine protocol = Inr () \<longleftrightarrow> permits fs protocol"
  using with_filters_permits [OF gw_lawsD(3) [OF G] ok] e by auto

lemma filters_decide:
  assumes G: "gw_laws G" and inv: "client_inv G kind c"
  shows "(case nt_longest_match (gw_filters G) (cl_filters c) ip of
            None \<Rightarrow> False
          | Some (n, engine) \<Rightarrow> filter_apply (gw_ranges G) engine protocol = Inr ()) \<longleftrightarrow>
     (case dns_filters c ip of
         Some f \<Rightarrow> permits [f] protocol
       | None \<Rightarrow> (\<exists>r \<in> set (hm_values (cl_resources c)). cidr_covers G ip r) \<and>
           (\<exists>r \<in> set (hm_values (cl_resources c)). contributes G c ip r \<and> permits [resource_filters r] protocol))"
proof -
  let ?rs = "hm_values (cl_resources c)" and ?N = "gw_filters G" and ?t = "cl_filters c"
  note C = gw_lawsD(4) [OF G] and N = gw_lawsD(5) [OF G]
  have ok: "resources_ok kind c" and cur: "\<And>n. compiled G (expected_filters G c n) (nt_exact_match ?N ?t n)"
    using inv by (simp_all add: client_inv_def filters_current_def)
  have entry: "(\<exists>v. nt_exact_match ?N ?t m = Some v) \<longleftrightarrow> expected_filters G c m \<noteq> None" for m
    using cur [of m] by (auto simp: compiled_def split: option.splits)
  have dns_ok: "\<forall>f \<in> set [f]. \<forall>x \<in> set f. filter_ok x" if "dns_filters c ip = Some f" for f
    using that ok resource_filters_ok by (auto simp: dns_filters_def resources_ok_def split: option.splits)
  show ?thesis
  proof (cases "nt_longest_match ?N ?t ip")
    case None
    have none: "expected_filters G c m = None" if "gw_contains G m ip" for m
    proof (rule ccontr)
      assume "expected_filters G c m \<noteq> None"
      then obtain v where "nt_exact_match ?N ?t m = Some v" using entry by blast
      then show False using net_table_none [OF N _ that] None by fastforce
    qed
    have d: "dns_filters c ip = None"
      using none [OF net_from_contains(3) [OF C]] by (simp add: expected_filters_def split: option.splits if_splits)
    have "m \<notin> set (cidr_networks c)" if "gw_contains G m ip" for m
      using none [OF that] by (simp add: expected_filters_def split: option.splits if_splits)
    then show ?thesis using None d by (auto simp: cidr_covers_iff)
  next
    case (Some p)
    obtain n engine where p: "p = (n, engine)" by (cases p)
    note l = net_table_longest [OF N Some [unfolded p]]
    have engine: "compiled G (expected_filters G c n) (Some engine)" using cur [of n] l(1) by simp
    show ?thesis
    proof (cases "dns_filters c ip")
      case d: (Some f)
      have "expected_filters G c (net_from ip) = Some [f]" using d by (simp add: expected_filters_def)
      then obtain v where "nt_exact_match ?N ?t (net_from ip) = Some v" using entry [of "net_from ip"] by auto
      then have "netmask (net_from ip) \<le> netmask n" using l(3) net_from_contains(3) [OF C] by blast
      moreover have "net_wf n"
        using engine cidr_networks_wf [OF ok, of n] net_from_contains(2) [OF C] host_of_iff
        by (auto simp: expected_filters_def compiled_def bind_eq_Some_conv split: option.splits if_splits)
      ultimately have n: "n = net_from ip" using netmask_bound [OF C _ l(2)] by simp
      have "with_filters (gw_ranges G) [f] = Done engine" using engine d by (simp add: n expected_filters_def compiled_def)
      then show ?thesis using filter_decides [OF G dns_ok [OF d]] Some d by (simp add: p)
    next
      case d: None
      have h: "Option.bind (host_of n) (dns_filters c) = None"
        using d l(2) net_from_contains(1) [OF C] by (cases "host_of n") (auto simp: host_of_iff)
      then have n: "n \<in> set (cidr_networks c)" and w: "with_filters (gw_ranges G) (covering_filters G ?rs n) = Done engine"
        using engine by (auto simp: expected_filters_def compiled_def split: if_splits)
      have longest: "netmask m \<le> netmask n" if m: "m \<in> set (cidr_networks c)" "gw_contains G m ip" for m
      proof -
        have "expected_filters G c m \<noteq> None" using m(1) by (simp add: expected_filters_def split: option.splits)
        then obtain v where "nt_exact_match ?N ?t m = Some v" using entry by blast
        then show ?thesis using l(3) m(2) by blast
      qed
      have "filter_apply (gw_ranges G) engine protocol = Inr () \<longleftrightarrow> permits (covering_filters G ?rs n) protocol"
        by (rule filter_decides [OF G covering_filters_ok [OF values_ok [OF ok]] w])
      also have "\<dots> \<longleftrightarrow> (\<exists>f \<in> set (covering_filters G ?rs n). permits [f] protocol)" by (rule permits_single)
      also have "\<dots> \<longleftrightarrow> (\<exists>r \<in> set ?rs. contributes G c ip r \<and> permits [resource_filters r] protocol)"
        using covering_contributes [OF G ok _ n l(2) longest] by (auto simp: covering_filters_def)
      finally show ?thesis using Some d n l(2) by (auto simp: p cidr_covers_iff)
    qed
  qed
qed

lemma ensure_allowed_resource_iff:
  assumes "gw_laws G" "client_inv G kind c"
  shows "ensure_allowed_resource G c ip protocol = Inr () \<longleftrightarrow> may_access G c ip protocol"
proof -
  have "cl_internet_resource_enabled c \<longleftrightarrow> (\<exists>r \<in> set (hm_values (cl_resources c)). is_internet_resource r)"
    using assms(2) by (simp add: client_inv_def filters_current_def)
  then show ?thesis using filters_decide [OF assms, where ip = ip and protocol = protocol]
    by (auto simp: ensure_allowed_resource_def may_access_def Let_def split: option.splits prod.splits)
qed

end
