(* ===== verification/Packet_Flow.thy ===== *)
theory Packet_Flow
  imports Packet_Nat
begin

text \<open>
  What the rest of the gateway needs of packets: the two addresses and the two ports that the code reads
  from a packet, and how address translation followed by a refresh of the checksums changes them.
\<close>

section \<open>Reading a flow\<close>

definition reads :: "etherparse \<Rightarrow> ip_packet \<Rightarrow> ip_addr \<Rightarrow> ip_addr \<Rightarrow> protocol \<Rightarrow> protocol \<Rightarrow> bool" where
  "reads E p src dst sp dp \<longleftrightarrow> packet_wf p \<and> source E p = Done src \<and> destination E p = Done dst \<and>
     source_protocol E p = succeed sp \<and> destination_protocol E p = succeed dp"

lemma protocols_view:
  assumes "wire_laws E" "packet_wf p"
  shows "source_protocol E p = Done (view_protocol E (ep_source_port E) (view_of p))"
    "destination_protocol E p = Done (view_protocol E (ep_destination_port E) (view_of p))"
  using port_protocol_view [OF assms] by (simp_all add: source_protocol_def destination_protocol_def)

lemma reads_iff:
  assumes "wire_laws E"
  shows "reads E p src dst sp dp \<longleftrightarrow> packet_wf p \<and> ported E (vw_next (view_of p)) (vw_payload (view_of p)) \<and>
     src = vw_src (view_of p) \<and> dst = vw_dst (view_of p) \<and>
     sp = proto_kind (vw_next (view_of p)) (source_number (vw_next (view_of p)) (vw_payload (view_of p))) \<and>
     dp = proto_kind (vw_next (view_of p)) (destination_number (vw_next (view_of p)) (vw_payload (view_of p)))"
proof (cases "packet_wf p")
  case p: True
  show ?thesis
  proof (cases "ported E (vw_next (view_of p)) (vw_payload (view_of p))")
    case True
    show ?thesis using p True
      by (auto simp: reads_def packet_reads [OF assms p] protocols_view [OF assms p] view_protocol_ported [OF assms True])
  next
    case False
    have "view_protocol E port (view_of p) \<noteq> Inr q" for port q using view_protocol_Inr False by blast
    then show ?thesis using p False by (auto simp: reads_def protocols_view [OF assms p])
  qed
qed (simp add: reads_def)

lemma reads_view:
  assumes "wire_laws E" "reads E p src dst sp dp"
  shows "packet_wf p" "vw_src (view_of p) = src" "vw_dst (view_of p) = dst"
    "view_protocol E (ep_source_port E) (view_of p) = Inr sp" "view_protocol E (ep_destination_port E) (view_of p) = Inr dp"
  using assms(2) packet_reads [OF assms(1), of p] protocols_view [OF assms(1), of p] by (auto simp: reads_def)

text \<open>Whenever the code finds a protocol, it finds a flow.\<close>

lemma source_protocol_reads:
  assumes E: "wire_laws E" and p: "packet_wf p" and sp: "source_protocol E p = succeed sp"
  obtains dp where "reads E p (vw_src (view_of p)) (vw_dst (view_of p)) sp dp"
proof -
  have "ported E (vw_next (view_of p)) (vw_payload (view_of p))"
    using sp view_protocol_Inr by (auto simp: protocols_view [OF E p])
  then show ?thesis using that p sp view_protocol_ported [OF E] by (auto simp: reads_iff [OF E] protocols_view [OF E p])
qed

lemma destination_protocol_reads:
  assumes E: "wire_laws E" and p: "packet_wf p" and dp: "destination_protocol E p = succeed dp"
  obtains sp where "reads E p (vw_src (view_of p)) (vw_dst (view_of p)) sp dp"
proof -
  have "ported E (vw_next (view_of p)) (vw_payload (view_of p))"
    using dp view_protocol_Inr by (auto simp: protocols_view [OF E p])
  then show ?thesis using that p dp view_protocol_ported [OF E] by (auto simp: reads_iff [OF E] protocols_view [OF E p])
qed

lemma proto_kind_value:
  assumes "same_type (proto_kind n x) q" shows "proto_kind n (proto_value q) = q"
  using assms by (cases q) (auto simp: proto_kind_def same_type_def split: if_splits)

lemma proto_kind_cong: "proto_kind n = proto_kind m \<Longrightarrow> proto_kind n x = proto_kind m x"
  by simp

definition is_echo :: "protocol \<Rightarrow> bool" where
  "is_echo q = (case q of Icmp _ \<Rightarrow> True | _ \<Rightarrow> False)"

lemma is_echo_kind: "is_echo (proto_kind n x) \<longleftrightarrow> \<not> has_ports n"
  by (auto simp: is_echo_def proto_kind_def has_ports_def)

text \<open>The two protocols of a packet are of one type; those of an echo message are the same.\<close>

lemma reads_types:
  assumes "wire_laws E" "reads E p src dst sp dp"
  shows "same_type sp dp" "is_echo sp = is_echo dp" "is_echo sp \<Longrightarrow> dp = sp"
    "is_ipv4 src = version4 p" "is_ipv4 dst = version4 p"
proof -
  note r = assms(2) [unfolded reads_iff [OF assms(1)]]
  show "same_type sp dp" using r by (auto simp: proto_kind_def same_type_def)
  show "is_echo sp = is_echo dp" using r by (auto simp: is_echo_kind)
  show "is_echo sp \<Longrightarrow> dp = sp" using r by (auto simp: is_echo_kind source_number_def destination_number_def)
  show "is_ipv4 src = version4 p" "is_ipv4 dst = version4 p"
    using r by (cases p; simp add: view_of_def view4_def view6_def version4_def)+
qed

section \<open>Rewriting a flow\<close>

lemma update_checksum_reads:
  assumes E: "wire_laws E" and r: "reads E p src dst sp dp"
  shows "\<exists>p'. update_checksum E p = Done p' \<and> reads E p' src dst sp dp"
proof -
  obtain p' where "update_checksum E p = Done p'" "keeps E p p'"
    using update_checksum_keeps [OF E] r by (auto simp: reads_iff [OF E])
  then show ?thesis using r by (auto simp: reads_iff [OF E] keeps_def same_ports_def)
qed

lemma translate_destination_reads:
  assumes E: "wire_laws E" and r: "reads E p src dst sp dp" and q: "same_type sp q"
  shows "\<exists>p' p''. translate_destination E p v4 v6 q new = succeed p' \<and> update_checksum E p' = Done p'' \<and>
     reads E p'' (family_source p src new v4 v6) new q (if is_echo q then q else dp)"
proof -
  note r' = r [unfolded reads_iff [OF E]]
  obtain p' where p': "translate_destination E p v4 v6 q new = succeed p'" "packet_wf p'"
     "vw_src (view_of p') = family_source p src new v4 v6" "vw_dst (view_of p') = new"
     "ported E (vw_next (view_of p')) (vw_payload (view_of p'))"
     "proto_kind (vw_next (view_of p')) = proto_kind (vw_next (view_of p))"
     "has_ports (vw_next (view_of p')) = has_ports (vw_next (view_of p))"
     "source_number (vw_next (view_of p')) (vw_payload (view_of p')) = proto_value q"
     "destination_number (vw_next (view_of p')) (vw_payload (view_of p')) =
       (if has_ports (vw_next (view_of p)) then destination_number (vw_next (view_of p)) (vw_payload (view_of p)) else proto_value q)"
    using translate_destination_view [OF E, of p v4 v6 q new] r' by auto
  have k: "proto_kind (vw_next (view_of p)) (proto_value q) = q" using q r' by (auto intro: proto_kind_value)
  have e: "is_echo q \<longleftrightarrow> \<not> has_ports (vw_next (view_of p))" using is_echo_kind [of "vw_next (view_of p)" "proto_value q"] k by simp
  have "reads E p' (family_source p src new v4 v6) new q (if is_echo q then q else dp)"
    using p' r' k e by (auto simp: reads_iff [OF E])
  from update_checksum_reads [OF E this] p'(1) show ?thesis by blast
qed

lemma translate_source_reads:
  assumes E: "wire_laws E" and r: "reads E p src dst sp dp" and q: "same_type dp q"
  shows "\<exists>p' p''. translate_source E p v4 v6 q new = succeed p' \<and> update_checksum E p' = Done p'' \<and>
     reads E p'' new (family_source p dst new v4 v6) (if is_echo q then q else sp) q"
proof -
  note r' = r [unfolded reads_iff [OF E]]
  obtain p' where p': "translate_source E p v4 v6 q new = succeed p'" "packet_wf p'"
     "vw_dst (view_of p') = family_source p dst new v4 v6" "vw_src (view_of p') = new"
     "ported E (vw_next (view_of p')) (vw_payload (view_of p'))"
     "proto_kind (vw_next (view_of p')) = proto_kind (vw_next (view_of p))"
     "has_ports (vw_next (view_of p')) = has_ports (vw_next (view_of p))"
     "destination_number (vw_next (view_of p')) (vw_payload (view_of p')) = proto_value q"
     "source_number (vw_next (view_of p')) (vw_payload (view_of p')) =
       (if has_ports (vw_next (view_of p)) then source_number (vw_next (view_of p)) (vw_payload (view_of p)) else proto_value q)"
    using translate_source_view [OF E, of p v4 v6 q new] r' by auto
  have k: "proto_kind (vw_next (view_of p)) (proto_value q) = q" using q r' by (auto intro: proto_kind_value)
  have e: "is_echo q \<longleftrightarrow> \<not> has_ports (vw_next (view_of p))" using is_echo_kind [of "vw_next (view_of p)" "proto_value q"] k by simp
  have "reads E p' new (family_source p dst new v4 v6) (if is_echo q then q else sp) q"
    using p' r' k e by (auto simp: reads_iff [OF E])
  from update_checksum_reads [OF E this] p'(1) show ?thesis by blast
qed

text \<open>A packet with ports or an echo message is no ICMP error.\<close>

lemma reads_no_error:
  assumes E: "wire_laws E" and r: "reads E p src dst sp dp"
  shows "icmp_unreachable_destination E p = succeed None"
proof -
  note r' = r [unfolded reads_iff [OF E]]
  have p: "packet_wf p" and q: "ported E (vw_next (view_of p)) (vw_payload (view_of p))" using r' by auto
  show ?thesis using q
    by (auto simp: icmp_unreachable_destination_def as_icmpv4_def as_icmpv6_def as_l4_view [OF E p] ported_def
        echo4_def echo6_def unreachable4_def unreachable6_def)
qed

section \<open>Fresh packets\<close>

text \<open>Whatever \<^verbatim>\<open>IpPacket::new\<close> accepts is well-formed.\<close>

lemma ip_packet_new_wf:
  assumes E: "wire_laws E" and buf: "length ip = MAX_FZ_PAYLOAD"
  shows "\<exists>r. ip_packet_new E ip len = Done r \<and> (\<forall>p. r = Inr p \<longrightarrow> packet_wf p \<and> packet_of p = Done (take len (drop NAT46_OVERHEAD ip)))"
proof (cases "len \<le> MAX_IP_SIZE")
  case True
  let ?c = "\<lparr>cp_buf = ip, cp_start = NAT46_OVERHEAD, cp_len = len\<rparr>" and ?b = "take len (drop NAT46_OVERHEAD ip)"
  have room: "NAT46_OVERHEAD + len \<le> length ip" "NAT46_OVERHEAD < length ip" using True buf by (simp_all add: packet_size_defs)
  have slice: "packet_slice ?c = Done ?b" using room by (simp add: packet_slice_def)
  have c: "in_buffer ?c" "raw ?c = ?b" using room buf by (simp_all add: in_buffer_def raw_def)
  have w4: "packet_wf (Ipv4 ?c)" if "ep_ipv4_slice_ok E ?b"
    using E that c by (auto simp: packet_wf_def valid4_def wire_laws_def ipv4_laws_def)
  have w6: "packet_wf (Ipv6 ?c)" if "ep_ipv6_slice_ok E ?b"
    using E that c by (auto simp: packet_wf_def valid6_def wire_laws_def ipv6_laws_def)
  show ?thesis using True room w4 w6
    by (auto simp: ip_packet_new_def expect_def convertible_ipv4_new_def convertible_ipv6_new_def slice Let_def packet_of_def)
next
  case False
  then show ?thesis by (simp add: ip_packet_new_def)
qed

end
