(* ===== verification/Client_Packets.thy ===== *)
theory Client_Packets
  imports Client_Access Packet_Flow
begin

text \<open>
  The packets of a client: what the gateway forwards to a resource, what it sends back to the client,
  and that the two directions fit together.
\<close>

section \<open>Outbound\<close>

lemma nat_table_same [simp]: "c\<lparr>cl_nat_table := cl_nat_table c\<rparr> = c"
  by simp

lemma ensure_allowed_dst_iff:
  assumes G: "gw_laws G" and inv: "client_inv G kind c" and p: "packet_wf p"
  shows "\<exists>r. ensure_allowed_dst G c p = Done r \<and>
     (r = Inr () \<longleftrightarrow> vw_src (view_of p) \<in> set (allowed_ips c) \<and>
        may_access G c (vw_dst (view_of p)) (view_protocol (gw_ep G) (ep_destination_port (gw_ep G)) (view_of p)))"
proof -
  note E = gw_lawsD(1) [OF G]
  note a = ensure_allowed_resource_iff [OF G inv]
  show ?thesis
    by (auto simp: ensure_allowed_dst_def packet_reads [OF E p] protocols_view [OF E p] ensure_client_ip_def a [symmetric])
qed

lemma transform_network_to_tun_spec:
  assumes G: "gw_laws G" and inv: "client_inv G kind c" and p: "packet_wf p"
  shows "case hm_get (cl_permanent_translations c) (vw_dst (view_of p)) of
       None \<Rightarrow> transform_network_to_tun G p now c = Done (c, Inr p)
     | Some s \<Rightarrow> (\<exists>e. transform_network_to_tun G p now c = Done (c, Inl e)) \<or>
         (\<exists>t outside p' sp dp. transform_network_to_tun G p now c = Done (c\<lparr>cl_nat_table := t\<rparr>, Inr p') \<and>
            reads (gw_ep G) p (vw_src (view_of p)) (vw_dst (view_of p)) sp dp \<and>
            session_of (gw_bimap G) (cl_nat_table c) (sp, vw_dst (view_of p)) outside now t \<and>
            snd outside = ts_resolved_ip s \<and>
            reads (gw_ep G) p' (family_source p (vw_src (view_of p)) (ts_resolved_ip s) (cl_ipv4 c) (cl_ipv6 c))
              (ts_resolved_ip s) (fst outside) (if is_echo (fst outside) then fst outside else dp))"
proof (cases "hm_get (cl_permanent_translations c) (vw_dst (view_of p))")
  case None
  then show ?thesis by (simp add: transform_network_to_tun_def packet_reads [OF gw_lawsD(1) [OF G] p])
next
  case (Some s)
  let ?E = "gw_ep G" and ?B = "gw_bimap G" and ?t = "cl_nat_table c" and ?real = "ts_resolved_ip s"
  note E = gw_lawsD(1) [OF G] and d = packet_reads(2) [OF gw_lawsD(1) [OF G] p]
  have nat: "nat_inv ?B ?t" using inv by (simp add: client_inv_def)
  have "\<exists>t r. translate_outgoing ?E ?B ?t p ?real now = Done (t, r)"
    by (auto simp: translate_outgoing_def protocols_view [OF E p] d Let_def split: sum.splits option.splits)
  then obtain t r where run: "translate_outgoing ?E ?B ?t p ?real now = Done (t, r)" by blast
  show ?thesis
  proof (cases r)
    case (Inl e)
    then have "t = ?t" using run translate_outgoing_error by blast
    then have "transform_network_to_tun G p now c = Done (c, Inl e)"
      using run Inl Some by (simp add: transform_network_to_tun_def d)
    with Some show ?thesis by auto
  next
    case (Inr outside)
    note run' = run [unfolded Inr]
    obtain sp where sp: "source_protocol ?E p = succeed sp" using translate_outgoing_reads [OF run'] by blast
    obtain dp where r: "reads ?E p (vw_src (view_of p)) (vw_dst (view_of p)) sp dp"
      using source_protocol_reads [OF E p sp] by blast
    note s = translate_outgoing_session [OF gw_lawsD(2) [OF G] nat run' sp d]
    have q: "same_type sp (fst outside)" using s(1) by (simp add: session_of_def)
    obtain p' p'' where p'': "translate_destination ?E p (cl_ipv4 c) (cl_ipv6 c) (fst outside) ?real = succeed p'"
        "update_checksum ?E p' = Done p''"
        "reads ?E p'' (family_source p (vw_src (view_of p)) ?real (cl_ipv4 c) (cl_ipv6 c)) ?real (fst outside)
           (if is_echo (fst outside) then fst outside else dp)"
      using translate_destination_reads [OF E r q] by blast
    have run'': "transform_network_to_tun G p now c = Done (c\<lparr>cl_nat_table := t\<rparr>, Inr p'')"
      using run' Some p''(1,2) s(2) by (cases outside) (simp add: transform_network_to_tun_def d)
    show ?thesis unfolding Some option.case
      by (intro disjI2 exI conjI, rule run'', rule r, rule s(1), rule s(2), rule p''(3))
  qed
qed

lemma translate_outbound_spec:
  assumes G: "gw_laws G" and inv: "client_inv G kind c" and p: "packet_wf p"
  shows "\<exists>c' r. translate_outbound G p now c = Done (c', r) \<and> client_inv G kind c' \<and>
     (\<exists>t. c' = c\<lparr>cl_nat_table := t\<rparr>) \<and>
     (r = Inr None \<longleftrightarrow> \<not> (vw_src (view_of p) \<in> set (allowed_ips c) \<and>
        may_access G c (vw_dst (view_of p)) (view_protocol (gw_ep G) (ep_destination_port (gw_ep G)) (view_of p))))"
proof -
  let ?ok = "vw_src (view_of p) \<in> set (allowed_ips c) \<and>
        may_access G c (vw_dst (view_of p)) (view_protocol (gw_ep G) (ep_destination_port (gw_ep G)) (view_of p))"
  obtain a where a: "ensure_allowed_dst G c p = Done a" "a = Inr () \<longleftrightarrow> ?ok"
    using ensure_allowed_dst_iff [OF G inv p] by blast
  show ?thesis
  proof (cases a)
    case (Inl e)
    then have "translate_outbound G p now c = Done (c, Inr None)" using a(1) by (simp add: translate_outbound_def)
    moreover have "\<exists>t. c = c\<lparr>cl_nat_table := t\<rparr>" by (rule exI [of _ "cl_nat_table c"]) simp
    ultimately show ?thesis using a(2) inv Inl by auto
  next
    case (Inr u)
    have ok: ?ok using a(2) Inr by simp
    have "(\<exists>e. transform_network_to_tun G p now c = Done (c, Inl e)) \<or>
       (\<exists>t p'. transform_network_to_tun G p now c = Done (c\<lparr>cl_nat_table := t\<rparr>, Inr p') \<and> nat_inv (gw_bimap G) t)"
    proof (cases "hm_get (cl_permanent_translations c) (vw_dst (view_of p))")
      case None
      then show ?thesis using transform_network_to_tun_spec [OF G inv p, of now] inv
        by (intro disjI2 exI [of _ "cl_nat_table c"]) (auto simp: client_inv_def)
    next
      case (Some s)
      then show ?thesis using transform_network_to_tun_spec [OF G inv p, of now] inv session_of_inv
        by (auto simp: client_inv_def) blast
    qed
    then show ?thesis
    proof (elim disjE exE conjE)
      fix e assume "transform_network_to_tun G p now c = Done (c, Inl e)"
      then have "translate_outbound G p now c = Done (c, Inl e)" using a(1) Inr by (simp add: translate_outbound_def)
      moreover have "\<exists>t. c = c\<lparr>cl_nat_table := t\<rparr>" by (rule exI [of _ "cl_nat_table c"]) simp
      ultimately show ?thesis using inv ok by auto
    next
      fix t p' assume "transform_network_to_tun G p now c = Done (c\<lparr>cl_nat_table := t\<rparr>, Inr p')" and t: "nat_inv (gw_bimap G) t"
      then have "translate_outbound G p now c = Done (c\<lparr>cl_nat_table := t\<rparr>, Inr (Some p'))"
        using a(1) Inr by (simp add: translate_outbound_def)
      then show ?thesis using nat_table_inv [OF inv t] ok by auto
    qed
  qed
qed

text \<open>What is forwarded: from an address of the client, to the address itself or to what it is translated to.\<close>

lemma family_source_allowed:
  assumes "src \<in> set (allowed_ips c)" shows "family_source p src new (cl_ipv4 c) (cl_ipv6 c) \<in> set (allowed_ips c)"
  using assms by (auto simp: family_source_def allowed_ips_def)

lemma translate_outbound_forwards:
  assumes G: "gw_laws G" and inv: "client_inv G kind c" and p: "packet_wf p"
    and run: "translate_outbound G p now c = Done (c', Inr (Some p'))"
  shows "vw_src (view_of p) \<in> set (allowed_ips c)"
    "may_access G c (vw_dst (view_of p)) (view_protocol (gw_ep G) (ep_destination_port (gw_ep G)) (view_of p))"
    "transform_network_to_tun G p now c = Done (c', Inr p')"
    "packet_wf p'" "vw_src (view_of p') \<in> set (allowed_ips c)"
    "vw_dst (view_of p') = (case hm_get (cl_permanent_translations c) (vw_dst (view_of p)) of
        None \<Rightarrow> vw_dst (view_of p) | Some s \<Rightarrow> ts_resolved_ip s)"
proof -
  let ?E = "gw_ep G"
  note E = gw_lawsD(1) [OF G]
  obtain a where a: "ensure_allowed_dst G c p = Done a" "a = Inr () \<longleftrightarrow> vw_src (view_of p) \<in> set (allowed_ips c) \<and>
        may_access G c (vw_dst (view_of p)) (view_protocol ?E (ep_destination_port ?E) (view_of p))"
    using ensure_allowed_dst_iff [OF G inv p] by blast
  have "a = Inr ()" using run a(1) by (cases a) (auto simp: translate_outbound_def)
  then show src: "vw_src (view_of p) \<in> set (allowed_ips c)" and
    "may_access G c (vw_dst (view_of p)) (view_protocol ?E (ep_destination_port ?E) (view_of p))" using a(2) by auto
  show t: "transform_network_to_tun G p now c = Done (c', Inr p')"
    using run a(1) \<open>a = Inr ()\<close>
    by (cases "transform_network_to_tun G p now c") (auto simp: translate_outbound_def split: sum.splits)
  have "packet_wf p' \<and> vw_src (view_of p') \<in> set (allowed_ips c) \<and>
    vw_dst (view_of p') = (case hm_get (cl_permanent_translations c) (vw_dst (view_of p)) of
        None \<Rightarrow> vw_dst (view_of p) | Some s \<Rightarrow> ts_resolved_ip s)"
  proof (cases "hm_get (cl_permanent_translations c) (vw_dst (view_of p))")
    case None
    then show ?thesis using transform_network_to_tun_spec [OF G inv p, of now] t src p by simp
  next
    case (Some s)
    then obtain sp dp where
        "reads ?E p' (family_source p (vw_src (view_of p)) (ts_resolved_ip s) (cl_ipv4 c) (cl_ipv6 c)) (ts_resolved_ip s) sp dp"
      using transform_network_to_tun_spec [OF G inv p, of now] t by auto
    then show ?thesis using Some family_source_allowed [OF src] reads_view [OF E] by simp
  qed
  then show "packet_wf p'" "vw_src (view_of p') \<in> set (allowed_ips c)"
    "vw_dst (view_of p') = (case hm_get (cl_permanent_translations c) (vw_dst (view_of p)) of
        None \<Rightarrow> vw_dst (view_of p) | Some s \<Rightarrow> ts_resolved_ip s)" by blast+
qed

section \<open>Inbound\<close>

text \<open>Access depends on the resources and translations only.\<close>

lemma may_access_cong:
  assumes "cl_resources c = cl_resources d" "cl_permanent_translations c = cl_permanent_translations d"
  shows "may_access G c ip q = may_access G d ip q"
proof -
  have dns: "dns_filters c ip = dns_filters d ip" using assms by (simp add: dns_filters_def split: option.splits)
  have con: "contributes G c ip = contributes G d ip" using assms by (simp add: fun_eq_iff contributes_def cidr_networks_def)
  show ?thesis unfolding may_access_def dns con assms(1) ..
qed

lemma transform_tun_to_network_inv:
  assumes inv: "client_inv G kind c" and run: "transform_tun_to_network G p now c = Done (c', r)"
  shows "client_inv G kind c'" "\<exists>t. c' = c\<lparr>cl_nat_table := t\<rparr>"
proof -
  obtain t r' where t: "translate_incoming (gw_ep G) (gw_bimap G) (cl_nat_table c) p now = Done (t, r')"
    using run by (cases "translate_incoming (gw_ep G) (gw_bimap G) (cl_nat_table c) p now") (auto simp: transform_tun_to_network_def)
  have "nat_inv (gw_bimap G) (cl_nat_table c)" using inv by (simp add: client_inv_def)
  then have nat: "nat_inv (gw_bimap G) t" using translate_incoming_inv(1) [OF _ t] by blast
  have "c' = c\<lparr>cl_nat_table := t\<rparr>"
    using run t unfolding transform_tun_to_network_def
    by (auto simp: Let_def split: sum.splits translate_incoming_result.splits elim!: and_then_sumE and_then_DoneE)
  then show "client_inv G kind c'" "\<exists>t. c' = c\<lparr>cl_nat_table := t\<rparr>" using nat_table_inv [OF inv nat] by auto
qed

lemma translate_inbound_delivers:
  assumes G: "gw_laws G" and inv: "client_inv G kind c"
    and run: "translate_inbound G p now c = Done (c', Inr (Some p'))"
  shows "\<exists>src dst q. source (gw_ep G) p' = Done src \<and> destination (gw_ep G) p' = Done dst \<and> source_protocol (gw_ep G) p' = Done q \<and>
     dst \<in> set (allowed_ips c) \<and> may_access G c src q" "client_inv G kind c'"
proof -
  obtain c1 r where t: "transform_tun_to_network G p now c = Done (c1, r)"
    using run by (cases "transform_tun_to_network G p now c") (auto simp: translate_inbound_def)
  note i = transform_tun_to_network_inv [OF inv t]
  obtain tb where c1: "c1 = c\<lparr>cl_nat_table := tb\<rparr>" using i(2) by blast
  obtain q1 where r: "r = Inr (Some q1)" using run t by (auto simp: translate_inbound_def split: sum.splits option.splits)
  obtain dst where dst: "destination (gw_ep G) q1 = Done dst"
    using run t r by (cases "destination (gw_ep G) q1") (auto simp: translate_inbound_def)
  have e: "ensure_client_ip c1 dst = Inr ()" using run t r dst by (auto simp: translate_inbound_def split: sum.splits)
  obtain src where src: "source (gw_ep G) q1 = Done src"
    using run t r dst e by (cases "source (gw_ep G) q1") (auto simp: translate_inbound_def)
  obtain q where q: "source_protocol (gw_ep G) q1 = Done q"
    using run t r dst e src by (cases "source_protocol (gw_ep G) q1") (auto simp: translate_inbound_def)
  have f: "c' = c1" "p' = q1" "ensure_allowed_resource G c1 src q = Inr ()"
    using run t r dst e src q by (auto simp: translate_inbound_def split: sum.splits)
  have "dst \<in> set (allowed_ips c1)" using e by (simp add: ensure_client_ip_def split: if_splits)
  then have "dst \<in> set (allowed_ips c)" by (simp add: c1 allowed_ips_def)
  moreover have "may_access G c src q"
    using f(3) ensure_allowed_resource_iff [OF G i(1)] may_access_cong [of c1 c G src q] by (simp add: c1)
  ultimately show "\<exists>src dst q. source (gw_ep G) p' = Done src \<and> destination (gw_ep G) p' = Done dst \<and> source_protocol (gw_ep G) p' = Done q \<and>
     dst \<in> set (allowed_ips c) \<and> may_access G c src q" using f dst src q by blast
  show "client_inv G kind c'" using f(1) i(1) by simp
qed

section \<open>There and back\<close>

lemma translate_incoming_reads:
  assumes E: "wire_laws E" and r: "reads E p src dst sp dp"
  shows "translate_incoming E B t p now = Done (case translate_incoming_inner B t (dp, src) now of
       (t', Some (inside_proto, inside_src)) \<Rightarrow> (t', Inr (IncomingOk inside_proto inside_src))
     | (t', None) \<Rightarrow> (t', Inr (no_session t' (dp, src))))"
  using reads_no_error [OF E r] r by (simp add: translate_incoming_def reads_def Let_def)

lemma permits_type:
  assumes "same_type q q'" "\<not> is_echo q \<Longrightarrow> q' = q"
  shows "permits fs (Inr q) = permits fs (Inr q')"
proof (cases "is_echo q")
  case True
  then obtain x y where "q = Icmp x" "q' = Icmp y" using assms(1) by (cases q; cases q') (auto simp: same_type_def is_echo_def)
  moreover have "filter_matches f (Icmp x) = filter_matches f (Icmp y)" for f by (cases f) simp_all
  ultimately show ?thesis by (simp add: permits_def)
qed (use assms in simp)

lemma may_access_type:
  assumes "same_type q q'" "\<not> is_echo q \<Longrightarrow> q' = q"
  shows "may_access G c ip (Inr q) = may_access G c ip (Inr q')"
  using permits_type [OF assms] by (simp add: may_access_def split: option.splits)

text \<open>
  The reply to a translated packet reaches the client as the reply to the packet it sent: from the proxy
  address, to the address it sent from, with the two ports swapped.
\<close>

lemma reply_delivered:
  assumes G: "gw_laws G" and inv: "client_inv G kind c"
    and p: "reads (gw_ep G) p src proxy sp dp"
    and tr: "hm_get (cl_permanent_translations c) proxy = Some s"
    and out: "translate_outbound G p now c = Done (c', Inr (Some p'))"
    and p': "reads (gw_ep G) p' src' real sp' dp'"
    and reply: "reads (gw_ep G) r real src' dp' sp'"
  shows "\<exists>c'' r'. translate_inbound G r later c' = Done (c'', Inr (Some r')) \<and> reads (gw_ep G) r' proxy src dp sp"
proof -
  let ?E = "gw_ep G" and ?B = "gw_bimap G"
  note E = gw_lawsD(1) [OF G]
  have wf: "packet_wf p" and view: "vw_src (view_of p) = src" "vw_dst (view_of p) = proxy"
      "view_protocol ?E (ep_destination_port ?E) (view_of p) = Inr dp"
    using p packet_reads [OF E] protocols_view [OF E] by (auto simp: reads_def)
  note fw = translate_outbound_forwards [OF G inv wf out, unfolded view]
  obtain t outside where t: "c' = c\<lparr>cl_nat_table := t\<rparr>"
      "session_of ?B (cl_nat_table c) (sp, proxy) outside now t" "snd outside = ts_resolved_ip s"
      "reads ?E p' (family_source p src (ts_resolved_ip s) (cl_ipv4 c) (cl_ipv6 c)) (ts_resolved_ip s) (fst outside)
         (if is_echo (fst outside) then fst outside else dp)"
    using transform_network_to_tun_spec [OF G inv wf, of now, unfolded view] fw(3) tr p by (auto simp: reads_def)
  have o: "real = ts_resolved_ip s" "sp' = fst outside" "src' = family_source p src real (cl_ipv4 c) (cl_ipv6 c)"
      "dp' = (if is_echo sp' then sp' else dp)"
    using t(4) p' by (auto simp: reads_def)
  have inv': "client_inv G kind c'"
    unfolding t(1) using inv session_of_inv [OF _ t(2)] by (intro nat_table_inv) (simp_all add: client_inv_def)
  have get: "bm_get_by_right ?B (nat_bimap t) (sp', real) = Some (sp, proxy)"
  proof -
    have "bm_get_by_left ?B (nat_bimap t) (sp, proxy) = Some outside" using t(2) by (simp add: session_of_def)
    moreover have "outside = (sp', real)" using t(3) o(1,2) by (simp add: prod_eq_iff)
    ultimately show ?thesis using bimap_facts(2) [OF gw_lawsD(2) [OF G]] by simp
  qed
  have "same_type sp sp'" using t(2) o(2) by (simp add: session_of_def)
  then have types: "same_type sp' sp" by (cases sp; cases sp') (simp_all add: same_type_def)
  let ?t = "t\<lparr>nat_last_seen := hm_insert (sp, proxy) later (nat_last_seen t)\<rparr>"
  have inc: "translate_incoming ?E ?B t r later = Done (?t, Inr (IncomingOk sp proxy))"
    using translate_incoming_reads [OF E reply, where B = ?B and t = t and now = later] get by (simp add: translate_incoming_inner_def)
  obtain r1 r2 where r2: "translate_source ?E r (cl_ipv4 c) (cl_ipv6 c) sp proxy = succeed r1" "update_checksum ?E r1 = Done r2"
      "reads ?E r2 proxy (family_source r src' proxy (cl_ipv4 c) (cl_ipv6 c)) (if is_echo sp then sp else dp') sp"
    using translate_source_reads [OF E reply types] by blast
  have home: "family_source r src' proxy (cl_ipv4 c) (cl_ipv6 c) = src"
    using fw(1) reads_types(4,5) [OF E p] reads_types(4,5) [OF E reply] o(3)
    by (cases src) (auto simp: family_source_def allowed_ips_def)
  have echo: "is_echo sp \<longleftrightarrow> is_echo sp'" using types by (cases sp; cases sp') (auto simp: same_type_def is_echo_def)
  have ports: "(if is_echo sp then sp else dp') = dp" using reads_types(3) [OF E p] o(4) echo by auto
  have r2': "reads ?E r2 proxy src dp sp" using r2(3) by (simp only: home ports)
  let ?c = "c'\<lparr>cl_nat_table := ?t\<rparr>"
  have tun: "transform_tun_to_network G r later c' = Done (?c, Inr (Some r2))"
    using inc r2(1,2) by (simp add: transform_tun_to_network_def t(1))
  note i = transform_tun_to_network_inv [OF inv' tun]
  have "may_access G ?c proxy (Inr dp)" using fw(2) may_access_cong [of ?c c G proxy "Inr dp"] by (simp add: t(1))
  then have "ensure_allowed_resource G ?c proxy (Inr dp) = Inr ()" using ensure_allowed_resource_iff [OF G i(1)] by blast
  moreover have "ensure_client_ip ?c src = Inr ()" using fw(1) by (simp add: ensure_client_ip_def allowed_ips_def t(1))
  ultimately have "translate_inbound G r later c' = Done (?c, Inr (Some r2))"
    using tun r2' by (simp add: translate_inbound_def reads_def)
  with r2' show ?thesis by blast
qed

end
