(* ===== verification/Client_Setup.thy ===== *)
theory Client_Setup
  imports Client_Packets
begin

text \<open>
  Setting up the NAT of a DNS resource: every proxy address of the client is translated to one of the
  addresses the domain resolved to, of the same family if there is one.
\<close>

section \<open>Assigning resolved addresses\<close>

lemma zip_cycle_fst: "ys \<noteq> [] \<Longrightarrow> map fst (zip_cycle xs ys) = xs"
  by (simp add: zip_cycle_def comp_def map_nth)

lemma zip_cycle_snd: "(x, y) \<in> set (zip_cycle xs ys) \<Longrightarrow> y \<in> set ys"
  by (auto simp: zip_cycle_def split: if_splits)

lemma mapped_subset: "set (mapped_ipv4 ips) \<subseteq> set ips" "set (mapped_ipv6 ips) \<subseteq> set ips"
  by (auto simp: mapped_ipv4_def mapped_ipv6_def ipv4_addresses_def ipv6_addresses_def)

lemma is_ipv6_not4: "is_ipv6 ip \<longleftrightarrow> \<not> is_ipv4 ip"
  by (cases ip) simp_all

lemma mapped_nonempty: "ips \<noteq> [] \<Longrightarrow> mapped_ipv4 ips \<noteq> [] \<and> mapped_ipv6 ips \<noteq> []"
  by (cases ips) (auto simp: mapped_ipv4_def mapped_ipv6_def ipv4_addresses_def ipv6_addresses_def is_ipv6_not4 filter_empty_conv)

lemma mapped_family:
  "x \<in> set ips \<Longrightarrow> is_ipv4 x \<Longrightarrow> y \<in> set (mapped_ipv4 ips) \<Longrightarrow> is_ipv4 y"
  "x \<in> set ips \<Longrightarrow> is_ipv6 x \<Longrightarrow> y \<in> set (mapped_ipv6 ips) \<Longrightarrow> is_ipv6 y"
  by (auto simp: mapped_ipv4_def mapped_ipv6_def ipv4_addresses_def ipv6_addresses_def filter_empty_conv split: if_splits)

lemma ip_maps_keys:
  assumes "resolved \<noteq> []"
  shows "map fst (ip_maps proxies resolved) = filter is_ipv4 proxies @ filter is_ipv6 proxies"
  using mapped_nonempty [OF assms] by (simp add: ip_maps_def zip_cycle_fst)

lemma ip_maps_empty: "ip_maps proxies [] = []"
  by (simp add: ip_maps_def zip_cycle_def mapped_ipv4_def mapped_ipv6_def ipv4_addresses_def ipv6_addresses_def)

lemma ip_maps_target:
  assumes "(ip, real) \<in> set (ip_maps proxies resolved)"
  shows "ip \<in> set proxies" "real \<in> set resolved" "x \<in> set resolved \<Longrightarrow> is_ipv4 x = is_ipv4 ip \<Longrightarrow> is_ipv4 real = is_ipv4 ip"
proof -
  have ne: "resolved \<noteq> []" using assms ip_maps_empty by auto
  have "ip \<in> set (map fst (ip_maps proxies resolved))" using assms by force
  then show "ip \<in> set proxies" by (auto simp: ip_maps_keys [OF ne])
  from assms consider (v4) "(ip, real) \<in> set (zip_cycle (filter is_ipv4 proxies) (mapped_ipv4 resolved))"
    | (v6) "(ip, real) \<in> set (zip_cycle (filter is_ipv6 proxies) (mapped_ipv6 resolved))"
    by (auto simp: ip_maps_def)
  then have "real \<in> set resolved \<and> (x \<in> set resolved \<longrightarrow> is_ipv4 x = is_ipv4 ip \<longrightarrow> is_ipv4 real = is_ipv4 ip)"
  proof cases
    case v4
    then have k: "ip \<in> set (map fst (zip_cycle (filter is_ipv4 proxies) (mapped_ipv4 resolved)))" by force
    then have "is_ipv4 ip" using mapped_nonempty [OF ne] by (simp add: zip_cycle_fst)
    with zip_cycle_snd [OF v4] mapped_subset(1) [of resolved] mapped_family(1) [of x resolved real] show ?thesis by auto
  next
    case v6
    then have k: "ip \<in> set (map fst (zip_cycle (filter is_ipv6 proxies) (mapped_ipv6 resolved)))" by force
    then have "is_ipv6 ip" using mapped_nonempty [OF ne] by (simp add: zip_cycle_fst)
    with zip_cycle_snd [OF v6] mapped_subset(2) [of resolved] mapped_family(2) [of x resolved real]
    show ?thesis by (auto simp: is_ipv6_not4)
  qed
  then show "real \<in> set resolved" "x \<in> set resolved \<Longrightarrow> is_ipv4 x = is_ipv4 ip \<Longrightarrow> is_ipv4 real = is_ipv4 ip" by blast+
qed

lemma ip_maps_lookup:
  "case map_of (ip_maps proxies resolved) ip of
     None \<Rightarrow> resolved = [] \<or> ip \<notin> set proxies
   | Some real \<Rightarrow> ip \<in> set proxies \<and> real \<in> set resolved \<and> (is_ipv4 real = is_ipv4 ip \<or> (\<forall>x \<in> set resolved. is_ipv4 x \<noteq> is_ipv4 ip))"
proof (cases "map_of (ip_maps proxies resolved) ip")
  case None
  have "ip \<notin> set proxies" if r: "resolved \<noteq> []"
  proof -
    have "fst ` set (ip_maps proxies resolved) = set (filter is_ipv4 proxies @ filter is_ipv6 proxies)"
      unfolding set_map [symmetric] ip_maps_keys [OF r] ..
    then show ?thesis using None by (auto simp: map_of_eq_None_iff is_ipv6_not4)
  qed
  with None show ?thesis by auto
next
  case (Some real)
  from ip_maps_target [OF map_of_SomeD [OF Some]] Some show ?thesis by auto
qed

lemma hm_get_fold_insert:
  assumes "distinct (map fst xs)"
  shows "hm_get (fold (\<lambda>(k, v). hm_insert k (f v)) xs m) k = (case map_of xs k of Some v \<Rightarrow> Some (f v) | None \<Rightarrow> hm_get m k)"
  using assms
proof (induction xs arbitrary: m)
  case (Cons x xs)
  obtain a b where x: "x = (a, b)" by (cases x)
  have "map_of xs a = None" using Cons.prems by (simp add: x map_of_eq_None_iff)
  then show ?case using Cons by (cases "k = a") (simp_all add: x split: option.splits)
qed simp

lemma hm_wf_fold_insert: "hm_wf m \<Longrightarrow> hm_wf (fold (\<lambda>(k, v). hm_insert k (f v)) xs m)"
  by (induction xs arbitrary: m) auto

section \<open>Setting up the NAT\<close>

text \<open>Which requests are accepted: those for a subdomain of a DNS resource of the client.\<close>

definition nat_allowed :: "('bm, 'rs, 'ft) gw_env \<Rightarrow> ('bm, 'ft) client_on_gateway \<Rightarrow> domain_name \<Rightarrow> resource_id \<Rightarrow> bool" where
  "nat_allowed G c name i = (case hm_get (cl_resources c) i of
       Some (ResDns address ds f e) \<Rightarrow> is_subdomain (gw_glob G) name address
     | _ \<Rightarrow> False)"

lemma setup_nat_rejects: "\<not> nat_allowed G c name i \<Longrightarrow> \<exists>e. setup_nat G name i resolved proxies c = Done (c, Inl e)"
  by (auto simp: nat_allowed_def setup_nat_def split: option.splits resource_on_gateway.splits)

lemma setup_nat_ok:
  assumes G: "gw_laws G" and inv: "client_inv G kind c" and ok: "nat_allowed G c name i" and dist: "distinct proxies"
  shows "\<exists>c'. setup_nat G name i resolved proxies c = Done (c', Inr ()) \<and> client_inv G kind c' \<and>
     cl_id c' = cl_id c \<and> cl_ipv4 c' = cl_ipv4 c \<and> cl_ipv6 c' = cl_ipv6 c \<and> cl_nat_table c' = cl_nat_table c \<and>
     (\<forall>ip. hm_get (cl_permanent_translations c') ip = (case map_of (ip_maps proxies resolved) ip of
        Some real \<Rightarrow> Some \<lparr>ts_resource_id = i, ts_resolved_ip = real\<rparr>
      | None \<Rightarrow> hm_get (cl_permanent_translations c) ip)) \<and>
     (\<forall>j. map_option resource_filters (hm_get (cl_resources c') j) = map_option resource_filters (hm_get (cl_resources c) j))"
proof -
  obtain a ds f e where r: "hm_get (cl_resources c) i = Some (ResDns a ds f e)" "is_subdomain (gw_glob G) name a"
    using ok by (auto simp: nat_allowed_def split: option.splits resource_on_gateway.splits)
  let ?mk = "\<lambda>real. \<lparr>ts_resource_id = i, ts_resolved_ip = real\<rparr>"
  let ?ts = "fold (\<lambda>(proxy_ip, real_ip). hm_insert proxy_ip (?mk real_ip)) (ip_maps proxies resolved) (cl_permanent_translations c)"
  let ?c = "c\<lparr>cl_permanent_translations := ?ts,
      cl_resources := hm_insert i (ResDns a (hm_insert name resolved ds) f e) (cl_resources c)\<rparr>"
  have "distinct (map fst (ip_maps proxies resolved))"
  proof (cases "resolved = []")
    case False
    then show ?thesis using dist by (auto simp: ip_maps_keys is_ipv6_not4)
  qed (simp add: ip_maps_empty)
  note get = hm_get_fold_insert [OF this, where f = ?mk and m = "cl_permanent_translations c"]
  have kind: "kind i = KindDns" and rok: "resource_ok (ResDns a ds f e)" and wf: "hm_wf (cl_resources c)" "hm_wf (cl_permanent_translations c)"
    using inv r(1) by (fastforce simp: client_inv_def resources_ok_def)+
  have "resources_ok kind ?c"
    using inv kind rok hm_wf_fold_insert [OF wf(2), of ?mk]
    by (auto simp: client_inv_def resources_ok_def get split: option.splits if_splits)
  moreover have "nat_inv (gw_bimap G) (cl_nat_table ?c)" using inv by (simp add: client_inv_def)
  ultimately obtain store flag where
      "recalculate_filters G ?c = Done (?c\<lparr>cl_filters := store, cl_internet_resource_enabled := flag\<rparr>)"
      "client_inv G kind (?c\<lparr>cl_filters := store, cl_internet_resource_enabled := flag\<rparr>)"
    using recalculate_filters_ok [OF G] by blast
  then show ?thesis using r by (auto simp: setup_nat_def get)
qed

lemma recalculate_filters_resources:
  assumes "recalculate_filters G c = Done c'"
  shows "cl_resources c' = cl_resources c"
  using assms
  by (auto simp: recalculate_filters_def recalculate_cidr_filters_def recalculate_dns_filters_def Let_def and_then_Done_iff)

lemma setup_nat_resources:
  assumes "setup_nat G name i resolved proxies c = Done (c', Inr ())" "hm_get (cl_resources c) i = Some (ResDns a ds f e)"
  shows "cl_resources c' = hm_insert i (ResDns a (hm_insert name resolved ds) f e) (cl_resources c)"
  using assms by (auto simp: setup_nat_def and_then_Done_iff dest!: recalculate_filters_resources split: if_splits)

end
