(* ===== verification/Peer_Store.thy ===== *)
theory Peer_Store
  imports Client_Setup
begin

text \<open>
  The store of peers (\<^verbatim>\<open>src/rust/connlib/tunnel/src/peer_store.rs\<close>), generic in the peer, and the state of a
  gateway on a client, its second instance. What the users of the store rely on is the locale \<open>peer_routes\<close>.
\<close>

section \<open>The store\<close>

record ('t, 'id, 'p) peer_store =
  ps_id_by_ip :: 't
  ps_peer_by_id :: "('id, 'p) hmap"

definition ps_default :: "('t, 'id) net_table \<Rightarrow> ('t, 'id, 'p) peer_store" where
  "ps_default N = \<lparr>ps_id_by_ip = nt_new N, ps_peer_by_id = []\<rparr>"

definition ps_retain :: "('t, 'id) net_table \<Rightarrow> ('id \<Rightarrow> 'p \<Rightarrow> bool) \<Rightarrow> ('t, 'id, 'p) peer_store \<Rightarrow> ('t, 'id, 'p) peer_store" where
  "ps_retain N f s =
     (let peers = filter (\<lambda>(i, p). f i p) (ps_peer_by_id s)
      in \<lparr>ps_id_by_ip = nt_retain N (\<lambda>_ i. hm_get peers i \<noteq> None) (ps_id_by_ip s), ps_peer_by_id = peers\<rparr>)"

text \<open>Returns whether there is such a peer; the caller then goes on with \<^verbatim>\<open>&mut P\<close>.\<close>

definition ps_add_ip :: "('t, 'id) net_table \<Rightarrow> 'id \<Rightarrow> ip_network \<Rightarrow> ('t, 'id, 'p) peer_store \<Rightarrow> 'p option \<times> ('t, 'id, 'p) peer_store" where
  "ps_add_ip N i ip s = (case hm_get (ps_peer_by_id s) i of
       None \<Rightarrow> (None, s)
     | Some p \<Rightarrow> (Some p, s\<lparr>ps_id_by_ip := nt_insert N ip i (ps_id_by_ip s)\<rparr>))"

definition ps_insert :: "('t, 'id) net_table \<Rightarrow> ('p \<Rightarrow> 'id) \<Rightarrow> 'p \<Rightarrow> ip_network list
    \<Rightarrow> ('t, 'id, 'p) peer_store \<Rightarrow> 'p option \<times> ('t, 'id, 'p) peer_store" where
  "ps_insert N peer_id peer ips s =
     (let i = peer_id peer;
          old_peer = hm_get (ps_peer_by_id s) i;
          s = s\<lparr>ps_id_by_ip := nt_retain N (\<lambda>_ j. j \<noteq> i) (ps_id_by_ip s), ps_peer_by_id := hm_insert i peer (ps_peer_by_id s)\<rparr>
      in (old_peer, fold (\<lambda>ip s. snd (ps_add_ip N i ip s)) ips s))"

definition ps_remove :: "('t, 'id) net_table \<Rightarrow> 'id \<Rightarrow> ('t, 'id, 'p) peer_store \<Rightarrow> 'p option \<times> ('t, 'id, 'p) peer_store" where
  "ps_remove N i s =
     (hm_get (ps_peer_by_id s) i,
      \<lparr>ps_id_by_ip = nt_retain N (\<lambda>_ j. j \<noteq> i) (ps_id_by_ip s), ps_peer_by_id = hm_remove i (ps_peer_by_id s)\<rparr>)"

definition ps_get :: "('t, 'id, 'p) peer_store \<Rightarrow> 'id \<Rightarrow> 'p option" where
  "ps_get s i = hm_get (ps_peer_by_id s) i"

text \<open>A write through the reference that \<^verbatim>\<open>get_mut\<close>, \<^verbatim>\<open>peer_by_ip_mut\<close> or \<^verbatim>\<open>entry\<close> returns.\<close>

definition ps_put :: "'id \<Rightarrow> 'p \<Rightarrow> ('t, 'id, 'p) peer_store \<Rightarrow> ('t, 'id, 'p) peer_store" where
  "ps_put i p s = s\<lparr>ps_peer_by_id := hm_insert i p (ps_peer_by_id s)\<rparr>"

definition peer_by_ip :: "('t, 'id) net_table \<Rightarrow> ('t, 'id, 'p) peer_store \<Rightarrow> ip_addr \<Rightarrow> ('id \<times> 'p) option" where
  "peer_by_ip N s ip = (case nt_longest_match N (ps_id_by_ip s) ip of
       None \<Rightarrow> None
     | Some (_, i) \<Rightarrow> map_option (\<lambda>p. (i, p)) (hm_get (ps_peer_by_id s) i))"

definition ps_clear :: "('t, 'id) net_table \<Rightarrow> ('t, 'id, 'p) peer_store \<Rightarrow> ('t, 'id, 'p) peer_store" where
  "ps_clear N s = \<lparr>ps_id_by_ip = nt_new N, ps_peer_by_id = []\<rparr>"

section \<open>A gateway on a client\<close>

record 't gateway_on_client =
  gc_id :: gateway_id
  gc_allowed_ips :: 't

definition gateway_on_client_new :: "('t, resource_id set) net_table \<Rightarrow> gateway_id \<Rightarrow> 't gateway_on_client" where
  "gateway_on_client_new N i = \<lparr>gc_id = i, gc_allowed_ips = nt_new N\<rparr>"

definition insert_id :: "('t, resource_id set) net_table \<Rightarrow> ip_network \<Rightarrow> resource_id \<Rightarrow> 't gateway_on_client \<Rightarrow> 't gateway_on_client" where
  "insert_id N ip i g = (case nt_exact_match N (gc_allowed_ips g) ip of
       Some resources \<Rightarrow> g\<lparr>gc_allowed_ips := nt_insert N ip (insert i resources) (gc_allowed_ips g)\<rparr>
     | None \<Rightarrow> g\<lparr>gc_allowed_ips := nt_insert N ip {i} (gc_allowed_ips g)\<rparr>)"

definition ensure_allowed_src :: "etherparse \<Rightarrow> ('t, resource_id set) net_table \<Rightarrow> 't gateway_on_client \<Rightarrow> ip_packet \<Rightarrow> (tunnel_error, unit) fallible" where
  "ensure_allowed_src E N g packet =
     and_then (source E packet) (\<lambda>src.
     Done (if nt_longest_match N (gc_allowed_ips g) src = None then Inl (NotClientIp src) else Inr ()))"

definition add_ips_with_resource :: "('t, gateway_id) net_table \<Rightarrow> ('a, resource_id set) net_table \<Rightarrow> gateway_id \<Rightarrow> ip_network list
    \<Rightarrow> resource_id \<Rightarrow> ('t, gateway_id, 'a gateway_on_client) peer_store \<Rightarrow> ('t, gateway_id, 'a gateway_on_client) peer_store" where
  "add_ips_with_resource N A i ips resource s =
     fold (\<lambda>ip s. case ps_add_ip N i ip s of
         (None, s) \<Rightarrow> s
       | (Some peer, s) \<Rightarrow> ps_put i (insert_id A ip resource peer) s) ips s"

section \<open>The invariant\<close>

text \<open>Every address leads to a peer of the store.\<close>

definition ps_inv :: "('t, 'id) net_table \<Rightarrow> ('t, 'id, 'p) peer_store \<Rightarrow> bool" where
  "ps_inv N s \<longleftrightarrow> hm_wf (ps_peer_by_id s) \<and>
     (\<forall>n i. nt_exact_match N (ps_id_by_ip s) n = Some i \<longrightarrow> hm_get (ps_peer_by_id s) i \<noteq> None)"

locale peer_routes =
  fixes get :: "'s \<Rightarrow> 'id \<Rightarrow> 'p option"
    and lookup :: "'s \<Rightarrow> ip_addr \<Rightarrow> ('id \<times> 'p) option"
    and put :: "'id \<Rightarrow> 'p \<Rightarrow> 's \<Rightarrow> 's"
    and remove :: "'id \<Rightarrow> 's \<Rightarrow> 's"
    and inv :: "'s \<Rightarrow> bool"
  assumes lookup_get: "inv s \<Longrightarrow> lookup s ip = Some (i, p) \<Longrightarrow> get s i = Some p"
    and get_put: "get (put i p s) j = (if j = i then Some p else get s j)"
    and get_remove: "get (remove i s) j = (if j = i then None else get s j)"
    and inv_put: "inv s \<Longrightarrow> inv (put i p s)"
    and inv_remove: "inv s \<Longrightarrow> inv (remove i s)"
begin

text \<open>Once removed, a peer is never found by an address.\<close>

lemma lookup_removed: "inv s \<Longrightarrow> lookup (remove i s) ip \<noteq> Some (i, p)"
  using lookup_get [OF inv_remove] get_remove by fastforce

text \<open>A property of all peers survives writing peers that have it and removing peers.\<close>

lemma all_put: "(\<And>j q. get s j = Some q \<Longrightarrow> P j q) \<Longrightarrow> P i p \<Longrightarrow> get (put i p s) j = Some q \<Longrightarrow> P j q"
  by (auto simp: get_put split: if_splits)

lemma all_remove: "(\<And>j q. get s j = Some q \<Longrightarrow> P j q) \<Longrightarrow> get (remove i s) j = Some q \<Longrightarrow> P j q"
  by (auto simp: get_remove split: if_splits)

lemma lookup_prop: "inv s \<Longrightarrow> (\<And>j q. get s j = Some q \<Longrightarrow> P j q) \<Longrightarrow> lookup s ip = Some (i, p) \<Longrightarrow> P i p"
  using lookup_get by blast

end

lemma ps_inv_default: "net_table_laws C N \<Longrightarrow> ps_inv N (ps_default N)"
  by (simp add: ps_inv_def ps_default_def net_table_exact(1))

lemma ps_inv_clear: "net_table_laws C N \<Longrightarrow> ps_inv N (ps_clear N s)"
  by (simp add: ps_inv_def ps_clear_def net_table_exact(1))

lemma ps_inv_put: "ps_inv N s \<Longrightarrow> ps_inv N (ps_put i p s)"
  by (auto simp: ps_inv_def ps_put_def)

lemma ps_inv_remove: "net_table_laws C N \<Longrightarrow> ps_inv N s \<Longrightarrow> ps_inv N (snd (ps_remove N i s))"
  by (auto simp: ps_inv_def ps_remove_def net_table_exact(3) split: option.splits if_splits)

lemma ps_inv_retain: "net_table_laws C N \<Longrightarrow> ps_inv N s \<Longrightarrow> ps_inv N (ps_retain N f s)"
  by (auto simp: ps_inv_def ps_retain_def Let_def net_table_exact(3) split: option.splits if_splits)

lemma ps_add_ip_get: "ps_peer_by_id (snd (ps_add_ip N i ip s)) = ps_peer_by_id s"
  by (simp add: ps_add_ip_def split: option.splits)

lemma ps_inv_add_ip: "net_table_laws C N \<Longrightarrow> ps_inv N s \<Longrightarrow> ps_inv N (snd (ps_add_ip N i ip s))"
  by (auto simp: ps_inv_def ps_add_ip_def net_table_exact(2) split: option.splits if_splits)

lemma ps_inv_add_ips: "net_table_laws C N \<Longrightarrow> ps_inv N s \<Longrightarrow> ps_inv N (fold (\<lambda>ip s. snd (ps_add_ip N i ip s)) ips s)"
  by (induction ips arbitrary: s) (simp_all add: ps_inv_add_ip)

lemma ps_inv_insert:
  assumes N: "net_table_laws C N" and s: "ps_inv N s"
  shows "ps_inv N (snd (ps_insert N peer_id p ips s))"
proof -
  let ?s = "s\<lparr>ps_id_by_ip := nt_retain N (\<lambda>_ j. j \<noteq> peer_id p) (ps_id_by_ip s), ps_peer_by_id := hm_insert (peer_id p) p (ps_peer_by_id s)\<rparr>"
  have "ps_inv N ?s" using s by (auto simp: ps_inv_def net_table_exact(3) [OF N] split: option.splits if_splits)
  from ps_inv_add_ips [OF N this] show ?thesis by (simp add: ps_insert_def Let_def)
qed

interpretation routes: peer_routes ps_get "peer_by_ip N" ps_put "\<lambda>i s. snd (ps_remove N i s)"
    "\<lambda>s. net_table_laws C N \<and> ps_inv N s" for C N
proof unfold_locales
  fix s :: "('a, 'b, 'c) peer_store" and ip i j p
  show "net_table_laws C N \<and> ps_inv N s \<Longrightarrow> peer_by_ip N s ip = Some (i, p) \<Longrightarrow> ps_get s i = Some p"
    by (auto simp: peer_by_ip_def ps_get_def split: option.splits)
  show "ps_get (ps_put i p s) j = (if j = i then Some p else ps_get s j)"
    by (simp add: ps_get_def ps_put_def)
  show "ps_get (snd (ps_remove N i s)) j = (if j = i then None else ps_get s j)"
    by (simp add: ps_get_def ps_remove_def)
  show "net_table_laws C N \<and> ps_inv N s \<Longrightarrow> net_table_laws C N \<and> ps_inv N (ps_put i p s)"
    by (simp add: ps_inv_put)
  show "net_table_laws C N \<and> ps_inv N s \<Longrightarrow> net_table_laws C N \<and> ps_inv N (snd (ps_remove N i s))"
    using ps_inv_remove [of C N s i] by simp
qed

text \<open>A lookup by address always finds a peer when some network of the store contains the address.\<close>

lemma peer_by_ip_some:
  assumes N: "net_table_laws C N" and s: "ps_inv N s" and n: "nt_exact_match N (ps_id_by_ip s) n = Some i" "C n ip"
  shows "\<exists>j p. peer_by_ip N s ip = Some (j, p)"
proof -
  obtain m j where m: "nt_longest_match N (ps_id_by_ip s) ip = Some (m, j)" using net_table_none [OF N n] by blast
  have "nt_exact_match N (ps_id_by_ip s) m = Some j" using net_table_longest(1) [OF N m] .
  then have "hm_get (ps_peer_by_id s) j \<noteq> None" using s by (auto simp: ps_inv_def)
  with m show ?thesis by (auto simp: peer_by_ip_def)
qed

text \<open>The address that a peer was added under leads to it.\<close>

lemma peer_by_ip_add_host:
  assumes N: "net_table_laws C N" and C: "net_laws C" and p: "hm_get (ps_peer_by_id s) i = Some p"
    and wf: "\<And>n j. nt_exact_match N (ps_id_by_ip s) n = Some j \<Longrightarrow> net_wf n"
  shows "peer_by_ip N (snd (ps_add_ip N i (net_from ip) s)) ip = Some (i, p)"
proof -
  let ?t = "nt_insert N (net_from ip) i (ps_id_by_ip s)"
  have host: "nt_exact_match N ?t (net_from ip) = Some i" by (simp add: net_table_exact(2) [OF N])
  obtain m j where m: "nt_longest_match N ?t ip = Some (m, j)"
    using net_table_none [OF N host net_from_contains(3) [OF C]] by blast
  note l = net_table_longest [OF N m]
  have "net_wf m" using l(1) wf net_from_contains(2) [OF C] by (auto simp: net_table_exact(2) [OF N] split: if_splits)
  moreover have "netmask (net_from ip) \<le> netmask m" using l(3) [OF host net_from_contains(3) [OF C]] .
  ultimately have "m = net_from ip" using netmask_bound [OF C _ l(2)] by simp
  then have "j = i" using l(1) host by simp
  with m p show ?thesis by (simp add: ps_add_ip_def peer_by_ip_def)
qed

text \<open>Traffic is accepted from every address of every resource that was routed through the gateway.\<close>

lemma insert_id_allows:
  assumes N: "net_table_laws C N" and n: "C n ip" "nt_exact_match N (gc_allowed_ips g) n \<noteq> None \<or> n = m"
  shows "nt_longest_match N (gc_allowed_ips (insert_id N m r g)) ip \<noteq> None"
proof -
  have "nt_exact_match N (gc_allowed_ips (insert_id N m r g)) n \<noteq> None"
    using n(2) by (auto simp: insert_id_def net_table_exact(2) [OF N] split: option.splits)
  then obtain v where v: "nt_exact_match N (gc_allowed_ips (insert_id N m r g)) n = Some v" by blast
  obtain k w where "nt_longest_match N (gc_allowed_ips (insert_id N m r g)) ip = Some (k, w)"
    using net_table_none [OF N v n(1)] by blast
  then show ?thesis by simp
qed

end
