(* ===== verification/Gateway_State.thy ===== *)
theory Gateway_State
  imports Peer_Store "HOL-Library.Char_ord" "HOL-Library.List_Lexorder"
begin

text \<open>
  The state machine of a gateway (\<^verbatim>\<open>src/rust/connlib/tunnel/src/gateway.rs\<close>) and the control messages it
  exchanges with clients (\<^verbatim>\<open>p2p_control.rs\<close>). The WireGuard and ICE node below it
  (\<^verbatim>\<open>snownet::ServerNode\<close>) is the record \<open>server_node\<close>, JSON is the record \<open>json\<close>; the machine is
  defined for any of them.
\<close>

section \<open>Control messages\<close>

datatype nat_status = Active | Inactive

record assigned_ips =
  ai_resource :: resource_id
  ai_domain :: domain_name
  ai_proxy_ips :: "ip_addr list"

record json =
  js_assigned_ips_to_vec :: "assigned_ips \<Rightarrow> bytes option"
  js_assigned_ips_from_slice :: "bytes \<Rightarrow> assigned_ips option"
  js_domain_status_to_vec :: "resource_id \<Rightarrow> domain_name \<Rightarrow> nat_status \<Rightarrow> bytes option"
  js_domain_status_from_slice :: "bytes \<Rightarrow> (resource_id \<times> domain_name \<times> nat_status) option"

definition ASSIGNED_IPS_EVENT :: u8 where "ASSIGNED_IPS_EVENT = 0"
definition DOMAIN_STATUS_EVENT :: u8 where "DOMAIN_STATUS_EVENT = 1"

datatype control_error = ExpectedEightProxyIps | SerializeFailed | DeserializeFailed | OtherEvent | ControlPacketFailed packet_error

definition event_header :: "u8 \<Rightarrow> bytes" where
  "event_header e = [e, 0, 0, 0, 0, 0, 0, 0]"

definition make_assigned_ips :: "etherparse \<Rightarrow> json \<Rightarrow> assigned_ips \<Rightarrow> (control_error, ip_packet) fallible" where
  "make_assigned_ips E J a =
     try_then (ensure ExpectedEightProxyIps (length (ai_proxy_ips a) = 8)) (\<lambda>_.
     try_then (ok_or SerializeFailed (js_assigned_ips_to_vec J a)) (\<lambda>payload.
     lift_error ControlPacketFailed (make_fz_p2p_control E (event_header ASSIGNED_IPS_EVENT) payload)))"

definition make_domain_status :: "etherparse \<Rightarrow> json \<Rightarrow> resource_id \<Rightarrow> domain_name \<Rightarrow> nat_status \<Rightarrow> (control_error, ip_packet) fallible" where
  "make_domain_status E J i d st =
     try_then (ok_or SerializeFailed (js_domain_status_to_vec J i d st)) (\<lambda>payload.
     lift_error ControlPacketFailed (make_fz_p2p_control E (event_header DOMAIN_STATUS_EVENT) payload))"

text \<open>A control message is its event type and its payload (\<^verbatim>\<open>FzP2pControlSlice\<close>).\<close>

definition decode_assigned_ips :: "json \<Rightarrow> u8 \<times> bytes \<Rightarrow> control_error + assigned_ips" where
  "decode_assigned_ips J m =
     (if fst m \<noteq> ASSIGNED_IPS_EVENT then Inl OtherEvent
      else case js_assigned_ips_from_slice J (snd m) of None \<Rightarrow> Inl DeserializeFailed | Some a \<Rightarrow> Inr a)"

definition decode_domain_status :: "json \<Rightarrow> u8 \<times> bytes \<Rightarrow> control_error + (resource_id \<times> domain_name \<times> nat_status)" where
  "decode_domain_status J m =
     (if fst m \<noteq> DOMAIN_STATUS_EVENT then Inl OtherEvent
      else case js_domain_status_from_slice J (snd m) of None \<Rightarrow> Inl DeserializeFailed | Some a \<Rightarrow> Inr a)"

section \<open>State\<close>

datatype node_event =
    NewIceCandidate client_id string
  | InvalidateIceCandidate client_id string
  | ConnectionEstablished client_id
  | ConnectionFailed client_id
  | ConnectionClosed client_id

text \<open>
  The operations of the node that the gateway calls. \<open>'conn\<close> holds the keys and ICE credentials of a
  connection, \<open>'answer\<close> those of its answer; \<open>'enc\<close> is an \<^verbatim>\<open>EncryptedPacket\<close>, \<open>'tx\<close> a \<^verbatim>\<open>Transmit\<close>.
\<close>

record ('n, 'enc, 'tx, 'conn, 'answer, 'relay) server_node =
  sn_new :: "bytes \<Rightarrow> instant \<Rightarrow> 'n"
  sn_decapsulate :: "socket_addr \<Rightarrow> socket_addr \<Rightarrow> bytes \<Rightarrow> instant \<Rightarrow> 'n \<Rightarrow> 'n \<times> (unit + (client_id \<times> ip_packet) option)"
  sn_encapsulate :: "client_id \<Rightarrow> ip_packet \<Rightarrow> instant \<Rightarrow> 'n \<Rightarrow> 'n \<times> (unit + 'enc option)"
  sn_to_transmit :: "'enc \<Rightarrow> 'tx"
  sn_add_remote_candidate :: "client_id \<Rightarrow> string \<Rightarrow> instant \<Rightarrow> 'n \<Rightarrow> 'n"
  sn_remove_remote_candidate :: "client_id \<Rightarrow> string \<Rightarrow> instant \<Rightarrow> 'n \<Rightarrow> 'n"
  sn_accept_connection :: "client_id \<Rightarrow> 'conn \<Rightarrow> instant \<Rightarrow> 'n \<Rightarrow> 'n \<times> (unit + 'answer)"
  sn_upsert_connection :: "client_id \<Rightarrow> 'conn \<Rightarrow> instant \<Rightarrow> 'n \<Rightarrow> 'n \<times> (unit + unit)"
  sn_handle_timeout :: "instant \<Rightarrow> 'n \<Rightarrow> 'n"
  sn_poll_timeout :: "'n \<Rightarrow> instant option \<times> 'n"
  sn_poll_event :: "'n \<Rightarrow> node_event option \<times> 'n"
  sn_poll_transmit :: "'n \<Rightarrow> 'tx option \<times> 'n"
  sn_update_relays :: "u128 list \<Rightarrow> 'relay list \<Rightarrow> instant \<Rightarrow> 'n \<Rightarrow> 'n"

record ('bm, 'rs, 'ft, 'pt, 'n, 'enc, 'tx, 'conn, 'answer, 'relay) gateway_env =
  ge_client :: "('bm, 'rs, 'ft) gw_env"
  ge_peers :: "('pt, client_id) net_table"
  ge_json :: json
  ge_node :: "('n, 'enc, 'tx, 'conn, 'answer, 'relay) server_node"

type_synonym ('bm, 'ft, 'pt) clients = "('pt, client_id, ('bm, 'ft) client_on_gateway) peer_store"

record ('bm, 'ft, 'pt, 'n, 'tx) gateway_state =
  gs_node :: 'n
  gs_peers :: "('bm, 'ft, 'pt) clients"
  gs_next_expiry_resources_check :: "instant option"
  gs_buffered_events :: "gateway_event list"
  gs_buffered_transmits :: "'tx list"

definition IPV4_PEERS :: ip_network where
  "IPV4_PEERS = Net4 0x64400000 11"

definition IPV6_PEERS :: ip_network where
  "IPV6_PEERS = Net6 0xfd002021111100000000000000000000 107"

definition EXPIRE_RESOURCES_INTERVAL :: duration where
  "EXPIRE_RESOURCES_INTERVAL = from_secs 1"

definition is_client :: "(ip_network \<Rightarrow> ip_addr \<Rightarrow> bool) \<Rightarrow> ip_addr \<Rightarrow> bool" where
  "is_client C dst = (case dst of V4 _ \<Rightarrow> C IPV4_PEERS dst | V6 _ \<Rightarrow> C IPV6_PEERS dst)"

definition gateway_new :: "('bm, 'rs, 'ft, 'pt, 'n, 'enc, 'tx, 'conn, 'answer, 'relay) gateway_env
    \<Rightarrow> bytes \<Rightarrow> instant \<Rightarrow> ('bm, 'ft, 'pt, 'n, 'tx) gateway_state" where
  "gateway_new W seed now =
     \<lparr>gs_node = sn_new (ge_node W) seed now, gs_peers = ps_default (ge_peers W), gs_next_expiry_resources_check = None,
      gs_buffered_events = [], gs_buffered_transmits = []\<rparr>"

section \<open>Packets\<close>

definition handle_tun_input :: "('bm, 'rs, 'ft, 'pt, 'n, 'enc, 'tx, 'conn, 'answer, 'relay) gateway_env
    \<Rightarrow> ip_packet \<Rightarrow> instant \<Rightarrow> ('bm, 'ft, 'pt, 'n, 'tx) gateway_state
    \<Rightarrow> (('bm, 'ft, 'pt, 'n, 'tx) gateway_state, 'enc option) step" where
  "handle_tun_input W packet now s =
     and_then (destination (gw_ep (ge_client W)) packet) (\<lambda>dst.
     if \<not> is_client (gw_contains (ge_client W)) dst then Done (s, Inr None)
     else (case peer_by_ip (ge_peers W) (gs_peers s) dst of
         None \<Rightarrow> Done (s, Inr None)
       | Some (i, peer) \<Rightarrow>
           and_then (translate_inbound (ge_client W) packet now peer) (\<lambda>(peer, r).
           let s = s\<lparr>gs_peers := ps_put i peer (gs_peers s)\<rparr> in
           case r of
             Inl e \<Rightarrow> Done (s, Inl e)
           | Inr None \<Rightarrow> Done (s, Inr None)
           | Inr (Some packet) \<Rightarrow>
               (case sn_encapsulate (ge_node W) (cl_id peer) packet now (gs_node s) of
                  (n, Inl _) \<Rightarrow> Done (s\<lparr>gs_node := n\<rparr>, Inl EncapsulateFailed)
                | (n, Inr encrypted) \<Rightarrow> Done (s\<lparr>gs_node := n\<rparr>, Inr encrypted)))))"

definition handle_p2p_control_packet :: "('bm, 'rs, 'ft, 'pt, 'n, 'enc, 'tx, 'conn, 'answer, 'relay) gateway_env
    \<Rightarrow> u8 \<times> bytes \<Rightarrow> ('bm, 'ft) client_on_gateway \<Rightarrow> gateway_event list \<Rightarrow> (ip_packet option \<times> gateway_event list) outcome" where
  "handle_p2p_control_packet W m peer events =
     (if fst m = ASSIGNED_IPS_EVENT then
        (case decode_assigned_ips (ge_json W) m of
           Inl _ \<Rightarrow> Done (None, events)
         | Inr req \<Rightarrow>
             (if \<not> is_allowed peer (ai_resource req) then
                and_then (make_domain_status (gw_ep (ge_client W)) (ge_json W) (ai_resource req) (ai_domain req) Inactive) (\<lambda>r.
                Done (case r of Inl _ \<Rightarrow> None | Inr packet \<Rightarrow> Some packet, events))
              else Done (None, events @ [ResolveDns \<lparr>rd_domain = ai_domain req, rd_client = cl_id peer,
                     rd_resource = ai_resource req, rd_proxy_ips = ai_proxy_ips req\<rparr>])))
      else Done (None, events))"

definition encrypt_packet :: "('bm, 'rs, 'ft, 'pt, 'n, 'enc, 'tx, 'conn, 'answer, 'relay) gateway_env
    \<Rightarrow> ip_packet \<Rightarrow> client_id \<Rightarrow> instant \<Rightarrow> 'n \<Rightarrow> 'n \<times> (tunnel_error + 'tx option)" where
  "encrypt_packet W packet i now n = (case sn_encapsulate (ge_node W) i packet now n of
       (n, Inl _) \<Rightarrow> (n, Inl EncapsulateFailed)
     | (n, Inr encrypted) \<Rightarrow> (n, Inr (map_option (sn_to_transmit (ge_node W)) encrypted)))"

definition send_packet :: "('bm, 'rs, 'ft, 'pt, 'n, 'enc, 'tx, 'conn, 'answer, 'relay) gateway_env
    \<Rightarrow> ip_packet \<Rightarrow> client_id \<Rightarrow> instant \<Rightarrow> ('bm, 'ft, 'pt, 'n, 'tx) gateway_state
    \<Rightarrow> ('bm, 'ft, 'pt, 'n, 'tx) gateway_state \<times> (tunnel_error + unit)" where
  "send_packet W packet i now s = (case encrypt_packet W packet i now (gs_node s) of
       (n, Inl e) \<Rightarrow> (s\<lparr>gs_node := n\<rparr>, Inl e)
     | (n, Inr None) \<Rightarrow> (s\<lparr>gs_node := n\<rparr>, Inr ())
     | (n, Inr (Some tx)) \<Rightarrow> (s\<lparr>gs_node := n, gs_buffered_transmits := gs_buffered_transmits s @ [tx]\<rparr>, Inr ()))"

definition handle_network_input :: "('bm, 'rs, 'ft, 'pt, 'n, 'enc, 'tx, 'conn, 'answer, 'relay) gateway_env
    \<Rightarrow> socket_addr \<Rightarrow> socket_addr \<Rightarrow> bytes \<Rightarrow> instant \<Rightarrow> ('bm, 'ft, 'pt, 'n, 'tx) gateway_state
    \<Rightarrow> (('bm, 'ft, 'pt, 'n, 'tx) gateway_state, ip_packet option) step" where
  "handle_network_input W local from datagram now s = (case sn_decapsulate (ge_node W) local from datagram now (gs_node s) of
       (n, Inl _) \<Rightarrow> Done (s\<lparr>gs_node := n\<rparr>, Inl DecapsulateFailed)
     | (n, Inr None) \<Rightarrow> Done (s\<lparr>gs_node := n\<rparr>, Inr None)
     | (n, Inr (Some (i, packet))) \<Rightarrow>
         (let s = s\<lparr>gs_node := n\<rparr> in
          case ps_get (gs_peers s) i of
            None \<Rightarrow> Done (s, Inl UnknownConnection)
          | Some peer \<Rightarrow>
              and_then (as_fz_p2p_control (gw_ep (ge_client W)) packet) (\<lambda>control. case control of
                Some m \<Rightarrow>
                  and_then (handle_p2p_control_packet W m peer (gs_buffered_events s)) (\<lambda>(response, events).
                  let s = s\<lparr>gs_buffered_events := events\<rparr> in
                  case response of
                    None \<Rightarrow> Done (s, Inr None)
                  | Some response \<Rightarrow> (case send_packet W response i now s of
                        (s, Inl e) \<Rightarrow> Done (s, Inl e)
                      | (s, Inr _) \<Rightarrow> Done (s, Inr None)))
              | None \<Rightarrow>
                  and_then (translate_outbound (ge_client W) packet now peer) (\<lambda>(peer, r).
                  Done (s\<lparr>gs_peers := ps_put i peer (gs_peers s)\<rparr>, r)))))"

section \<open>Access\<close>

definition cleanup_connection :: "('bm, 'rs, 'ft, 'pt, 'n, 'enc, 'tx, 'conn, 'answer, 'relay) gateway_env
    \<Rightarrow> client_id \<Rightarrow> ('bm, 'ft, 'pt, 'n, 'tx) gateway_state \<Rightarrow> ('bm, 'ft, 'pt, 'n, 'tx) gateway_state" where
  "cleanup_connection W i s = s\<lparr>gs_peers := snd (ps_remove (ge_peers W) i (gs_peers s))\<rparr>"

definition remove_access :: "('bm, 'rs, 'ft, 'pt, 'n, 'enc, 'tx, 'conn, 'answer, 'relay) gateway_env
    \<Rightarrow> client_id \<Rightarrow> resource_id \<Rightarrow> ('bm, 'ft, 'pt, 'n, 'tx) gateway_state \<Rightarrow> ('bm, 'ft, 'pt, 'n, 'tx) gateway_state outcome" where
  "remove_access W client resource s = (case ps_get (gs_peers s) client of
       None \<Rightarrow> Done s
     | Some peer \<Rightarrow>
         and_then (remove_resource (ge_client W) resource peer) (\<lambda>peer.
         let s = s\<lparr>gs_peers := ps_put client peer (gs_peers s)\<rparr> in
         Done (if is_emptied peer then s\<lparr>gs_peers := snd (ps_remove (ge_peers W) client (gs_peers s))\<rparr> else s)))"

text \<open>\<^verbatim>\<open>for peer in self.peers.iter_mut()\<close>: every peer in turn.\<close>

definition each_peer :: "('p \<Rightarrow> 'p outcome) \<Rightarrow> ('t, 'id, 'p) peer_store \<Rightarrow> ('t, 'id, 'p) peer_store outcome" where
  "each_peer f s =
     and_then (fold_outcome (\<lambda>(i, p) acc. and_then (f p) (\<lambda>p. Done (acc @ [(i, p)]))) (ps_peer_by_id s) []) (\<lambda>peers.
     Done (s\<lparr>ps_peer_by_id := peers\<rparr>))"

definition gateway_update_resource :: "('bm, 'rs, 'ft, 'pt, 'n, 'enc, 'tx, 'conn, 'answer, 'relay) gateway_env
    \<Rightarrow> resource_description \<Rightarrow> ('bm, 'ft, 'pt, 'n, 'tx) gateway_state \<Rightarrow> ('bm, 'ft, 'pt, 'n, 'tx) gateway_state outcome" where
  "gateway_update_resource W d s =
     and_then (each_peer (update_resource (ge_client W) d) (gs_peers s)) (\<lambda>peers. Done (s\<lparr>gs_peers := peers\<rparr>))"

record dns_resource_nat_entry =
  de_domain :: domain_name
  de_proxy_ips :: "ip_addr list"
  de_resolved_ips :: "ip_addr list"

definition allow_access :: "('bm, 'rs, 'ft, 'pt, 'n, 'enc, 'tx, 'conn, 'answer, 'relay) gateway_env
    \<Rightarrow> client_id \<Rightarrow> ipv4 \<Rightarrow> ipv6 \<Rightarrow> datetime option \<Rightarrow> resource_description \<Rightarrow> dns_resource_nat_entry option
    \<Rightarrow> ('bm, 'ft, 'pt, 'n, 'tx) gateway_state \<Rightarrow> (('bm, 'ft, 'pt, 'n, 'tx) gateway_state, unit) step" where
  "allow_access W client a4 a6 expires_at resource dns_resource_nat s =
     (let peer = (case ps_get (gs_peers s) client of None \<Rightarrow> client_new (ge_client W) client a4 a6 | Some peer \<Rightarrow> peer) in
      and_then (add_resource (ge_client W) resource expires_at peer) (\<lambda>peer.
      and_then (case dns_resource_nat of
          None \<Rightarrow> Done (peer, Inr ())
        | Some entry \<Rightarrow> setup_nat (ge_client W) (de_domain entry) (description_id resource)
            (btree_set (de_resolved_ips entry)) (btree_set (de_proxy_ips entry)) peer) (\<lambda>(peer, r).
      let peers = ps_put client peer (gs_peers s) in
      case r of
        Inl e \<Rightarrow> Done (s\<lparr>gs_peers := peers\<rparr>, Inl e)
      | Inr _ \<Rightarrow>
          Done (s\<lparr>gs_peers := snd (ps_add_ip (ge_peers W) client (net_from (V6 a6))
                   (snd (ps_add_ip (ge_peers W) client (net_from (V4 a4)) peers)))\<rparr>, Inr ()))))"

definition accept_connection :: "('bm, 'rs, 'ft, 'pt, 'n, 'enc, 'tx, 'conn, 'answer, 'relay) gateway_env
    \<Rightarrow> client_id \<Rightarrow> 'conn \<Rightarrow> instant \<Rightarrow> ('bm, 'ft, 'pt, 'n, 'tx) gateway_state
    \<Rightarrow> ('bm, 'ft, 'pt, 'n, 'tx) gateway_state \<times> (tunnel_error + 'answer)" where
  "accept_connection W client conn now s = (case sn_accept_connection (ge_node W) client conn now (gs_node s) of
       (n, Inl _) \<Rightarrow> (s\<lparr>gs_node := n\<rparr>, Inl NoTurnServers)
     | (n, Inr answer) \<Rightarrow> (s\<lparr>gs_node := n\<rparr>, Inr answer))"

definition authorize_flow :: "('bm, 'rs, 'ft, 'pt, 'n, 'enc, 'tx, 'conn, 'answer, 'relay) gateway_env
    \<Rightarrow> client_id \<Rightarrow> 'conn \<Rightarrow> ipv4 \<Rightarrow> ipv6 \<Rightarrow> datetime option \<Rightarrow> resource_description \<Rightarrow> instant
    \<Rightarrow> ('bm, 'ft, 'pt, 'n, 'tx) gateway_state \<Rightarrow> (('bm, 'ft, 'pt, 'n, 'tx) gateway_state, unit) step" where
  "authorize_flow W client conn a4 a6 expires_at resource now s =
     (case sn_upsert_connection (ge_node W) client conn now (gs_node s) of
        (n, Inl _) \<Rightarrow> Done (s\<lparr>gs_node := n\<rparr>, Inl NoTurnServers)
      | (n, Inr _) \<Rightarrow>
          and_then (allow_access W client a4 a6 expires_at resource None (s\<lparr>gs_node := n\<rparr>)) (\<lambda>(s, r).
          and_then (assert_that (r = Inr ())) (\<lambda>_. Done (s, Inr ()))))"

definition handle_domain_resolved :: "('bm, 'rs, 'ft, 'pt, 'n, 'enc, 'tx, 'conn, 'answer, 'relay) gateway_env
    \<Rightarrow> resolve_dns_request \<Rightarrow> unit + ip_addr list \<Rightarrow> instant
    \<Rightarrow> ('bm, 'ft, 'pt, 'n, 'tx) gateway_state \<Rightarrow> (('bm, 'ft, 'pt, 'n, 'tx) gateway_state, unit) step" where
  "handle_domain_resolved W req resolve_result now s =
     and_then (case resolve_result of
         Inl _ \<Rightarrow> Done (s, Inl ResolveFailed)
       | Inr addresses \<Rightarrow> (case ps_get (gs_peers s) (rd_client req) of
             None \<Rightarrow> Done (s, Inl UnknownPeer)
           | Some peer \<Rightarrow>
               and_then (setup_nat (ge_client W) (rd_domain req) (rd_resource req) (btree_set addresses) (btree_set (rd_proxy_ips req)) peer) (\<lambda>(peer, r).
               Done (s\<lparr>gs_peers := ps_put (rd_client req) peer (gs_peers s)\<rparr>, r)))) (\<lambda>(s, r).
     let status = (case r of Inl _ \<Rightarrow> Inactive | Inr _ \<Rightarrow> Active) in
     and_then (make_domain_status (gw_ep (ge_client W)) (ge_json W) (rd_resource req) (rd_domain req) status) (\<lambda>r. case r of
       Inl _ \<Rightarrow> Done (s, Inl EncapsulateFailed)
     | Inr packet \<Rightarrow> Done (send_packet W packet (rd_client req) now s)))"

section \<open>Events and time\<close>

text \<open>One event of the node; the two maps collect ICE candidates by client.\<close>

type_synonym candidates = "(client_id, string list) hmap"

definition add_candidate :: "client_id \<Rightarrow> string \<Rightarrow> candidates \<Rightarrow> candidates" where
  "add_candidate i c m = hm_insert i (insort_insert c (case hm_get m i of None \<Rightarrow> [] | Some cs \<Rightarrow> cs)) m"

definition apply_node_event :: "('pt, client_id) net_table \<Rightarrow> node_event
    \<Rightarrow> ('bm, 'ft, 'pt) clients \<times> candidates \<times> candidates \<Rightarrow> ('bm, 'ft, 'pt) clients \<times> candidates \<times> candidates" where
  "apply_node_event N e = (\<lambda>(peers, added, removed). case e of
       ConnectionFailed i \<Rightarrow> (snd (ps_remove N i peers), added, removed)
     | ConnectionClosed i \<Rightarrow> (snd (ps_remove N i peers), added, removed)
     | NewIceCandidate i c \<Rightarrow> (peers, add_candidate i c added, removed)
     | InvalidateIceCandidate i c \<Rightarrow> (peers, added, add_candidate i c removed)
     | ConnectionEstablished i \<Rightarrow> (peers, added, removed))"

text \<open>\<^verbatim>\<open>while let Some(event) = self.node.poll_event()\<close>\<close>

partial_function (option) drain_loop :: "('n \<Rightarrow> node_event option \<times> 'n) \<Rightarrow> (node_event \<Rightarrow> 'a \<Rightarrow> 'a) \<Rightarrow> 'n \<Rightarrow> 'a \<Rightarrow> ('n \<times> 'a) option" where
  "drain_loop poll f n acc =
     (let r = poll n in
      case fst r of
        None \<Rightarrow> Some (snd r, acc)
      | Some e \<Rightarrow> drain_loop poll f (snd r) (f e acc))"

definition drain_node_events :: "('bm, 'rs, 'ft, 'pt, 'n, 'enc, 'tx, 'conn, 'answer, 'relay) gateway_env
    \<Rightarrow> ('bm, 'ft, 'pt, 'n, 'tx) gateway_state \<Rightarrow> ('bm, 'ft, 'pt, 'n, 'tx) gateway_state outcome" where
  "drain_node_events W s =
     (case drain_loop (sn_poll_event (ge_node W)) (apply_node_event (ge_peers W)) (gs_node s) (gs_peers s, [], []) of
        None \<Rightarrow> Diverges
      | Some (n, peers, added, removed) \<Rightarrow>
          Done (s\<lparr>gs_node := n, gs_peers := peers,
             gs_buffered_events := gs_buffered_events s @ map (\<lambda>(i, cs). AddedIceCandidates i cs) (sort_key fst added)
               @ map (\<lambda>(i, cs). RemovedIceCandidates i cs) (sort_key fst removed)\<rparr>))"

definition add_ice_candidate :: "('bm, 'rs, 'ft, 'pt, 'n, 'enc, 'tx, 'conn, 'answer, 'relay) gateway_env
    \<Rightarrow> client_id \<Rightarrow> string \<Rightarrow> instant \<Rightarrow> ('bm, 'ft, 'pt, 'n, 'tx) gateway_state \<Rightarrow> ('bm, 'ft, 'pt, 'n, 'tx) gateway_state outcome" where
  "add_ice_candidate W i c now s = drain_node_events W
     (s\<lparr>gs_node := sn_handle_timeout (ge_node W) now (sn_add_remote_candidate (ge_node W) i c now (gs_node s))\<rparr>)"

definition remove_ice_candidate :: "('bm, 'rs, 'ft, 'pt, 'n, 'enc, 'tx, 'conn, 'answer, 'relay) gateway_env
    \<Rightarrow> client_id \<Rightarrow> string \<Rightarrow> instant \<Rightarrow> ('bm, 'ft, 'pt, 'n, 'tx) gateway_state \<Rightarrow> ('bm, 'ft, 'pt, 'n, 'tx) gateway_state outcome" where
  "remove_ice_candidate W i c now s = drain_node_events W
     (s\<lparr>gs_node := sn_handle_timeout (ge_node W) now (sn_remove_remote_candidate (ge_node W) i c now (gs_node s))\<rparr>)"

definition update_relays :: "('bm, 'rs, 'ft, 'pt, 'n, 'enc, 'tx, 'conn, 'answer, 'relay) gateway_env
    \<Rightarrow> u128 list \<Rightarrow> 'relay list \<Rightarrow> instant \<Rightarrow> ('bm, 'ft, 'pt, 'n, 'tx) gateway_state \<Rightarrow> ('bm, 'ft, 'pt, 'n, 'tx) gateway_state outcome" where
  "update_relays W to_remove to_add now s = drain_node_events W
     (s\<lparr>gs_node := sn_update_relays (ge_node W) to_remove to_add now (gs_node s)\<rparr>)"

definition earliest_instant :: "instant option \<Rightarrow> instant option \<Rightarrow> instant option" where
  "earliest_instant l r = (case (l, r) of
       (None, None) \<Rightarrow> None
     | (Some a, Some b) \<Rightarrow> Some (min a b)
     | (Some a, None) \<Rightarrow> Some a
     | (None, Some b) \<Rightarrow> Some b)"

definition gateway_poll_timeout :: "('bm, 'rs, 'ft, 'pt, 'n, 'enc, 'tx, 'conn, 'answer, 'relay) gateway_env
    \<Rightarrow> ('bm, 'ft, 'pt, 'n, 'tx) gateway_state \<Rightarrow> instant option \<times> ('bm, 'ft, 'pt, 'n, 'tx) gateway_state" where
  "gateway_poll_timeout W s =
     (let (t, n) = sn_poll_timeout (ge_node W) (gs_node s)
      in (earliest_instant (gs_next_expiry_resources_check s) t, s\<lparr>gs_node := n\<rparr>))"

definition gateway_handle_timeout :: "('bm, 'rs, 'ft, 'pt, 'n, 'enc, 'tx, 'conn, 'answer, 'relay) gateway_env
    \<Rightarrow> instant \<Rightarrow> datetime \<Rightarrow> ('bm, 'ft, 'pt, 'n, 'tx) gateway_state \<Rightarrow> ('bm, 'ft, 'pt, 'n, 'tx) gateway_state outcome" where
  "gateway_handle_timeout W now utc_now s =
     and_then (drain_node_events W (s\<lparr>gs_node := sn_handle_timeout (ge_node W) now (gs_node s)\<rparr>)) (\<lambda>s.
     case gs_next_expiry_resources_check s of
       Some t \<Rightarrow>
         (if t \<le> now then
            and_then (each_peer (\<lambda>p.
                and_then (expire_resources (ge_client W) utc_now p) (\<lambda>p.
                Done (client_handle_timeout (ge_client W) now p))) (gs_peers s)) (\<lambda>peers.
            Done (s\<lparr>gs_peers := ps_retain (ge_peers W) (\<lambda>_ p. \<not> is_emptied p) peers,
                    gs_next_expiry_resources_check := Some (now + EXPIRE_RESOURCES_INTERVAL)\<rparr>))
          else Done s)
     | None \<Rightarrow> Done (s\<lparr>gs_next_expiry_resources_check := Some (now + EXPIRE_RESOURCES_INTERVAL)\<rparr>))"

definition gateway_poll_transmit :: "('bm, 'rs, 'ft, 'pt, 'n, 'enc, 'tx, 'conn, 'answer, 'relay) gateway_env
    \<Rightarrow> ('bm, 'ft, 'pt, 'n, 'tx) gateway_state \<Rightarrow> 'tx option \<times> ('bm, 'ft, 'pt, 'n, 'tx) gateway_state" where
  "gateway_poll_transmit W s = (case gs_buffered_transmits s of
       tx # txs \<Rightarrow> (Some tx, s\<lparr>gs_buffered_transmits := txs\<rparr>)
     | [] \<Rightarrow> (let (tx, n) = sn_poll_transmit (ge_node W) (gs_node s) in (tx, s\<lparr>gs_node := n\<rparr>)))"

fun poll_peer_events :: "('id \<times> ('bm, 'ft) client_on_gateway) list \<Rightarrow> gateway_event option \<times> ('id \<times> ('bm, 'ft) client_on_gateway) list" where
  "poll_peer_events [] = (None, [])"
| "poll_peer_events ((i, p) # ps) = (case client_poll_event p of
       (Some e, p) \<Rightarrow> (Some e, (i, p) # ps)
     | (None, p) \<Rightarrow> (let (e, ps) = poll_peer_events ps in (e, (i, p) # ps)))"

definition gateway_poll_event :: "('bm, 'ft, 'pt, 'n, 'tx) gateway_state \<Rightarrow> gateway_event option \<times> ('bm, 'ft, 'pt, 'n, 'tx) gateway_state" where
  "gateway_poll_event s = (case gs_buffered_events s of
       e # es \<Rightarrow> (Some e, s\<lparr>gs_buffered_events := es\<rparr>)
     | [] \<Rightarrow> (let (e, ps) = poll_peer_events (ps_peer_by_id (gs_peers s))
              in (e, s\<lparr>gs_peers := (gs_peers s)\<lparr>ps_peer_by_id := ps\<rparr>\<rparr>)))"

end
