(* ===== verification/Gateway_Invariant.thy ===== *)
theory Gateway_Invariant
  imports Gateway_State Sans_IO
begin

text \<open>
  The invariant of the gateway and that every operation keeps it: the routes lead to clients of the
  store, and every client satisfies its own invariant. The operations never panic and never loop on
  packets other than ICMP errors.
\<close>

section \<open>The environment\<close>

definition gateway_laws :: "('bm, 'rs, 'ft, 'pt, 'n, 'enc, 'tx, 'conn, 'answer, 'relay) gateway_env \<Rightarrow> bool" where
  "gateway_laws W \<longleftrightarrow> gw_laws (ge_client W) \<and> net_table_laws (gw_contains (ge_client W)) (ge_peers W)"

text \<open>The node hands out packets that \<^verbatim>\<open>IpPacket::new\<close> accepted, and it has finitely many events pending.\<close>

definition node_laws :: "('n, 'enc, 'tx, 'conn, 'answer, 'relay) server_node \<Rightarrow> ('n \<Rightarrow> nat) \<Rightarrow> bool" where
  "node_laws S pending \<longleftrightarrow>
     (\<forall>local from b now n n' i p. sn_decapsulate S local from b now n = (n', Inr (Some (i, p))) \<longrightarrow> packet_wf p) \<and>
     (\<forall>n. fst (sn_poll_event S n) \<noteq> None \<longrightarrow> pending (snd (sn_poll_event S n)) < pending n)"

lemma gateway_lawsD:
  assumes "gateway_laws W"
  shows "gw_laws (ge_client W)" "net_table_laws (gw_contains (ge_client W)) (ge_peers W)"
    "wire_laws (gw_ep (ge_client W))" "net_laws (gw_contains (ge_client W))"
  using assms gw_lawsD by (auto simp: gateway_laws_def)

section \<open>The invariant\<close>

definition peers_inv :: "('bm, 'rs, 'ft, 'pt, 'n, 'enc, 'tx, 'conn, 'answer, 'relay) gateway_env \<Rightarrow> (resource_id \<Rightarrow> resource_kind)
    \<Rightarrow> ('bm, 'ft, 'pt) clients \<Rightarrow> bool" where
  "peers_inv W kind s \<longleftrightarrow> ps_inv (ge_peers W) s \<and>
     (\<forall>i c. ps_get s i = Some c \<longrightarrow> client_inv (ge_client W) kind c \<and> cl_id c = i)"

abbreviation gateway_inv :: "('bm, 'rs, 'ft, 'pt, 'n, 'enc, 'tx, 'conn, 'answer, 'relay) gateway_env \<Rightarrow> (resource_id \<Rightarrow> resource_kind)
    \<Rightarrow> ('bm, 'ft, 'pt, 'n, 'tx) gateway_state \<Rightarrow> bool" where
  "gateway_inv W kind s \<equiv> peers_inv W kind (gs_peers s)"

lemma peers_inv_put:
  assumes "peers_inv W kind s" "client_inv (ge_client W) kind c" "cl_id c = i"
  shows "peers_inv W kind (ps_put i c s)"
  using assms by (auto simp: peers_inv_def ps_inv_put routes.get_put)

lemma peers_inv_remove:
  assumes "gateway_laws W" "peers_inv W kind s"
  shows "peers_inv W kind (snd (ps_remove (ge_peers W) i s))"
  using assms ps_inv_remove [OF gateway_lawsD(2)] by (auto simp: peers_inv_def routes.get_remove split: if_splits)

lemma peers_inv_add_ip:
  assumes "gateway_laws W" "peers_inv W kind s"
  shows "peers_inv W kind (snd (ps_add_ip (ge_peers W) i ip s))"
  using assms ps_inv_add_ip [OF gateway_lawsD(2)] by (auto simp: peers_inv_def ps_get_def ps_add_ip_get)

lemma peers_inv_retain:
  assumes "gateway_laws W" "peers_inv W kind s"
  shows "peers_inv W kind (ps_retain (ge_peers W) f s)"
proof -
  have "hm_wf (ps_peer_by_id s)" using assms(2) by (simp add: peers_inv_def ps_inv_def)
  then have get: "ps_get s i = Some c" if "ps_get (ps_retain (ge_peers W) f s) i = Some c" for i c
    using that by (auto simp: ps_get_def ps_retain_def Let_def hm_get_filter split: option.splits if_splits)
  have "ps_inv (ge_peers W) (ps_retain (ge_peers W) f s)"
    by (rule ps_inv_retain [OF gateway_lawsD(2) [OF assms(1)]]) (use assms(2) in \<open>simp add: peers_inv_def\<close>)
  then show ?thesis using assms(2) get unfolding peers_inv_def by blast
qed

lemma peers_inv_get:
  assumes "peers_inv W kind s" "ps_get s i = Some c"
  shows "client_inv (ge_client W) kind c" "cl_id c = i"
  using assms by (auto simp: peers_inv_def)

lemma gateway_new_inv: "gateway_laws W \<Longrightarrow> gateway_inv W kind (gateway_new W seed now)"
  using ps_inv_default [OF gateway_lawsD(2)] by (simp add: gateway_new_def peers_inv_def) (simp add: ps_default_def ps_get_def)

section \<open>Packets\<close>

lemma build_total:
  assumes "wire_laws E"
  shows "\<exists>r. build E b = Done r"
proof (cases "NAT46_OVERHEAD + length b \<le> MAX_FZ_PAYLOAD")
  case True
  then have "length (overwrite NAT46_OVERHEAD b (replicate MAX_FZ_PAYLOAD 0)) = MAX_FZ_PAYLOAD" by simp
  from ip_packet_new_wf [OF assms this] True show ?thesis by (auto simp: build_def)
qed (simp add: build_def)

lemma lift_error_total: "\<exists>r. m = Done r \<Longrightarrow> \<exists>r. lift_error g m = Done r"
  by (auto simp: lift_error_def split: sum.splits)

lemma make_domain_status_total:
  assumes "wire_laws E" shows "\<exists>r. make_domain_status E J i d st = Done r"
proof (cases "js_domain_status_to_vec J i d st")
  case (Some b)
  have "\<exists>r. make_fz_p2p_control E h b = Done r" for h
    using build_total [OF assms] by (cases "length h + length b \<le> MAX_IP_SIZE") (auto simp: make_fz_p2p_control_def)
  from lift_error_total [OF this] Some show ?thesis by (simp add: make_domain_status_def)
qed (simp add: make_domain_status_def)

lemma as_fz_p2p_control_total:
  assumes "wire_laws E" "packet_wf p" shows "\<exists>r. as_fz_p2p_control E p = Done r"
  by (simp add: as_fz_p2p_control_def is_fz_p2p_control_def packet_reads [OF assms])

lemma handle_p2p_control_packet_total:
  assumes "gateway_laws W" shows "\<exists>r events'. handle_p2p_control_packet W m c events = Done (r, events')"
  using make_domain_status_total [OF gateway_lawsD(3) [OF assms]]
  by (auto simp: handle_p2p_control_packet_def split: sum.splits) (metis and_then.simps(1))

lemma send_packet_peers: "gs_peers (fst (send_packet W p i now s)) = gs_peers s"
  by (auto simp: send_packet_def encrypt_packet_def split: prod.splits sum.splits option.splits)

text \<open>Datagrams from the network: what is forwarded was accepted for the client that sent it.\<close>

lemma handle_network_input_ok:
  assumes W: "gateway_laws W" and node: "node_laws (ge_node W) pending" and inv: "gateway_inv W kind s"
  shows "\<exists>s' r. handle_network_input W local from b now s = Done (s', r) \<and> gateway_inv W kind s' \<and>
     (\<forall>p'. r = Inr (Some p') \<longrightarrow> (\<exists>n i p c c'. sn_decapsulate (ge_node W) local from b now (gs_node s) = (n, Inr (Some (i, p))) \<and>
        packet_wf p \<and> ps_get (gs_peers s) i = Some c \<and> translate_outbound (ge_client W) p now c = Done (c', Inr (Some p'))))"
proof -
  note G = gateway_lawsD(1) [OF W] and E = gateway_lawsD(3) [OF W]
  obtain n r where dec: "sn_decapsulate (ge_node W) local from b now (gs_node s) = (n, r)" by fastforce
  show ?thesis
  proof (cases "\<exists>i p. r = Inr (Some (i, p))")
    case False
    then consider "r = Inl ()" | "r = Inr None" by (cases r) (auto simp: not_Some_eq [symmetric] split_paired_Ex)
    then show ?thesis using inv by cases (simp_all add: handle_network_input_def dec)
  next
    case True
    then obtain i p where r: "r = Inr (Some (i, p))" by blast
    have p: "packet_wf p" using node dec r unfolding node_laws_def by blast
    show ?thesis
    proof (cases "ps_get (gs_peers s) i")
      case None
      then show ?thesis using inv by (simp add: handle_network_input_def dec r Let_def)
    next
      case (Some c)
      note c = peers_inv_get [OF inv Some]
      obtain m where m: "as_fz_p2p_control (gw_ep (ge_client W)) p = Done m" using as_fz_p2p_control_total [OF E p] by blast
      show ?thesis
      proof (cases m)
        case None
        obtain c' r' where out: "translate_outbound (ge_client W) p now c = Done (c', r')" "client_inv (ge_client W) kind c'"
            "\<exists>t. c' = c\<lparr>cl_nat_table := t\<rparr>"
          using translate_outbound_spec [OF G c(1) p] by blast
        have "cl_id c' = i" using out(3) c(2) by auto
        then have "peers_inv W kind (ps_put i c' (gs_peers s))" using peers_inv_put [OF inv out(2)] by blast
        then show ?thesis using Some m None out(1) p by (auto simp: handle_network_input_def dec r)
      next
        case control: (Some x)
        obtain resp events where h: "handle_p2p_control_packet W x c (gs_buffered_events s) = Done (resp, events)"
          using handle_p2p_control_packet_total [OF W] by blast
        have "\<exists>s' r. handle_network_input W local from b now s = Done (s', r) \<and> gs_peers s' = gs_peers s \<and> (\<forall>p'. r \<noteq> Inr (Some p'))"
        proof (cases resp)
          case None
          then show ?thesis using Some m control h by (simp add: handle_network_input_def dec r)
        next
          case resp: (Some q)
          let ?s = "s\<lparr>gs_node := n, gs_buffered_events := events\<rparr>"
          obtain s' r' where send: "send_packet W q i now ?s = (s', r')" by fastforce
          then have "gs_peers s' = gs_peers s" using send_packet_peers [of W q i now ?s] by simp
          then show ?thesis using Some m control h resp send
            by (cases r') (simp_all add: handle_network_input_def dec r)
        qed
        with inv show ?thesis by auto
      qed
    qed
  qed
qed

text \<open>Packets from the TUN device: what is encrypted for a client is addressed to it.\<close>

definition calm :: "etherparse \<Rightarrow> ip_packet \<Rightarrow> bool" where
  "calm E p \<longleftrightarrow> packet_wf p \<and> (\<forall>f. icmp_unreachable_destination E p \<noteq> succeed (Some f))"

lemma icmp_unreachable_total:
  assumes "wire_laws E" "packet_wf p"
  shows "\<exists>r. icmp_unreachable_destination E p = Done r"
proof -
  have 4: "\<exists>r. unreachable4 E t b = Done r" for t b
    by (cases t) (auto simp: unreachable4_def ok_or_def split: option.splits)
  have 6: "\<exists>r. unreachable6 E t b = Done r" for t b
    by (cases t) (auto simp: unreachable6_def ok_or_def split: option.splits)
  show ?thesis using 4 6
    by (auto simp: icmp_unreachable_destination_def as_icmpv4_def as_icmpv6_def as_l4_view [OF assms] split: option.splits)
qed

lemma translate_inbound_total:
  assumes G: "gw_laws G" and inv: "client_inv G kind c" and p: "calm (gw_ep G) p"
  shows "\<exists>c' r. translate_inbound G p now c = Done (c', r) \<and> client_inv G kind c' \<and> (\<exists>t. c' = c\<lparr>cl_nat_table := t\<rparr>)"
proof -
  let ?E = "gw_ep G" and ?B = "gw_bimap G" and ?t = "cl_nat_table c"
  note E = gw_lawsD(1) [OF G]
  have wf: "packet_wf p" using p by (simp add: calm_def)
  have same: "\<exists>t. c = c\<lparr>cl_nat_table := t\<rparr>" by (rule exI [of _ ?t]) simp
  obtain u where u: "icmp_unreachable_destination ?E p = Done u" using icmp_unreachable_total [OF E wf] by blast
  have tun: "\<exists>c1 r1. transform_tun_to_network G p now c = Done (c1, r1) \<and> (\<forall>q. r1 = Inr (Some q) \<longrightarrow> packet_wf q)"
  proof (cases u)
    case (Inl e)
    then show ?thesis by (simp add: transform_tun_to_network_def translate_incoming_def u)
  next
    case (Inr f)
    with u p have none: "icmp_unreachable_destination ?E p = succeed None" by (cases f) (auto simp: calm_def)
    show ?thesis
    proof (cases "destination_protocol ?E p")
      case (Done d)
      show ?thesis
      proof (cases d)
        case (Inl e)
        then show ?thesis using Done by (simp add: transform_tun_to_network_def translate_incoming_def none)
      next
        case (Inr dp)
        obtain sp where r: "reads ?E p (vw_src (view_of p)) (vw_dst (view_of p)) sp dp"
          using destination_protocol_reads [OF E wf] Done Inr by blast
        note inc = translate_incoming_reads [OF E r, where B = ?B and t = ?t and now = now]
        show ?thesis
        proof (cases "bm_get_by_right ?B (nat_bimap ?t) (dp, vw_src (view_of p))")
          case None
          with inc have "translate_incoming ?E ?B ?t p now = Done (?t, Inr (no_session ?t (dp, vw_src (view_of p))))"
            by (simp add: translate_incoming_inner_def)
          then show ?thesis using wf by (simp add: transform_tun_to_network_def no_session_def)
        next
          case (Some inside)
          obtain q src where inside: "inside = (q, src)" by (cases inside)
          have "same_type q dp"
          proof -
            have "bm_get_by_left ?B (nat_bimap ?t) inside = Some (dp, vw_src (view_of p))"
              using Some bimap_facts(2) [OF gw_lawsD(2) [OF G]] by blast
            then have "same_type (fst inside) (fst (dp, vw_src (view_of p)))" using inv unfolding client_inv_def nat_inv_def by blast
            then show ?thesis by (simp add: inside)
          qed
          then have "same_type dp q" by (cases q; cases dp) (simp_all add: same_type_def)
          from translate_source_reads [OF E r this, of "cl_ipv4 c" "cl_ipv6 c" src] obtain p1 p2 sp2 dst2 where
              "translate_source ?E p (cl_ipv4 c) (cl_ipv6 c) q src = succeed p1" "update_checksum ?E p1 = Done p2"
              "reads ?E p2 src dst2 sp2 q" by blast
          moreover have "translate_incoming ?E ?B ?t p now = Done (?t\<lparr>nat_last_seen := hm_insert inside now (nat_last_seen ?t)\<rparr>, Inr (IncomingOk q src))"
            using inc Some inside by (simp add: translate_incoming_inner_def)
          ultimately show ?thesis by (simp add: transform_tun_to_network_def reads_def)
        qed
      qed
    qed (simp_all add: protocols_view [OF E wf])
  qed
  then obtain c1 r1 where c1: "transform_tun_to_network G p now c = Done (c1, r1)" "\<And>q. r1 = Inr (Some q) \<Longrightarrow> packet_wf q" by blast
  note i = transform_tun_to_network_inv [OF inv c1(1)]
  have "\<exists>r. translate_inbound G p now c = Done (c1, r)"
  proof (cases "\<exists>q. r1 = Inr (Some q)")
    case True
    then obtain q where q: "r1 = Inr (Some q)" "packet_wf q" using c1(2) by blast
    show ?thesis
      by (cases "ensure_client_ip c1 (vw_dst (view_of q))")
         (simp_all add: translate_inbound_def c1(1) q(1) packet_reads [OF E q(2)] protocols_view [OF E q(2)])
  next
    case False
    then show ?thesis using c1(1) by (cases r1) (auto simp: translate_inbound_def split: option.splits)
  qed
  with i show ?thesis by blast
qed

lemma handle_tun_input_ok:
  assumes W: "gateway_laws W" and inv: "gateway_inv W kind s" and p: "calm (gw_ep (ge_client W)) p"
  shows "\<exists>s' r. handle_tun_input W p now s = Done (s', r) \<and> gateway_inv W kind s' \<and>
     (\<forall>x. r = Inr (Some x) \<longrightarrow> (\<exists>i c c' p' n. ps_get (gs_peers s) i = Some c \<and>
        translate_inbound (ge_client W) p now c = Done (c', Inr (Some p')) \<and>
        sn_encapsulate (ge_node W) i p' now (gs_node s) = (n, Inr (Some x))))"
proof -
  note G = gateway_lawsD(1) [OF W] and E = gateway_lawsD(3) [OF W]
  have wf: "packet_wf p" using p by (simp add: calm_def)
  note d = packet_reads(2) [OF E wf]
  show ?thesis
  proof (cases "is_client (gw_contains (ge_client W)) (vw_dst (view_of p))")
    case False
    then show ?thesis using inv by (simp add: handle_tun_input_def d)
  next
    case client: True
    show ?thesis
    proof (cases "peer_by_ip (ge_peers W) (gs_peers s) (vw_dst (view_of p))")
      case None
      then show ?thesis using inv client by (simp add: handle_tun_input_def d)
    next
      case (Some x)
      obtain i c where x: "x = (i, c)" by (cases x)
      have get: "ps_get (gs_peers s) i = Some c"
        using routes.lookup_get [of "gw_contains (ge_client W)" "ge_peers W" "gs_peers s"] gateway_lawsD(2) [OF W] inv Some x
        by (simp add: peers_inv_def)
      note c = peers_inv_get [OF inv get]
      obtain c' r where t: "translate_inbound (ge_client W) p now c = Done (c', r)" "client_inv (ge_client W) kind c'" "\<exists>t. c' = c\<lparr>cl_nat_table := t\<rparr>"
        using translate_inbound_total [OF G c(1) p] by blast
      have id: "cl_id c' = i" using t(3) c(2) by auto
      then have inv': "peers_inv W kind (ps_put i c' (gs_peers s))" using peers_inv_put [OF inv t(2)] by blast
      show ?thesis
      proof (cases "\<exists>q. r = Inr (Some q)")
        case False
        then have "\<exists>r'. handle_tun_input W p now s = Done (s\<lparr>gs_peers := ps_put i c' (gs_peers s)\<rparr>, r') \<and> (\<forall>x. r' \<noteq> Inr (Some x))"
          using client Some x t(1) by (cases r) (auto simp: handle_tun_input_def d split: option.splits)
        then show ?thesis using inv' by auto
      next
        case True
        then obtain q where q: "r = Inr (Some q)" by blast
        obtain n y where enc: "sn_encapsulate (ge_node W) i q now (gs_node s) = (n, y)" by fastforce
        let ?s = "s\<lparr>gs_peers := ps_put i c' (gs_peers s), gs_node := n\<rparr>" and ?r = "case y of Inl _ \<Rightarrow> Inl EncapsulateFailed | Inr z \<Rightarrow> Inr z"
        have "handle_tun_input W p now s = Done (?s, ?r)"
          using client Some x t(1) q enc id by (cases y) (simp_all add: handle_tun_input_def d)
        moreover have "gateway_inv W kind ?s" using inv' by simp
        moreover have "sn_encapsulate (ge_node W) i q now (gs_node s) = (n, Inr (Some z))" if "?r = Inr (Some z)" for z
          using that enc by (simp split: sum.splits)
        ultimately show ?thesis using get t(1) q by blast
      qed
    qed
  qed
qed

end
