(* ===== verification/Gateway_Steps.thy ===== *)
theory Gateway_Steps
  imports Gateway_Invariant
begin

text \<open>
  The operations of the gateway on access and time, and the gateway as a whole: every sequence of
  operations keeps the invariant (\<open>step_system\<close>), and the timer of the resource expiry makes progress
  (\<open>timer\<close>).
\<close>

section \<open>Access\<close>

lemma btree_set_distinct: "distinct (btree_set xs)" "set (btree_set xs) = set xs"
  by (simp_all add: btree_set_def)

definition description_valid :: "(resource_id \<Rightarrow> resource_kind) \<Rightarrow> resource_description \<Rightarrow> bool" where
  "description_valid kind d \<longleftrightarrow> description_ok d \<and> description_kind d = kind (description_id d)"

lemma setup_nat_total:
  assumes "gw_laws G" "client_inv G kind c"
  shows "\<exists>c' r. setup_nat G name i (btree_set resolved) (btree_set proxies) c = Done (c', r) \<and> client_inv G kind c' \<and> cl_id c' = cl_id c"
proof (cases "nat_allowed G c name i")
  case True
  from setup_nat_ok [OF assms True btree_set_distinct(1)] show ?thesis by blast
next
  case False
  from setup_nat_rejects [OF this] assms(2) show ?thesis by blast
qed

lemma allow_access_ok:
  assumes W: "gateway_laws W" and inv: "gateway_inv W kind s" and d: "description_valid kind d"
  shows "\<exists>s' r c. allow_access W client a4 a6 e d entry s = Done (s', r) \<and> gateway_inv W kind s' \<and>
     (entry = None \<longrightarrow> r = Inr ()) \<and> ps_get (gs_peers s') client = Some c \<and> is_allowed c (description_id d)"
proof -
  let ?G = "ge_client W"
  note G = gateway_lawsD(1) [OF W]
  let ?c = "case ps_get (gs_peers s) client of None \<Rightarrow> client_new ?G client a4 a6 | Some peer \<Rightarrow> peer"
  have c: "client_inv ?G kind ?c" "cl_id ?c = client"
    using client_new_inv [OF G] peers_inv_get [OF inv] by (auto simp: client_new_def split: option.splits)
  obtain c1 where c1: "add_resource ?G d e ?c = Done c1" "client_inv ?G kind c1" "cl_id c1 = client"
      "hm_get (cl_resources c1) (description_id d) \<noteq> None"
    using add_resource_ok [OF G c(1)] d c(2) by (fastforce simp: description_valid_def)
  let ?nat = "case entry of
          None \<Rightarrow> Done (c1, Inr ())
        | Some entry \<Rightarrow> setup_nat ?G (de_domain entry) (description_id d)
            (btree_set (de_resolved_ips entry)) (btree_set (de_proxy_ips entry)) c1"
  have "\<exists>c2 r. ?nat = Done (c2, r) \<and> client_inv ?G kind c2 \<and> cl_id c2 = client \<and> (entry = None \<longrightarrow> r = Inr ()) \<and>
      hm_get (cl_resources c2) (description_id d) \<noteq> None"
  proof (cases entry)
    case None
    with c1 show ?thesis by simp
  next
    case (Some x)
    show ?thesis
    proof (cases "nat_allowed ?G c1 (de_domain x) (description_id d)")
      case True
      from setup_nat_ok [OF G c1(2) this btree_set_distinct(1), of "btree_set (de_resolved_ips x)" "de_proxy_ips x"] obtain c2 where
          "setup_nat ?G (de_domain x) (description_id d) (btree_set (de_resolved_ips x)) (btree_set (de_proxy_ips x)) c1 = Done (c2, Inr ())"
          "client_inv ?G kind c2" "cl_id c2 = cl_id c1"
          "map_option resource_filters (hm_get (cl_resources c2) (description_id d)) = map_option resource_filters (hm_get (cl_resources c1) (description_id d))"
        by blast
      then show ?thesis using Some c1(3,4) by auto
    next
      case False
      obtain e where "setup_nat ?G (de_domain x) (description_id d) (btree_set (de_resolved_ips x)) (btree_set (de_proxy_ips x)) c1 = Done (c1, Inl e)"
        using setup_nat_rejects [OF False] by blast
      with Some c1 show ?thesis by auto
    qed
  qed
  then obtain c2 r where c2: "?nat = Done (c2, r)" "client_inv ?G kind c2" "cl_id c2 = client" "entry = None \<longrightarrow> r = Inr ()"
      "hm_get (cl_resources c2) (description_id d) \<noteq> None" by blast
  let ?p = "ps_put client c2 (gs_peers s)"
  let ?p' = "snd (ps_add_ip (ge_peers W) client (net_from (V6 a6)) (snd (ps_add_ip (ge_peers W) client (net_from (V4 a4)) ?p)))"
  have p: "peers_inv W kind ?p" using peers_inv_put [OF inv c2(2,3)] .
  have p': "peers_inv W kind ?p'" by (intro peers_inv_add_ip [OF W] p)
  have run: "allow_access W client a4 a6 e d entry s = Done (case r of
      Inl x \<Rightarrow> (s\<lparr>gs_peers := ?p\<rparr>, Inl x) | Inr u \<Rightarrow> (s\<lparr>gs_peers := ?p'\<rparr>, Inr ()))"
    using c1(1) c2(1) by (cases r) (simp_all add: allow_access_def)
  have get: "ps_get ?p client = Some c2" "ps_get ?p' client = Some c2"
    by (simp_all add: ps_get_def ps_add_ip_get) (simp_all add: ps_put_def)
  show ?thesis
  proof (cases r)
    case (Inl x)
    then show ?thesis using run p get(1) c2(4,5) by (auto simp: is_allowed_def)
  next
    case (Inr u)
    then show ?thesis using run p' get(2) c2(4,5) by (auto simp: is_allowed_def)
  qed
qed

lemma authorize_flow_ok:
  assumes W: "gateway_laws W" and inv: "gateway_inv W kind s" and d: "description_valid kind d"
  shows "\<exists>s' r. authorize_flow W client conn a4 a6 e d now s = Done (s', r) \<and> gateway_inv W kind s' \<and>
     (r = Inr () \<longrightarrow> (\<exists>c. ps_get (gs_peers s') client = Some c \<and> is_allowed c (description_id d)))"
proof -
  obtain n r where n: "sn_upsert_connection (ge_node W) client conn now (gs_node s) = (n, r)" by fastforce
  show ?thesis
  proof (cases r)
    case (Inl u)
    then show ?thesis using n inv by (simp add: authorize_flow_def)
  next
    case (Inr u)
    have "gateway_inv W kind (s\<lparr>gs_node := n\<rparr>)" using inv by simp
    from allow_access_ok [OF W this d, of client a4 a6 e None] obtain s' c where
        "allow_access W client a4 a6 e d None (s\<lparr>gs_node := n\<rparr>) = Done (s', Inr ())" "gateway_inv W kind s'"
        "ps_get (gs_peers s') client = Some c" "is_allowed c (description_id d)" by auto
    then show ?thesis using n Inr by (auto simp: authorize_flow_def)
  qed
qed

text \<open>After access is removed, the client does not have the resource any more.\<close>

lemma remove_access_ok:
  assumes W: "gateway_laws W" and inv: "gateway_inv W kind s"
  shows "\<exists>s'. remove_access W client i s = Done s' \<and> gateway_inv W kind s' \<and>
     (\<forall>c. ps_get (gs_peers s') client = Some c \<longrightarrow> \<not> is_allowed c i)"
proof (cases "ps_get (gs_peers s) client")
  case None
  then show ?thesis using inv by (auto simp: remove_access_def)
next
  case (Some c)
  note c = peers_inv_get [OF inv Some]
  obtain c' where c': "remove_resource (ge_client W) i c = Done c'" "client_inv (ge_client W) kind c'" "cl_id c' = client"
      "cl_resources c' = hm_remove i (cl_resources c)"
    using remove_resource_ok [OF gateway_lawsD(1) [OF W] c(1), of i] c(2) by auto
  let ?p = "ps_put client c' (gs_peers s)"
  have p: "peers_inv W kind ?p" "peers_inv W kind (snd (ps_remove (ge_peers W) client ?p))"
    using peers_inv_put [OF inv c'(2,3)] peers_inv_remove [OF W] by blast+
  have g: "ps_get ?p client = Some c'" "ps_get (snd (ps_remove (ge_peers W) client ?p)) client = None"
    by (simp_all add: routes.get_put routes.get_remove)
  show ?thesis using Some c'(1,4) p g
    by (cases "is_emptied c'") (auto simp: remove_access_def is_allowed_def)
qed

section \<open>Every peer in turn\<close>

lemma each_peer_fold:
  assumes "\<forall>x \<in> set ps. \<exists>q. f (snd x) = Done q"
  shows "\<exists>qs. fold_outcome (\<lambda>(i, p) acc. and_then (f p) (\<lambda>p. Done (acc @ [(i, p)]))) ps acc = Done (acc @ qs) \<and>
     map fst qs = map fst ps \<and> (\<forall>j. case map_of ps j of None \<Rightarrow> map_of qs j = None | Some p \<Rightarrow> \<exists>q. f p = Done q \<and> map_of qs j = Some q)"
  using assms
proof (induction ps arbitrary: acc)
  case (Cons x ps)
  obtain i p where x: "x = (i, p)" by (cases x)
  obtain q where q: "f p = Done q" using Cons.prems x by auto
  obtain qs where qs: "fold_outcome (\<lambda>(i, p) acc. and_then (f p) (\<lambda>p. Done (acc @ [(i, p)]))) ps (acc @ [(i, q)]) = Done ((acc @ [(i, q)]) @ qs)"
      "map fst qs = map fst ps"
      "\<And>j. case map_of ps j of None \<Rightarrow> map_of qs j = None | Some p \<Rightarrow> \<exists>q. f p = Done q \<and> map_of qs j = Some q"
    using Cons.IH [of "acc @ [(i, q)]"] Cons.prems by auto
  have "case map_of (x # ps) j of None \<Rightarrow> map_of ((i, q) # qs) j = None | Some p \<Rightarrow> \<exists>r. f p = Done r \<and> map_of ((i, q) # qs) j = Some r" for j
    using qs(3) [of j] q by (cases "j = i") (simp_all add: x split: option.splits)
  with qs(1,2) q show ?case by (intro exI [of _ "(i, q) # qs"]) (simp add: x)
qed simp

lemma each_peer_ok:
  assumes "\<forall>i p. ps_get s i = Some p \<longrightarrow> (\<exists>q. f p = Done q)" and wf: "hm_wf (ps_peer_by_id s)"
  shows "\<exists>s'. each_peer f s = Done s' \<and> ps_id_by_ip s' = ps_id_by_ip s \<and> hm_wf (ps_peer_by_id s') \<and>
     (\<forall>i. case ps_get s i of None \<Rightarrow> ps_get s' i = None | Some p \<Rightarrow> \<exists>q. f p = Done q \<and> ps_get s' i = Some q)"
proof -
  have "\<forall>x \<in> set (ps_peer_by_id s). \<exists>q. f (snd x) = Done q"
    using assms(1) hm_in_set_iff [OF wf] by (auto simp: ps_get_def)
  from each_peer_fold [where acc = "[]", OF this] obtain qs where qs:
      "fold_outcome (\<lambda>(i, p) acc. and_then (f p) (\<lambda>p. Done (acc @ [(i, p)]))) (ps_peer_by_id s) [] = Done qs"
      "map fst qs = map fst (ps_peer_by_id s)"
      "\<And>j. case map_of (ps_peer_by_id s) j of None \<Rightarrow> map_of qs j = None | Some p \<Rightarrow> \<exists>q. f p = Done q \<and> map_of qs j = Some q"
    by auto
  have "case ps_get s i of None \<Rightarrow> ps_get (s\<lparr>ps_peer_by_id := qs\<rparr>) i = None
        | Some p \<Rightarrow> \<exists>q. f p = Done q \<and> ps_get (s\<lparr>ps_peer_by_id := qs\<rparr>) i = Some q" for i
    using qs(3) [of i] by (cases "map_of (ps_peer_by_id s) i") (simp_all add: ps_get_def hm_get_def)
  with qs(1,2) wf show ?thesis
    by (intro exI [of _ "s\<lparr>ps_peer_by_id := qs\<rparr>"]) (simp add: each_peer_def hm_wf_def)
qed

lemma each_peer_inv:
  assumes inv: "peers_inv W kind s"
    and f: "\<And>c. client_inv (ge_client W) kind c \<Longrightarrow> \<exists>c'. f c = Done c' \<and> client_inv (ge_client W) kind c' \<and> cl_id c' = cl_id c"
  shows "\<exists>s'. each_peer f s = Done s' \<and> peers_inv W kind s' \<and>
     (\<forall>i. case ps_get s i of None \<Rightarrow> ps_get s' i = None | Some p \<Rightarrow> \<exists>q. f p = Done q \<and> ps_get s' i = Some q)"
proof -
  have wf: "hm_wf (ps_peer_by_id s)" using inv by (simp add: peers_inv_def ps_inv_def)
  have "\<forall>i p. ps_get s i = Some p \<longrightarrow> (\<exists>q. f p = Done q)" using f peers_inv_get(1) [OF inv] by blast
  from each_peer_ok [OF this wf] obtain s' where s': "each_peer f s = Done s'" "ps_id_by_ip s' = ps_id_by_ip s" "hm_wf (ps_peer_by_id s')"
      "\<And>i. case ps_get s i of None \<Rightarrow> ps_get s' i = None | Some p \<Rightarrow> \<exists>q. f p = Done q \<and> ps_get s' i = Some q" by blast
  have dom: "ps_get s' i \<noteq> None" if "ps_get s i \<noteq> None" for i using s'(4) [of i] that by (auto split: option.splits)
  have "client_inv (ge_client W) kind c \<and> cl_id c = i" if "ps_get s' i = Some c" for i c
  proof (cases "ps_get s i")
    case None
    with s'(4) [of i] that show ?thesis by simp
  next
    case (Some p)
    with s'(4) [of i] that have "f p = Done c" by auto
    with f [OF peers_inv_get(1) [OF inv Some]] peers_inv_get(2) [OF inv Some] show ?thesis by auto
  qed
  moreover have "ps_inv (ge_peers W) s'"
    using inv s'(2,3) dom by (auto simp: peers_inv_def ps_inv_def ps_get_def)
  ultimately show ?thesis using s' by (auto simp: peers_inv_def)
qed

lemma gateway_update_resource_ok:
  assumes W: "gateway_laws W" and inv: "gateway_inv W kind s" and d: "description_ok d"
  shows "\<exists>s'. gateway_update_resource W d s = Done s' \<and> gateway_inv W kind s'"
proof -
  have "\<exists>c'. update_resource (ge_client W) d c = Done c' \<and> client_inv (ge_client W) kind c' \<and> cl_id c' = cl_id c"
    if "client_inv (ge_client W) kind c" for c
    using update_resource_ok [OF gateway_lawsD(1) [OF W] that d] by blast
  from each_peer_inv [OF inv, of "update_resource (ge_client W) d", OF this] obtain p where
      "each_peer (update_resource (ge_client W) d) (gs_peers s) = Done p" "peers_inv W kind p" by blast
  then show ?thesis by (simp add: gateway_update_resource_def)
qed

section \<open>Time\<close>

text \<open>The loop over the events of the node ends, and the events only ever remove peers.\<close>

lemma drain_loop_total:
  assumes "\<And>n. fst (poll n) \<noteq> None \<Longrightarrow> pending (snd (poll n)) < (pending n :: nat)"
    and "\<And>e a. P a \<Longrightarrow> P (f e a)" and "P acc"
  shows "\<exists>n' acc'. drain_loop poll f n acc = Some (n', acc') \<and> P acc'"
  using assms(3)
proof (induction "pending n" arbitrary: n acc rule: less_induct)
  case less
  show ?case
  proof (cases "fst (poll n)")
    case None
    then show ?thesis using less.prems by (simp add: drain_loop.simps [of poll f n])
  next
    case (Some e)
    have "pending (snd (poll n)) < pending n" using assms(1) Some by simp
    from less.hyps [OF this assms(2) [OF less.prems], of e] Some show ?thesis
      by (simp add: drain_loop.simps [of poll f n])
  qed
qed

lemma drain_node_events_ok:
  assumes W: "gateway_laws W" and node: "node_laws (ge_node W) pending" and inv: "gateway_inv W kind s"
  shows "\<exists>s'. drain_node_events W s = Done s' \<and> gateway_inv W kind s' \<and>
     gs_next_expiry_resources_check s' = gs_next_expiry_resources_check s \<and>
     (\<forall>i c. ps_get (gs_peers s') i = Some c \<longrightarrow> ps_get (gs_peers s) i = Some c)"
proof -
  let ?P = "\<lambda>(p, a, r). peers_inv W kind p \<and> (\<forall>i c. ps_get p i = Some c \<longrightarrow> ps_get (gs_peers s) i = Some c)"
  have step: "?P (apply_node_event (ge_peers W) e x)" if "?P x" for e x
    using that peers_inv_remove [OF W]
    by (cases x; cases e) (auto simp: apply_node_event_def routes.get_remove split: if_splits)
  have poll: "\<And>n. fst (sn_poll_event (ge_node W) n) \<noteq> None \<Longrightarrow> pending (snd (sn_poll_event (ge_node W) n)) < pending n"
    using node by (simp add: node_laws_def)
  have "?P (gs_peers s, [], [])" using inv by simp
  then obtain n x where x: "drain_loop (sn_poll_event (ge_node W)) (apply_node_event (ge_peers W)) (gs_node s) (gs_peers s, [], []) = Some (n, x)" "?P x"
    using drain_loop_total [where P = ?P and poll = "sn_poll_event (ge_node W)" and f = "apply_node_event (ge_peers W)" and pending = pending, OF poll step]
    by blast
  obtain p a r where "x = (p, a, r)" by (cases x)
  with x show ?thesis by (simp add: drain_node_events_def)
qed

text \<open>When the expiry check is due, every client loses the resources that expired, and clients without resources are dropped.\<close>

definition expired_gone :: "datetime \<Rightarrow> ('bm, 'ft, 'pt) clients \<Rightarrow> bool" where
  "expired_gone utc s \<longleftrightarrow> (\<forall>i c. ps_get s i = Some c \<longrightarrow>
     cl_resources c \<noteq> [] \<and> (\<forall>j r. hm_get (cl_resources c) j = Some r \<longrightarrow> resource_is_allowed r utc))"

lemma gateway_handle_timeout_ok:
  assumes W: "gateway_laws W" and node: "node_laws (ge_node W) pending" and inv: "gateway_inv W kind s"
  shows "\<exists>s'. gateway_handle_timeout W now utc s = Done s' \<and> gateway_inv W kind s' \<and>
     (\<exists>t. gs_next_expiry_resources_check s' = Some t \<and> now < t \<and> t \<le> max now (case gs_next_expiry_resources_check s of None \<Rightarrow> 0 | Some x \<Rightarrow> x) + EXPIRE_RESOURCES_INTERVAL) \<and>
     ((\<exists>t. gs_next_expiry_resources_check s = Some t \<and> t \<le> now) \<longrightarrow> expired_gone utc (gs_peers s'))"
proof -
  let ?G = "ge_client W"
  note G = gateway_lawsD(1) [OF W]
  have pos: "0 < EXPIRE_RESOURCES_INTERVAL" by (simp add: EXPIRE_RESOURCES_INTERVAL_def from_secs_def)
  have "gateway_inv W kind (s\<lparr>gs_node := sn_handle_timeout (ge_node W) now (gs_node s)\<rparr>)" using inv by simp
  from drain_node_events_ok [OF W node this] obtain s1 where s1:
      "drain_node_events W (s\<lparr>gs_node := sn_handle_timeout (ge_node W) now (gs_node s)\<rparr>) = Done s1"
      "gateway_inv W kind s1" "gs_next_expiry_resources_check s1 = gs_next_expiry_resources_check s" by auto
  show ?thesis
  proof (cases "\<exists>t. gs_next_expiry_resources_check s = Some t \<and> t \<le> now")
    case False
    then show ?thesis using s1 pos
      by (cases "gs_next_expiry_resources_check s") (auto simp: gateway_handle_timeout_def)
  next
    case True
    let ?f = "\<lambda>p. and_then (expire_resources ?G utc p) (\<lambda>p. Done (client_handle_timeout ?G now p))"
    have f: "\<exists>c'. ?f c = Done c' \<and> client_inv ?G kind c' \<and> cl_id c' = cl_id c \<and>
        cl_resources c' = filter (\<lambda>(_, r). resource_is_allowed r utc) (cl_resources c)" if c: "client_inv ?G kind c" for c
    proof -
      obtain c1 where c1: "expire_resources ?G utc c = Done c1" "client_inv ?G kind c1" "cl_id c1 = cl_id c"
          "cl_resources c1 = filter (\<lambda>(_, r). resource_is_allowed r utc) (cl_resources c)"
        using expire_resources_ok [OF G c] by blast
      then show ?thesis using client_handle_timeout_inv [OF G c1(2), of now] by (simp add: client_handle_timeout_def)
    qed
    from each_peer_inv [OF s1(2), of ?f] f obtain p where p: "each_peer ?f (gs_peers s1) = Done p" "peers_inv W kind p"
        "\<And>i. case ps_get (gs_peers s1) i of None \<Rightarrow> ps_get p i = None | Some x \<Rightarrow> \<exists>q. ?f x = Done q \<and> ps_get p i = Some q" by blast
    let ?p = "ps_retain (ge_peers W) (\<lambda>_ p. \<not> is_emptied p) p"
    have wf: "hm_wf (ps_peer_by_id p)" using p(2) by (simp add: peers_inv_def ps_inv_def)
    have "cl_resources c \<noteq> [] \<and> (\<forall>j r. hm_get (cl_resources c) j = Some r \<longrightarrow> resource_is_allowed r utc)" if c: "ps_get ?p i = Some c" for i c
    proof -
      have pc: "ps_get p i = Some c" "\<not> is_emptied c"
        using c hm_get_filter [OF wf] by (auto simp: ps_get_def ps_retain_def Let_def split: option.splits if_splits)
      then obtain x where x: "ps_get (gs_peers s1) i = Some x" "?f x = Done c" using p(3) [of i] by (auto split: option.splits)
      have "cl_resources c = filter (\<lambda>(_, r). resource_is_allowed r utc) (cl_resources x)"
        using f [OF peers_inv_get(1) [OF s1(2) x(1)]] x(2) by auto
      then show ?thesis using pc(2) by (auto simp: is_emptied_def dest: hm_get_in_set)
    qed
    then have gone: "expired_gone utc ?p" by (simp add: expired_gone_def)
    have "gateway_handle_timeout W now utc s = Done (s1\<lparr>gs_peers := ?p, gs_next_expiry_resources_check := Some (now + EXPIRE_RESOURCES_INTERVAL)\<rparr>)"
      using True s1(1,3) p(1) by (auto simp: gateway_handle_timeout_def)
    then show ?thesis using gone peers_inv_retain [OF W p(2)] pos by auto
  qed
qed

lemma handle_domain_resolved_ok:
  assumes W: "gateway_laws W" and inv: "gateway_inv W kind s"
  shows "\<exists>s' r. handle_domain_resolved W req res now s = Done (s', r) \<and> gateway_inv W kind s'"
proof -
  let ?G = "ge_client W"
  let ?first = "case res of
         Inl _ \<Rightarrow> Done (s, Inl ResolveFailed)
       | Inr addresses \<Rightarrow> (case ps_get (gs_peers s) (rd_client req) of
             None \<Rightarrow> Done (s, Inl UnknownPeer)
           | Some peer \<Rightarrow>
               and_then (setup_nat ?G (rd_domain req) (rd_resource req) (btree_set addresses) (btree_set (rd_proxy_ips req)) peer) (\<lambda>(peer, r).
               Done (s\<lparr>gs_peers := ps_put (rd_client req) peer (gs_peers s)\<rparr>, r)))"
  have "\<exists>s1 r1. ?first = Done (s1, r1) \<and> gateway_inv W kind s1"
  proof (cases res)
    case (Inr addresses)
    show ?thesis
    proof (cases "ps_get (gs_peers s) (rd_client req)")
      case (Some c)
      note c = peers_inv_get [OF inv Some]
      obtain c' r where c': "setup_nat ?G (rd_domain req) (rd_resource req) (btree_set addresses) (btree_set (rd_proxy_ips req)) c = Done (c', r)"
          "client_inv ?G kind c'" "cl_id c' = rd_client req"
        using setup_nat_total [OF gateway_lawsD(1) [OF W] c(1), of "rd_domain req"] c(2) by metis
      then show ?thesis using Inr Some peers_inv_put [OF inv c'(2,3)] by simp
    qed (use Inr inv in simp)
  qed (use inv in simp)
  then obtain s1 r1 where f: "?first = Done (s1, r1)" "gateway_inv W kind s1" by blast
  obtain m where m: "make_domain_status (gw_ep ?G) (ge_json W) (rd_resource req) (rd_domain req) (case r1 of Inl _ \<Rightarrow> Inactive | Inr _ \<Rightarrow> Active) = Done m"
    using make_domain_status_total [OF gateway_lawsD(3) [OF W]] by blast
  show ?thesis
  proof (cases m)
    case (Inl e)
    then show ?thesis using f m by (simp add: handle_domain_resolved_def)
  next
    case (Inr p)
    have "handle_domain_resolved W req res now s = Done (send_packet W p (rd_client req) now s1)"
      using f(1) m Inr by (simp add: handle_domain_resolved_def)
    then show ?thesis using send_packet_peers [of W p "rd_client req" now s1] f(2) by (metis prod.collapse)
  qed
qed

section \<open>The gateway as a machine\<close>

text \<open>
  The calls that the event loops make on a \<^verbatim>\<open>GatewayState\<close>, with their arguments: all its methods that
  change it (those of \<^verbatim>\<open>GatewayTunnel\<close> in \<^verbatim>\<open>tunnel/src/lib.rs\<close> and of \<^verbatim>\<open>gateway/src/eventloop.rs\<close>).
\<close>

datatype ('conn, 'relay) gateway_input =
    TunPacket ip_packet instant
  | Datagram socket_addr socket_addr bytes instant
  | CleanupConnection client_id
  | AddIceCandidate client_id string instant
  | RemoveIceCandidate client_id string instant
  | RemoveAccess client_id resource_id
  | UpdateResource resource_description
  | AuthorizeFlow client_id 'conn ipv4 ipv6 "datetime option" resource_description instant
  | AllowAccess client_id ipv4 ipv6 "datetime option" resource_description "dns_resource_nat_entry option"
  | DomainResolved resolve_dns_request "unit + ip_addr list" instant
  | UpdateRelays "u128 list" "'relay list" instant
  | Timeout instant datetime
  | AcceptConnection client_id 'conn instant
  | NextTimeout
  | NextTransmit
  | NextEvent

definition keep_state :: "('s \<times> 'r) outcome \<Rightarrow> 's outcome" where
  "keep_state m = and_then m (\<lambda>(s, _). Done s)"

definition gateway_step :: "('bm, 'rs, 'ft, 'pt, 'n, 'enc, 'tx, 'conn, 'answer, 'relay) gateway_env
    \<Rightarrow> ('bm, 'ft, 'pt, 'n, 'tx) gateway_state \<Rightarrow> ('conn, 'relay) gateway_input \<Rightarrow> ('bm, 'ft, 'pt, 'n, 'tx) gateway_state outcome" where
  "gateway_step W s e = (case e of
       TunPacket p now \<Rightarrow> keep_state (handle_tun_input W p now s)
     | Datagram local from b now \<Rightarrow> keep_state (handle_network_input W local from b now s)
     | CleanupConnection i \<Rightarrow> Done (cleanup_connection W i s)
     | AddIceCandidate i c now \<Rightarrow> add_ice_candidate W i c now s
     | RemoveIceCandidate i c now \<Rightarrow> remove_ice_candidate W i c now s
     | RemoveAccess i r \<Rightarrow> remove_access W i r s
     | UpdateResource d \<Rightarrow> gateway_update_resource W d s
     | AuthorizeFlow i conn a4 a6 x d now \<Rightarrow> keep_state (authorize_flow W i conn a4 a6 x d now s)
     | AllowAccess i a4 a6 x d entry \<Rightarrow> keep_state (allow_access W i a4 a6 x d entry s)
     | DomainResolved req res now \<Rightarrow> keep_state (handle_domain_resolved W req res now s)
     | UpdateRelays rm ad now \<Rightarrow> update_relays W rm ad now s
     | Timeout now utc \<Rightarrow> gateway_handle_timeout W now utc s
     | AcceptConnection i conn now \<Rightarrow> Done (fst (accept_connection W i conn now s))
     | NextTimeout \<Rightarrow> Done (snd (gateway_poll_timeout W s))
     | NextTransmit \<Rightarrow> Done (snd (gateway_poll_transmit W s))
     | NextEvent \<Rightarrow> Done (snd (gateway_poll_event s)))"

text \<open>
  What is required of the arguments. A packet from the TUN device is well formed and no ICMP error about an
  unreachable destination: for those \<^verbatim>\<open>into_packet\<close> rebuilds the failed packet inside them. The port ranges of a
  resource are not inverted (the filter engine panics on those), and the kind of a resource id never changes (a
  \<^verbatim>\<open>debug_assert!\<close> of \<^verbatim>\<open>recalculate_dns_filters\<close>).
\<close>

definition gateway_input_ok :: "('bm, 'rs, 'ft, 'pt, 'n, 'enc, 'tx, 'conn, 'answer, 'relay) gateway_env \<Rightarrow> (resource_id \<Rightarrow> resource_kind)
    \<Rightarrow> ('conn, 'relay) gateway_input \<Rightarrow> bool" where
  "gateway_input_ok W kind e = (case e of
       TunPacket p now \<Rightarrow> calm (gw_ep (ge_client W)) p
     | UpdateResource d \<Rightarrow> description_ok d
     | AuthorizeFlow i conn a4 a6 x d now \<Rightarrow> description_valid kind d
     | AllowAccess i a4 a6 x d entry \<Rightarrow> description_valid kind d
     | _ \<Rightarrow> True)"

lemma poll_peer_events_get:
  "map fst (snd (poll_peer_events ps)) = map fst ps \<and>
   (\<forall>i. case map_of ps i of None \<Rightarrow> map_of (snd (poll_peer_events ps)) i = None
      | Some c \<Rightarrow> \<exists>es. map_of (snd (poll_peer_events ps)) i = Some (c\<lparr>cl_buffered_events := es\<rparr>))"
proof (induction ps rule: poll_peer_events.induct)
  case (2 j c ps)
  have same: "\<exists>es. c = c\<lparr>cl_buffered_events := es\<rparr>" for c :: "('b, 'c) client_on_gateway"
    by (rule exI [of _ "cl_buffered_events c"]) simp
  show ?case
  proof (cases "cl_buffered_events c")
    case Nil
    then have "client_poll_event c = (None, c)" by (simp add: client_poll_event_def)
    then have step: "snd (poll_peer_events ((j, c) # ps)) = (j, c) # snd (poll_peer_events ps)"
      by (simp add: case_prod_unfold Let_def)
    have "case map_of ((j, c) # ps) i of None \<Rightarrow> map_of ((j, c) # snd (poll_peer_events ps)) i = None
       | Some c' \<Rightarrow> \<exists>es. map_of ((j, c) # snd (poll_peer_events ps)) i = Some (c'\<lparr>cl_buffered_events := es\<rparr>)" for i
      using 2 [OF \<open>client_poll_event c = (None, c)\<close> [symmetric]] same [of c] by (cases "i = j") (simp_all cong: option.case_cong)
    with 2 [OF \<open>client_poll_event c = (None, c)\<close> [symmetric]] show ?thesis unfolding step by simp
  next
    case (Cons e es)
    then have "client_poll_event c = (Some e, c\<lparr>cl_buffered_events := es\<rparr>)" by (simp add: client_poll_event_def)
    with same show ?thesis by (auto split: option.splits)
  qed
qed simp

lemma client_inv_events: "client_inv G kind (c\<lparr>cl_buffered_events := es\<rparr>) \<longleftrightarrow> client_inv G kind c"
proof -
  have "expected_filters G (c\<lparr>cl_buffered_events := es\<rparr>) n = expected_filters G c n" for n
  proof -
    have "cidr_networks (c\<lparr>cl_buffered_events := es\<rparr>) = cidr_networks c" by (simp add: cidr_networks_def)
    moreover have "dns_filters (c\<lparr>cl_buffered_events := es\<rparr>) = dns_filters c"
      by (simp add: dns_filters_def [abs_def] cong: option.case_cong)
    ultimately show ?thesis by (simp add: expected_filters_def cong: option.case_cong)
  qed
  then show ?thesis by (simp add: client_inv_def resources_ok_def filters_current_def)
qed

lemma gateway_poll_event_inv:
  assumes inv: "gateway_inv W kind s"
  shows "gateway_inv W kind (snd (gateway_poll_event s))"
proof (cases "gs_buffered_events s")
  case Nil
  let ?t = "(gs_peers s)\<lparr>ps_peer_by_id := snd (poll_peer_events (ps_peer_by_id (gs_peers s)))\<rparr>"
  note poll = poll_peer_events_get [of "ps_peer_by_id (gs_peers s)"]
  have get: "case ps_get (gs_peers s) i of None \<Rightarrow> ps_get ?t i = None | Some c \<Rightarrow> \<exists>es. ps_get ?t i = Some (c\<lparr>cl_buffered_events := es\<rparr>)" for i
    using poll [THEN conjunct2, THEN spec, of i] by (cases "ps_get (gs_peers s) i") (simp_all add: ps_get_def hm_get_def)
  have "client_inv (ge_client W) kind c \<and> cl_id c = i" if "ps_get ?t i = Some c" for i c
    using get [of i] that inv by (auto simp: peers_inv_def client_inv_events split: option.splits)
  moreover have "ps_inv (ge_peers W) ?t"
  proof -
    have "ps_get ?t i \<noteq> None \<longleftrightarrow> ps_get (gs_peers s) i \<noteq> None" for i using get [of i] by (auto split: option.splits)
    then show ?thesis using inv poll by (auto simp: peers_inv_def ps_inv_def ps_get_def hm_wf_def)
  qed
  ultimately show ?thesis using Nil by (simp add: gateway_poll_event_def peers_inv_def case_prod_unfold Let_def)
qed (use inv in \<open>simp add: gateway_poll_event_def\<close>)

lemma gateway_step_ok:
  assumes W: "gateway_laws W" and node: "node_laws (ge_node W) pending" and inv: "gateway_inv W kind s" and e: "gateway_input_ok W kind e"
  shows "\<exists>t. gateway_step W s e = Done t \<and> gateway_inv W kind t"
proof -
  have drain: "\<exists>t. drain_node_events W (s\<lparr>gs_node := n\<rparr>) = Done t \<and> gateway_inv W kind t" for n
  proof -
    have "gateway_inv W kind (s\<lparr>gs_node := n\<rparr>)" using inv by simp
    from drain_node_events_ok [OF W node this] show ?thesis by blast
  qed
  show ?thesis
  proof (cases e)
    case (TunPacket p now)
    with e have "calm (gw_ep (ge_client W)) p" by (simp add: gateway_input_ok_def)
    then obtain t r where "handle_tun_input W p now s = Done (t, r)" "gateway_inv W kind t"
      using handle_tun_input_ok [OF W inv] by blast
    with TunPacket show ?thesis by (simp add: gateway_step_def keep_state_def)
  next
    case (Datagram local remote b now)
    obtain t r where "handle_network_input W local remote b now s = Done (t, r)" "gateway_inv W kind t"
      using handle_network_input_ok [OF W node inv] by blast
    with Datagram show ?thesis by (simp add: gateway_step_def keep_state_def)
  next
    case (CleanupConnection i)
    with peers_inv_remove [OF W inv] show ?thesis by (simp add: gateway_step_def cleanup_connection_def)
  next
    case (RemoveAccess i r)
    obtain t where "remove_access W i r s = Done t" "gateway_inv W kind t" using remove_access_ok [OF W inv] by blast
    with RemoveAccess show ?thesis by (simp add: gateway_step_def)
  next
    case (UpdateResource d)
    with e gateway_update_resource_ok [OF W inv] show ?thesis by (simp add: gateway_step_def gateway_input_ok_def)
  next
    case (AuthorizeFlow i conn a4 a6 x d now)
    with e have "description_valid kind d" by (simp add: gateway_input_ok_def)
    then obtain t u where "authorize_flow W i conn a4 a6 x d now s = Done (t, u)" "gateway_inv W kind t"
      using authorize_flow_ok [OF W inv] by blast
    with AuthorizeFlow show ?thesis by (simp add: gateway_step_def keep_state_def)
  next
    case (AllowAccess i a4 a6 x d entry)
    with e have "description_valid kind d" by (simp add: gateway_input_ok_def)
    then obtain t u where "allow_access W i a4 a6 x d entry s = Done (t, u)" "gateway_inv W kind t"
      using allow_access_ok [OF W inv] by blast
    with AllowAccess show ?thesis by (simp add: gateway_step_def keep_state_def)
  next
    case (DomainResolved req res now)
    obtain t u where "handle_domain_resolved W req res now s = Done (t, u)" "gateway_inv W kind t"
      using handle_domain_resolved_ok [OF W inv] by blast
    with DomainResolved show ?thesis by (simp add: gateway_step_def keep_state_def)
  next
    case (Timeout now utc)
    obtain t where "gateway_handle_timeout W now utc s = Done t" "gateway_inv W kind t"
      using gateway_handle_timeout_ok [OF W node inv] by blast
    with Timeout show ?thesis by (simp add: gateway_step_def)
  next
    case (AcceptConnection i conn now)
    with inv show ?thesis by (simp add: gateway_step_def accept_connection_def case_prod_unfold split: sum.splits)
  next
    case NextTimeout
    with inv show ?thesis by (simp add: gateway_step_def gateway_poll_timeout_def case_prod_unfold Let_def)
  next
    case NextTransmit
    with inv show ?thesis by (simp add: gateway_step_def gateway_poll_transmit_def case_prod_unfold Let_def split: list.splits)
  next
    case NextEvent
    with gateway_poll_event_inv [OF inv] show ?thesis by (simp add: gateway_step_def)
  qed (use drain in \<open>simp_all add: gateway_step_def add_ice_candidate_def remove_ice_candidate_def update_relays_def\<close>)
qed

interpretation gateway_steps: step_system "gateway_step W" "gateway_input_ok W kind"
    "\<lambda>s. gateway_laws W \<and> node_laws (ge_node W) pending \<and> gateway_inv W kind s" for W kind pending
  by unfold_locales (use gateway_step_ok in blast)

interpretation expiry_timer: timer gs_next_expiry_resources_check "\<lambda>s now. gateway_handle_timeout W now (utc now) s"
    "\<lambda>s. gateway_laws W \<and> node_laws (ge_node W) pending \<and> gateway_inv W kind s" for W kind pending utc
proof unfold_locales
  fix s :: "('a, 'b, 'c, 'd, 'e) gateway_state" and t now d
  assume i: "gateway_laws W \<and> node_laws (ge_node W) pending \<and> gateway_inv W kind s"
  note ok = gateway_handle_timeout_ok [of W pending kind s now "utc now"]
  show "\<exists>t. gateway_handle_timeout W now (utc now) s = Done t \<and> gateway_laws W \<and> node_laws (ge_node W) pending \<and> gateway_inv W kind t"
    using ok i by blast
  show "now < d" if "gateway_handle_timeout W now (utc now) s = Done t" "gs_next_expiry_resources_check t = Some d"
    using ok i that by auto
qed

end
