(* ===== verification/Packet_Sample.thy ===== *)
theory Packet_Sample
  imports Packet_Nat
begin

text \<open>
  A concrete parser with the wire formats of IPv4, IPv6, UDP, TCP and ICMP that satisfies the laws
  \<open>wire_laws\<close>, so that the properties of packets can be evaluated on packets given by their bytes.
  Its checksums are all zero.
\<close>

definition sample_header4_ok :: "bytes \<Rightarrow> bool" where
  "sample_header4_ok b \<longleftrightarrow> 20 \<le> length b \<and> drop_bit 4 (b ! 0) = 4 \<and> 20 \<le> ihl4 b \<and> ihl4 b \<le> length b"

definition sample_header6_ok :: "bytes \<Rightarrow> bool" where
  "sample_header6_ok b \<longleftrightarrow> 40 \<le> length b \<and> drop_bit 4 (b ! 0) = 6"

definition sample_icmpv4 :: "bytes \<Rightarrow> icmpv4_type option" where
  "sample_icmpv4 b =
     (if length b < 8 then None
      else if b ! 0 = 8 \<and> b ! 1 = 0 then Some (EchoRequest4 (field_at 4 2 b) (field_at 6 2 b))
      else if b ! 0 = 0 \<and> b ! 1 = 0 then Some (EchoReply4 (field_at 4 2 b) (field_at 6 2 b))
      else if b ! 0 = 3 \<and> b ! 1 = 0 then Some (DestinationUnreachable4 Network4)
      else if b ! 0 = 3 \<and> b ! 1 = 1 then Some (DestinationUnreachable4 Host4)
      else if b ! 0 = 3 \<and> b ! 1 = 3 then Some (DestinationUnreachable4 Port4)
      else Some Unknown4)"

definition sample_icmpv6 :: "bytes \<Rightarrow> icmpv6_type option" where
  "sample_icmpv6 b =
     (if length b < 8 then None
      else if b ! 0 = 128 \<and> b ! 1 = 0 then Some (EchoRequest6 (field_at 4 2 b) (field_at 6 2 b))
      else if b ! 0 = 129 \<and> b ! 1 = 0 then Some (EchoReply6 (field_at 4 2 b) (field_at 6 2 b))
      else if b ! 0 = 1 \<and> b ! 1 = 0 then Some (DestinationUnreachable6 NoRoute)
      else if b ! 0 = 1 \<and> b ! 1 = 4 then Some (DestinationUnreachable6 Port6)
      else if b ! 0 = 2 \<and> b ! 1 = 0 then Some (PacketTooBig (field_at 4 4 b))
      else Some Unknown6)"

definition sample_icmpv4_bytes :: "icmpv4_type \<Rightarrow> bytes" where
  "sample_icmpv4_bytes t = (case t of
       EchoRequest4 i s \<Rightarrow> [8, 0, 0, 0] @ octets2 i @ octets2 s
     | EchoReply4 i s \<Rightarrow> [0, 0, 0, 0] @ octets2 i @ octets2 s
     | DestinationUnreachable4 c \<Rightarrow> [3, if c = Network4 then 0 else if c = Host4 then 1 else 3, 0, 0, 0, 0, 0, 0]
     | _ \<Rightarrow> [255, 0, 0, 0, 0, 0, 0, 0])"

definition sample_icmpv6_bytes :: "icmpv6_type \<Rightarrow> bytes" where
  "sample_icmpv6_bytes t = (case t of
       EchoRequest6 i s \<Rightarrow> [128, 0, 0, 0] @ octets2 i @ octets2 s
     | EchoReply6 i s \<Rightarrow> [129, 0, 0, 0] @ octets2 i @ octets2 s
     | DestinationUnreachable6 c \<Rightarrow> [1, if c = NoRoute then 0 else 4, 0, 0, 0, 0, 0, 0]
     | PacketTooBig mtu \<Rightarrow> [2, 0, 0, 0] @ be_bytes 4 mtu
     | _ \<Rightarrow> [255, 0, 0, 0, 0, 0, 0, 0])"

definition sample_ipv4_bytes :: "ipv4_header \<Rightarrow> bytes" where
  "sample_ipv4_bytes h = [0x45, push_bit 2 (h4_dscp h)] @ octets2 (h4_total_len h) @ octets2 (h4_identification h) @
     [if h4_dont_fragment h then 0x40 else 0, 0, h4_time_to_live h, h4_protocol h] @ octets2 (h4_checksum h) @
     octets4 (h4_source h) @ octets4 (h4_destination h)"

definition sample_ipv6_bytes :: "ipv6_header \<Rightarrow> bytes" where
  "sample_ipv6_bytes h = [0x60, 0, 0, 0] @ octets2 (h6_payload_length h) @ [h6_next_header h, h6_hop_limit h] @
     octets6 (h6_source h) @ octets6 (h6_destination h)"

definition sample_ipv4_headers :: "bytes \<Rightarrow> (ipv4_header \<times> bytes) option" where
  "sample_ipv4_headers b =
     (if sample_header4_ok b \<and> ihl4 b \<le> total4 b \<and> total4 b \<le> length b then Some
        (\<lparr>h4_dscp = drop_bit 2 (b ! 1), h4_header_len = ihl4 b, h4_total_len = field_at 2 2 b,
          h4_identification = field_at 4 2 b, h4_dont_fragment = bit (b ! 6) 6, h4_more_fragments = bit (b ! 6) 5,
          h4_time_to_live = b ! 8, h4_protocol = b ! 9, h4_checksum = field_at 10 2 b,
          h4_source = field_at 12 4 b, h4_destination = field_at 16 4 b\<rparr>,
         take (total4 b - ihl4 b) (drop (ihl4 b) b))
      else None)"

definition sample_ipv6_headers :: "bytes \<Rightarrow> (ipv6_header \<times> bytes) option" where
  "sample_ipv6_headers b =
     (if sample_header6_ok b \<and> 40 + plen6 b \<le> length b then Some
        (\<lparr>h6_traffic_class = 0, h6_flow_label = 0, h6_payload_length = field_at 4 2 b, h6_next_header = b ! 6,
          h6_hop_limit = b ! 7, h6_source = field_at 8 16 b, h6_destination = field_at 24 16 b\<rparr>,
         take (plen6 b) (drop 40 b))
      else None)"

definition sample_lax4 :: "bytes \<Rightarrow> ipv4 lax_slice option" where
  "sample_lax4 b =
     (if sample_header4_ok b then Some \<lparr>lax_source = field_at 12 4 b, lax_destination = field_at 16 4 b,
        lax_header_len = ihl4 b, lax_extension_len = 0, lax_total_len = field_at 2 2 b,
        lax_protocol = b ! 9, lax_payload = drop (ihl4 b) b\<rparr>
      else None)"

definition sample_lax6 :: "bytes \<Rightarrow> ipv6 lax_slice option" where
  "sample_lax6 b =
     (if sample_header6_ok b then Some \<lparr>lax_source = field_at 8 16 b, lax_destination = field_at 24 16 b,
        lax_header_len = 40, lax_extension_len = 0, lax_total_len = field_at 4 2 b,
        lax_protocol = b ! 6, lax_payload = drop 40 b\<rparr>
      else None)"

definition sample_udp_ok :: "bytes \<Rightarrow> bool" where
  "sample_udp_ok b \<longleftrightarrow> 8 \<le> length b \<and> unat (field_at 4 2 b :: u16) \<le> length b"

definition sample_tcp_ok :: "bytes \<Rightarrow> bool" where
  "sample_tcp_ok b \<longleftrightarrow> 20 \<le> length b \<and> 5 \<le> drop_bit 4 (b ! 12) \<and> 4 * unat (drop_bit 4 (b ! 12)) \<le> length b"

text \<open>The packet builders write a header and the payload behind it.\<close>

definition sample_build4 :: "ipv4 \<Rightarrow> ipv4 \<Rightarrow> u8 \<Rightarrow> ip_number \<Rightarrow> bytes \<Rightarrow> bytes" where
  "sample_build4 s d ttl n b = sample_ipv4_bytes
     \<lparr>h4_dscp = 0, h4_header_len = 20, h4_total_len = of_nat (20 + length b), h4_identification = 0, h4_dont_fragment = True,
      h4_more_fragments = False, h4_time_to_live = ttl, h4_protocol = n, h4_checksum = 0, h4_source = s, h4_destination = d\<rparr> @ b"

definition sample_build6 :: "ipv6 \<Rightarrow> ipv6 \<Rightarrow> u8 \<Rightarrow> ip_number \<Rightarrow> bytes \<Rightarrow> bytes" where
  "sample_build6 s d ttl n b = sample_ipv6_bytes
     \<lparr>h6_traffic_class = 0, h6_flow_label = 0, h6_payload_length = of_nat (length b), h6_next_header = n,
      h6_hop_limit = ttl, h6_source = s, h6_destination = d\<rparr> @ b"

definition sample_ep :: etherparse where
  "sample_ep = \<lparr>
     ep_ipv4_header_ok = sample_header4_ok,
     ep_ipv4_slice_ok = (\<lambda>b. sample_header4_ok b \<and> ihl4 b \<le> total4 b \<and> total4 b \<le> length b),
     ep_ipv4_source = field_at 12 4, ep_ipv4_destination = field_at 16 4,
     ep_ipv4_ihl = (\<lambda>b. b ! 0 AND 15), ep_ipv4_total_len = field_at 2 2, ep_ipv4_protocol = (\<lambda>b. b ! 9),
     ep_ipv4_checksum = (\<lambda>_. 0),
     ep_ipv6_header_ok = sample_header6_ok,
     ep_ipv6_slice_ok = (\<lambda>b. sample_header6_ok b \<and> 40 + plen6 b \<le> length b),
     ep_ipv6_source = field_at 8 16, ep_ipv6_destination = field_at 24 16,
     ep_ipv6_payload_length = field_at 4 2, ep_ipv6_next_header = (\<lambda>b. b ! 6),
     ep_udp_ok = sample_udp_ok, ep_udp_header_ok = (\<lambda>b. 8 \<le> length b),
     ep_udp_checksum4 = (\<lambda>_ _. Some 0), ep_udp_checksum6 = (\<lambda>_ _. Some 0),
     ep_tcp_ok = sample_tcp_ok, ep_tcp_header_ok = sample_tcp_ok,
     ep_tcp_checksum4 = (\<lambda>_ _. Some 0), ep_tcp_checksum6 = (\<lambda>_ _. Some 0),
     ep_source_port = field_at 0 2, ep_destination_port = field_at 2 2,
     ep_icmpv4 = sample_icmpv4, ep_icmpv4_payload = drop 8, ep_icmpv4_checksum = (\<lambda>_ _. 0),
     ep_icmpv6 = sample_icmpv6, ep_icmpv6_payload = drop 8, ep_icmpv6_checksum = (\<lambda>_ _ _ _. Some 0),
     ep_lax_ipv4 = sample_lax4, ep_lax_ipv6 = sample_lax6,
     ep_ipv4_headers = sample_ipv4_headers, ep_ipv6_headers = sample_ipv6_headers,
     ep_ipv4_bytes = sample_ipv4_bytes, ep_ipv6_bytes = sample_ipv6_bytes,
     ep_ipv4_header_checksum = (\<lambda>_. 0),
     ep_icmpv4_header = sample_icmpv4, ep_icmpv6_header = sample_icmpv6,
     ep_icmpv4_bytes = sample_icmpv4_bytes, ep_icmpv6_bytes = sample_icmpv6_bytes,
     ep_time_exceeded4 = (\<lambda>c. if c \<le> 1 then Some c else None), ep_time_exceeded6 = (\<lambda>c. if c \<le> 1 then Some c else None),
     ep_dscp = (\<lambda>c. if c < 64 then Some c else None),
     ep_build_icmpv4 = (\<lambda>s d ttl t b. sample_build4 s d ttl IP_ICMP (sample_icmpv4_bytes t @ b)),
     ep_build_icmpv6 = (\<lambda>s d ttl t b. sample_build6 s d ttl IPV6_ICMP (sample_icmpv6_bytes t @ b)),
     ep_build_ipv6 = sample_build6\<rparr>"

section \<open>The laws\<close>

lemma field_at_skip: "length a = off \<Longrightarrow> field_at (off + k) n (a @ b) = field_at k n b"
  by (simp add: field_at_def)

lemma field_at_front [simp]:
  "field_at 0 2 (octets2 x @ r) = x" "field_at 0 4 (octets4 y @ r) = y" "field_at 0 16 (octets6 z @ r) = z"
  "field_at 0 4 (octets4 y) = y" "field_at 0 16 (octets6 z) = z"
  by (simp_all add: field_at_def)

lemma sample_wire_laws: "wire_laws sample_ep"
proof -
  have "ipv4_laws sample_ep" by (simp add: ipv4_laws_def sample_ep_def sample_header4_ok_def)
  moreover have "ipv6_laws sample_ep" by (simp add: ipv6_laws_def sample_ep_def sample_header6_ok_def)
  moreover have "parse_laws sample_ep" by (auto simp: parse_laws_def sample_ep_def sample_udp_ok_def sample_tcp_ok_def)
  moreover have "port_laws sample_ep" by (auto simp: port_laws_def sample_ep_def sample_udp_ok_def sample_tcp_ok_def)
  moreover have "icmp_laws sample_ep"
    by (simp add: icmp_laws_def sample_ep_def sample_icmpv4_def sample_icmpv6_def) auto
  moreover have "translation_laws sample_ep"
  proof -
    have b4: "field_at 2 2 (sample_ipv4_bytes h) = h4_total_len h" "field_at 12 4 (sample_ipv4_bytes h) = h4_source h"
        "field_at 16 4 (sample_ipv4_bytes h) = h4_destination h" for h
      by (simp_all add: sample_ipv4_bytes_def field_at_def)
    have b6: "field_at 4 2 (sample_ipv6_bytes h) = h6_payload_length h" "field_at 8 16 (sample_ipv6_bytes h) = h6_source h"
        "field_at 24 16 (sample_ipv6_bytes h) = h6_destination h" for h
      by (simp_all add: sample_ipv6_bytes_def field_at_def)
    have n4: "length (sample_ipv4_bytes h) = 20" "sample_ipv4_bytes h ! 0 = 0x45" "sample_ipv4_bytes h ! 9 = h4_protocol h" for h
      by (simp_all add: sample_ipv4_bytes_def nth_append)
    have n6: "length (sample_ipv6_bytes h) = 40" "drop_bit 4 (sample_ipv6_bytes h ! 0) = 6" "sample_ipv6_bytes h ! 6 = h6_next_header h" for h
      by (simp_all add: sample_ipv6_bytes_def nth_append)
    show ?thesis
      by (simp add: translation_laws_def sample_ep_def b4 b6 n4 n6 sample_ipv4_headers_def sample_ipv6_headers_def
          sample_icmpv4_bytes_def sample_icmpv6_bytes_def)
  qed
  ultimately show ?thesis by (simp add: wire_laws_def)
qed

end
