(* ===== verification/Tunnel_Sample.thy ===== *)
theory Tunnel_Sample
  imports Gateway_Steps Packet_Sample
begin

text \<open>
  A concrete environment for the gateway that satisfies all of its laws: containers as lists, a node
  that hands out plain packets, and UDP packets given by their addresses and ports.
\<close>

section \<open>Containers\<close>

text \<open>A bidirectional map as the log of its changes.\<close>

datatype bimap_entry = Put flow flow | Drop flow

fun log_left :: "bimap_entry list \<Rightarrow> flow \<Rightarrow> flow option" where
  "log_left [] x = None"
| "log_left (Put a b # m) x = (if x = a then Some b else if log_left m x = Some b then None else log_left m x)"
| "log_left (Drop b # m) x = (if log_left m x = Some b then None else log_left m x)"

fun log_right :: "bimap_entry list \<Rightarrow> flow \<Rightarrow> flow option" where
  "log_right [] y = None"
| "log_right (Put a b # m) y = (if y = b then Some a else if log_right m y = Some a then None else log_right m y)"
| "log_right (Drop b # m) y = (if y = b then None else log_right m y)"

lemma log_left_right: "log_left m x = Some y \<longleftrightarrow> log_right m y = Some x"
proof (induction m arbitrary: x y)
  case (Cons e m)
  then show ?case by (cases e) (simp_all, (metis option.inject option.discI)+)
qed simp

definition sample_bimap :: "bimap_entry list bimap" where
  "sample_bimap = \<lparr>bm_new = [], bm_get_by_left = log_left, bm_get_by_right = log_right,
     bm_contains_right = (\<lambda>m b. log_right m b \<noteq> None), bm_insert = (\<lambda>a b m. Put a b # m),
     bm_remove_by_right = (\<lambda>b m. (map_option (\<lambda>a. (a, b)) (log_right m b), Drop b # m))\<rparr>"

lemma sample_bimap_laws: "bimap_laws sample_bimap"
  by (simp add: bimap_laws_def sample_bimap_def log_left_right)

definition sample_ranges :: "(u16 \<times> u16) list range_set" where
  "sample_ranges = \<lparr>rs_new = [], rs_insert = (\<lambda>a b s. if a \<le> b then Done ((a, b) # s) else Panicked),
     rs_contains = (\<lambda>s x. list_ex (\<lambda>(a, b). a \<le> x \<and> x \<le> b) s)\<rparr>"

lemma sample_ranges_laws: "range_set_laws sample_ranges"
  by (auto simp: range_set_laws_def sample_ranges_def)

definition sample_contains :: "ip_network \<Rightarrow> ip_addr \<Rightarrow> bool" where
  "sample_contains n ip = (case (n, ip) of
       (Net4 a k, V4 x) \<Rightarrow> drop_bit (32 - k) x = drop_bit (32 - k) a
     | (Net6 a k, V6 x) \<Rightarrow> drop_bit (128 - k) x = drop_bit (128 - k) a
     | _ \<Rightarrow> False)"

lemma sample_net_laws: "net_laws sample_contains"
  by (simp add: net_laws_def sample_contains_def)

text \<open>A routing table as an association list; the best match is found by scanning it.\<close>

fun best_match :: "ip_addr \<Rightarrow> (ip_network \<times> 'v) list \<Rightarrow> (ip_network \<times> 'v) option" where
  "best_match ip [] = None"
| "best_match ip ((n, v) # t) = (case best_match ip t of
       None \<Rightarrow> if sample_contains n ip then Some (n, v) else None
     | Some (m, w) \<Rightarrow> if sample_contains n ip \<and> netmask m \<le> netmask n then Some (n, v) else Some (m, w))"

definition sample_table :: "((ip_network \<times> 'v) list, 'v) net_table" where
  "sample_table = \<lparr>nt_new = [], nt_insert = (\<lambda>n v t. (n, v) # t), nt_exact_match = map_of,
     nt_longest_match = (\<lambda>t ip. best_match ip (AList.clearjunk t)),
     nt_retain = (\<lambda>f t. filter (\<lambda>(n, v). f n v) (AList.clearjunk t))\<rparr>"

lemma best_match_spec:
  assumes "distinct (map fst t)"
  shows "case best_match ip t of
       None \<Rightarrow> \<forall>(n, v) \<in> set t. \<not> sample_contains n ip
     | Some (n, v) \<Rightarrow> (n, v) \<in> set t \<and> sample_contains n ip \<and> (\<forall>(m, w) \<in> set t. sample_contains m ip \<longrightarrow> netmask m \<le> netmask n)"
  using assms by (induction ip t rule: best_match.induct) (fastforce split: option.splits if_splits)+

lemma filter_clearjunk:
  "map_of (filter (\<lambda>(n, v). f n v) (AList.clearjunk t)) n =
     (case map_of t n of None \<Rightarrow> None | Some v \<Rightarrow> if f n v then Some v else None)"
proof -
  have "hm_wf (AList.clearjunk t)" by (simp add: hm_wf_def)
  from hm_get_filter [OF this, of "\<lambda>(n, v). f n v" n] show ?thesis
    by (simp add: hm_get_def map_of_clearjunk split: option.splits)
qed

lemma sample_table_laws: "net_table_laws sample_contains (sample_table :: ((ip_network \<times> 'v) list, 'v) net_table)"
proof -
  have d: "distinct (map fst (AList.clearjunk t))" for t :: "(ip_network \<times> 'v) list" by (rule distinct_clearjunk)
  have m: "map_of t n = Some v \<longleftrightarrow> (n, v) \<in> set (AList.clearjunk t)" for t :: "(ip_network \<times> 'v) list" and n v
    by (metis d map_of_clearjunk map_of_eq_Some_iff)
  have some: "map_of t n = Some v \<and> sample_contains n ip \<and> (\<forall>m w. map_of t m = Some w \<and> sample_contains m ip \<longrightarrow> netmask m \<le> netmask n)"
    if "best_match ip (AList.clearjunk t) = Some (n, v)" for t :: "(ip_network \<times> 'v) list" and n v ip
    using best_match_spec [of "AList.clearjunk t" ip] d [of t] that by (auto simp: m)
  have none: "\<forall>m w. map_of t m = Some w \<longrightarrow> \<not> sample_contains m ip"
    if "best_match ip (AList.clearjunk t) = None" for t :: "(ip_network \<times> 'v) list" and ip
    using best_match_spec [of "AList.clearjunk t" ip] d [of t] that by (auto simp: m)
  show ?thesis
    by (simp add: net_table_laws_def sample_table_def filter_clearjunk) (use some none in blast)
qed

text \<open>Globs without special characters but a leading \<^verbatim>\<open>*/\<close>, which stands for one label.\<close>

definition sample_glob :: glob where
  "sample_glob = \<lparr>glob_new = (\<lambda>_. True), glob_matches = (\<lambda>p d. p = d \<or>
     take 2 p = ''*/'' \<and> drop 2 p = drop 1 (dropWhile (\<lambda>c. c \<noteq> CHR ''/'') d))\<rparr>"

type_synonym sample_filters = "(ip_network \<times> (u16 \<times> u16) list filter_engine) list"

definition sample_gw :: "(bimap_entry list, (u16 \<times> u16) list, sample_filters) gw_env" where
  "sample_gw = \<lparr>gw_ep = sample_ep, gw_bimap = sample_bimap, gw_ranges = sample_ranges, gw_filters = sample_table,
     gw_contains = sample_contains, gw_glob = sample_glob\<rparr>"

lemma sample_gw_laws: "gw_laws sample_gw"
  by (simp add: gw_laws_def sample_gw_def sample_wire_laws sample_bimap_laws sample_ranges_laws sample_net_laws sample_table_laws)

section \<open>Packets\<close>

definition sample_packet :: "bytes \<Rightarrow> convertible" where
  "sample_packet b = \<lparr>cp_buf = replicate NAT46_OVERHEAD 0 @ b @ replicate (MAX_FZ_PAYLOAD - NAT46_OVERHEAD - length b) 0,
     cp_start = NAT46_OVERHEAD, cp_len = length b\<rparr>"

lemma sample_packet_raw:
  assumes "length b \<le> MAX_IP_SIZE"
  shows "raw (sample_packet b) = b" "in_buffer (sample_packet b)" "cp_start (sample_packet b) = NAT46_OVERHEAD"
  using assms by (simp_all add: sample_packet_def raw_def in_buffer_def packet_size_defs)

definition sample_udp :: "u16 \<Rightarrow> u16 \<Rightarrow> bytes" where
  "sample_udp sp dp = octets2 sp @ octets2 dp @ octets2 8 @ octets2 0"

definition udp4 :: "ipv4 \<Rightarrow> ipv4 \<Rightarrow> u16 \<Rightarrow> u16 \<Rightarrow> ip_packet" where
  "udp4 src dst sp dp = Ipv4 (sample_packet (sample_build4 src dst 64 IP_UDP (sample_udp sp dp)))"

definition udp6 :: "ipv6 \<Rightarrow> ipv6 \<Rightarrow> u16 \<Rightarrow> u16 \<Rightarrow> ip_packet" where
  "udp6 src dst sp dp = Ipv6 (sample_packet (sample_build6 src dst 64 IP_UDP (sample_udp sp dp)))"

lemma sample_udp_fields:
  "length (sample_udp sp dp) = 8" "field_at 0 2 (sample_udp sp dp) = sp" "field_at 2 2 (sample_udp sp dp) = dp"
  "field_at 4 2 (sample_udp sp dp) = (8 :: u16)"
  by (simp_all add: sample_udp_def field_at_def)

lemma sample_udp_ported: "ported sample_ep IP_UDP (sample_udp sp dp)"
  by (simp add: ported_def sample_ep_def sample_udp_ok_def sample_udp_fields)

lemma udp4_view:
  "packet_wf (udp4 src dst sp dp)"
  "view_of (udp4 src dst sp dp) = \<lparr>vw_src = V4 src, vw_dst = V4 dst, vw_next = IP_UDP, vw_payload = sample_udp sp dp\<rparr>"
proof -
  let ?b = "sample_build4 src dst 64 IP_UDP (sample_udp sp dp)"
  have l: "length ?b = 28" by (simp add: sample_build4_def sample_ipv4_bytes_def sample_udp_def)
  have f: "?b ! 0 = 0x45" "?b ! 9 = IP_UDP" "field_at 2 2 ?b = (28 :: u16)" "field_at 12 4 ?b = src" "field_at 16 4 ?b = dst"
    by (simp_all add: sample_build4_def sample_ipv4_bytes_def field_at_def nth_append sample_udp_fields(1))
  have h: "ihl4 ?b = 20" "total4 ?b = 28" "drop_bit 4 (?b ! 0) = 4" by (simp_all add: ihl4_def total4_def f)
  have "drop 20 ?b = sample_udp sp dp" by (simp add: sample_build4_def sample_ipv4_bytes_def)
  then have p: "take (total4 ?b - ihl4 ?b) (drop (ihl4 ?b) ?b) = sample_udp sp dp" using h sample_udp_fields(1) by simp
  have "length ?b \<le> MAX_IP_SIZE" using l by (simp add: packet_size_defs)
  note r = sample_packet_raw [OF this]
  show "packet_wf (udp4 src dst sp dp)" using l h r by (simp add: udp4_def packet_wf_def valid4_def)
  show "view_of (udp4 src dst sp dp) = \<lparr>vw_src = V4 src, vw_dst = V4 dst, vw_next = IP_UDP, vw_payload = sample_udp sp dp\<rparr>"
    using f p r by (simp add: udp4_def view_of_def view4_def)
qed

lemma udp6_view:
  "packet_wf (udp6 src dst sp dp)"
  "view_of (udp6 src dst sp dp) = \<lparr>vw_src = V6 src, vw_dst = V6 dst, vw_next = IP_UDP, vw_payload = sample_udp sp dp\<rparr>"
proof -
  let ?b = "sample_build6 src dst 64 IP_UDP (sample_udp sp dp)"
  have l: "length ?b = 48" by (simp add: sample_build6_def sample_ipv6_bytes_def sample_udp_def)
  have f: "?b ! 0 = 0x60" "?b ! 6 = IP_UDP" "field_at 4 2 ?b = (8 :: u16)" "field_at 8 16 ?b = src" "field_at 24 16 ?b = dst"
    by (simp_all add: sample_build6_def sample_ipv6_bytes_def field_at_def nth_append sample_udp_fields(1))
  have h: "plen6 ?b = 8" "drop_bit 4 (?b ! 0) = 6" by (simp_all add: plen6_def f)
  have "drop 40 ?b = sample_udp sp dp" by (simp add: sample_build6_def sample_ipv6_bytes_def)
  then have p: "take (plen6 ?b) (drop 40 ?b) = sample_udp sp dp" using h sample_udp_fields(1) by simp
  have "length ?b \<le> MAX_IP_SIZE" using l by (simp add: packet_size_defs)
  note r = sample_packet_raw [OF this]
  show "packet_wf (udp6 src dst sp dp)" using l h r by (simp add: udp6_def packet_wf_def valid6_def)
  show "view_of (udp6 src dst sp dp) = \<lparr>vw_src = V6 src, vw_dst = V6 dst, vw_next = IP_UDP, vw_payload = sample_udp sp dp\<rparr>"
    using f p r by (simp add: udp6_def view_of_def view6_def)
qed

lemma udp_reads:
  "reads sample_ep (udp4 s d sp dp) (V4 s) (V4 d) (Udp sp) (Udp dp)"
  "reads sample_ep (udp6 s6 d6 sp dp) (V6 s6) (V6 d6) (Udp sp) (Udp dp)"
  by (simp_all add: reads_iff [OF sample_wire_laws] udp4_view udp6_view sample_udp_ported proto_kind_def
      source_number_def destination_number_def has_ports_def sample_udp_fields)

end
