(* ===== verification/Packet_Properties.thy ===== *)
theory Packet_Properties
  imports Gateway_State Tunnel_Sample
begin

text \<open>
  Properties of the packets of the tunnel: what \<^verbatim>\<open>IpPacket::new\<close> accepts can be read and edited without
  a panic, address translation refines its description on flows, and the control messages between
  clients and gateways survive being put into a packet.
\<close>

section \<open>Packets from the network\<close>

text \<open>
  C18. Whatever bytes are in a buffer and whatever length is claimed for them, \<^verbatim>\<open>IpPacket::new\<close> returns;
  when it accepts them, the packet is well-formed: it holds exactly the claimed bytes, its version is
  the one of its addresses, and every accessor (addresses, protocol, payload, ports, control message)
  returns without a panic on any of its slices; where it has ports its checksums can be refreshed.
\<close>

theorem ip_packet_new_type:
  assumes E: "wire_laws E" and buf: "length ip = MAX_FZ_PAYLOAD"
  shows "\<exists>r. ip_packet_new E ip len = Done r \<and> (\<forall>p. r = Inr p \<longrightarrow>
     len \<le> MAX_IP_SIZE \<and> packet_wf p \<and> packet_of p = Done (take len (drop NAT46_OVERHEAD ip)) \<and>
     (\<exists>src dst n b. source E p = Done src \<and> destination E p = Done dst \<and> next_header E p = Done n \<and>
        ip_payload E p = Done b \<and> is_ipv4 src = version4 p \<and> is_ipv4 dst = version4 p \<and> length b \<le> len) \<and>
     (\<exists>a. source_protocol E p = Done a) \<and> (\<exists>a. destination_protocol E p = Done a) \<and>
     (\<exists>a. as_fz_p2p_control E p = Done a) \<and> (\<forall>q. source_protocol E p = succeed q \<longrightarrow> (\<exists>p'. update_checksum E p = Done p' \<and> packet_wf p')))"
proof -
  have view: "is_ipv4 (vw_src (view_of p)) = version4 p" "is_ipv4 (vw_dst (view_of p)) = version4 p" for p
    by (cases p; simp add: view_of_def view4_def view6_def version4_def)+
  have short: "length (vw_payload (view_of p)) \<le> len" if "packet_wf p" "packet_of p = Done (take len (drop NAT46_OVERHEAD ip))" for p
  proof -
    have "packet_of p = Done (raw (case p of Ipv4 c \<Rightarrow> c | Ipv6 c \<Rightarrow> c))"
      using that(1) by (cases p) (simp_all add: packet_of_def packet_wf_def packet_slice_def in_buffer_def raw_def)
    then have "length (raw (case p of Ipv4 c \<Rightarrow> c | Ipv6 c \<Rightarrow> c)) \<le> len" using that(2) by (metis length_take min.cobounded2 outcome.inject)
    then show ?thesis by (cases p) (simp_all add: view_of_def view4_def view6_def)
  qed
  obtain r where r: "ip_packet_new E ip len = Done r"
      "\<And>p. r = Inr p \<Longrightarrow> packet_wf p \<and> packet_of p = Done (take len (drop NAT46_OVERHEAD ip))"
    using ip_packet_new_wf [OF E buf] by blast
  have "len \<le> MAX_IP_SIZE" if "r = Inr p" for p
    using r(1) that by (cases "len \<le> MAX_IP_SIZE") (auto simp: ip_packet_new_def)
  moreover have "\<exists>p'. update_checksum E p = Done p' \<and> packet_wf p'" if "packet_wf p" "source_protocol E p = succeed q" for p q
    using source_protocol_reads [OF E that] update_checksum_reads [OF E] by (metis reads_def)
  ultimately show ?thesis using r view short
    by (fastforce simp: packet_reads [OF E] protocols_view [OF E] as_fz_p2p_control_total [OF E])
qed

theorem ip_packet_new_type_witness:
  "\<exists>r. ip_packet_new sample_ep (cp_buf (sample_packet (sample_build4 1 2 64 IP_UDP (sample_udp 3 4)))) 28 = Done r \<and> (\<forall>p. r = Inr p \<longrightarrow>
     28 \<le> MAX_IP_SIZE \<and> packet_wf p)"
proof -
  have "length (cp_buf (sample_packet (sample_build4 1 2 64 IP_UDP (sample_udp 3 4)))) = MAX_FZ_PAYLOAD"
    by (simp add: sample_packet_def sample_build4_def sample_ipv4_bytes_def sample_udp_def packet_size_defs)
  from ip_packet_new_type [OF sample_wire_laws this, of 28] show ?thesis by blast
qed

section \<open>Address translation\<close>

text \<open>
  The abstract view of a packet is its flow: two addresses and two ports. Translating the destination
  replaces the destination address and the source port; crossing between IPv4 and IPv6 also replaces
  the source address, because one packet has addresses of one family. An echo message has a single
  identifier.
\<close>

record flow_view =
  fv_src :: ip_addr
  fv_dst :: ip_addr
  fv_sport :: protocol
  fv_dport :: protocol

definition flow_of :: "etherparse \<Rightarrow> ip_packet \<Rightarrow> flow_view option" where
  "flow_of E p = (case (source E p, destination E p, source_protocol E p, destination_protocol E p) of
       (Done s, Done d, Done (Inr a), Done (Inr b)) \<Rightarrow> Some \<lparr>fv_src = s, fv_dst = d, fv_sport = a, fv_dport = b\<rparr>
     | _ \<Rightarrow> None)"

definition own_addr :: "ip_addr \<Rightarrow> ip_addr \<Rightarrow> ipv4 \<Rightarrow> ipv6 \<Rightarrow> ip_addr" where
  "own_addr old new v4 v6 =
     (if is_ipv4 old = is_ipv4 new then old else if is_ipv4 new then V4 v4 else V6 v6)"

definition dnat :: "ipv4 \<Rightarrow> ipv6 \<Rightarrow> protocol \<Rightarrow> ip_addr \<Rightarrow> flow_view \<Rightarrow> flow_view" where
  "dnat v4 v6 q new f = \<lparr>fv_src = own_addr (fv_src f) new v4 v6, fv_dst = new, fv_sport = q,
     fv_dport = (if is_echo q then q else fv_dport f)\<rparr>"

definition snat :: "ipv4 \<Rightarrow> ipv6 \<Rightarrow> protocol \<Rightarrow> ip_addr \<Rightarrow> flow_view \<Rightarrow> flow_view" where
  "snat v4 v6 q new f = \<lparr>fv_src = new, fv_dst = own_addr (fv_dst f) new v4 v6,
     fv_sport = (if is_echo q then q else fv_sport f), fv_dport = q\<rparr>"

lemma flow_of_reads:
  assumes "packet_wf p"
  shows "flow_of E p = Some f \<longleftrightarrow> reads E p (fv_src f) (fv_dst f) (fv_sport f) (fv_dport f)"
  using assms by (auto simp: flow_of_def reads_def split: outcome.splits sum.splits)

text \<open>
  C8. Address translation on bytes refines address translation on flows: for a packet with ports or an
  echo message, rewriting the destination (and so possibly the whole header, from IPv4 to IPv6 or
  back) and refreshing the checksums succeeds, gives a well-formed packet again, and the flow of the
  result is the abstract translation of the flow of the packet; likewise for the source.
\<close>

theorem translation_refines:
  assumes E: "wire_laws E" and p: "packet_wf p" and f: "flow_of E p = Some f"
  shows "(same_type (fv_sport f) q \<longrightarrow>
      (\<exists>p' p''. translate_destination E p v4 v6 q new = succeed p' \<and> update_checksum E p' = Done p'' \<and>
        packet_wf p'' \<and> flow_of E p'' = Some (dnat v4 v6 q new f))) \<and>
    (same_type (fv_dport f) q \<longrightarrow>
      (\<exists>p' p''. translate_source E p v4 v6 q new = succeed p' \<and> update_checksum E p' = Done p'' \<and>
        packet_wf p'' \<and> flow_of E p'' = Some (snat v4 v6 q new f)))" (is "(?D \<longrightarrow> ?d) \<and> (?S \<longrightarrow> ?s)")
proof (intro conjI impI)
  have r: "reads E p (fv_src f) (fv_dst f) (fv_sport f) (fv_dport f)" using flow_of_reads [OF p] f by blast
  have fam: "family_source p (fv_src f) new v4 v6 = own_addr (fv_src f) new v4 v6"
      "family_source p (fv_dst f) new v4 v6 = own_addr (fv_dst f) new v4 v6"
    using reads_types(4,5) [OF E r] by (simp_all add: family_source_def own_addr_def)
  have wf: "packet_wf p''" if "reads E p'' a b c d" for p'' a b c d using that by (simp add: reads_def)
  show ?d if ?D
    using translate_destination_reads [OF E r that, of v4 v6 new] wf fam
    by (metis flow_of_reads dnat_def flow_view.select_convs(1-4))
  show ?s if ?S
    using translate_source_reads [OF E r that, of v4 v6 new] wf fam
    by (metis flow_of_reads snat_def flow_view.select_convs(1-4))
qed

theorem translation_refines_witness:
  "\<exists>p' p''. translate_destination sample_ep (udp4 1 2 3 4) 5 6 (Udp 9) (V6 7) = succeed p' \<and> update_checksum sample_ep p' = Done p'' \<and>
     packet_wf p'' \<and> flow_of sample_ep p'' = Some \<lparr>fv_src = V6 6, fv_dst = V6 7, fv_sport = Udp 9, fv_dport = Udp 4\<rparr>"
proof -
  have "flow_of sample_ep (udp4 1 2 3 4) = Some \<lparr>fv_src = V4 1, fv_dst = V4 2, fv_sport = Udp 3, fv_dport = Udp 4\<rparr>"
    using udp_reads(1) by (simp add: flow_of_reads udp4_view)
  from translation_refines [OF sample_wire_laws udp4_view(1) this, of "Udp 9" 5 6 "V6 7"] show ?thesis
    by (simp add: same_type_def dnat_def own_addr_def is_echo_def)
qed

section \<open>Control messages\<close>

text \<open>What the packet builder of etherparse writes: an IPv6 header with the given fields and the payload.\<close>

definition builder_laws :: "etherparse \<Rightarrow> bool" where
  "builder_laws E \<longleftrightarrow> (\<forall>s d hops n b. length b < 2 ^ 16 \<longrightarrow>
     (let w = ep_build_ipv6 E s d hops n b in
      length w = 40 + length b \<and> drop 40 w = b \<and> drop_bit 4 (w ! 0) = 6 \<and> field_at 4 2 w = (of_nat (length b) :: u16) \<and>
      w ! 6 = n \<and> field_at 8 16 w = s \<and> field_at 24 16 w = d)) \<and>
   (\<forall>b. ep_ipv6_header_ok E b \<and> 40 + plen6 b \<le> length b \<and> b ! 6 = fz_p2p_control_number \<longrightarrow> ep_ipv6_slice_ok E b)"

lemma sample_builder_laws: "builder_laws sample_ep"
  by (simp add: builder_laws_def sample_ep_def sample_build6_def sample_ipv6_bytes_def field_at_def nth_append Let_def)

lemma make_fz_p2p_control_reads:
  assumes E: "wire_laws E" and B: "builder_laws E" and h: "length h = 8" and b: "length b \<le> MAX_IP_SIZE - 48"
  shows "\<exists>p. make_fz_p2p_control E h b = succeed p \<and> packet_wf p \<and> as_fz_p2p_control E p = Done (Some (h ! 0, b))"
proof -
  let ?w = "ep_build_ipv6 E fz_p2p_control_addr fz_p2p_control_addr 0 fz_p2p_control_number (h @ b)"
  let ?c = "\<lparr>cp_buf = overwrite NAT46_OVERHEAD ?w (replicate MAX_FZ_PAYLOAD 0), cp_start = NAT46_OVERHEAD, cp_len = length ?w\<rparr>"
  have "length (h @ b) < 2 ^ 16" using h b by (simp add: packet_size_defs)
  with B have w: "length ?w = 48 + length b" "drop 40 ?w = h @ b" "drop_bit 4 (?w ! 0) = 6"
      "field_at 4 2 ?w = (of_nat (8 + length b) :: u16)" "?w ! 6 = fz_p2p_control_number"
      "field_at 8 16 ?w = fz_p2p_control_addr" "field_at 24 16 ?w = fz_p2p_control_addr"
    using h by (auto simp: builder_laws_def Let_def)
  have "plen6 ?w = (8 + length b) mod 2 ^ 16" unfolding plen6_def w(4) unat_of_nat by simp
  then have pl: "plen6 ?w = 8 + length b" using b by (simp add: packet_size_defs)
  have ok: "ep_ipv6_slice_ok E ?w" using B E w pl by (simp add: builder_laws_def wire_laws_def ipv6_laws_def)
  have room: "NAT46_OVERHEAD + length ?w \<le> MAX_FZ_PAYLOAD" "length ?w \<le> MAX_IP_SIZE" using w(1) b by (simp_all add: packet_size_defs)
  have r: "raw ?c = ?w" "in_buffer ?c" using room by (simp_all add: raw_def in_buffer_def overwrite_def)
  have first: "overwrite NAT46_OVERHEAD ?w (replicate MAX_FZ_PAYLOAD 0) ! NAT46_OVERHEAD = ?w ! 0"
    using room w(1) by (simp add: overwrite_def nth_append packet_size_defs)
  have "make_fz_p2p_control E h b = succeed (Ipv6 ?c)"
    using room w ok h b r first
    by (simp add: make_fz_p2p_control_def build_def ip_packet_new_def convertible_ipv6_new_def packet_slice_def expect_def in_buffer_def raw_def)
  moreover have wf: "packet_wf (Ipv6 ?c)" using r w pl by (simp add: packet_wf_def valid6_def)
  moreover have "as_fz_p2p_control E (Ipv6 ?c) = Done (Some (h ! 0, b))"
    using r(1) w(2,5-7) pl h by (simp add: as_fz_p2p_control_def is_fz_p2p_control_def packet_reads [OF E wf] view_of_def view6_def nth_append)
  ultimately show ?thesis by blast
qed

text \<open>
  C25. The control protocol: what one side puts into an event the other side reads. An \<^verbatim>\<open>AssignedIps\<close> event
  with eight addresses, and a \<^verbatim>\<open>DomainStatus\<close> event, whose payload fits, become a well-formed packet that the
  receiver recognises as a control packet, decodes to the same event, and never mistakes for the other
  one; with a different number of addresses no packet is made. Of JSON it is assumed only that it parses what
  it printed for these two values.
\<close>

theorem control_roundtrip:
  assumes E: "wire_laws E" and B: "builder_laws E"
    and J: "js_assigned_ips_to_vec J a = Some x" "js_assigned_ips_from_slice J x = Some a" "length x \<le> MAX_IP_SIZE - 48"
    and K: "js_domain_status_to_vec J i d st = Some y" "js_domain_status_from_slice J y = Some (i, d, st)" "length y \<le> MAX_IP_SIZE - 48"
  shows "(if length (ai_proxy_ips a) = 8
     then \<exists>p m. make_assigned_ips E J a = succeed p \<and> packet_wf p \<and> as_fz_p2p_control E p = Done (Some m) \<and>
       decode_assigned_ips J m = Inr a \<and> decode_domain_status J m = Inl OtherEvent
     else make_assigned_ips E J a = fail ExpectedEightProxyIps) \<and>
   (\<exists>p m. make_domain_status E J i d st = succeed p \<and> packet_wf p \<and> as_fz_p2p_control E p = Done (Some m) \<and>
       decode_domain_status J m = Inr (i, d, st) \<and> decode_assigned_ips J m = Inl OtherEvent)"
proof -
  have h: "length (event_header e) = 8" "event_header e ! 0 = e" for e by (simp_all add: event_header_def)
  note made = make_fz_p2p_control_reads [OF E B h(1), unfolded h(2)]
  obtain p where p: "make_fz_p2p_control E (event_header ASSIGNED_IPS_EVENT) x = succeed p" "packet_wf p"
      "as_fz_p2p_control E p = Done (Some (ASSIGNED_IPS_EVENT, x))" using made J(3) by blast
  obtain p' where p': "make_fz_p2p_control E (event_header DOMAIN_STATUS_EVENT) y = succeed p'" "packet_wf p'"
      "as_fz_p2p_control E p' = Done (Some (DOMAIN_STATUS_EVENT, y))" using made K(3) by blast
  have "make_assigned_ips E J a = succeed p" if "length (ai_proxy_ips a) = 8"
    using that J p by (simp add: make_assigned_ips_def lift_error_def)
  moreover have "make_domain_status E J i d st = succeed p'" using K p' by (simp add: make_domain_status_def lift_error_def)
  ultimately show ?thesis using p p' J K
    by (auto simp: make_assigned_ips_def decode_assigned_ips_def decode_domain_status_def ASSIGNED_IPS_EVENT_def DOMAIN_STATUS_EVENT_def)
qed

definition sample_assigned :: assigned_ips where
  "sample_assigned = \<lparr>ai_resource = 7, ai_domain = ''example.com'', ai_proxy_ips = map V4 [1, 2, 3, 4] @ map V6 [1, 2, 3, 4]\<rparr>"

definition sample_json :: json where
  "sample_json = \<lparr>js_assigned_ips_to_vec = (\<lambda>a. if a = sample_assigned then Some [65] else None),
     js_assigned_ips_from_slice = (\<lambda>b. if b = [65] then Some sample_assigned else None),
     js_domain_status_to_vec = (\<lambda>i d st. if i = 7 \<and> d = ''example.com'' then Some (if st = Active then [66] else [67]) else None),
     js_domain_status_from_slice = (\<lambda>b. if b = [66] then Some (7, ''example.com'', Active)
        else if b = [67] then Some (7, ''example.com'', Inactive) else None)\<rparr>"

theorem control_roundtrip_witness:
  "(\<exists>p m. make_assigned_ips sample_ep sample_json sample_assigned = succeed p \<and> packet_wf p \<and>
      as_fz_p2p_control sample_ep p = Done (Some m) \<and> decode_assigned_ips sample_json m = Inr sample_assigned) \<and>
   (\<exists>p m. make_domain_status sample_ep sample_json 7 ''example.com'' Active = succeed p \<and> packet_wf p \<and>
      as_fz_p2p_control sample_ep p = Done (Some m) \<and> decode_domain_status sample_json m = Inr (7, ''example.com'', Active))"
proof -
  have "length (ai_proxy_ips sample_assigned) = 8" by (simp add: sample_assigned_def)
  then show ?thesis
    using control_roundtrip [OF sample_wire_laws sample_builder_laws, of sample_json sample_assigned "[65]" 7 "''example.com''" Active "[66]"]
    by (simp add: sample_json_def packet_size_defs) blast
qed

end
