(* ===== verification/Gateway_Sample.thy ===== *)
theory Gateway_Sample
  imports Packet_Properties
begin

text \<open>
  A client with access to a network and to a DNS resource, and a gateway environment around it: its node
  neither encrypts nor drops anything, its datagrams name the ports of a UDP packet.
\<close>

section \<open>A client\<close>

definition client_v4 :: ipv4 where "client_v4 = 0x64400001"
definition client_v6 :: ipv6 where "client_v6 = 0xfd002021111100000000000000000001"
definition proxy_v4 :: ipv4 where "proxy_v4 = 0x64600001"
definition proxy_v6 :: ipv6 where "proxy_v6 = 0xfd002021111180000000000000000001"
definition real_v4 :: ipv4 where "real_v4 = 0x01010101"

definition sample_cidr :: resource_description where
  "sample_cidr = DescCidr 1 (Net4 0x0A000000 8) [FilterTcp \<lparr>port_range_end = 443, port_range_start = 80\<rparr>]"

definition sample_dns :: resource_description where
  "sample_dns = DescDns 2 ''example.com'' [FilterUdp \<lparr>port_range_end = 53, port_range_start = 53\<rparr>, FilterIcmp]"

definition sample_kind :: "resource_id \<Rightarrow> resource_kind" where
  "sample_kind i = (if i = 2 then KindDns else KindCidr)"

type_synonym sample_peer_state = "(bimap_entry list, sample_filters) client_on_gateway"

definition sample_build :: "(sample_peer_state, unit) step" where
  "sample_build =
     and_then (add_resource sample_gw sample_cidr (Some 100) (client_new sample_gw 9 client_v4 client_v6)) (\<lambda>c.
     and_then (add_resource sample_gw sample_dns None c) (\<lambda>c.
     setup_nat sample_gw ''example.com'' 2 [V4 real_v4] [V4 proxy_v4, V6 proxy_v6] c))"

definition sample_peer :: sample_peer_state where
  "sample_peer = (case sample_build of Done (c, _) \<Rightarrow> c | _ \<Rightarrow> client_new sample_gw 9 client_v4 client_v6)"

lemma sample_descriptions:
  "description_valid sample_kind sample_cidr" "description_valid sample_kind sample_dns"
  by (simp_all add: description_valid_def sample_cidr_def sample_dns_def sample_kind_def)

lemma sample_maps: "ip_maps [V4 proxy_v4, V6 proxy_v6] [V4 real_v4] = [(V4 proxy_v4, V4 real_v4), (V6 proxy_v6, V4 real_v4)]"
  by (simp add: ip_maps_def zip_cycle_def mapped_ipv4_def mapped_ipv6_def ipv4_addresses_def ipv6_addresses_def)

lemma sample_subdomain: "is_subdomain sample_glob ''example.com'' ''example.com''"
  by (simp add: is_subdomain_def pattern_new_def sample_glob_def pattern_matches_def candidate_from_domain_def pat_inner_def)

lemma sample_peer_ok:
  "sample_build = Done (sample_peer, Inr ())" "client_inv sample_gw sample_kind sample_peer"
  "cl_id sample_peer = 9" "cl_ipv4 sample_peer = client_v4" "cl_ipv6 sample_peer = client_v6"
  "cl_nat_table sample_peer = nat_default sample_bimap"
  "hm_get (cl_permanent_translations sample_peer) ip =
     (if ip = V4 proxy_v4 \<or> ip = V6 proxy_v6 then Some \<lparr>ts_resource_id = 2, ts_resolved_ip = V4 real_v4\<rparr> else None)"
  "map_option resource_filters (hm_get (cl_resources sample_peer) j) =
     (if j = 1 then Some [FilterTcp \<lparr>port_range_end = 443, port_range_start = 80\<rparr>]
      else if j = 2 then Some [FilterUdp \<lparr>port_range_end = 53, port_range_start = 53\<rparr>, FilterIcmp] else None)"
proof -
  let ?c0 = "client_new sample_gw 9 client_v4 client_v6"
  note G = sample_gw_laws
  note i0 = client_new_inv [OF G, of sample_kind 9 client_v4 client_v6]
  obtain c1 where c1: "add_resource sample_gw sample_cidr (Some 100) ?c0 = Done c1" "client_inv sample_gw sample_kind c1"
      "cl_id c1 = cl_id ?c0" "cl_ipv4 c1 = cl_ipv4 ?c0" "cl_ipv6 c1 = cl_ipv6 ?c0" "cl_nat_table c1 = cl_nat_table ?c0"
      "cl_permanent_translations c1 = cl_permanent_translations ?c0"
      "\<And>i. hm_get (cl_resources c1) i = (if i = 1 then Some (resource_new sample_cidr (Some 100)) else None)"
    using add_resource_ok [OF G i0, of sample_cidr "Some 100"] sample_descriptions(1)
    by (auto simp: description_valid_def client_new_def sample_cidr_def)
  obtain c2 where c2: "add_resource sample_gw sample_dns None c1 = Done c2" "client_inv sample_gw sample_kind c2"
      "cl_id c2 = cl_id c1" "cl_ipv4 c2 = cl_ipv4 c1" "cl_ipv6 c2 = cl_ipv6 c1" "cl_nat_table c2 = cl_nat_table c1"
      "cl_permanent_translations c2 = cl_permanent_translations c1"
      "\<And>i. hm_get (cl_resources c2) i = (if i = 2 then Some (resource_new sample_dns None) else hm_get (cl_resources c1) i)"
    using add_resource_ok [OF G c1(2), of sample_dns None] sample_descriptions(2)
    by (auto simp: description_valid_def sample_dns_def c1(8))
  have "nat_allowed sample_gw c2 ''example.com'' 2"
    using c2(8) sample_subdomain by (simp add: nat_allowed_def sample_dns_def sample_gw_def)
  from setup_nat_ok [OF G c2(2) this, of "[V4 proxy_v4, V6 proxy_v6]" "[V4 real_v4]"] obtain c3 where
    c3: "setup_nat sample_gw ''example.com'' 2 [V4 real_v4] [V4 proxy_v4, V6 proxy_v6] c2 = Done (c3, Inr ())"
      "client_inv sample_gw sample_kind c3"
      "cl_id c3 = cl_id c2" "cl_ipv4 c3 = cl_ipv4 c2" "cl_ipv6 c3 = cl_ipv6 c2" "cl_nat_table c3 = cl_nat_table c2"
      "\<forall>ip. hm_get (cl_permanent_translations c3) ip = (case map_of (ip_maps [V4 proxy_v4, V6 proxy_v6] [V4 real_v4]) ip of
        Some real \<Rightarrow> Some \<lparr>ts_resource_id = 2, ts_resolved_ip = real\<rparr> | None \<Rightarrow> hm_get (cl_permanent_translations c2) ip)"
      "\<forall>j. map_option resource_filters (hm_get (cl_resources c3) j) = map_option resource_filters (hm_get (cl_resources c2) j)"
    by auto
  show b: "sample_build = Done (sample_peer, Inr ())" using c1(1) c2(1) c3(1) by (simp add: sample_peer_def sample_build_def)
  have e: "sample_peer = c3" using c1(1) c2(1) c3(1) by (simp add: sample_peer_def sample_build_def)
  show "client_inv sample_gw sample_kind sample_peer" using c3(2) e by simp
  show "cl_id sample_peer = 9" "cl_ipv4 sample_peer = client_v4" "cl_ipv6 sample_peer = client_v6"
    "cl_nat_table sample_peer = nat_default sample_bimap"
    using e c1 c2 c3 by (simp_all add: client_new_def sample_gw_def)
  show "hm_get (cl_permanent_translations sample_peer) ip =
     (if ip = V4 proxy_v4 \<or> ip = V6 proxy_v6 then Some \<lparr>ts_resource_id = 2, ts_resolved_ip = V4 real_v4\<rparr> else None)"
    using e c1(7) c2(7) c3(7) by (auto simp: sample_maps client_new_def)
  show "map_option resource_filters (hm_get (cl_resources sample_peer) j) =
     (if j = 1 then Some [FilterTcp \<lparr>port_range_end = 443, port_range_start = 80\<rparr>]
      else if j = 2 then Some [FilterUdp \<lparr>port_range_end = 53, port_range_start = 53\<rparr>, FilterIcmp] else None)"
    using e c1(8) c2(8) c3(8) by (simp add: sample_cidr_def sample_dns_def)
qed

lemma sample_dns_filters:
  "dns_filters sample_peer (V4 proxy_v4) = Some [FilterUdp \<lparr>port_range_end = 53, port_range_start = 53\<rparr>, FilterIcmp]"
  "dns_filters sample_peer (V6 proxy_v6) = Some [FilterUdp \<lparr>port_range_end = 53, port_range_start = 53\<rparr>, FilterIcmp]"
  by (simp_all add: dns_filters_def sample_peer_ok)

lemma sample_access:
  "may_access sample_gw sample_peer (V4 proxy_v4) (Inr (Udp 53))"
  "may_access sample_gw sample_peer (V6 proxy_v6) (Inr (Udp 53))"
  by (simp_all add: may_access_def sample_dns_filters permits_def in_range_def)

end
