(* ===== verification/Client_Properties.thy ===== *)
theory Client_Properties
  imports Gateway_Sample
begin

text \<open>
  Properties of a client on the gateway: its NAT table, its filters, which packets it may send and
  receive, and that the reply to a translated packet finds its way back.
\<close>

section \<open>The NAT table\<close>

text \<open>The ports that are tried: all of them, but port zero only when the packet itself has it.\<close>

lemma candidate_ports_set: "set (candidate_ports v) = {p. p \<noteq> 0 \<or> v = 0}"
proof -
  have "p \<in> set (candidate_ports v)" if "p \<noteq> 0 \<or> v = 0" for p
  proof (cases "v \<le> p")
    case True
    then have "unat p \<in> {unat v..<2 ^ 16}" using unsigned_less [of p] by (simp add: word_le_nat_alt)
    moreover have "p = of_nat (unat p)" by simp
    ultimately show ?thesis unfolding candidate_ports_def set_append set_map set_upt by blast
  next
    case False
    with that have "p \<noteq> 0" by auto
    then have "unat p \<in> {1..<unat v}" using False by (simp add: word_le_nat_alt unat_gt_0 Suc_le_eq)
    moreover have "p = of_nat (unat p)" by simp
    ultimately show ?thesis unfolding candidate_ports_def set_append set_map set_upt by blast
  qed
  moreover have "p \<noteq> 0 \<or> v = 0" if p: "p \<in> set (candidate_ports v)" for p
  proof -
    have v: "unat v < 2 ^ 16" using unsigned_less [of v] by simp
    obtain k where "p = of_nat k" "k \<in> {unat v..<2 ^ 16} \<union> {1..<unat v}"
      using p unfolding candidate_ports_def set_append set_map set_upt by blast
    moreover have "k < 2 ^ 16 \<and> (k \<noteq> 0 \<or> v = 0)" if "k \<in> {unat v..<2 ^ 16} \<union> {1..<unat v}" for k
      using that v by (cases "k = 0") (auto simp: unat_eq_0)
    ultimately have "\<exists>k. p = of_nat k \<and> k < 2 ^ 16 \<and> (k \<noteq> 0 \<or> v = 0)" by blast
    then obtain k where k: "p = of_nat k" "k < 2 ^ 16" "k \<noteq> 0 \<or> v = 0" by blast
    have "unat p = k mod 2 ^ 16" unfolding k(1) unat_of_nat by simp
    with k show ?thesis by auto
  qed
  ultimately show ?thesis by blast
qed

definition nat_room :: "'bm bimap \<Rightarrow> 'bm nat_table \<Rightarrow> flow \<Rightarrow> ip_addr \<Rightarrow> bool" where
  "nat_room B t inside real \<longleftrightarrow>
     (\<exists>outside. bm_get_by_left B (nat_bimap t) inside = Some outside \<and> snd outside = real) \<or>
     (\<exists>v. (v \<noteq> 0 \<or> proto_value (fst inside) = 0) \<and> bm_get_by_right B (nat_bimap t) (with_value (fst inside) v, real) = None)"

lemma new_session_room:
  assumes B: "bimap_laws B"
  shows "(\<exists>v. (v \<noteq> 0 \<or> proto_value (fst inside) = 0) \<and> bm_get_by_right B (nat_bimap t) (with_value (fst inside) v, real) = None) \<longleftrightarrow>
    (\<exists>t' outside. new_session B t inside real now = (t', Inr outside))"
    and "\<not> (\<exists>t' outside. new_session B t inside real now = (t', Inr outside)) \<Longrightarrow> new_session B t inside real now = (t, Inl ExhaustedNat)"
proof -
  obtain t' r where n: "new_session B t inside real now = (t', r)" by fastforce
  let ?free = "\<lambda>v. (v \<noteq> 0 \<or> proto_value (fst inside) = 0) \<and> bm_get_by_right B (nat_bimap t) (with_value (fst inside) v, real) = None"
  have ports: "v \<in> set (candidate_ports (proto_value (fst inside))) \<longleftrightarrow> v \<noteq> 0 \<or> proto_value (fst inside) = 0" for v
    by (simp add: candidate_ports_set)
  have c: "r = Inl ExhaustedNat \<and> t' = t \<and> (\<forall>v. \<not> ?free v) \<or> (\<exists>v outside. ?free v \<and> r = Inr outside)"
    using new_session_cases [OF n]
  proof (elim disjE exE conjE)
    fix v outside
    assume a: "v \<in> set (candidate_ports (proto_value (fst inside)))" "outside = (with_value (fst inside) v, real)" "r = Inr outside"
      "\<not> bm_contains_right B (nat_bimap t) outside"
    then have "bm_get_by_right B (nat_bimap t) outside = None" using bimap_facts(3) [OF B] by blast
    with a ports show ?thesis by blast
  next
    assume "r = Inl ExhaustedNat" "t' = t"
      "\<forall>v \<in> set (candidate_ports (proto_value (fst inside))). bm_contains_right B (nat_bimap t) (with_value (fst inside) v, real)"
    then show ?thesis using ports bimap_facts(3) [OF B] by auto
  qed
  then show "(\<exists>v. ?free v) \<longleftrightarrow> (\<exists>t' outside. new_session B t inside real now = (t', Inr outside))"
    unfolding n by (elim disjE) (simp only: prod.inject sum.distinct simp_thms, blast)
  show "\<not> (\<exists>t' outside. new_session B t inside real now = (t', Inr outside)) \<Longrightarrow> new_session B t inside real now = (t, Inl ExhaustedNat)"
    using c n by auto
qed

lemma translate_outgoing_room:
  assumes B: "bimap_laws B" and r: "source_protocol E p = succeed sp" "destination E p = Done dst"
  shows "if nat_room B t (sp, dst) real then \<exists>t' outside. translate_outgoing E B t p real now = Done (t', Inr outside)
    else translate_outgoing E B t p real now = Done (t, Inl ExhaustedNat)"
  using new_session_room(1) [where inside = "(sp, dst)" and t = t and real = real and now = now, OF B]
    new_session_room(2) [where inside = "(sp, dst)" and t = t and real = real and now = now, OF B] r
  by (auto simp: translate_outgoing_def nat_room_def Let_def split: option.splits)

text \<open>
  C24. When the NAT is exhausted: for a packet with a port or an identifier, \<^verbatim>\<open>translate_outgoing\<close> fails exactly when the
  flow has no session to the destination yet and every port of the protocol is in use for that
  destination (all 65535 of them, and port zero too if the packet comes from port zero). In that case the
  table stays as it was; otherwise the packet gets a session.
\<close>

theorem nat_exhausted_iff:
  assumes "bimap_laws B" "source_protocol E p = succeed sp" "destination E p = Done dst"
  shows "if (\<exists>outside. bm_get_by_left B (nat_bimap t) (sp, dst) = Some outside \<and> snd outside = real) \<or>
       (\<exists>v. (v \<noteq> 0 \<or> proto_value sp = 0) \<and> bm_get_by_right B (nat_bimap t) (with_value sp v, real) = None)
     then \<exists>t' outside. translate_outgoing E B t p real now = Done (t', Inr outside)
     else translate_outgoing E B t p real now = Done (t, Inl ExhaustedNat)"
  using translate_outgoing_room [OF assms, of t real now] by (simp add: nat_room_def)

lemma sample_room: "nat_room sample_bimap (nat_default sample_bimap) inside real"
  unfolding nat_room_def nat_default_def sample_bimap_def by (rule disjI2, rule exI [of _ 1]) simp

theorem nat_exhausted_iff_witness:
  "\<exists>t' outside. translate_outgoing sample_ep sample_bimap (nat_default sample_bimap) (udp4 1 2 3 4) (V4 5) 0 = Done (t', Inr outside)"
proof -
  have "source_protocol sample_ep (udp4 1 2 3 4) = succeed (Udp 3)" "destination sample_ep (udp4 1 2 3 4) = Done (V4 2)"
    using udp_reads(1) [of 1 2 3 4] by (simp_all add: reads_def)
  from nat_exhausted_iff [OF sample_bimap_laws this, of "nat_default sample_bimap" "V4 5" 0] show ?thesis
    using sample_room [of "(Udp 3, V4 2)" "V4 5", unfolded nat_room_def] by (simp only: fst_conv if_True)
qed

text \<open>
  C23. Sessions are kept apart: translating an outgoing packet maps its flow to an outside flow at the
  real address with the same protocol, in both directions of the table; no other flow is mapped to it, and
  all other sessions stay as they are.
\<close>

theorem nat_isolation:
  assumes B: "bimap_laws B" and inv: "nat_inv B t"
    and run: "translate_outgoing E B t p real now = Done (t', Inr outside)"
  shows "\<exists>sp dst. source_protocol E p = succeed sp \<and> destination E p = Done dst \<and> snd outside = real \<and> same_type sp (fst outside) \<and>
     bm_get_by_right B (nat_bimap t') outside = Some (sp, dst) \<and>
     (\<forall>x. bm_get_by_left B (nat_bimap t') x = Some outside \<longleftrightarrow> x = (sp, dst)) \<and>
     (\<forall>x. x \<noteq> (sp, dst) \<longrightarrow> bm_get_by_left B (nat_bimap t') x = bm_get_by_left B (nat_bimap t) x) \<and>
     hm_get (nat_last_seen t') outside = Some now \<and> nat_inv B t'"
proof -
  obtain sp dst where r: "source_protocol E p = succeed sp" "destination E p = Done dst" using translate_outgoing_reads [OF run] by blast
  note s = translate_outgoing_session [OF B inv run r]
  have get: "bm_get_by_left B (nat_bimap t') (sp, dst) = Some outside" using s(1) by (simp add: session_of_def)
  have inj: "x = (sp, dst)" if "bm_get_by_left B (nat_bimap t') x = Some outside" for x
    using that get bimap_facts(2) [OF B] by (metis option.inject)
  have left: "bm_get_by_left B (nat_bimap t') x = Some outside \<longleftrightarrow> x = (sp, dst)" for x using get inj by blast
  have right: "bm_get_by_right B (nat_bimap t') outside = Some (sp, dst)" using get bimap_facts(2) [OF B] by blast
  show ?thesis using s r left right session_of_inv [OF inv s(1)]
    by (intro exI [of _ sp] exI [of _ dst]) (simp add: session_of_def)
qed

lemma sample_session:
  "\<exists>t1 outside. translate_outgoing sample_ep sample_bimap (nat_default sample_bimap) (udp4 1 2 3 4) (V4 5) 0 = Done (t1, Inr outside) \<and>
     session_of sample_bimap (nat_default sample_bimap) (Udp 3, V4 2) outside 0 t1 \<and> snd outside = V4 5"
proof -
  have r: "source_protocol sample_ep (udp4 1 2 3 4) = succeed (Udp 3)" "destination sample_ep (udp4 1 2 3 4) = Done (V4 2)"
    using udp_reads(1) [of 1 2 3 4] by (simp_all add: reads_def)
  from translate_outgoing_room [OF sample_bimap_laws r, of "nat_default sample_bimap" "V4 5" 0] sample_room obtain t1 outside where
    o: "translate_outgoing sample_ep sample_bimap (nat_default sample_bimap) (udp4 1 2 3 4) (V4 5) 0 = Done (t1, Inr outside)" by auto
  from o translate_outgoing_session [OF sample_bimap_laws nat_default_inv [OF sample_bimap_laws] o r] show ?thesis by blast
qed

theorem nat_isolation_witness:
  "\<exists>t' outside. translate_outgoing sample_ep sample_bimap (nat_default sample_bimap) (udp4 1 2 3 4) (V4 5) 0 = Done (t', Inr outside) \<and>
     snd outside = V4 5 \<and> bm_get_by_right sample_bimap (nat_bimap t') outside = Some (Udp 3, V4 2)"
proof -
  obtain t' outside where
    o: "translate_outgoing sample_ep sample_bimap (nat_default sample_bimap) (udp4 1 2 3 4) (V4 5) 0 = Done (t', Inr outside)"
    using sample_session by blast
  from nat_isolation [OF sample_bimap_laws nat_default_inv [OF sample_bimap_laws] o] udp_reads(1) [of 1 2 3 4] o show ?thesis
    by (auto simp: reads_def)
qed

text \<open>
  C27. What a timeout does to the NAT: it keeps exactly the sessions for which the time noted under the outside flow
  (where only outgoing packets note it) is less than sixty seconds ago. All others disappear, and precisely the flows
  that ever lost a session this way are remembered as expired, so that their late replies are dropped and not sent on
  untranslated.
\<close>

theorem nat_timeout_exact:
  assumes B: "bimap_laws B" and inv: "nat_inv B t"
  shows "nat_inv B (nat_handle_timeout B now t) \<and>
     (\<forall>outside inside. bm_get_by_right B (nat_bimap (nat_handle_timeout B now t)) outside = Some inside \<longleftrightarrow>
        bm_get_by_right B (nat_bimap t) outside = Some inside \<and>
        (\<exists>e. hm_get (nat_last_seen t) outside = Some e \<and> now < e + from_secs 60)) \<and>
     (\<forall>outside. outside \<in> nat_expired (nat_handle_timeout B now t) \<longleftrightarrow> outside \<in> nat_expired t \<or>
        bm_get_by_right B (nat_bimap t) outside \<noteq> None \<and>
        bm_get_by_right B (nat_bimap (nat_handle_timeout B now t)) outside = None)"
proof -
  have wf: "hm_wf (nat_last_seen t)" using inv by (simp add: nat_inv_def)
  have seen: "hm_get (nat_last_seen t) outside \<noteq> None" if "bm_get_by_right B (nat_bimap t) outside = Some inside" for outside inside
    using inv that bimap_facts(2) [OF B] unfolding nat_inv_def by blast
  have ttl: "TTL \<le> now - e \<longleftrightarrow> \<not> now < e + from_secs 60" for e
    by (auto simp: TTL_def from_secs_def)
  note right = nat_handle_timeout_right [OF B inv, of now]
  have "bm_get_by_right B (nat_bimap (nat_handle_timeout B now t)) outside = Some inside \<longleftrightarrow>
        bm_get_by_right B (nat_bimap t) outside = Some inside \<and>
        (\<exists>e. hm_get (nat_last_seen t) outside = Some e \<and> now < e + from_secs 60)" for outside inside
    using right [of outside] seen [of outside inside] by (cases "hm_get (nat_last_seen t) outside") (auto simp: ttl)
  moreover have "outside \<in> nat_expired (nat_handle_timeout B now t) \<longleftrightarrow> outside \<in> nat_expired t \<or>
        bm_get_by_right B (nat_bimap t) outside \<noteq> None \<and>
        bm_get_by_right B (nat_bimap (nat_handle_timeout B now t)) outside = None" for outside
    using expire_fold [OF B, of now "nat_last_seen t" t outside]
    by (auto simp: nat_handle_timeout_def)
  ultimately show ?thesis using nat_handle_timeout_inv [OF B inv] by blast
qed

theorem nat_timeout_exact_witness:
  "\<exists>t outside. translate_outgoing sample_ep sample_bimap (nat_default sample_bimap) (udp4 1 2 3 4) (V4 5) 0 = Done (t, Inr outside) \<and>
     (let kept = nat_handle_timeout sample_bimap (from_secs 59) t; gone = nat_handle_timeout sample_bimap (from_secs 60) t in
      bm_get_by_right sample_bimap (nat_bimap kept) outside = Some (Udp 3, V4 2) \<and> outside \<notin> nat_expired kept \<and>
      bm_get_by_right sample_bimap (nat_bimap gone) outside = None \<and> outside \<in> nat_expired gone)"
proof -
  obtain t outside where
    o: "translate_outgoing sample_ep sample_bimap (nat_default sample_bimap) (udp4 1 2 3 4) (V4 5) 0 = Done (t, Inr outside)" and
    s: "session_of sample_bimap (nat_default sample_bimap) (Udp 3, V4 2) outside 0 t"
    using sample_session by blast
  have inv: "nat_inv sample_bimap t" using session_of_inv [OF nat_default_inv [OF sample_bimap_laws] s] .
  have seen: "hm_get (nat_last_seen t) outside = Some 0" "outside \<notin> nat_expired t"
    using s by (simp_all add: session_of_def nat_default_def)
  have "bm_get_by_left sample_bimap (nat_bimap t) (Udp 3, V4 2) = Some outside" using s by (simp add: session_of_def)
  then have right: "bm_get_by_right sample_bimap (nat_bimap t) outside = Some (Udp 3, V4 2)"
    using bimap_facts(2) [OF sample_bimap_laws] by blast
  note timeout = nat_timeout_exact [OF sample_bimap_laws inv, THEN conjunct2]
  note stays = timeout [THEN conjunct1, rule_format, of _ outside] and expired = timeout [THEN conjunct2, rule_format, of outside]
  have kept: "bm_get_by_right sample_bimap (nat_bimap (nat_handle_timeout sample_bimap (from_secs 59) t)) outside = Some (Udp 3, V4 2)"
    unfolding stays using seen(1) right by (simp add: from_secs_def)
  have gone: "bm_get_by_right sample_bimap (nat_bimap (nat_handle_timeout sample_bimap (from_secs 60) t)) outside = None"
  proof (rule ccontr)
    assume "\<not> ?thesis"
    then obtain inside where "bm_get_by_right sample_bimap (nat_bimap (nat_handle_timeout sample_bimap (from_secs 60) t)) outside = Some inside"
      by blast
    then show False unfolding stays using seen(1) by simp
  qed
  have "outside \<notin> nat_expired (nat_handle_timeout sample_bimap (from_secs 59) t)" "outside \<in> nat_expired (nat_handle_timeout sample_bimap (from_secs 60) t)"
    unfolding expired using seen(2) right kept gone by simp_all
  with o kept gone show ?thesis by (intro exI [of _ t] exI [of _ outside]) (simp add: Let_def)
qed

text \<open>A series of packets from the network.\<close>

primrec translate_incomings :: "etherparse \<Rightarrow> 'bm bimap \<Rightarrow> (ip_packet \<times> instant) list \<Rightarrow> 'bm nat_table \<Rightarrow> 'bm nat_table outcome" where
  "translate_incomings E B [] t = Done t"
| "translate_incomings E B (x # xs) t =
     and_then (translate_incoming E B t (fst x) (snd x)) (\<lambda>(t, _). translate_incomings E B xs t)"

lemma translate_incoming_seen:
  assumes "translate_incoming E B t p now = Done (t', r)" "bm_get_by_left B (nat_bimap t) flow = None"
    "\<And>m a b. bm_get_by_left B m a = Some b \<longleftrightarrow> bm_get_by_right B m b = Some a"
  shows "hm_get (nat_last_seen t') flow = hm_get (nat_last_seen t) flow"
proof -
  have "hm_get (nat_last_seen (fst (translate_incoming_inner B t outside now))) flow = hm_get (nat_last_seen t) flow" for outside
  proof (cases "bm_get_by_right B (nat_bimap t) outside")
    case (Some inside)
    then have "inside \<noteq> flow" using assms(2,3) by (metis option.discI)
    with Some show ?thesis by (simp add: translate_incoming_inner_def)
  qed (simp add: translate_incoming_inner_def)
  then show ?thesis using assms(1) unfolding translate_incoming_def
    by (auto simp: Let_def split: sum.splits option.splits prod.splits elim!: and_then_sumE and_then_DoneE) (metis fst_conv)+
qed

lemma translate_incomings_seen:
  assumes B: "bimap_laws B" and inv: "nat_inv B t" and f: "bm_get_by_left B (nat_bimap t) flow = None"
    and run: "translate_incomings E B xs t = Done t'"
  shows "nat_inv B t' \<and> nat_bimap t' = nat_bimap t \<and> hm_get (nat_last_seen t') flow = hm_get (nat_last_seen t) flow"
  using inv f run
proof (induction xs arbitrary: t)
  case (Cons x xs)
  obtain t1 r where t1: "translate_incoming E B t (fst x) (snd x) = Done (t1, r)" "translate_incomings E B xs t1 = Done t'"
    using Cons.prems(3) by (auto elim!: and_then_DoneE)
  note i = translate_incoming_inv [OF Cons.prems(1) t1(1)]
  have "bm_get_by_left B (nat_bimap t1) flow = None" using i(2) Cons.prems(2) by simp
  from Cons.IH [OF i(1) this t1(2)] show ?case
    using i(2) translate_incoming_seen [OF t1(1) Cons.prems(2) bimap_facts(2) [OF B]] by simp
qed simp

text \<open>
  C37. Incoming traffic does not keep a session alive: \<^verbatim>\<open>translate_incoming\<close> notes the time under the inside
  flow, but \<^verbatim>\<open>handle_timeout\<close> looks it up under the outside flow. However many packets come in for a session
  that nothing is sent on, it is gone sixty seconds after the last packet sent (provided no client flow happens to
  equal the outside flow).
\<close>

theorem incoming_never_refreshes:
  assumes B: "bimap_laws B" and inv: "nat_inv B t"
    and out: "translate_outgoing E B t p real sent = Done (t1, Inr outside)"
    and other: "bm_get_by_left B (nat_bimap t1) outside = None"
    and inc: "translate_incomings E B xs t1 = Done t2"
    and now: "sent + from_secs 60 \<le> now"
  shows "bm_get_by_right B (nat_bimap t2) outside \<noteq> None \<and>
     bm_get_by_right B (nat_bimap (nat_handle_timeout B now t2)) outside = None"
proof -
  obtain sp dst where r: "source_protocol E p = succeed sp" "destination E p = Done dst" using translate_outgoing_reads [OF out] by blast
  note s = translate_outgoing_session [OF B inv out r]
  note t1 = session_of_inv [OF inv s(1)]
  have seen: "hm_get (nat_last_seen t1) outside = Some sent" using s(1) by (simp add: session_of_def)
  note t2 = translate_incomings_seen [OF B t1 other inc]
  have "bm_get_by_left B (nat_bimap t1) (sp, dst) = Some outside" using s(1) by (simp add: session_of_def)
  then have "bm_get_by_right B (nat_bimap t2) outside = Some (sp, dst)" using t2 bimap_facts(2) [OF B] by simp
  moreover have "TTL \<le> now - sent" using now by (simp add: TTL_def)
  then have "bm_get_by_right B (nat_bimap (nat_handle_timeout B now t2)) outside = None"
    using nat_handle_timeout_right [OF B, of t2 now outside] t2 seen by simp
  ultimately show ?thesis by simp
qed

theorem incoming_never_refreshes_witness:
  "\<exists>t1 outside t2. translate_outgoing sample_ep sample_bimap (nat_default sample_bimap) (udp4 1 2 3 4) (V4 5) 0 = Done (t1, Inr outside) \<and>
     translate_incomings sample_ep sample_bimap [(udp4 5 1 4 3, from_secs 59)] t1 = Done t2 \<and>
     bm_get_by_right sample_bimap (nat_bimap t2) outside \<noteq> None \<and>
     bm_get_by_right sample_bimap (nat_bimap (nat_handle_timeout sample_bimap (from_secs 60) t2)) outside = None"
proof -
  obtain t1 outside where o: "translate_outgoing sample_ep sample_bimap (nat_default sample_bimap) (udp4 1 2 3 4) (V4 5) 0 = Done (t1, Inr outside)"
      "session_of sample_bimap (nat_default sample_bimap) (Udp 3, V4 2) outside 0 t1" "snd outside = V4 5"
    using sample_session by blast
  have "bm_get_by_left sample_bimap (nat_bimap (nat_default sample_bimap)) outside = None"
    using bimap_facts(1) [OF sample_bimap_laws] by (simp add: nat_default_def)
  then have other: "bm_get_by_left sample_bimap (nat_bimap t1) outside = None"
    using o(2,3) by (cases outside) (simp add: session_of_def)
  have "\<exists>t2. translate_incomings sample_ep sample_bimap [(udp4 5 1 4 3, from_secs 59)] t1 = Done t2"
    by (simp add: translate_incoming_reads [OF sample_wire_laws udp_reads(1)] split: prod.splits option.splits)
  then obtain t2 where t2: "translate_incomings sample_ep sample_bimap [(udp4 5 1 4 3, from_secs 59)] t1 = Done t2" by blast
  from incoming_never_refreshes [OF sample_bimap_laws nat_default_inv [OF sample_bimap_laws] o(1) other t2, of "from_secs 60"] o(1) t2
  show ?thesis by auto
qed

section \<open>Filters and access\<close>

text \<open>
  C22. The compiled filters of a resource decide as its rules say: \<^verbatim>\<open>FilterEngine::with_filters\<close> builds an engine from any
  list of rule lists with non-empty port ranges, and the engine lets a packet pass if and only if one of the lists is empty
  (no restriction) or one of the rules names the packet's protocol and its port range contains the packet's port. An
  ICMP rule lets all echo messages pass; a packet without a protocol passes only where nothing is restricted.
\<close>

theorem filter_engine_equiv:
  assumes "range_set_laws R" "\<forall>f \<in> set fs. \<forall>x \<in> set f. filter_ok x"
  shows "\<exists>engine. with_filters R fs = Done engine \<and> (\<forall>protocol. filter_apply R engine protocol = Inr () \<longleftrightarrow>
     (\<exists>f \<in> set fs. f = []) \<or>
     (case protocol of
        Inl _ \<Rightarrow> False
      | Inr (Tcp port) \<Rightarrow> \<exists>f \<in> set fs. \<exists>rng. FilterTcp rng \<in> set f \<and> port_range_start rng \<le> port \<and> port \<le> port_range_end rng
      | Inr (Udp port) \<Rightarrow> \<exists>f \<in> set fs. \<exists>rng. FilterUdp rng \<in> set f \<and> port_range_start rng \<le> port \<and> port \<le> port_range_end rng
      | Inr (Icmp _) \<Rightarrow> \<exists>f \<in> set fs. FilterIcmp \<in> set f))"
proof -
  have m: "(\<exists>x \<in> set f. filter_matches x q) \<longleftrightarrow> (case q of
        Tcp port \<Rightarrow> \<exists>rng. FilterTcp rng \<in> set f \<and> in_range rng port
      | Udp port \<Rightarrow> \<exists>rng. FilterUdp rng \<in> set f \<and> in_range rng port
      | Icmp _ \<Rightarrow> FilterIcmp \<in> set f)" for f q
  proof -
    have "filter_matches x q \<longleftrightarrow> (case q of Tcp port \<Rightarrow> \<exists>rng. x = FilterTcp rng \<and> in_range rng port
        | Udp port \<Rightarrow> \<exists>rng. x = FilterUdp rng \<and> in_range rng port | Icmp _ \<Rightarrow> x = FilterIcmp)" for x
      by (cases x; cases q) auto
    then show ?thesis by (cases q) auto
  qed
  obtain engine where e: "with_filters R fs = Done engine" "\<And>protocol. filter_apply R engine protocol = Inr () \<longleftrightarrow> permits fs protocol"
    using with_filters_permits [OF assms] by blast
  show ?thesis
    by (intro exI [of _ engine]) (simp add: e permits_def m in_range_def split: sum.split protocol.split)
qed

theorem filter_engine_equiv_witness:
  "\<exists>engine. with_filters sample_ranges [[FilterUdp \<lparr>port_range_end = 53, port_range_start = 53\<rparr>]] = Done engine \<and>
     filter_apply sample_ranges engine (Inr (Udp 53)) = Inr () \<and> filter_apply sample_ranges engine (Inr (Tcp 53)) \<noteq> Inr ()"
proof -
  have "\<forall>f \<in> set [[FilterUdp \<lparr>port_range_end = 53, port_range_start = 53\<rparr>]]. \<forall>x \<in> set f. filter_ok x" by simp
  from filter_engine_equiv [OF sample_ranges_laws this] obtain engine where
    e: "with_filters sample_ranges [[FilterUdp \<lparr>port_range_end = 53, port_range_start = 53\<rparr>]] = Done engine"
      "filter_apply sample_ranges engine (Inr (Udp 53)) = Inr ()" "filter_apply sample_ranges engine (Inr (Tcp 53)) \<noteq> Inr ()"
    by (auto split: sum.splits protocol.splits)
  then show ?thesis by blast
qed

text \<open>
  C6. Who may reach what. The gateway keeps a routing table of compiled filters up to date; looking an address up in it
  gives the same answer as going through the client's resources: a client with the Internet resource reaches
  everything but the addresses reserved for DNS resources; an address with a translation obeys the rules of
  its DNS resource alone; any other address must lie in a CIDR resource, and then one of the resources that
  cover the address must admit the protocol and the port.
\<close>

theorem access_equiv:
  assumes "gw_laws G" "client_inv G kind c"
  shows "ensure_allowed_resource G c ip protocol = Inr () \<longleftrightarrow>
     (\<exists>r \<in> set (hm_values (cl_resources c)). is_internet_resource r) \<and> \<not> is_dns_addr (gw_contains G) ip \<or>
     (case dns_filters c ip of
        Some f \<Rightarrow> permits [f] protocol
      | None \<Rightarrow> (\<exists>r \<in> set (hm_values (cl_resources c)). cidr_covers G ip r) \<and>
          (\<exists>r \<in> set (hm_values (cl_resources c)). contributes G c ip r \<and> permits [resource_filters r] protocol))"
  using ensure_allowed_resource_iff [OF assms, of ip protocol] by (simp add: may_access_def Let_def)

theorem access_equiv_witness:
  "ensure_allowed_resource sample_gw sample_peer (V4 proxy_v4) (Inr (Udp 53)) = Inr () \<and>
   ensure_allowed_resource sample_gw sample_peer (V4 proxy_v4) (Inr (Udp 54)) \<noteq> Inr ()"
proof -
  have "is_dns_addr (gw_contains sample_gw) (V4 proxy_v4)"
    by (simp add: is_dns_addr_def sample_gw_def sample_contains_def IPV4_RESOURCES_def proxy_v4_def)
  then show ?thesis
    using access_equiv [OF sample_gw_laws sample_peer_ok(2), of "V4 proxy_v4" "Inr (Udp 53)"]
      access_equiv [OF sample_gw_laws sample_peer_ok(2), of "V4 proxy_v4" "Inr (Udp 54)"]
    by (simp add: sample_dns_filters permits_def in_range_def)
qed

section \<open>Packets\<close>

lemma transform_network_to_tun_room:
  assumes G: "gw_laws G" and p: "reads (gw_ep G) p src dst sp dp" and tr: "hm_get (cl_permanent_translations c) dst = Some s"
    and inv: "client_inv G kind c"
  shows "if nat_room (gw_bimap G) (cl_nat_table c) (sp, dst) (ts_resolved_ip s)
    then \<exists>c' p'. transform_network_to_tun G p now c = Done (c', Inr p')
    else transform_network_to_tun G p now c = Done (c, Inl ExhaustedNat)"
proof -
  let ?E = "gw_ep G" and ?B = "gw_bimap G" and ?t = "cl_nat_table c"
  note E = gw_lawsD(1) [OF G] and B = gw_lawsD(2) [OF G]
  have r: "source_protocol ?E p = succeed sp" "destination ?E p = Done dst" using p by (simp_all add: reads_def)
  show ?thesis
  proof (cases "nat_room ?B ?t (sp, dst) (ts_resolved_ip s)")
    case False
    then show ?thesis using translate_outgoing_room [OF B r, of ?t "ts_resolved_ip s" now] tr r
      by (simp add: transform_network_to_tun_def)
  next
    case True
    then obtain t' outside where o: "translate_outgoing ?E ?B ?t p (ts_resolved_ip s) now = Done (t', Inr outside)"
      using translate_outgoing_room [OF B r, of ?t "ts_resolved_ip s" now] by auto
    have "nat_inv ?B ?t" using inv by (simp add: client_inv_def)
    note ses = translate_outgoing_session [OF B this o r]
    have "same_type sp (fst outside)" using ses(1) by (simp add: session_of_def)
    from translate_destination_reads [OF E p this, of "cl_ipv4 c" "cl_ipv6 c" "snd outside"] o tr r True show ?thesis
      by (cases outside) (auto simp: transform_network_to_tun_def Let_def)
  qed
qed

lemma transform_network_to_tun_portless:
  assumes "destination (gw_ep G) p = Done dst" "source_protocol (gw_ep G) p = fail u" "hm_get (cl_permanent_translations c) dst = Some s"
  shows "transform_network_to_tun G p now c = Done (c, Inl (UnsupportedProtocol u))"
  using assms by (simp add: transform_network_to_tun_def translate_outgoing_def)

text \<open>
  C17. Which packets of a client are forwarded, for every well-formed packet: it passes exactly when its source is
  one of the client's tunnel addresses, the client may reach its destination with its protocol and port, and, where the
  destination is the proxy address of a DNS resource, the packet has ports or is an echo message and the NAT still has a
  port for the flow. A packet that the client may not send is dropped silently. A packet that it may send but that cannot
  be translated is an error: the protocol is not supported when the packet has no ports, and otherwise the NAT is
  exhausted. Nothing panics, and the invariant is kept.
\<close>

theorem outbound_forwards_iff:
  assumes G: "gw_laws G" and inv: "client_inv G kind c" and wf: "packet_wf p"
    and p: "source (gw_ep G) p = Done src" "destination (gw_ep G) p = Done dst"
      "source_protocol (gw_ep G) p = Done sp" "destination_protocol (gw_ep G) p = Done dp"
  shows "\<exists>c' r. translate_outbound G p now c = Done (c', r) \<and> client_inv G kind c' \<and>
     (r = Inr None \<longleftrightarrow> \<not> (src \<in> {V4 (cl_ipv4 c), V6 (cl_ipv6 c)} \<and> may_access G c dst dp)) \<and>
     (\<forall>e. r = Inl e \<longrightarrow> hm_get (cl_permanent_translations c) dst \<noteq> None \<and>
        (case sp of Inl u \<Rightarrow> e = UnsupportedProtocol u | Inr _ \<Rightarrow> e = ExhaustedNat)) \<and>
     ((\<exists>p'. r = Inr (Some p')) \<longleftrightarrow>
        src \<in> {V4 (cl_ipv4 c), V6 (cl_ipv6 c)} \<and> may_access G c dst dp \<and>
        (\<forall>s. hm_get (cl_permanent_translations c) dst = Some s \<longrightarrow>
           (\<exists>q. sp = Inr q \<and> nat_room (gw_bimap G) (cl_nat_table c) (q, dst) (ts_resolved_ip s))))"
proof -
  let ?E = "gw_ep G"
  note E = gw_lawsD(1) [OF G]
  have view: "vw_src (view_of p) = src" "vw_dst (view_of p) = dst"
      "view_protocol ?E (ep_destination_port ?E) (view_of p) = dp"
    using p packet_reads [OF E wf] protocols_view [OF E wf] by simp_all
  have ips: "set (allowed_ips c) = {V4 (cl_ipv4 c), V6 (cl_ipv6 c)}" by (auto simp: allowed_ips_def)
  obtain c' r where o: "translate_outbound G p now c = Done (c', r)" "client_inv G kind c'"
      "r = Inr None \<longleftrightarrow> \<not> (src \<in> set (allowed_ips c) \<and> may_access G c dst dp)"
    using translate_outbound_spec [OF G inv wf, of now] view by auto
  obtain a where a: "ensure_allowed_dst G c p = Done a" "a = Inr () \<longleftrightarrow> src \<in> set (allowed_ips c) \<and> may_access G c dst dp"
    using ensure_allowed_dst_iff [OF G inv wf] view by auto
  show ?thesis
  proof (cases "a = Inr ()")
    case False
    then show ?thesis using o a ips by auto
  next
    case True
    show ?thesis
    proof (cases "hm_get (cl_permanent_translations c) dst")
      case None
      then show ?thesis using o a ips True transform_network_to_tun_spec [OF G inv wf, of now] view
        by (auto simp: translate_outbound_def)
    next
      case (Some s)
      show ?thesis
      proof (cases sp)
        case (Inl u)
        with transform_network_to_tun_portless [OF p(2) _ Some] p(3) show ?thesis using o a ips True Some
          by (auto simp: translate_outbound_def)
      next
        case (Inr q)
        obtain d where r: "reads ?E p src dst q d" using source_protocol_reads [OF E wf, of q] p(3) Inr view(1,2) by metis
        show ?thesis using o a ips True Some Inr transform_network_to_tun_room [OF G r Some inv, of now]
          by (cases "nat_room (gw_bimap G) (cl_nat_table c) (q, dst) (ts_resolved_ip s)") (auto simp: translate_outbound_def)
      qed
    qed
  qed
qed

lemma sample_reads: "reads (gw_ep sample_gw) (udp6 client_v6 proxy_v6 1000 53) (V6 client_v6) (V6 proxy_v6) (Udp 1000) (Udp 53)"
  using udp_reads(2) by (simp add: sample_gw_def)

lemma sample_allowed: "ensure_allowed_resource sample_gw sample_peer (V6 proxy_v6) (Inr (Udp 53)) = Inr ()"
  using ensure_allowed_resource_iff [OF sample_gw_laws sample_peer_ok(2)] sample_access by blast

theorem outbound_forwards_iff_witness:
  "\<exists>c' p'. translate_outbound sample_gw (udp6 client_v6 proxy_v6 1000 53) 7 sample_peer = Done (c', Inr (Some p')) \<and>
     client_inv sample_gw sample_kind c'"
proof -
  have room: "nat_room (gw_bimap sample_gw) (cl_nat_table sample_peer) inside real" for inside real
    using sample_room by (simp add: sample_peer_ok sample_gw_def)
  have access: "may_access sample_gw sample_peer (V6 proxy_v6) (Inr (Udp 53))"
    using ensure_allowed_resource_iff [OF sample_gw_laws sample_peer_ok(2)] sample_allowed by blast
  note r = sample_reads [unfolded reads_def]
  have "\<exists>c' r. translate_outbound sample_gw (udp6 client_v6 proxy_v6 1000 53) 7 sample_peer = Done (c', r) \<and>
     client_inv sample_gw sample_kind c' \<and> (\<exists>p'. r = Inr (Some p'))"
    using outbound_forwards_iff [OF sample_gw_laws sample_peer_ok(2), of "udp6 client_v6 proxy_v6 1000 53" "V6 client_v6" "V6 proxy_v6"
        "Inr (Udp 1000)" "Inr (Udp 53)" 7] r room access
    by (auto simp: sample_peer_ok(4,5))
  then show ?thesis by blast
qed

lemma sample_translation:
  "hm_get (cl_permanent_translations sample_peer) (V6 proxy_v6) = Some \<lparr>ts_resource_id = 2, ts_resolved_ip = V4 real_v4\<rparr>"
  by (simp add: sample_peer_ok)

lemma sample_forwarded:
  "\<exists>c' p'. translate_outbound sample_gw (udp6 client_v6 proxy_v6 1000 53) 7 sample_peer = Done (c', Inr (Some p'))"
proof -
  have "nat_room (gw_bimap sample_gw) (cl_nat_table sample_peer) inside real" for inside real
    using sample_room by (simp add: sample_peer_ok sample_gw_def)
  with transform_network_to_tun_room [OF sample_gw_laws sample_reads sample_translation sample_peer_ok(2), of 7] obtain c' p' where
    "transform_network_to_tun sample_gw (udp6 client_v6 proxy_v6 1000 53) 7 sample_peer = Done (c', Inr p')" by auto
  moreover have "ensure_allowed_dst sample_gw sample_peer (udp6 client_v6 proxy_v6 1000 53) = Done (Inr ())"
    using sample_reads sample_allowed
    by (simp add: ensure_allowed_dst_def reads_def ensure_client_ip_def allowed_ips_def sample_peer_ok(5))
  ultimately show ?thesis by (simp add: translate_outbound_def)
qed

text \<open>
  C7. The way back: when a packet from the client's address to a proxy address was forwarded (possibly as a packet of the other IP
  version), then the reply that the real destination sends to the address and port it saw reaches the client as the
  reply to the packet the client sent, from the proxy address and port the client had addressed, to the address and port it
  had used, in the IP version it had used.
\<close>

theorem reply_roundtrip:
  assumes "gw_laws G" "client_inv G kind c"
    and "reads (gw_ep G) p src proxy sp dp"
    and "hm_get (cl_permanent_translations c) proxy = Some s"
    and "translate_outbound G p now c = Done (c', Inr (Some p'))"
    and "reads (gw_ep G) p' src' real sp' dp'"
    and "reads (gw_ep G) r real src' dp' sp'"
  shows "\<exists>c'' r'. translate_inbound G r later c' = Done (c'', Inr (Some r')) \<and> real = ts_resolved_ip s \<and>
     source (gw_ep G) r' = Done proxy \<and> destination (gw_ep G) r' = Done src \<and>
     source_protocol (gw_ep G) r' = succeed dp \<and> destination_protocol (gw_ep G) r' = succeed sp"
proof -
  note E = gw_lawsD(1) [OF assms(1)]
  have wf: "packet_wf p" and view: "vw_dst (view_of p) = proxy" using reads_view [OF E assms(3)] by auto
  have "vw_dst (view_of p') = ts_resolved_ip s"
    using translate_outbound_forwards(6) [OF assms(1,2) wf assms(5)] assms(4) view by simp
  then have "real = ts_resolved_ip s" using reads_view [OF E assms(6)] by simp
  with reply_delivered [OF assms, of later] show ?thesis by (auto simp: reads_def)
qed

lemma sample_outbound:
  "\<exists>c' p' port. translate_outbound sample_gw (udp6 client_v6 proxy_v6 1000 53) 7 sample_peer = Done (c', Inr (Some p')) \<and>
     reads (gw_ep sample_gw) p' (V4 client_v4) (V4 real_v4) (Udp port) (Udp 53)"
proof -
  let ?p = "udp6 client_v6 proxy_v6 1000 53"
  note E = gw_lawsD(1) [OF sample_gw_laws]
  obtain c' p' where o: "translate_outbound sample_gw ?p 7 sample_peer = Done (c', Inr (Some p'))" using sample_forwarded by blast
  have wf: "packet_wf ?p" and view: "vw_src (view_of ?p) = V6 client_v6" "vw_dst (view_of ?p) = V6 proxy_v6" using reads_view [OF E sample_reads] by auto
  note fw = translate_outbound_forwards(3) [OF sample_gw_laws sample_peer_ok(2) wf o]
  obtain sp dp outside t where sp: "reads (gw_ep sample_gw) ?p (V6 client_v6) (V6 proxy_v6) sp dp"
      "session_of (gw_bimap sample_gw) (cl_nat_table sample_peer) (sp, V6 proxy_v6) outside 7 t"
      "reads (gw_ep sample_gw) p' (family_source ?p (V6 client_v6) (V4 real_v4) client_v4 client_v6) (V4 real_v4)
         (fst outside) (if is_echo (fst outside) then fst outside else dp)"
    using transform_network_to_tun_spec [OF sample_gw_laws sample_peer_ok(2) wf, of 7] fw sample_translation view
    by (auto simp: sample_peer_ok(4,5))
  have "sp = Udp 1000" "dp = Udp 53" using sp(1) sample_reads by (auto simp: reads_def)
  moreover have "same_type sp (fst outside)" using sp(2) by (simp add: session_of_def)
  ultimately obtain port where port: "fst outside = Udp port" "dp = Udp 53" by (cases "fst outside") (auto simp: same_type_def)
  have "reads (gw_ep sample_gw) p' (V4 client_v4) (V4 real_v4) (Udp port) (Udp 53)"
    using sp(3) port by (simp add: is_echo_def family_source_def version4_def udp6_def)
  with o show ?thesis by blast
qed

lemma sample_reply_reads:
  "reads (gw_ep sample_gw) (udp4 real_v4 client_v4 53 port) (V4 real_v4) (V4 client_v4) (Udp 53) (Udp port)"
  using udp_reads(1) by (simp add: sample_gw_def)

theorem reply_roundtrip_witness:
  "\<exists>c' p' port c'' r'. translate_outbound sample_gw (udp6 client_v6 proxy_v6 1000 53) 7 sample_peer = Done (c', Inr (Some p')) \<and>
     translate_inbound sample_gw (udp4 real_v4 client_v4 53 port) 9 c' = Done (c'', Inr (Some r')) \<and>
     source sample_ep r' = Done (V6 proxy_v6) \<and> destination sample_ep r' = Done (V6 client_v6) \<and>
     source_protocol sample_ep r' = succeed (Udp 53) \<and> destination_protocol sample_ep r' = succeed (Udp 1000)"
proof -
  obtain c' p' port where o: "translate_outbound sample_gw (udp6 client_v6 proxy_v6 1000 53) 7 sample_peer = Done (c', Inr (Some p'))"
    "reads (gw_ep sample_gw) p' (V4 client_v4) (V4 real_v4) (Udp port) (Udp 53)" using sample_outbound by blast
  have ep: "gw_ep sample_gw = sample_ep" by (simp add: sample_gw_def)
  from reply_roundtrip [OF sample_gw_laws sample_peer_ok(2) sample_reads sample_translation o sample_reply_reads, of 9] o(1) ep
  show ?thesis by auto
qed

text \<open>
  C26. Setting up the translation of a domain: it succeeds exactly when the client has the DNS resource and the domain
  matches the resource's pattern, and otherwise an error is returned and nothing changes. When the domain resolved to any
  address, every proxy address then leads to one of the resolved addresses, of the same IP version whenever there is one.
  When it resolved to none, the call still succeeds and no translation changes. Either way the domain is recorded with its
  addresses, translations of other addresses stay, and so do the other resources and the rules.
\<close>

theorem setup_nat_maps:
  assumes G: "gw_laws G" and inv: "client_inv G kind c" and d: "distinct proxies"
  shows "case hm_get (cl_resources c) i of
      Some (ResDns address domains fs e) \<Rightarrow>
        if is_subdomain (gw_glob G) name address
        then \<exists>c'. setup_nat G name i resolved proxies c = Done (c', Inr ()) \<and> client_inv G kind c' \<and>
           (\<forall>ip \<in> set proxies. if resolved = [] then hm_get (cl_permanent_translations c') ip = hm_get (cl_permanent_translations c) ip
              else \<exists>real \<in> set resolved.
                hm_get (cl_permanent_translations c') ip = Some \<lparr>ts_resource_id = i, ts_resolved_ip = real\<rparr> \<and>
                (is_ipv4 real = is_ipv4 ip \<or> (\<forall>x \<in> set resolved. is_ipv4 x \<noteq> is_ipv4 ip))) \<and>
           (\<forall>ip. ip \<notin> set proxies \<longrightarrow> hm_get (cl_permanent_translations c') ip = hm_get (cl_permanent_translations c) ip) \<and>
           (\<forall>j. hm_get (cl_resources c') j =
              (if j = i then Some (ResDns address (hm_insert name resolved domains) fs e) else hm_get (cl_resources c) j))
        else \<exists>e. setup_nat G name i resolved proxies c = Done (c, Inl e)
    | _ \<Rightarrow> \<exists>e. setup_nat G name i resolved proxies c = Done (c, Inl e)"
proof -
  let ?m = "ip_maps proxies resolved"
  have target: "if resolved = [] then map_of ?m ip = None
      else \<exists>real. map_of ?m ip = Some real \<and> real \<in> set resolved \<and> (is_ipv4 real = is_ipv4 ip \<or> (\<forall>x \<in> set resolved. is_ipv4 x \<noteq> is_ipv4 ip))"
    if "ip \<in> set proxies" for ip
    using ip_maps_lookup [where ip = ip and proxies = proxies and resolved = resolved] that by (auto split: option.splits)
  have none: "map_of ?m ip = None" if "ip \<notin> set proxies" for ip using ip_maps_lookup [where ip = ip and proxies = proxies and resolved = resolved] that by (auto split: option.splits)
  show ?thesis
  proof (cases "nat_allowed G c name i")
    case False
    with setup_nat_rejects [OF False, of resolved proxies] show ?thesis
      by (auto simp: nat_allowed_def split: option.splits resource_on_gateway.splits)
  next
    case True
    then obtain address domains fs e where r: "hm_get (cl_resources c) i = Some (ResDns address domains fs e)" "is_subdomain (gw_glob G) name address"
      by (auto simp: nat_allowed_def split: option.splits resource_on_gateway.splits)
    from setup_nat_ok [OF G inv True d, of resolved] obtain c' where c':
      "setup_nat G name i resolved proxies c = Done (c', Inr ())" "client_inv G kind c'"
      "\<And>ip. hm_get (cl_permanent_translations c') ip = (case map_of ?m ip of
        Some real \<Rightarrow> Some \<lparr>ts_resource_id = i, ts_resolved_ip = real\<rparr> | None \<Rightarrow> hm_get (cl_permanent_translations c) ip)" by blast
    have res: "cl_resources c' = hm_insert i (ResDns address (hm_insert name resolved domains) fs e) (cl_resources c)"
      using setup_nat_resources [OF c'(1) r(1)] .
    have proxy: "if resolved = [] then hm_get (cl_permanent_translations c') ip = hm_get (cl_permanent_translations c) ip
        else \<exists>real \<in> set resolved. hm_get (cl_permanent_translations c') ip = Some \<lparr>ts_resource_id = i, ts_resolved_ip = real\<rparr> \<and>
        (is_ipv4 real = is_ipv4 ip \<or> (\<forall>x \<in> set resolved. is_ipv4 x \<noteq> is_ipv4 ip))" if "ip \<in> set proxies" for ip
      using target [OF that] c'(3) [of ip] by auto
    have other: "hm_get (cl_permanent_translations c') ip = hm_get (cl_permanent_translations c) ip" if "ip \<notin> set proxies" for ip
      using none [OF that] c'(3) [of ip] by simp
    show ?thesis unfolding r(1) option.case resource_on_gateway.case if_P [OF r(2)]
      by (intro exI [of _ c'] conjI c'(1,2) ballI allI impI proxy other) (simp_all add: res)
  qed
qed

theorem setup_nat_maps_witness:
  "\<exists>c c'. add_resource sample_gw sample_dns None (client_new sample_gw 9 client_v4 client_v6) = Done c \<and>
     setup_nat sample_gw ''example.com'' 2 [V4 8, V6 9] [V4 1, V6 2] c = Done (c', Inr ()) \<and>
     (\<exists>real \<in> {V4 8, V6 9}. hm_get (cl_permanent_translations c') (V6 2) = Some \<lparr>ts_resource_id = 2, ts_resolved_ip = real\<rparr> \<and> \<not> is_ipv4 real)"
proof -
  obtain c where c: "add_resource sample_gw sample_dns None (client_new sample_gw 9 client_v4 client_v6) = Done c"
      "client_inv sample_gw sample_kind c" "hm_get (cl_resources c) 2 = Some (resource_new sample_dns None)"
    using add_resource_ok [OF sample_gw_laws client_new_inv [OF sample_gw_laws, of sample_kind 9 client_v4 client_v6], of sample_dns None]
      sample_descriptions(2) by (auto simp: description_valid_def client_new_def sample_dns_def)
  have ok: "is_subdomain (gw_glob sample_gw) ''example.com'' ''example.com''" and
    r: "hm_get (cl_resources c) 2 = Some (ResDns ''example.com'' [] [FilterUdp \<lparr>port_range_end = 53, port_range_start = 53\<rparr>, FilterIcmp] None)"
    using c(3) sample_subdomain by (simp_all add: sample_gw_def sample_dns_def)
  have d: "distinct [V4 1, V6 2]" by simp
  from setup_nat_maps [where i = 2 and name = "''example.com''" and resolved = "[V4 8, V6 9]", OF sample_gw_laws c(2) d] obtain c' where
    "setup_nat sample_gw ''example.com'' 2 [V4 8, V6 9] [V4 1, V6 2] c = Done (c', Inr ())"
    "\<exists>real \<in> set [V4 8, V6 9]. hm_get (cl_permanent_translations c') (V6 2) = Some \<lparr>ts_resource_id = 2, ts_resolved_ip = real\<rparr> \<and>
       (is_ipv4 real = is_ipv4 (V6 2) \<or> (\<forall>x \<in> set [V4 8, V6 9]. is_ipv4 x \<noteq> is_ipv4 (V6 2)))"
    unfolding r using ok by auto
  with c(1) show ?thesis by (intro exI [of _ c] exI [of _ c']) auto
qed

end
