(* ===== verification/Gateway_Properties.thy ===== *)
theory Gateway_Properties
  imports Client_Properties
begin

text \<open>
  Properties of the gateway as a whole: it never panics, forwards only what the policy admits in both
  directions, terminates, and enforces the revocation and the expiry of access.
\<close>

section \<open>A gateway\<close>

text \<open>
  A node whose connections are not encrypted: the only datagram with content is a DNS query of client 9 to
  the proxy address, and encapsulated packets are kept as they are.
\<close>

definition sample_node :: "(node_event list, client_id \<times> ip_packet, client_id \<times> ip_packet, unit, unit, unit) server_node" where
  "sample_node = \<lparr>sn_new = (\<lambda>_ _. []),
     sn_decapsulate = (\<lambda>_ _ b _ n. (n, if b = [] then Inl () else if hd b = 0 then Inr None
        else Inr (Some (9, udp6 client_v6 proxy_v6 1000 53)))),
     sn_encapsulate = (\<lambda>i p _ n. (n, Inr (Some (i, p)))),
     sn_to_transmit = (\<lambda>x. x),
     sn_add_remote_candidate = (\<lambda>i c _ n. n @ [NewIceCandidate i c]),
     sn_remove_remote_candidate = (\<lambda>i c _ n. n @ [InvalidateIceCandidate i c]),
     sn_accept_connection = (\<lambda>i _ _ n. (n @ [ConnectionEstablished i], Inr ())),
     sn_upsert_connection = (\<lambda>i _ _ n. (n @ [ConnectionEstablished i], Inr ())),
     sn_handle_timeout = (\<lambda>_ n. n), sn_poll_timeout = (\<lambda>n. (None, n)),
     sn_poll_event = (\<lambda>n. case n of [] \<Rightarrow> (None, []) | e # es \<Rightarrow> (Some e, es)),
     sn_poll_transmit = (\<lambda>n. (None, n)), sn_update_relays = (\<lambda>_ _ _ n. n)\<rparr>"

lemma sample_node_laws: "node_laws sample_node length"
  by (auto simp: node_laws_def sample_node_def udp6_view split: if_splits list.splits)

definition sample_gwenv :: "(bimap_entry list, (u16 \<times> u16) list, sample_filters, (ip_network \<times> client_id) list,
    node_event list, client_id \<times> ip_packet, client_id \<times> ip_packet, unit, unit, unit) gateway_env" where
  "sample_gwenv = \<lparr>ge_client = sample_gw, ge_peers = sample_table, ge_json = sample_json, ge_node = sample_node\<rparr>"

lemma sample_gwenv_laws: "gateway_laws sample_gwenv" "node_laws (ge_node sample_gwenv) length"
  by (simp_all add: gateway_laws_def sample_gwenv_def sample_gw_laws sample_node_laws) (simp add: sample_gw_def sample_table_laws)

text \<open>The gateway with the client of \<open>Gateway_Sample\<close>.\<close>

definition sample_gateway :: "(bimap_entry list, sample_filters, (ip_network \<times> client_id) list, node_event list, client_id \<times> ip_packet) gateway_state" where
  "sample_gateway = (gateway_new sample_gwenv [] 0)\<lparr>gs_peers := snd (ps_add_ip sample_table 9 (net_from (V4 client_v4))
     (ps_put 9 sample_peer (ps_default sample_table)))\<rparr>"

lemma sample_gateway_inv: "gateway_inv sample_gwenv sample_kind sample_gateway"
proof -
  have "gateway_inv sample_gwenv sample_kind (gateway_new sample_gwenv [] 0)" using gateway_new_inv [OF sample_gwenv_laws(1)] .
  then have "peers_inv sample_gwenv sample_kind (ps_default sample_table)" by (simp add: gateway_new_def sample_gwenv_def)
  from peers_inv_add_ip [OF sample_gwenv_laws(1) peers_inv_put [OF this]] show ?thesis
    using sample_peer_ok(2,3) by (simp add: sample_gateway_def sample_gwenv_def)
qed

lemma sample_gateway_peer: "ps_get (gs_peers sample_gateway) 9 = Some sample_peer"
  by (simp add: sample_gateway_def ps_get_def ps_add_ip_get) (simp add: ps_put_def)

section \<open>The machine\<close>

text \<open>
  C1. The gateway never panics and never loops: from its start, every sequence of calls of its event loops (packets of
  both sides, connections that are accepted and authorized, access that is granted, updated and removed, resolved
  domains, relays, timeouts, and polling for timeouts, transmits and events) is handled to the end, and afterwards every
  client's filters are those of its resources, its NAT table is consistent and every routed address leads to a client.
  Three conditions on the calls: a packet from the TUN device is not an ICMP error about an unreachable destination, the
  port ranges of a resource are not inverted, and the kind of a resource id never changes.
\<close>

theorem gateway_run_total:
  assumes "gateway_laws W" "node_laws (ge_node W) pending" "list_all (gateway_input_ok W kind) es"
  shows "\<exists>s. fold_outcome (\<lambda>e s. gateway_step W s e) es (gateway_new W seed now) = Done s \<and> gateway_inv W kind s"
  using gateway_steps.run_ok [of W pending kind "gateway_new W seed now" es] assms gateway_new_inv [OF assms(1), of kind seed now]
  by blast

theorem gateway_run_total_witness:
  "\<exists>s. fold_outcome (\<lambda>e s. gateway_step sample_gwenv s e)
      [AcceptConnection 9 () 0, AuthorizeFlow 9 () client_v4 client_v6 (Some 100) sample_cidr 1, NextEvent, NextTransmit, NextTimeout,
       AllowAccess 9 client_v4 client_v6 None sample_dns (Some \<lparr>de_domain = ''example.com'', de_proxy_ips = [V6 proxy_v6], de_resolved_ips = [V4 real_v4]\<rparr>),
       Datagram (SockV4 1 1) (SockV4 2 2) [1] 2, TunPacket (udp4 real_v4 client_v4 53 1000) 3, Timeout 4 50, Timeout (from_secs 2) 200,
       RemoveAccess 9 2] (gateway_new sample_gwenv [] 0) = Done s \<and> gateway_inv sample_gwenv sample_kind s"
proof -
  have "calm (gw_ep (ge_client sample_gwenv)) (udp4 real_v4 client_v4 53 1000)"
    using reads_no_error [OF sample_wire_laws udp_reads(1)] by (simp add: calm_def udp4_view sample_gwenv_def sample_gw_def)
  then show ?thesis
    by (intro gateway_run_total [OF sample_gwenv_laws]) (simp add: gateway_input_ok_def sample_descriptions)
qed

section \<open>What passes\<close>

text \<open>
  C2. From a client to the network: whenever the gateway hands a packet to the TUN device, it came out of an
  established connection of a known client, its source was one of that client's tunnel addresses, and the client's
  resources admit its destination, protocol and port. What is handed on is well-formed, still comes from one of
  the client's tunnel addresses, and goes to the address the packet was sent to, or, for a proxy address, to the
  address the gateway resolved for it.
\<close>

theorem network_to_tun_safe:
  assumes W: "gateway_laws W" and node: "node_laws (ge_node W) pending" and inv: "gateway_inv W kind s"
    and run: "handle_network_input W local from b now s = Done (s', Inr (Some p'))"
  shows "\<exists>n i p c src dst q src' dst'.
     sn_decapsulate (ge_node W) local from b now (gs_node s) = (n, Inr (Some (i, p))) \<and> ps_get (gs_peers s) i = Some c \<and>
     source (gw_ep (ge_client W)) p = Done src \<and> destination (gw_ep (ge_client W)) p = Done dst \<and>
     destination_protocol (gw_ep (ge_client W)) p = Done q \<and>
     src \<in> {V4 (cl_ipv4 c), V6 (cl_ipv6 c)} \<and> may_access (ge_client W) c dst q \<and>
     packet_wf p' \<and> source (gw_ep (ge_client W)) p' = Done src' \<and> destination (gw_ep (ge_client W)) p' = Done dst' \<and>
     src' \<in> {V4 (cl_ipv4 c), V6 (cl_ipv6 c)} \<and>
     dst' = (case hm_get (cl_permanent_translations c) dst of None \<Rightarrow> dst | Some st \<Rightarrow> ts_resolved_ip st)"
proof -
  let ?G = "ge_client W" and ?E = "gw_ep (ge_client W)"
  note G = gateway_lawsD(1) [OF W] and E = gateway_lawsD(3) [OF W]
  obtain n i p c c' where o: "sn_decapsulate (ge_node W) local from b now (gs_node s) = (n, Inr (Some (i, p)))" "packet_wf p"
      "ps_get (gs_peers s) i = Some c" "translate_outbound ?G p now c = Done (c', Inr (Some p'))"
    using handle_network_input_ok [OF W node inv, of local "from" b now] run by auto
  note c = peers_inv_get(1) [OF inv o(3)]
  note fw = translate_outbound_forwards [OF G c o(2,4)]
  have ips: "set (allowed_ips c) = {V4 (cl_ipv4 c), V6 (cl_ipv6 c)}" by (auto simp: allowed_ips_def)
  show ?thesis using o(1,3) fw unfolding ips
    by (simp add: packet_reads [OF E o(2)] packet_reads [OF E fw(4)] protocols_view [OF E o(2)])
qed

theorem network_to_tun_safe_witness:
  "\<exists>s' p'. handle_network_input sample_gwenv (SockV4 1 1) (SockV4 2 2) [1] 7 sample_gateway = Done (s', Inr (Some p')) \<and>
     packet_wf p' \<and> destination sample_ep p' = Done (V4 real_v4)"
proof -
  let ?p = "udp6 client_v6 proxy_v6 1000 53"
  obtain c' p' where o: "translate_outbound sample_gw ?p 7 sample_peer = Done (c', Inr (Some p'))" using sample_forwarded by blast
  have "as_fz_p2p_control sample_ep ?p = Done None"
    by (simp add: as_fz_p2p_control_def is_fz_p2p_control_def packet_reads [OF sample_wire_laws udp6_view(1)] udp6_view
        fz_p2p_control_number_def ip_number_defs)
  then have run: "handle_network_input sample_gwenv (SockV4 1 1) (SockV4 2 2) [1] 7 sample_gateway =
      Done (sample_gateway\<lparr>gs_peers := ps_put 9 c' (gs_peers sample_gateway)\<rparr>, Inr (Some p'))"
    using o sample_gateway_peer by (simp add: handle_network_input_def sample_gwenv_def sample_node_def sample_gw_def)
  have d: "destination sample_ep ?p = Done (V6 proxy_v6)" by (simp add: packet_reads [OF sample_wire_laws udp6_view(1)] udp6_view)
  from network_to_tun_safe [OF sample_gwenv_laws sample_gateway_inv run] run d show ?thesis
    by (auto simp: sample_gwenv_def sample_node_def sample_gw_def sample_gateway_peer sample_peer_ok(7))
qed

text \<open>
  C5. From the network to a client: whenever a packet from the TUN device is encrypted, then for the client that
  the packet's destination is routed to; what is encrypted is addressed to one of that client's tunnel
  addresses and comes from an address, with a protocol and a port, that this client may reach.
\<close>

theorem tun_to_network_safe:
  assumes W: "gateway_laws W" and inv: "gateway_inv W kind s"
    and run: "handle_tun_input W p now s = Done (s', Inr (Some x))"
  shows "\<exists>ip i c p' n src dst q. destination (gw_ep (ge_client W)) p = Done ip \<and> is_client (gw_contains (ge_client W)) ip \<and>
     peer_by_ip (ge_peers W) (gs_peers s) ip = Some (i, c) \<and>
     sn_encapsulate (ge_node W) i p' now (gs_node s) = (n, Inr (Some x)) \<and>
     source (gw_ep (ge_client W)) p' = Done src \<and> destination (gw_ep (ge_client W)) p' = Done dst \<and>
     source_protocol (gw_ep (ge_client W)) p' = Done q \<and>
     dst \<in> {V4 (cl_ipv4 c), V6 (cl_ipv6 c)} \<and> may_access (ge_client W) c src q \<and> gateway_inv W kind s'"
proof -
  let ?G = "ge_client W" and ?E = "gw_ep (ge_client W)"
  note G = gateway_lawsD(1) [OF W]
  obtain ip where ip: "destination ?E p = Done ip" using run by (auto simp: handle_tun_input_def elim!: and_then_DoneE)
  have client: "is_client (gw_contains ?G) ip" using run ip by (auto simp: handle_tun_input_def split: if_splits)
  obtain i c where c: "peer_by_ip (ge_peers W) (gs_peers s) ip = Some (i, c)"
    using run ip client by (auto simp: handle_tun_input_def split: option.splits)
  have get: "ps_get (gs_peers s) i = Some c"
    using routes.lookup_get [of "gw_contains ?G" "ge_peers W" "gs_peers s" ip i c] gateway_lawsD(2) [OF W] inv c
    by (simp add: peers_inv_def)
  note ci = peers_inv_get [OF inv get]
  obtain c' r where t: "translate_inbound ?G p now c = Done (c', r)"
    using run ip client c by (auto simp: handle_tun_input_def elim!: and_then_DoneE)
  obtain p' where p': "r = Inr (Some p')"
    using run ip client c t by (auto simp: handle_tun_input_def Let_def split: sum.splits option.splits)
  note d = translate_inbound_delivers [OF G ci(1) t [unfolded p']]
  have id: "cl_id c' = i"
  proof -
    obtain c1 r1 where "transform_tun_to_network ?G p now c = Done (c1, r1)" "cl_id c' = cl_id c1"
      using t by (auto simp: translate_inbound_def elim!: and_then_DoneE split: sum.splits option.splits)
    with transform_tun_to_network_inv(2) [OF ci(1)] ci(2) show ?thesis by fastforce
  qed
  obtain n where n: "sn_encapsulate (ge_node W) i p' now (gs_node s) = (n, Inr (Some x))"
      "s' = s\<lparr>gs_peers := ps_put i c' (gs_peers s), gs_node := n\<rparr>"
    using run ip client c t p' id by (auto simp: handle_tun_input_def Let_def split: sum.splits prod.splits)
  have "gateway_inv W kind s'" using peers_inv_put [OF inv d(2) id] by (simp add: n(2))
  moreover have "set (allowed_ips c) = {V4 (cl_ipv4 c), V6 (cl_ipv6 c)}" by (auto simp: allowed_ips_def)
  ultimately show ?thesis using ip client c n(1) d(1) by metis
qed

theorem tun_to_network_safe_witness:
  "\<exists>s port s' p'. gateway_inv sample_gwenv sample_kind s \<and>
     handle_tun_input sample_gwenv (udp4 real_v4 client_v4 53 port) 9 s = Done (s', Inr (Some (9, p'))) \<and>
     destination sample_ep p' = Done (V6 client_v6) \<and> gateway_inv sample_gwenv sample_kind s'"
proof -
  obtain c' p1 port where o: "translate_outbound sample_gw (udp6 client_v6 proxy_v6 1000 53) 7 sample_peer = Done (c', Inr (Some p1))"
    "reads (gw_ep sample_gw) p1 (V4 client_v4) (V4 real_v4) (Udp port) (Udp 53)" using sample_outbound by blast
  let ?r = "udp4 real_v4 client_v4 53 port" and ?s = "sample_gateway\<lparr>gs_peers := ps_put 9 c' (gs_peers sample_gateway)\<rparr>"
  obtain c2 p' where r: "translate_inbound sample_gw ?r 9 c' = Done (c2, Inr (Some p'))"
      "reads (gw_ep sample_gw) p' (V6 proxy_v6) (V6 client_v6) (Udp 53) (Udp 1000)"
    using reply_delivered [OF sample_gw_laws sample_peer_ok(2) sample_reads sample_translation o sample_reply_reads, of 9] by blast
  have c': "client_inv sample_gw sample_kind c'" "cl_id c' = 9"
    using translate_outbound_spec [OF sample_gw_laws sample_peer_ok(2) udp6_view(1), of client_v6 proxy_v6 1000 53 7] o(1) sample_peer_ok(3) by auto
  have inv: "gateway_inv sample_gwenv sample_kind ?s"
    using peers_inv_put [OF sample_gateway_inv, of c' 9] c' by (simp add: sample_gwenv_def)
  have c2: "cl_id c2 = 9"
    using translate_inbound_total [OF sample_gw_laws c'(1), of ?r 9] reads_no_error [OF gw_lawsD(1) [OF sample_gw_laws] sample_reply_reads] r(1) c'(2)
    by (auto simp: calm_def udp4_view)
  have "is_client sample_contains (V4 client_v4)" by (simp add: is_client_def sample_contains_def IPV4_PEERS_def client_v4_def)
  moreover have "peer_by_ip sample_table (gs_peers ?s) (V4 client_v4) = Some (9, c')"
    by (simp add: peer_by_ip_def sample_gateway_def sample_table_def ps_put_def ps_add_ip_def ps_default_def sample_contains_def net_from_def)
  moreover have "destination sample_ep ?r = Done (V4 client_v4)" using sample_reply_reads by (simp add: reads_def sample_gw_def)
  ultimately have run: "handle_tun_input sample_gwenv ?r 9 ?s = Done (?s\<lparr>gs_peers := ps_put 9 c2 (gs_peers ?s)\<rparr>, Inr (Some (9, p')))"
    using r(1) c2 by (simp add: handle_tun_input_def sample_gwenv_def sample_node_def) (simp add: sample_gw_def)
  from tun_to_network_safe [OF sample_gwenv_laws(1) inv run]
  have "gateway_inv sample_gwenv sample_kind (?s\<lparr>gs_peers := ps_put 9 c2 (gs_peers ?s)\<rparr>)" by blast
  with inv run r(2) show ?thesis unfolding reads_def sample_gw_def gw_env.select_convs by blast
qed

section \<open>Access\<close>

text \<open>
  C21. Revocation takes effect at once: after \<^verbatim>\<open>remove_access\<close> the client does not have the resource, keeps its
  other resources with filters computed from those alone, and all other clients are untouched. When
  it was the client's last resource, the client is forgotten: no address leads to it, and what comes out of its
  connection is refused.
\<close>

theorem remove_access_revokes:
  assumes W: "gateway_laws W" and inv: "gateway_inv W kind s" and c: "ps_get (gs_peers s) client = Some c"
  shows "\<exists>s'. remove_access W client i s = Done s' \<and> gateway_inv W kind s' \<and>
     (\<forall>j. j \<noteq> client \<longrightarrow> ps_get (gs_peers s') j = ps_get (gs_peers s) j) \<and>
     (if hm_remove i (cl_resources c) = []
      then ps_get (gs_peers s') client = None \<and> (\<forall>ip p. peer_by_ip (ge_peers W) (gs_peers s') ip \<noteq> Some (client, p)) \<and>
        (\<forall>local from b now n p. sn_decapsulate (ge_node W) local from b now (gs_node s') = (n, Inr (Some (client, p))) \<longrightarrow>
           handle_network_input W local from b now s' = Done (s'\<lparr>gs_node := n\<rparr>, Inl UnknownConnection))
      else \<exists>c'. ps_get (gs_peers s') client = Some c' \<and> client_inv (ge_client W) kind c' \<and> \<not> is_allowed c' i \<and>
        cl_resources c' = hm_remove i (cl_resources c))"
proof -
  note ci = peers_inv_get [OF inv c]
  obtain c' where c': "remove_resource (ge_client W) i c = Done c'" "client_inv (ge_client W) kind c'" "cl_id c' = client"
      "cl_resources c' = hm_remove i (cl_resources c)"
    using remove_resource_ok [OF gateway_lawsD(1) [OF W] ci(1), of i] ci(2) by auto
  let ?p = "ps_put client c' (gs_peers s)"
  let ?p' = "snd (ps_remove (ge_peers W) client ?p)"
  have p: "peers_inv W kind ?p" using peers_inv_put [OF inv c'(2,3)] .
  have p': "peers_inv W kind ?p'" using peers_inv_remove [OF W p] .
  have run: "remove_access W client i s = Done (s\<lparr>gs_peers := if is_emptied c' then ?p' else ?p\<rparr>)"
    using c c'(1) by (simp add: remove_access_def Let_def)
  have unknown: "peer_by_ip (ge_peers W) ?p' ip \<noteq> Some (client, q)" for ip q
    using routes.lookup_removed [of "gw_contains (ge_client W)" "ge_peers W" ?p] gateway_lawsD(2) [OF W] p
    by (simp add: peers_inv_def)
  have emp: "is_emptied c' \<longleftrightarrow> hm_remove i (cl_resources c) = []" by (simp add: is_emptied_def c'(4))
  show ?thesis
  proof (cases "is_emptied c'")
    case True
    then show ?thesis using run p' unknown emp
      by (auto simp: routes.get_remove routes.get_put handle_network_input_def)
  next
    case False
    then show ?thesis using run p emp c'(2,4) by (auto simp: routes.get_put is_allowed_def)
  qed
qed

theorem remove_access_revokes_witness:
  "\<exists>s' c'. remove_access sample_gwenv 9 2 sample_gateway = Done s' \<and> ps_get (gs_peers s') 9 = Some c' \<and> \<not> is_allowed c' 2"
proof -
  have "hm_get (hm_remove 2 (cl_resources sample_peer)) 1 \<noteq> None"
    using sample_peer_ok(8) [of 1] by auto
  then have "hm_remove 2 (cl_resources sample_peer) \<noteq> []" by (auto simp: hm_get_def)
  with remove_access_revokes [OF sample_gwenv_laws(1) sample_gateway_inv sample_gateway_peer, of 2] show ?thesis by auto
qed

section \<open>Time\<close>

text \<open>
  C16. Expiry is enforced: a timeout returns, asks to be woken up again later but within a second, and when
  the check was due, then afterwards no client has a resource whose expiry has passed, and no client without
  resources is left. An event loop that sleeps until the next check wakes up at strictly
  increasing instants.
\<close>

theorem expiry_enforced:
  assumes W: "gateway_laws W" and node: "node_laws (ge_node W) pending" and inv: "gateway_inv W kind s"
  shows "\<exists>s' t. gateway_handle_timeout W now utc s = Done s' \<and> gateway_inv W kind s' \<and>
     gs_next_expiry_resources_check s' = Some t \<and> now < t \<and>
     (\<forall>old. gs_next_expiry_resources_check s = Some old \<and> now < old \<longrightarrow> t = old) \<and>
     ((\<forall>old. gs_next_expiry_resources_check s = Some old \<longrightarrow> old \<le> now) \<longrightarrow> t = now + from_secs 1) \<and>
     ((\<exists>old. gs_next_expiry_resources_check s = Some old \<and> old \<le> now) \<longrightarrow>
       (\<forall>i c. ps_get (gs_peers s') i = Some c \<longrightarrow> cl_resources c \<noteq> [] \<and>
         (\<forall>j r. hm_get (cl_resources c) j = Some r \<longrightarrow> (\<forall>e. resource_expires_at r = Some e \<longrightarrow> utc < e)))) \<and>
     (\<forall>n clock. sorted_wrt (<) (wakeups gs_next_expiry_resources_check (\<lambda>s now. gateway_handle_timeout W now (clock now) s) n s))"
proof -
  obtain s' where s': "gateway_handle_timeout W now utc s = Done s'" "gateway_inv W kind s'"
      "\<exists>t. gs_next_expiry_resources_check s' = Some t \<and> now < t"
      "(\<exists>t. gs_next_expiry_resources_check s = Some t \<and> t \<le> now) \<longrightarrow> expired_gone utc (gs_peers s')"
    using gateway_handle_timeout_ok [OF W node inv, of now utc] by blast
  have "gateway_inv W kind (s\<lparr>gs_node := sn_handle_timeout (ge_node W) now (gs_node s)\<rparr>)" using inv by simp
  from drain_node_events_ok [OF W node this] obtain s1 where s1:
      "drain_node_events W (s\<lparr>gs_node := sn_handle_timeout (ge_node W) now (gs_node s)\<rparr>) = Done s1"
      "gs_next_expiry_resources_check s1 = gs_next_expiry_resources_check s" by auto
  have next_check: "gs_next_expiry_resources_check s' = (case gs_next_expiry_resources_check s of
      Some old \<Rightarrow> if old \<le> now then Some (now + from_secs 1) else Some old | None \<Rightarrow> Some (now + from_secs 1))"
    using s'(1) s1
    by (auto simp: gateway_handle_timeout_def EXPIRE_RESOURCES_INTERVAL_def split: option.splits if_splits elim!: and_then_DoneE)
  have gone: "utc < e" if "expired_gone utc (gs_peers s')" "ps_get (gs_peers s') i = Some c" "hm_get (cl_resources c) j = Some r"
      "resource_expires_at r = Some e" for i c j r e
    using that by (fastforce simp: expired_gone_def resource_is_allowed_def)
  have wake: "sorted_wrt (<) (wakeups gs_next_expiry_resources_check (\<lambda>s now. gateway_handle_timeout W now (clock now) s) n s)" for n clock
    using expiry_timer.wakeups_increase [of W pending kind s clock n] W node inv by blast
  obtain t where t: "gs_next_expiry_resources_check s' = Some t" "now < t" using s'(3) by blast
  have "t = old" if "gs_next_expiry_resources_check s = Some old" "now < old" for old using next_check t that by simp
  moreover have "t = now + from_secs 1" if "\<forall>old. gs_next_expiry_resources_check s = Some old \<longrightarrow> old \<le> now"
    using next_check t that by (cases "gs_next_expiry_resources_check s") simp_all
  moreover have "cl_resources c \<noteq> []" if "expired_gone utc (gs_peers s')" "ps_get (gs_peers s') i = Some c" for i c
    using that by (auto simp: expired_gone_def)
  ultimately show ?thesis using s'(1,2,4) t gone wake by blast
qed

theorem expiry_enforced_witness:
  "\<exists>s s' t. gateway_handle_timeout sample_gwenv 0 0 sample_gateway = Done s \<and>
     gateway_handle_timeout sample_gwenv (from_secs 1) 200 s = Done s' \<and> gs_next_expiry_resources_check s' = Some t \<and>
     t = from_secs 1 + from_secs 1 \<and> (\<forall>c r. ps_get (gs_peers s') 9 = Some c \<and> hm_get (cl_resources c) 1 = Some r \<longrightarrow>
       (\<forall>e. resource_expires_at r = Some e \<longrightarrow> 200 < e))"
proof -
  have n: "gs_next_expiry_resources_check sample_gateway = None" by (simp add: sample_gateway_def gateway_new_def)
  obtain s where s: "gateway_handle_timeout sample_gwenv 0 0 sample_gateway = Done s" "gateway_inv sample_gwenv sample_kind s"
      "gs_next_expiry_resources_check s = Some (from_secs 1)"
    using expiry_enforced [OF sample_gwenv_laws sample_gateway_inv, of 0 0] n by auto
  from expiry_enforced [OF sample_gwenv_laws s(2), of "from_secs 1" 200] s(1,3) show ?thesis by fastforce
qed

section \<open>The events of the node\<close>

text \<open>The node hands out \<open>es\<close> one after the other, ending in the state \<open>m\<close>.\<close>

primrec polls :: "('n \<Rightarrow> node_event option \<times> 'n) \<Rightarrow> 'n \<Rightarrow> node_event list \<Rightarrow> 'n \<Rightarrow> bool" where
  "polls poll n [] m \<longleftrightarrow> m = n"
| "polls poll n (e # es) m \<longleftrightarrow> fst (poll n) = Some e \<and> polls poll (snd (poll n)) es m"

lemma drain_loop_polls:
  assumes dec: "\<And>n. fst (poll n) \<noteq> None \<Longrightarrow> pending (snd (poll n)) < (pending n :: nat)"
  shows "\<exists>es m. polls poll n es m \<and> fst (poll m) = None \<and> length es \<le> pending n \<and>
     drain_loop poll f n acc = Some (snd (poll m), fold f es acc)"
proof (induction "pending n" arbitrary: n acc rule: less_induct)
  case less
  show ?case
  proof (cases "fst (poll n)")
    case None
    then show ?thesis by (intro exI [of _ "[]"] exI [of _ n]) (simp add: drain_loop.simps [of poll f n])
  next
    case (Some e)
    have lt: "pending (snd (poll n)) < pending n" using dec Some by simp
    from less.hyps [OF lt, of "f e acc"] obtain es m where "polls poll (snd (poll n)) es m" "fst (poll m) = None"
        "length es \<le> pending (snd (poll n))" "drain_loop poll f (snd (poll n)) (f e acc) = Some (snd (poll m), fold f es (f e acc))" by blast
    with Some lt show ?thesis
      by (intro exI [of _ "e # es"] exI [of _ m]) (simp add: drain_loop.simps [of poll f n])
  qed
qed

text \<open>Candidates are grouped by client, in order and without repetition.\<close>

definition grouped :: "('a \<Rightarrow> string set) \<Rightarrow> ('a, string list) hmap \<Rightarrow> bool" where
  "grouped cs m \<longleftrightarrow> hm_wf m \<and> (\<forall>i. finite (cs i) \<and> hm_get m i = (if cs i = {} then None else Some (sorted_list_of_set (cs i))))"

lemma insort_insert_set:
  assumes "finite A" shows "insort_insert x (sorted_list_of_set A) = sorted_list_of_set (insert x A)"
proof (cases "x \<in> A")
  case True
  then show ?thesis using assms by (simp add: insort_insert_triv insert_absorb)
next
  case False
  then show ?thesis using assms by (simp add: insort_insert_insort sorted_list_of_set_insert_remove)
qed

lemma add_candidate_grouped:
  assumes "grouped cs m" shows "grouped (cs(i := insert c (cs i))) (add_candidate i c m)"
proof -
  have "insort_insert c (case hm_get m i of None \<Rightarrow> [] | Some xs \<Rightarrow> xs) = sorted_list_of_set (insert c (cs i))"
    using assms insort_insert_set [of "cs i" c] insort_insert_set [of "{}" c] by (cases "cs i = {}") (simp_all add: grouped_def)
  then show ?thesis using assms by (simp add: grouped_def add_candidate_def)
qed

lemma apply_node_events_fold:
  assumes "grouped cs added" "grouped ds removed"
  shows "\<exists>peers' added' removed'. fold (apply_node_event N) es (peers, added, removed) = (peers', added', removed') \<and>
     grouped (\<lambda>i. cs i \<union> {c. NewIceCandidate i c \<in> set es}) added' \<and>
     grouped (\<lambda>i. ds i \<union> {c. InvalidateIceCandidate i c \<in> set es}) removed' \<and>
     (\<forall>i. ps_get peers' i = (if ConnectionFailed i \<in> set es \<or> ConnectionClosed i \<in> set es then None else ps_get peers i))"
  using assms
proof (induction es arbitrary: peers added removed cs ds)
  case (Cons e es)
  show ?case
  proof (cases e)
    case (NewIceCandidate i c)
    have u: "(cs(i := insert c (cs i))) j \<union> {c. NewIceCandidate j c \<in> set es} = cs j \<union> {c. NewIceCandidate j c \<in> set (e # es)}" for j
      using NewIceCandidate by auto
    from Cons.IH [OF add_candidate_grouped [OF Cons.prems(1), of i c] Cons.prems(2), of peers, unfolded u] NewIceCandidate show ?thesis
      by (simp add: apply_node_event_def)
  next
    case (InvalidateIceCandidate i c)
    have u: "(ds(i := insert c (ds i))) j \<union> {c. InvalidateIceCandidate j c \<in> set es} = ds j \<union> {c. InvalidateIceCandidate j c \<in> set (e # es)}" for j
      using InvalidateIceCandidate by auto
    from Cons.IH [OF Cons.prems(1) add_candidate_grouped [OF Cons.prems(2), of i c], of peers, unfolded u] InvalidateIceCandidate show ?thesis
      by (simp add: apply_node_event_def)
  next
    case (ConnectionFailed i)
    from Cons.IH [OF Cons.prems, of "snd (ps_remove N i peers)"] ConnectionFailed show ?thesis
      by (auto simp: apply_node_event_def routes.get_remove)
  next
    case (ConnectionClosed i)
    from Cons.IH [OF Cons.prems, of "snd (ps_remove N i peers)"] ConnectionClosed show ?thesis
      by (auto simp: apply_node_event_def routes.get_remove)
  next
    case (ConnectionEstablished i)
    from Cons.IH [OF Cons.prems, of peers] ConnectionEstablished show ?thesis by (simp add: apply_node_event_def)
  qed
qed simp

text \<open>
  C15. Draining the node's events terminates: where every event that the node hands out reduces what is pending in it, the loop
  runs at most that many times, until the node reports that there is none left. Afterwards exactly the clients whose
  connection failed or was closed are gone, and for every client with new (or invalidated) ICE candidates there is one event
  with all of its candidates, sorted and without repetition, behind the events that were buffered before.
\<close>

theorem drain_terminates:
  assumes dec: "\<forall>n. fst (sn_poll_event (ge_node W) n) \<noteq> None \<longrightarrow> pending (snd (sn_poll_event (ge_node W) n)) < (pending n :: nat)"
  shows "\<exists>es m s' news. polls (sn_poll_event (ge_node W)) (gs_node s) es m \<and> fst (sn_poll_event (ge_node W) m) = None \<and>
     length es \<le> pending (gs_node s) \<and> drain_node_events W s = Done s' \<and> gs_node s' = snd (sn_poll_event (ge_node W) m) \<and>
     (\<forall>i. ps_get (gs_peers s') i =
        (if ConnectionFailed i \<in> set es \<or> ConnectionClosed i \<in> set es then None else ps_get (gs_peers s) i)) \<and>
     gs_buffered_events s' = gs_buffered_events s @ news \<and> distinct news \<and>
     (\<forall>i cs. AddedIceCandidates i cs \<in> set news \<longleftrightarrow>
        (\<exists>c. NewIceCandidate i c \<in> set es) \<and> cs = sorted_list_of_set {c. NewIceCandidate i c \<in> set es}) \<and>
     (\<forall>i cs. RemovedIceCandidates i cs \<in> set news \<longleftrightarrow>
        (\<exists>c. InvalidateIceCandidate i c \<in> set es) \<and> cs = sorted_list_of_set {c. InvalidateIceCandidate i c \<in> set es})"
proof -
  let ?poll = "sn_poll_event (ge_node W)" and ?f = "apply_node_event (ge_peers W)"
  have g: "grouped (\<lambda>_. {}) []" by (simp add: grouped_def)
  have dec': "\<And>n. fst (?poll n) \<noteq> None \<Longrightarrow> pending (snd (?poll n)) < pending n" using dec by blast
  obtain es m where es: "polls ?poll (gs_node s) es m" "fst (?poll m) = None" "length es \<le> pending (gs_node s)"
      "drain_loop ?poll ?f (gs_node s) (gs_peers s, [], []) = Some (snd (?poll m), fold ?f es (gs_peers s, [], []))"
    using drain_loop_polls [where poll = ?poll and pending = pending and f = ?f and n = "gs_node s" and acc = "(gs_peers s, [], [])", OF dec']
    by blast
  obtain peers' a r where f: "fold ?f es (gs_peers s, [], []) = (peers', a, r)"
      "grouped (\<lambda>i. {} \<union> {c. NewIceCandidate i c \<in> set es}) a" "grouped (\<lambda>i. {} \<union> {c. InvalidateIceCandidate i c \<in> set es}) r"
      "\<forall>i. ps_get peers' i = (if ConnectionFailed i \<in> set es \<or> ConnectionClosed i \<in> set es then None else ps_get (gs_peers s) i)"
    using apply_node_events_fold [OF g g, of "ge_peers W" es "gs_peers s"] by blast
  have in_set: "(i, cs) \<in> set x \<longleftrightarrow> C i \<noteq> {} \<and> cs = sorted_list_of_set (C i)" if "grouped C x" for C x and i :: client_id and cs
    using that hm_in_set_iff [of x i cs] by (auto simp: grouped_def)
  have dist: "distinct x" if "grouped C x" for C and x :: candidates
    using that by (simp add: grouped_def hm_wf_def distinct_map)
  let ?news = "map (\<lambda>(i, cs). AddedIceCandidates i cs) (sort_key fst a) @ map (\<lambda>(i, cs). RemovedIceCandidates i cs) (sort_key fst r)"
  have "drain_node_events W s = Done (s\<lparr>gs_node := snd (?poll m), gs_peers := peers', gs_buffered_events := gs_buffered_events s @ ?news\<rparr>)"
    using es(4) f(1) by (simp add: drain_node_events_def)
  moreover have "distinct ?news"
    using dist [OF f(2)] dist [OF f(3)] by (auto simp: distinct_map inj_on_def)
  moreover have "AddedIceCandidates i cs \<in> set ?news \<longleftrightarrow> (i, cs) \<in> set a" "RemovedIceCandidates i cs \<in> set ?news \<longleftrightarrow> (i, cs) \<in> set r" for i cs
    by auto
  ultimately show ?thesis using es(1-3) f(4) in_set [OF f(2)] in_set [OF f(3)]
    by (intro exI [of _ es] exI [of _ m] exI [of _ "s\<lparr>gs_node := snd (?poll m), gs_peers := peers', gs_buffered_events := gs_buffered_events s @ ?news\<rparr>"] exI [of _ ?news]) simp
qed

theorem drain_terminates_witness:
  "\<exists>s' news. drain_node_events sample_gwenv (sample_gateway\<lparr>gs_node := [NewIceCandidate 9 ''b'', ConnectionFailed 9, NewIceCandidate 9 ''a'']\<rparr>) = Done s' \<and>
     ps_get (gs_peers s') 9 = None \<and> gs_buffered_events s' = gs_buffered_events sample_gateway @ news \<and>
     AddedIceCandidates 9 (sorted_list_of_set {''a'', ''b''}) \<in> set news"
proof -
  let ?es = "[NewIceCandidate 9 ''b'', ConnectionFailed 9, NewIceCandidate 9 ''a'']"
  have poll: "sn_poll_event (ge_node sample_gwenv) = (\<lambda>n. case n of [] \<Rightarrow> (None, []) | e # es \<Rightarrow> (Some e, es))"
    by (simp add: sample_gwenv_def sample_node_def)
  have dec: "\<forall>n. fst (sn_poll_event (ge_node sample_gwenv) n) \<noteq> None \<longrightarrow>
      length (snd (sn_poll_event (ge_node sample_gwenv) n)) < length n" by (simp add: poll split: list.splits)
  have all: "es = n" if "polls (sn_poll_event (ge_node sample_gwenv)) n es m" "fst (sn_poll_event (ge_node sample_gwenv) m) = None" for n es m
    using that by (induction es arbitrary: n) (auto simp: poll split: list.splits)
  have new: "{c. NewIceCandidate 9 c \<in> set ?es} = {''a'', ''b''}" by auto
  from drain_terminates [OF dec, of "sample_gateway\<lparr>gs_node := ?es\<rparr>"] obtain es m s' news where
    r: "polls (sn_poll_event (ge_node sample_gwenv)) ?es es m" "fst (sn_poll_event (ge_node sample_gwenv) m) = None"
      "drain_node_events sample_gwenv (sample_gateway\<lparr>gs_node := ?es\<rparr>) = Done s'"
      "ps_get (gs_peers s') 9 = (if ConnectionFailed 9 \<in> set es \<or> ConnectionClosed 9 \<in> set es then None else ps_get (gs_peers sample_gateway) 9)"
      "gs_buffered_events s' = gs_buffered_events sample_gateway @ news"
      "\<And>cs. AddedIceCandidates 9 cs \<in> set news \<longleftrightarrow> (\<exists>c. NewIceCandidate 9 c \<in> set es) \<and> cs = sorted_list_of_set {c. NewIceCandidate 9 c \<in> set es}"
    by auto
  have "es = ?es" using all [OF r(1,2)] .
  with r(3-6) new show ?thesis by auto
qed

end
