(* ===== verification/Turn_Channels.thy ===== *)
theory Turn_Channels
  imports Channel_Data
begin

text \<open>
  Two helpers of a TURN client: the retry timer of requests (\<^verbatim>\<open>rust/connlib/snownet/src/backoff.rs\<close>) and
  the table of channels that the client has bound on a relay (the second half of
  \<^verbatim>\<open>rust/connlib/snownet/src/allocation.rs\<close>).
\<close>

section \<open>Exponential backoff\<close>

record exponential_backoff =
  bo_start_time :: instant
  bo_next_trigger :: instant
  bo_interval :: duration

definition MAX_ELAPSED_TIME :: duration where "MAX_ELAPSED_TIME = from_secs 8"

text \<open>
  \<^verbatim>\<open>Duration::from_secs_f32(interval.as_secs_f32() * 1.5)\<close>. The intervals that occur are one second times a
  small power of 1.5; they are binary fractions that a 32 bit float holds exactly.
\<close>

definition scale_interval :: "duration \<Rightarrow> duration" where
  "scale_interval d = 3 * d div 2"

definition backoff_new :: "instant \<Rightarrow> duration \<Rightarrow> exponential_backoff" where
  "backoff_new now interval = \<lparr>bo_start_time = now, bo_next_trigger = now + interval, bo_interval = interval\<rparr>"

definition backoff_is_expired :: "exponential_backoff \<Rightarrow> instant \<Rightarrow> bool" where
  "backoff_is_expired b at \<longleftrightarrow> bo_start_time b + MAX_ELAPSED_TIME \<le> at"

definition backoff_handle_timeout :: "instant \<Rightarrow> exponential_backoff \<Rightarrow> exponential_backoff" where
  "backoff_handle_timeout now b =
     (if backoff_is_expired b now then b
      else if now < bo_next_trigger b then b
      else let interval = scale_interval (bo_interval b)
           in b\<lparr>bo_interval := interval, bo_next_trigger := bo_next_trigger b + interval\<rparr>)"

section \<open>Channels\<close>

record turn_channel =
  tc_peer :: socket_addr
  tc_bound :: bool
  tc_bound_at :: instant
  tc_last_received :: instant

definition CHANNEL_LIFETIME :: duration where "CHANNEL_LIFETIME = from_secs (10 * 60)"
definition TURN_CHANNEL_REBIND_TIMEOUT :: duration where "TURN_CHANNEL_REBIND_TIMEOUT = from_secs (5 * 60)"

text \<open>\<^verbatim>\<open>Instant::duration_since\<close> saturates at zero.\<close>

definition channel_age :: "turn_channel \<Rightarrow> instant \<Rightarrow> duration" where
  "channel_age c now = now - tc_bound_at c"

definition no_activity :: "turn_channel \<Rightarrow> bool" where
  "no_activity c \<longleftrightarrow> tc_last_received c = tc_bound_at c"

definition connected_to_peer :: "turn_channel \<Rightarrow> socket_addr \<Rightarrow> instant \<Rightarrow> bool" where
  "connected_to_peer c peer now \<longleftrightarrow> tc_peer c = peer \<and> channel_age c now < CHANNEL_LIFETIME \<and> tc_bound c"

definition bound_to_peer :: "turn_channel \<Rightarrow> socket_addr \<Rightarrow> instant \<Rightarrow> bool" where
  "bound_to_peer c peer now \<longleftrightarrow>
     tc_peer c = peer \<and> channel_age c now < CHANNEL_LIFETIME + TURN_CHANNEL_REBIND_TIMEOUT \<and> tc_bound c"

definition can_rebind :: "turn_channel \<Rightarrow> instant \<Rightarrow> bool" where
  "can_rebind c now \<longleftrightarrow> no_activity c \<and> CHANNEL_LIFETIME + TURN_CHANNEL_REBIND_TIMEOUT \<le> channel_age c now"

definition needs_refresh :: "turn_channel \<Rightarrow> instant \<Rightarrow> bool" where
  "needs_refresh c now \<longleftrightarrow> \<not> channel_age c now < CHANNEL_LIFETIME div 2 \<and> \<not> no_activity c"

definition channel_set_confirmed :: "instant \<Rightarrow> turn_channel \<Rightarrow> turn_channel" where
  "channel_set_confirmed now c = c\<lparr>tc_bound := True, tc_bound_at := now, tc_last_received := now\<rparr>"

definition channel_record_received :: "instant \<Rightarrow> turn_channel \<Rightarrow> turn_channel" where
  "channel_record_received now c = c\<lparr>tc_last_received := now\<rparr>"

section \<open>The table\<close>

record channel_bindings =
  cbs_inner :: "(u16, turn_channel) hmap"
  cbs_next_channel :: u16

definition FIRST_CHANNEL :: u16 where "FIRST_CHANNEL = 0x4000"
definition LAST_CHANNEL :: u16 where "LAST_CHANNEL = 0x4FFF"

definition cbs_default :: channel_bindings where
  "cbs_default = \<lparr>cbs_inner = [], cbs_next_channel = FIRST_CHANNEL\<rparr>"

text \<open>A \<^verbatim>\<open>BTreeMap\<close> is iterated in the order of its keys.\<close>

definition btree_items :: "('k::linorder, 'v) hmap \<Rightarrow> ('k \<times> 'v) list" where
  "btree_items m = sort_key fst m"

definition cbs_try_decode :: "bytes \<Rightarrow> instant \<Rightarrow> channel_bindings \<Rightarrow> channel_bindings \<times> (socket_addr \<times> bytes) option" where
  "cbs_try_decode packet now cbs = (case snownet_decode packet of
       Inl _ \<Rightarrow> (cbs, None)
     | Inr (number, payload) \<Rightarrow> (case hm_get (cbs_inner cbs) number of
         None \<Rightarrow> (cbs, None)
       | Some c \<Rightarrow>
           (if \<not> tc_bound c then (cbs, None)
            else (cbs\<lparr>cbs_inner := hm_insert number (channel_record_received now c) (cbs_inner cbs)\<rparr>, Some (tc_peer c, payload)))))"

definition bound_channel_to_peer :: "channel_bindings \<Rightarrow> socket_addr \<Rightarrow> instant \<Rightarrow> u16 option" where
  "bound_channel_to_peer cbs peer now =
     map_option fst (find (\<lambda>(_, c). bound_to_peer c peer now) (btree_items (cbs_inner cbs)))"

definition connected_channel_to_peer :: "channel_bindings \<Rightarrow> socket_addr \<Rightarrow> instant \<Rightarrow> u16 option" where
  "connected_channel_to_peer cbs peer now =
     map_option fst (find (\<lambda>(_, c). connected_to_peer c peer now) (btree_items (cbs_inner cbs)))"

definition candidate_channels :: "u16 \<Rightarrow> u16 list" where
  "candidate_channels next =
     map of_nat [unat next..<Suc (unat LAST_CHANNEL)] @ map of_nat [unat FIRST_CHANNEL..<unat next]"

definition next_channel_number :: "channel_bindings \<Rightarrow> instant \<Rightarrow> u16 option" where
  "next_channel_number cbs now =
     find (\<lambda>number. case hm_get (cbs_inner cbs) number of Some c \<Rightarrow> can_rebind c now | None \<Rightarrow> True)
       (candidate_channels (cbs_next_channel cbs))"

definition new_channel_to_peer :: "socket_addr \<Rightarrow> instant \<Rightarrow> channel_bindings \<Rightarrow> channel_bindings \<times> u16 option" where
  "new_channel_to_peer peer now cbs = (case bound_channel_to_peer cbs peer now of
       Some number \<Rightarrow> (cbs, Some number)
     | None \<Rightarrow> (case next_channel_number cbs now of
         None \<Rightarrow> (cbs, None)
       | Some number \<Rightarrow>
           (cbs\<lparr>cbs_next_channel := if number = LAST_CHANNEL then FIRST_CHANNEL else number + 1,
               cbs_inner := hm_insert number \<lparr>tc_peer = peer, tc_bound = False, tc_bound_at = now, tc_last_received = now\<rparr> (cbs_inner cbs)\<rparr>,
            Some number)))"

definition channels_to_refresh :: "channel_bindings \<Rightarrow> instant \<Rightarrow> (u16 \<Rightarrow> bool) \<Rightarrow> (u16 \<times> socket_addr) list" where
  "channels_to_refresh cbs now is_inflight =
     map (\<lambda>(number, c). (number, tc_peer c))
       (filter (\<lambda>(number, _). \<not> is_inflight number) (filter (\<lambda>(_, c). needs_refresh c now) (btree_items (cbs_inner cbs))))"

definition handle_failed_binding :: "u16 \<Rightarrow> channel_bindings \<Rightarrow> channel_bindings outcome" where
  "handle_failed_binding number cbs =
     and_then (assert_that (hm_get (cbs_inner cbs) number \<noteq> None)) (\<lambda>_.
     Done (cbs\<lparr>cbs_inner := hm_remove number (cbs_inner cbs)\<rparr>))"

definition cbs_set_confirmed :: "u16 \<Rightarrow> instant \<Rightarrow> channel_bindings \<Rightarrow> channel_bindings \<times> bool" where
  "cbs_set_confirmed number now cbs = (case hm_get (cbs_inner cbs) number of
       None \<Rightarrow> (cbs, False)
     | Some c \<Rightarrow> (cbs\<lparr>cbs_inner := hm_insert number (channel_set_confirmed now c) (cbs_inner cbs)\<rparr>, True))"

definition cbs_clear :: "channel_bindings \<Rightarrow> channel_bindings" where
  "cbs_clear cbs = cbs\<lparr>cbs_inner := []\<rparr>"

section \<open>Lemmas on the backoff\<close>

text \<open>A timer of the client: what it waits for lies ahead of its start, and its interval is positive.\<close>

definition backoff_inv :: "exponential_backoff \<Rightarrow> bool" where
  "backoff_inv b \<longleftrightarrow> from_secs 1 \<le> bo_interval b \<and> bo_start_time b + bo_interval b \<le> bo_next_trigger b"

lemma from_secs_less: "from_secs a \<le> from_secs b \<longleftrightarrow> a \<le> b" "from_secs a < from_secs b \<longleftrightarrow> a < b" "from_secs a + from_secs b = from_secs (a + b)"
  by (simp_all add: from_secs_def)

lemma scale_interval_grows: "from_secs 1 \<le> d \<Longrightarrow> d \<le> scale_interval d"
  by (simp add: scale_interval_def)

lemma backoff_new_inv: "from_secs 1 \<le> d \<Longrightarrow> backoff_inv (backoff_new now d)"
  by (simp add: backoff_inv_def backoff_new_def)

lemma backoff_timeout:
  assumes "backoff_inv b"
  shows "backoff_inv (backoff_handle_timeout now b)" "bo_start_time (backoff_handle_timeout now b) = bo_start_time b"
    "\<not> backoff_is_expired b now \<Longrightarrow> bo_next_trigger b \<le> now \<Longrightarrow> bo_next_trigger b < bo_next_trigger (backoff_handle_timeout now b)"
    "now < bo_next_trigger b \<Longrightarrow> backoff_handle_timeout now b = b"
proof -
  have s: "from_secs 1 \<le> bo_interval b" "bo_interval b \<le> scale_interval (bo_interval b)" "bo_start_time b + bo_interval b \<le> bo_next_trigger b"
    using assms scale_interval_grows by (simp_all add: backoff_inv_def)
  have p: "0 < from_secs 1" by (simp add: from_secs_def)
  show "backoff_inv (backoff_handle_timeout now b)" "bo_start_time (backoff_handle_timeout now b) = bo_start_time b"
    "\<not> backoff_is_expired b now \<Longrightarrow> bo_next_trigger b \<le> now \<Longrightarrow> bo_next_trigger b < bo_next_trigger (backoff_handle_timeout now b)"
    "now < bo_next_trigger b \<Longrightarrow> backoff_handle_timeout now b = b"
    using s p by (auto simp: backoff_handle_timeout_def backoff_inv_def Let_def)
qed

section \<open>Lemmas on the channels\<close>

definition channel_range :: "u16 \<Rightarrow> bool" where
  "channel_range n \<longleftrightarrow> FIRST_CHANNEL \<le> n \<and> n \<le> LAST_CHANNEL"

definition cbs_inv :: "channel_bindings \<Rightarrow> bool" where
  "cbs_inv cbs \<longleftrightarrow> hm_wf (cbs_inner cbs) \<and> channel_range (cbs_next_channel cbs) \<and>
     (\<forall>n c. hm_get (cbs_inner cbs) n = Some c \<longrightarrow> channel_range n)"

lemma candidate_channels_set:
  assumes "channel_range v" shows "set (candidate_channels v) = {n. channel_range n}"
proof -
  have v: "unat FIRST_CHANNEL \<le> unat v" "unat v \<le> unat LAST_CHANNEL" using assms by (simp_all add: channel_range_def word_le_nat_alt)
  have l: "unat LAST_CHANNEL < 2 ^ 16" by (simp add: LAST_CHANNEL_def)
  have "set (candidate_channels v) = of_nat ` {unat FIRST_CHANNEL..unat LAST_CHANNEL}"
    unfolding candidate_channels_def set_append set_map set_upt image_Un [symmetric]
    using v by (intro arg_cong [where f = "image of_nat"]) auto
  moreover have "n \<in> of_nat ` {unat FIRST_CHANNEL..unat LAST_CHANNEL} \<longleftrightarrow> channel_range n" for n :: u16
  proof
    assume "n \<in> of_nat ` {unat FIRST_CHANNEL..unat LAST_CHANNEL}"
    then obtain k where k: "n = of_nat k" "unat FIRST_CHANNEL \<le> k" "k \<le> unat LAST_CHANNEL" by auto
    have "unat n = k mod 2 ^ 16" unfolding k(1) unat_of_nat by simp
    moreover have "k < 2 ^ 16" using k(3) l by linarith
    ultimately have "unat n = k" by simp
    with k show "channel_range n" by (simp add: channel_range_def word_le_nat_alt)
  next
    assume "channel_range n"
    then have "unat n \<in> {unat FIRST_CHANNEL..unat LAST_CHANNEL}" by (simp add: channel_range_def word_le_nat_alt)
    moreover have "n = of_nat (unat n)" by simp
    ultimately show "n \<in> of_nat ` {unat FIRST_CHANNEL..unat LAST_CHANNEL}" by blast
  qed
  ultimately show ?thesis by auto
qed

lemma find_in: "find P xs = Some x \<Longrightarrow> x \<in> set xs \<and> P x"
  by (auto simp: find_Some_iff)

lemma btree_items_find:
  assumes "find P (btree_items m) = Some x" shows "x \<in> set m \<and> P x"
  using find_in [OF assms] by (simp add: btree_items_def)

lemma new_channel_to_peer_cases:
  assumes inv: "cbs_inv cbs"
  shows "case new_channel_to_peer peer now cbs of
     (cbs', None) \<Rightarrow> cbs' = cbs \<and> bound_channel_to_peer cbs peer now = None \<and>
       (\<forall>n. channel_range n \<longrightarrow> (\<exists>c. hm_get (cbs_inner cbs) n = Some c \<and> \<not> can_rebind c now))
   | (cbs', Some n) \<Rightarrow> channel_range n \<and> cbs_inv cbs' \<and> (\<exists>c. hm_get (cbs_inner cbs') n = Some c \<and> tc_peer c = peer) \<and>
       (\<forall>m. m \<noteq> n \<longrightarrow> hm_get (cbs_inner cbs') m = hm_get (cbs_inner cbs) m) \<and>
       (\<forall>c. hm_get (cbs_inner cbs) n = Some c \<longrightarrow> can_rebind c now \<or> bound_to_peer c peer now \<and> cbs' = cbs)"
proof (cases "bound_channel_to_peer cbs peer now")
  case (Some n)
  then obtain c where c: "(n, c) \<in> set (cbs_inner cbs)" "bound_to_peer c peer now"
    by (auto simp: bound_channel_to_peer_def dest!: btree_items_find split: prod.splits)
  then have "hm_get (cbs_inner cbs) n = Some c" using inv by (simp add: cbs_inv_def hm_in_set_iff)
  then show ?thesis using Some c(2) inv by (auto simp: new_channel_to_peer_def cbs_inv_def bound_to_peer_def)
next
  case None
  have set: "set (candidate_channels (cbs_next_channel cbs)) = {n. channel_range n}" using inv candidate_channels_set by (simp add: cbs_inv_def)
  show ?thesis
  proof (cases "next_channel_number cbs now")
    case no: None
    then have "\<forall>n. channel_range n \<longrightarrow> (\<exists>c. hm_get (cbs_inner cbs) n = Some c \<and> \<not> can_rebind c now)"
      using set by (auto simp: next_channel_number_def find_None_iff split: option.splits)
    then show ?thesis using None no by (simp add: new_channel_to_peer_def)
  next
    case (Some n)
    then have n: "n \<in> set (candidate_channels (cbs_next_channel cbs))" "case hm_get (cbs_inner cbs) n of Some c \<Rightarrow> can_rebind c now | None \<Rightarrow> True"
      by (auto simp: next_channel_number_def find_Some_iff)
    have r: "channel_range n" using n(1) set by simp
    have "channel_range (if n = LAST_CHANNEL then FIRST_CHANNEL else n + 1)"
    proof (cases "n = LAST_CHANNEL")
      case False
      with r have "unat n < unat LAST_CHANNEL" by (auto simp: channel_range_def word_le_nat_alt word_unat_eq_iff)
      then have "unat (n + 1) = unat n + 1" by (simp add: unat_word_ariths LAST_CHANNEL_def)
      with r \<open>unat n < unat LAST_CHANNEL\<close> False show ?thesis by (simp add: channel_range_def word_le_nat_alt)
    qed (simp add: channel_range_def FIRST_CHANNEL_def LAST_CHANNEL_def)
    then have "cbs_inv (fst (new_channel_to_peer peer now cbs))"
      using inv r None Some by (auto simp: new_channel_to_peer_def cbs_inv_def)
    with None Some r n(2) show ?thesis by (auto simp: new_channel_to_peer_def)
  qed
qed

end
