(* ===== verification/Turn_Allocation.thy ===== *)
theory Turn_Allocation
  imports Turn_Channels Sans_IO
begin

text \<open>
  The TURN client of \<^verbatim>\<open>rust/connlib/snownet/src/allocation.rs\<close>: an allocation on a relay that refreshes
  itself, retries its requests, binds channels and gives up when the relay does not answer.

  STUN messages, their codec and their HMAC (\<^verbatim>\<open>stun_codec\<close>), ICE candidates (\<^verbatim>\<open>str0m\<close>), the ring buffer
  and the random number generator are the fields of the record \<open>turn_env\<close>. \<^verbatim>\<open>random()\<close> draws from the generator
  of the thread, which is the field \<open>al_rng\<close> of the state. The predicate \<open>turn_laws\<close> has what the code
  relies on.
\<close>

section \<open>Environment\<close>

record ('msg, 'mi, 'c, 'r) turn_env =
  tm_new :: "message_class \<Rightarrow> stun_method \<Rightarrow> transaction_id \<Rightarrow> 'msg"
  tm_add_attribute :: "'msg \<Rightarrow> 'mi attribute \<Rightarrow> 'msg"
  tm_attributes :: "'msg \<Rightarrow> 'mi attribute list"
  tm_class :: "'msg \<Rightarrow> message_class"
  tm_method :: "'msg \<Rightarrow> stun_method"
  tm_tid :: "'msg \<Rightarrow> transaction_id"
  tm_decode :: "bytes \<Rightarrow> 'msg option"
  tm_encode :: "'msg \<Rightarrow> bytes option"
  tm_check_long_term_credential :: "'mi \<Rightarrow> string \<Rightarrow> string \<Rightarrow> string \<Rightarrow> bool"
  tm_new_long_term_credential :: "'msg \<Rightarrow> string \<Rightarrow> string \<Rightarrow> string \<Rightarrow> 'mi option"
  tm_channel_number_ok :: "u16 \<Rightarrow> bool"
  tm_software_ok :: "string \<Rightarrow> bool"
  tm_random :: "'r \<Rightarrow> transaction_id \<times> 'r"
  tm_ring_push :: "socket_addr list \<Rightarrow> socket_addr \<Rightarrow> socket_addr list"
  tm_server_reflexive :: "socket_addr \<Rightarrow> socket_addr \<Rightarrow> 'c option"
  tm_relayed :: "socket_addr \<Rightarrow> 'c option"
  tm_candidate_addr :: "'c \<Rightarrow> socket_addr"

text \<open>\<^verbatim>\<open>message.get_attribute::<T>()\<close> is the first attribute of the type.\<close>

definition msg_attribute :: "('msg, 'mi, 'c, 'r) turn_env \<Rightarrow> attr_kind \<Rightarrow> 'msg \<Rightarrow> 'mi attribute option" where
  "msg_attribute E k m = find (\<lambda>a. kind_of a = k) (tm_attributes E m)"

definition msg_error_code :: "('msg, 'mi, 'c, 'r) turn_env \<Rightarrow> 'msg \<Rightarrow> error_code option" where
  "msg_error_code E m = (case msg_attribute E KErrorCode m of Some (ErrorCode x) \<Rightarrow> Some x | _ \<Rightarrow> None)"

definition msg_nonce :: "('msg, 'mi, 'c, 'r) turn_env \<Rightarrow> 'msg \<Rightarrow> string option" where
  "msg_nonce E m = (case msg_attribute E KNonce m of Some (Nonce x) \<Rightarrow> Some x | _ \<Rightarrow> None)"

definition msg_realm :: "('msg, 'mi, 'c, 'r) turn_env \<Rightarrow> 'msg \<Rightarrow> string option" where
  "msg_realm E m = (case msg_attribute E KRealm m of Some (Realm x) \<Rightarrow> Some x | _ \<Rightarrow> None)"

definition msg_message_integrity :: "('msg, 'mi, 'c, 'r) turn_env \<Rightarrow> 'msg \<Rightarrow> 'mi option" where
  "msg_message_integrity E m = (case msg_attribute E KMessageIntegrity m of Some (MessageIntegrity x) \<Rightarrow> Some x | _ \<Rightarrow> None)"

definition msg_lifetime :: "('msg, 'mi, 'c, 'r) turn_env \<Rightarrow> 'msg \<Rightarrow> duration option" where
  "msg_lifetime E m = (case msg_attribute E KLifetime m of Some (Lifetime x) \<Rightarrow> Some x | _ \<Rightarrow> None)"

definition msg_channel_number :: "('msg, 'mi, 'c, 'r) turn_env \<Rightarrow> 'msg \<Rightarrow> u16 option" where
  "msg_channel_number E m = (case msg_attribute E KChannelNumber m of Some (ChannelNumber x) \<Rightarrow> Some x | _ \<Rightarrow> None)"

definition msg_xor_peer_address :: "('msg, 'mi, 'c, 'r) turn_env \<Rightarrow> 'msg \<Rightarrow> socket_addr option" where
  "msg_xor_peer_address E m = (case msg_attribute E KXorPeerAddress m of Some (XorPeerAddress x) \<Rightarrow> Some x | _ \<Rightarrow> None)"

section \<open>State\<close>

definition REQUEST_TIMEOUT :: duration where "REQUEST_TIMEOUT = from_secs 1"
definition BINDING_INTERVAL :: duration where "BINDING_INTERVAL = from_secs 25"

text \<open>The code point of \<^verbatim>\<open>UnknownAttribute\<close>.\<close>

definition UNKNOWN_ATTRIBUTE :: error_code where "UNKNOWN_ATTRIBUTE = OtherError 420"

definition sock_is_ipv4 :: "socket_addr \<Rightarrow> bool" where
  "sock_is_ipv4 s \<longleftrightarrow> sock_family s = AF_V4"

record active_socket =
  as_addr :: socket_addr
  as_next_binding :: instant

datatype 'c allocation_event = NewCandidate 'c | InvalidCandidate 'c

record turn_credentials =
  tcr_username :: string
  tcr_password :: string
  tcr_realm :: string
  tcr_nonce :: "string option"

text \<open>The addresses of a relay; \<^verbatim>\<open>SocketAddrV4\<close> and \<^verbatim>\<open>SocketAddrV6\<close> are the arguments of the two constructors of \<open>socket_addr\<close>.\<close>

datatype relay_socket =
    RelayV4 "ipv4 \<times> u16"
  | RelayV6 "ipv6 \<times> u16 \<times> u32 \<times> u32"
  | RelayDual "ipv4 \<times> u16" "ipv6 \<times> u16 \<times> u32 \<times> u32"

definition sock_v4 :: "ipv4 \<times> u16 \<Rightarrow> socket_addr" where
  "sock_v4 = (\<lambda>(a, p). SockV4 a p)"

definition sock_v6 :: "ipv6 \<times> u16 \<times> u32 \<times> u32 \<Rightarrow> socket_addr" where
  "sock_v6 = (\<lambda>(a, p, f, s). SockV6 a p f s)"

primrec relay_as_v4 :: "relay_socket \<Rightarrow> (ipv4 \<times> u16) option" where
  "relay_as_v4 (RelayV4 v4) = Some v4"
| "relay_as_v4 (RelayV6 v6) = None"
| "relay_as_v4 (RelayDual v4 v6) = Some v4"

primrec relay_as_v6 :: "relay_socket \<Rightarrow> (ipv6 \<times> u16 \<times> u32 \<times> u32) option" where
  "relay_as_v6 (RelayV4 v4) = None"
| "relay_as_v6 (RelayV6 v6) = Some v6"
| "relay_as_v6 (RelayDual v4 v6) = Some v6"

definition relay_matches :: "relay_socket \<Rightarrow> socket_addr \<Rightarrow> bool" where
  "relay_matches r candidate \<longleftrightarrow>
     (case relay_as_v4 r of Some v4 \<Rightarrow> sock_v4 v4 = candidate | None \<Rightarrow> False) \<or>
     (case relay_as_v6 r of Some v6 \<Rightarrow> sock_v6 v6 = candidate | None \<Rightarrow> False)"

datatype free_reason = AuthenticationError | NoResponseReceived | ProtocolFailure

record transmit =
  tx_src :: "socket_addr option"
  tx_dst :: socket_addr
  tx_payload :: bytes

record ('msg, 'c, 'r) turn_allocation =
  al_server :: relay_socket
  al_active_socket :: "active_socket option"
  al_software :: string
  al_ip4_srflx_candidate :: "'c option"
  al_ip6_srflx_candidate :: "'c option"
  al_ip4_allocation :: "'c option"
  al_ip6_allocation :: "'c option"
  al_allocation_lifetime :: "(instant \<times> duration) option"
  al_buffered_transmits :: "transmit list"
  al_events :: "'c allocation_event list"
  al_sent_requests :: "(transaction_id, socket_addr \<times> 'msg \<times> exponential_backoff) hmap"
  al_channel_bindings :: channel_bindings
  al_buffered_channel_bindings :: "socket_addr list"
  al_credentials :: "turn_credentials option"
  al_explicit_failure :: "free_reason option"
  al_rng :: 'r

section \<open>Active socket\<close>

definition active_socket_new :: "socket_addr \<Rightarrow> instant \<Rightarrow> active_socket" where
  "active_socket_new addr now = \<lparr>as_addr = addr, as_next_binding = now + BINDING_INTERVAL\<rparr>"

definition same_ip_version_as :: "active_socket \<Rightarrow> socket_addr \<Rightarrow> bool" where
  "same_ip_version_as s dst \<longleftrightarrow> sock_is_ipv4 (as_addr s) = sock_is_ipv4 dst"

definition active_socket_handle_timeout :: "instant \<Rightarrow> active_socket \<Rightarrow> active_socket \<times> socket_addr option" where
  "active_socket_handle_timeout now s =
     (if now < as_next_binding s then (s, None)
      else (s\<lparr>as_next_binding := now + BINDING_INTERVAL\<rparr>, Some (as_addr s)))"

section \<open>Requests\<close>

definition authenticate :: "('msg, 'mi, 'c, 'r) turn_env \<Rightarrow> 'msg \<Rightarrow> turn_credentials \<Rightarrow> 'r \<Rightarrow> ('msg \<times> 'r) outcome" where
  "authenticate E message c r =
     (let attributes = filter (\<lambda>a. kind_of a \<notin> {KNonce, KMessageIntegrity, KRealm, KUsername}) (tm_attributes E message)
            @ [Username (tcr_username c), Realm (tcr_realm c)] @ (case tcr_nonce c of None \<Rightarrow> [] | Some n \<Rightarrow> [Nonce n]);
          (tid, r) = tm_random E r;
          message = fold (\<lambda>a m. tm_add_attribute E m a) attributes (tm_new E Request (tm_method E message) tid)
      in and_then (expect (tm_new_long_term_credential E message (tcr_username c) (tcr_realm c) (tcr_password c))) (\<lambda>mi.
         Done (tm_add_attribute E message (MessageIntegrity mi), r)))"

definition make_binding_request :: "('msg, 'mi, 'c, 'r) turn_env \<Rightarrow> string \<Rightarrow> 'r \<Rightarrow> 'msg \<times> 'r" where
  "make_binding_request E software r =
     (let (tid, r) = tm_random E r in (tm_add_attribute E (tm_new E Request BINDING tid) (Software software), r))"

definition make_allocate_request :: "('msg, 'mi, 'c, 'r) turn_env \<Rightarrow> string \<Rightarrow> 'r \<Rightarrow> 'msg \<times> 'r" where
  "make_allocate_request E software r =
     (let (tid, r) = tm_random E r
      in (fold (\<lambda>a m. tm_add_attribute E m a) [RequestedTransport 17, AdditionalAddressFamily AF_V6, Software software]
            (tm_new E Request ALLOCATE tid), r))"

definition make_refresh_request :: "('msg, 'mi, 'c, 'r) turn_env \<Rightarrow> string \<Rightarrow> 'r \<Rightarrow> 'msg \<times> 'r" where
  "make_refresh_request E software r =
     (let (tid, r) = tm_random E r
      in (fold (\<lambda>a m. tm_add_attribute E m a) [RequestedTransport 17, AdditionalAddressFamily AF_V6, Software software]
            (tm_new E Request REFRESH tid), r))"

definition make_delete_allocation_request :: "('msg, 'mi, 'c, 'r) turn_env \<Rightarrow> string \<Rightarrow> 'r \<Rightarrow> 'msg \<times> 'r" where
  "make_delete_allocation_request E software r =
     (let (m, r) = make_refresh_request E software r in (tm_add_attribute E m (Lifetime 0), r))"

definition make_channel_bind_request :: "('msg, 'mi, 'c, 'r) turn_env \<Rightarrow> socket_addr \<Rightarrow> u16 \<Rightarrow> string \<Rightarrow> 'r \<Rightarrow> ('msg \<times> 'r) outcome" where
  "make_channel_bind_request E target channel software r =
     (let (tid, r) = tm_random E r
      in and_then (assert_that (tm_channel_number_ok E channel)) (\<lambda>_.
         Done (fold (\<lambda>a m. tm_add_attribute E m a) [XorPeerAddress target, ChannelNumber channel, Software software]
            (tm_new E Request CHANNEL_BIND tid), r)))"

text \<open>The flag says whether the message was queued.\<close>

definition queue :: "('msg, 'mi, 'c, 'r) turn_env \<Rightarrow> socket_addr \<Rightarrow> 'msg \<Rightarrow> exponential_backoff option \<Rightarrow> instant
    \<Rightarrow> ('msg, 'c, 'r) turn_allocation \<Rightarrow> (('msg, 'c, 'r) turn_allocation \<times> bool) outcome" where
  "queue E dst message backoff now a =
     (let b = (case backoff of None \<Rightarrow> backoff_new now REQUEST_TIMEOUT | Some b \<Rightarrow> b) in
      if backoff_is_expired b now then Done (a, False)
      else and_then (expect (tm_encode E message)) (\<lambda>payload.
        Done (a\<lparr>al_sent_requests := hm_insert (tm_tid E message) (dst, message, b) (al_sent_requests a),
                al_buffered_transmits := al_buffered_transmits a @ [\<lparr>tx_src = None, tx_dst = dst, tx_payload = payload\<rparr>]\<rparr>, True)))"

definition authenticate_and_queue :: "('msg, 'mi, 'c, 'r) turn_env \<Rightarrow> 'msg \<Rightarrow> exponential_backoff option \<Rightarrow> instant
    \<Rightarrow> ('msg, 'c, 'r) turn_allocation \<Rightarrow> (('msg, 'c, 'r) turn_allocation \<times> bool) outcome" where
  "authenticate_and_queue E message backoff now a = (case al_active_socket a of
       None \<Rightarrow> Done (a, False)
     | Some s \<Rightarrow> (case al_credentials a of
         None \<Rightarrow> Done (a, False)
       | Some c \<Rightarrow>
           and_then (authenticate E message c (al_rng a)) (\<lambda>(message, r).
           queue E (as_addr s) message backoff now (a\<lparr>al_rng := r\<rparr>))))"

text \<open>Make a request and send it; the flag is not looked at.\<close>

definition send_request :: "('msg, 'mi, 'c, 'r) turn_env \<Rightarrow> (string \<Rightarrow> 'r \<Rightarrow> 'msg \<times> 'r) \<Rightarrow> instant
    \<Rightarrow> ('msg, 'c, 'r) turn_allocation \<Rightarrow> ('msg, 'c, 'r) turn_allocation outcome" where
  "send_request E mk now a =
     (let (m, r) = mk (al_software a) (al_rng a)
      in and_then (authenticate_and_queue E m None now (a\<lparr>al_rng := r\<rparr>)) (\<lambda>(a, _). Done a))"

definition queue_binding :: "('msg, 'mi, 'c, 'r) turn_env \<Rightarrow> socket_addr \<Rightarrow> instant
    \<Rightarrow> ('msg, 'c, 'r) turn_allocation \<Rightarrow> ('msg, 'c, 'r) turn_allocation outcome" where
  "queue_binding E dst now a =
     (let (m, r) = make_binding_request E (al_software a) (al_rng a)
      in and_then (queue E dst m None now (a\<lparr>al_rng := r\<rparr>)) (\<lambda>(a, _). Done a))"

definition send_binding_requests :: "('msg, 'mi, 'c, 'r) turn_env \<Rightarrow> instant
    \<Rightarrow> ('msg, 'c, 'r) turn_allocation \<Rightarrow> ('msg, 'c, 'r) turn_allocation outcome" where
  "send_binding_requests E now a =
     and_then (case relay_as_v4 (al_server a) of None \<Rightarrow> Done a | Some v4 \<Rightarrow> queue_binding E (sock_v4 v4) now a) (\<lambda>a.
     (case relay_as_v6 (al_server a) of None \<Rightarrow> Done a | Some v6 \<Rightarrow> queue_binding E (sock_v6 v6) now a))"

definition turn_allocation_new :: "('msg, 'mi, 'c, 'r) turn_env \<Rightarrow> relay_socket \<Rightarrow> string \<Rightarrow> string \<Rightarrow> string \<Rightarrow> instant \<Rightarrow> string \<Rightarrow> 'r
    \<Rightarrow> ('msg, 'c, 'r) turn_allocation outcome" where
  "turn_allocation_new E server username password realm now session_id r =
     and_then (assert_that (tm_software_ok E (''snownet; session='' @ session_id))) (\<lambda>_. send_binding_requests E now
     \<lparr>al_server = server, al_active_socket = None, al_software = ''snownet; session='' @ session_id,
      al_ip4_srflx_candidate = None, al_ip6_srflx_candidate = None, al_ip4_allocation = None, al_ip6_allocation = None,
      al_allocation_lifetime = None, al_buffered_transmits = [], al_events = [], al_sent_requests = [],
      al_channel_bindings = cbs_default, al_buffered_channel_bindings = [],
      al_credentials = Some \<lparr>tcr_username = username, tcr_password = password, tcr_realm = realm, tcr_nonce = None\<rparr>,
      al_explicit_failure = None, al_rng = r\<rparr>)"

section \<open>Queries\<close>

definition has_allocation :: "('msg, 'c, 'r) turn_allocation \<Rightarrow> bool" where
  "has_allocation a \<longleftrightarrow> al_ip4_allocation a \<noteq> None \<or> al_ip6_allocation a \<noteq> None"

definition turn_can_relay_to :: "('msg, 'c, 'r) turn_allocation \<Rightarrow> socket_addr \<Rightarrow> bool" where
  "turn_can_relay_to a s = (case s of SockV4 _ _ \<Rightarrow> al_ip4_allocation a \<noteq> None | SockV6 _ _ _ _ \<Rightarrow> al_ip6_allocation a \<noteq> None)"

definition current_relay_candidates :: "('msg, 'c, 'r) turn_allocation \<Rightarrow> 'c list" where
  "current_relay_candidates a = List.map_filter id [al_ip4_allocation a, al_ip6_allocation a]"

definition in_flight :: "('msg, 'mi, 'c, 'r) turn_env \<Rightarrow> stun_method \<Rightarrow> ('msg, 'c, 'r) turn_allocation \<Rightarrow> bool" where
  "in_flight E m a \<longleftrightarrow> list_ex (\<lambda>(_, r, _). tm_method E r = m) (hm_values (al_sent_requests a))"

definition channel_binding_in_flight_by_number :: "('msg, 'mi, 'c, 'r) turn_env \<Rightarrow> ('msg, 'c, 'r) turn_allocation \<Rightarrow> u16 \<Rightarrow> bool" where
  "channel_binding_in_flight_by_number E a channel \<longleftrightarrow>
     list_ex (\<lambda>(_, r, _). tm_method E r = CHANNEL_BIND \<and> msg_channel_number E r = Some channel) (hm_values (al_sent_requests a))"

definition channel_binding_in_flight_by_peer :: "('msg, 'mi, 'c, 'r) turn_env \<Rightarrow> ('msg, 'c, 'r) turn_allocation \<Rightarrow> socket_addr \<Rightarrow> bool" where
  "channel_binding_in_flight_by_peer E a peer \<longleftrightarrow>
     list_ex (\<lambda>(_, r, _). tm_method E r = CHANNEL_BIND \<and> msg_xor_peer_address E r = Some peer) (hm_values (al_sent_requests a)) \<or>
     peer \<in> set (al_buffered_channel_bindings a)"

definition refresh_allocation_at :: "('msg, 'c, 'r) turn_allocation \<Rightarrow> instant option" where
  "refresh_allocation_at a = map_option (\<lambda>(received_at, lifetime). received_at + lifetime div 2) (al_allocation_lifetime a)"

definition allocation_expires_at :: "('msg, 'c, 'r) turn_allocation \<Rightarrow> instant option" where
  "allocation_expires_at a = map_option (\<lambda>(received_at, lifetime). received_at + lifetime) (al_allocation_lifetime a)"

definition allocation_poll_timeout :: "('msg, 'mi, 'c, 'r) turn_env \<Rightarrow> ('msg, 'c, 'r) turn_allocation \<Rightarrow> instant option" where
  "allocation_poll_timeout E a =
     (let next_refresh = (if \<not> in_flight E REFRESH a then refresh_allocation_at a else None);
          next_keepalive = (if has_allocation a then map_option as_next_binding (al_active_socket a) else None);
          all = List.map_filter id [next_refresh, next_keepalive] @ map (\<lambda>(_, _, b). bo_next_trigger b) (hm_values (al_sent_requests a))
      in if all = [] then None else Some (Min (set all)))"

definition is_suspended :: "('msg, 'mi, 'c, 'r) turn_env \<Rightarrow> ('msg, 'c, 'r) turn_allocation \<Rightarrow> bool" where
  "is_suspended E a \<longleftrightarrow> \<not> has_allocation a \<and> al_sent_requests a = [] \<and> al_buffered_transmits a = [] \<and> allocation_poll_timeout E a = None"

definition received_any_response :: "('msg, 'c, 'r) turn_allocation \<Rightarrow> bool" where
  "received_any_response a \<longleftrightarrow> al_active_socket a \<noteq> None"

definition has_credentials :: "('msg, 'c, 'r) turn_allocation \<Rightarrow> bool" where
  "has_credentials a \<longleftrightarrow> al_credentials a \<noteq> None"

definition matches_credentials :: "('msg, 'c, 'r) turn_allocation \<Rightarrow> string \<Rightarrow> string \<Rightarrow> bool" where
  "matches_credentials a username password = (case al_credentials a of
       None \<Rightarrow> False
     | Some c \<Rightarrow> tcr_username c = username \<and> tcr_password c = password)"

definition matches_socket :: "('msg, 'c, 'r) turn_allocation \<Rightarrow> relay_socket \<Rightarrow> bool" where
  "matches_socket a s \<longleftrightarrow> al_server a = s"

definition can_be_freed :: "('msg, 'c, 'r) turn_allocation \<Rightarrow> ('msg, 'c, 'r) turn_allocation \<times> free_reason option" where
  "can_be_freed a = (case al_explicit_failure a of
       Some reason \<Rightarrow> (a\<lparr>al_explicit_failure := None\<rparr>, Some reason)
     | None \<Rightarrow>
         (let pending_work = (al_events a \<noteq> [] \<or> al_buffered_transmits a \<noteq> [] \<or> al_sent_requests a \<noteq> []) in
          (a, if \<not> pending_work \<and> \<not> received_any_response a then Some NoResponseReceived
              else if \<not> pending_work \<and> \<not> has_credentials a then Some AuthenticationError
              else None)))"

text \<open>The sockets on the relay; \<^verbatim>\<open>debug_assert!\<close> checks their IP version.\<close>

definition ip4_socket :: "('msg, 'mi, 'c, 'r) turn_env \<Rightarrow> ('msg, 'c, 'r) turn_allocation \<Rightarrow> socket_addr option outcome" where
  "ip4_socket E a = (case al_ip4_allocation a of
       None \<Rightarrow> Done None
     | Some c \<Rightarrow> and_then (assert_that (sock_is_ipv4 (tm_candidate_addr E c))) (\<lambda>_. Done (Some (tm_candidate_addr E c))))"

definition ip6_socket :: "('msg, 'mi, 'c, 'r) turn_env \<Rightarrow> ('msg, 'c, 'r) turn_allocation \<Rightarrow> socket_addr option outcome" where
  "ip6_socket E a = (case al_ip6_allocation a of
       None \<Rightarrow> Done None
     | Some c \<Rightarrow> and_then (assert_that (\<not> sock_is_ipv4 (tm_candidate_addr E c))) (\<lambda>_. Done (Some (tm_candidate_addr E c))))"

definition has_socket :: "('msg, 'mi, 'c, 'r) turn_env \<Rightarrow> ('msg, 'c, 'r) turn_allocation \<Rightarrow> socket_addr \<Rightarrow> bool outcome" where
  "has_socket E a s =
     and_then (ip4_socket E a) (\<lambda>s4. and_then (ip6_socket E a) (\<lambda>s6. Done (s4 = Some s \<or> s6 = Some s)))"

section \<open>Changes of the allocation\<close>

definition invalidate_allocation :: "('msg, 'c, 'r) turn_allocation \<Rightarrow> ('msg, 'c, 'r) turn_allocation" where
  "invalidate_allocation a =
     a\<lparr>al_events := al_events a
         @ (case al_ip4_allocation a of None \<Rightarrow> [] | Some c \<Rightarrow> [InvalidCandidate c])
         @ (case al_ip6_allocation a of None \<Rightarrow> [] | Some c \<Rightarrow> [InvalidCandidate c]),
       al_ip4_allocation := None, al_ip6_allocation := None,
       al_channel_bindings := cbs_clear (al_channel_bindings a),
       al_allocation_lifetime := None, al_sent_requests := []\<rparr>"

text \<open>The new value of the candidate and the events that are appended.\<close>

definition update_candidate :: "'c option \<Rightarrow> 'c option \<Rightarrow> 'c option \<times> 'c allocation_event list" where
  "update_candidate maybe_new maybe_current = (case (maybe_new, maybe_current) of
       (Some new, Some current) \<Rightarrow> if new \<noteq> current then (Some new, [NewCandidate new, InvalidCandidate current]) else (maybe_current, [])
     | (Some new, None) \<Rightarrow> (Some new, [NewCandidate new])
     | _ \<Rightarrow> (maybe_current, []))"

fun find_map :: "('a \<Rightarrow> 'b option) \<Rightarrow> 'a list \<Rightarrow> 'b option" where
  "find_map f [] = None"
| "find_map f (x # xs) = (case f x of Some y \<Rightarrow> Some y | None \<Rightarrow> find_map f xs)"

definition srflx_candidate :: "('msg, 'mi, 'c, 'r) turn_env \<Rightarrow> socket_addr \<Rightarrow> 'mi attribute \<Rightarrow> 'c option" where
  "srflx_candidate E local attr = (case attr of XorMappedAddress a \<Rightarrow> tm_server_reflexive E a local | _ \<Rightarrow> None)"

definition relay_candidate :: "('msg, 'mi, 'c, 'r) turn_env \<Rightarrow> (socket_addr \<Rightarrow> bool) \<Rightarrow> 'mi attribute \<Rightarrow> 'c option" where
  "relay_candidate E P attr = (case attr of XorRelayAddress a \<Rightarrow> if \<not> P a then None else tm_relayed E a | _ \<Rightarrow> None)"

definition send_channel_bind :: "('msg, 'mi, 'c, 'r) turn_env \<Rightarrow> socket_addr \<Rightarrow> u16 \<Rightarrow> instant
    \<Rightarrow> ('msg, 'c, 'r) turn_allocation \<Rightarrow> ('msg, 'c, 'r) turn_allocation outcome" where
  "send_channel_bind E peer channel now a =
     and_then (make_channel_bind_request E peer channel (al_software a) (al_rng a)) (\<lambda>(m, r).
     and_then (authenticate_and_queue E m None now (a\<lparr>al_rng := r\<rparr>)) (\<lambda>(a, _). Done a))"

definition bind_channel :: "('msg, 'mi, 'c, 'r) turn_env \<Rightarrow> socket_addr \<Rightarrow> instant
    \<Rightarrow> ('msg, 'c, 'r) turn_allocation \<Rightarrow> ('msg, 'c, 'r) turn_allocation outcome" where
  "bind_channel E peer now a =
     (if is_suspended E a then Done a
      else if connected_channel_to_peer (al_channel_bindings a) peer now \<noteq> None then Done a
      else if channel_binding_in_flight_by_peer E a peer then Done a
      else if \<not> has_allocation a then
        Done (a\<lparr>al_buffered_channel_bindings := tm_ring_push E (al_buffered_channel_bindings a) peer\<rparr>)
      else if \<not> turn_can_relay_to a peer then Done a
      else (case new_channel_to_peer peer now (al_channel_bindings a) of
          (cbs, None) \<Rightarrow> Done (a\<lparr>al_channel_bindings := cbs\<rparr>)
        | (cbs, Some channel) \<Rightarrow> send_channel_bind E peer channel now (a\<lparr>al_channel_bindings := cbs\<rparr>)))"

definition encode_channel_data_header :: "('msg, 'mi, 'c, 'r) turn_env \<Rightarrow> socket_addr \<Rightarrow> bytes \<Rightarrow> instant
    \<Rightarrow> ('msg, 'c, 'r) turn_allocation \<Rightarrow> (('msg, 'c, 'r) turn_allocation \<times> bytes \<times> socket_addr option) outcome" where
  "encode_channel_data_header E peer buffer now a = (case al_active_socket a of
       None \<Rightarrow> Done (a, buffer, None)
     | Some s \<Rightarrow>
         and_then (assert_that (4 \<le> length buffer)) (\<lambda>_.
         case connected_channel_to_peer (al_channel_bindings a) peer now of
           None \<Rightarrow> and_then (bind_channel E peer now a) (\<lambda>a. Done (a, buffer, None))
         | Some number \<Rightarrow>
             and_then (snownet_encode_header_to_slice (take 4 buffer) number (length buffer - 4)) (\<lambda>(_, header).
             Done (a, header @ drop 4 buffer, Some (as_addr s)))))"

definition allocation_refresh :: "('msg, 'mi, 'c, 'r) turn_env \<Rightarrow> instant
    \<Rightarrow> ('msg, 'c, 'r) turn_allocation \<Rightarrow> ('msg, 'c, 'r) turn_allocation outcome" where
  "allocation_refresh E now a =
     (if \<not> has_allocation a \<and> in_flight E ALLOCATE a then Done a
      else if is_suspended E a then send_binding_requests E now (a\<lparr>al_active_socket := None\<rparr>)
      else send_request E (make_refresh_request E) now a)"

definition decapsulate :: "('msg, 'mi, 'c, 'r) turn_env \<Rightarrow> socket_addr \<Rightarrow> bytes \<Rightarrow> instant
    \<Rightarrow> ('msg, 'c, 'r) turn_allocation \<Rightarrow> (('msg, 'c, 'r) turn_allocation \<times> (socket_addr \<times> bytes \<times> socket_addr) option) outcome" where
  "decapsulate E from packet now a =
     (if \<not> relay_matches (al_server a) from then Done (a, None)
      else (case cbs_try_decode packet now (al_channel_bindings a) of
          (cbs, None) \<Rightarrow> Done (a\<lparr>al_channel_bindings := cbs\<rparr>, None)
        | (cbs, Some (peer, payload)) \<Rightarrow>
            (let a = a\<lparr>al_channel_bindings := cbs\<rparr> in
             and_then (case peer of SockV4 _ _ \<Rightarrow> ip4_socket E a | SockV6 _ _ _ _ \<Rightarrow> ip6_socket E a) (\<lambda>socket.
             Done (a, map_option (\<lambda>s. (peer, payload, s)) socket)))))"

section \<open>Responses of the relay\<close>

definition check_message_integrity :: "('msg, 'mi, 'c, 'r) turn_env \<Rightarrow> ('msg, 'c, 'r) turn_allocation \<Rightarrow> 'msg \<Rightarrow> bool" where
  "check_message_integrity E a message = (case msg_message_integrity E message of
       None \<Rightarrow> False
     | Some mi \<Rightarrow> (case al_credentials a of
         None \<Rightarrow> False
       | Some c \<Rightarrow> tm_check_long_term_credential E mi (tcr_username c) (tcr_realm c) (tcr_password c)))"

text \<open>An error that asks for other credentials: a new nonce is taken over even when the realm is refused.\<close>

definition reauthenticate :: "('msg, 'mi, 'c, 'r) turn_env \<Rightarrow> 'msg \<Rightarrow> 'msg \<Rightarrow> instant
    \<Rightarrow> ('msg, 'c, 'r) turn_allocation \<Rightarrow> ('msg, 'c, 'r) turn_allocation outcome" where
  "reauthenticate E message original_request now a = (case al_credentials a of
       None \<Rightarrow> Done a
     | Some c \<Rightarrow>
         (let c = (case msg_nonce E message of None \<Rightarrow> c | Some n \<Rightarrow> c\<lparr>tcr_nonce := Some n\<rparr>);
              a = a\<lparr>al_credentials := Some c\<rparr>
          in if (case msg_realm E message of None \<Rightarrow> False | Some offered \<Rightarrow> offered \<noteq> tcr_realm c) then Done a
             else and_then (authenticate_and_queue E original_request None now a) (\<lambda>(a, _). Done a)))"

definition handle_allocation_mismatch :: "('msg, 'mi, 'c, 'r) turn_env \<Rightarrow> 'msg \<Rightarrow> 'msg \<Rightarrow> instant
    \<Rightarrow> ('msg, 'c, 'r) turn_allocation \<Rightarrow> ('msg, 'c, 'r) turn_allocation outcome" where
  "handle_allocation_mismatch E message original_request now a =
     (let a = invalidate_allocation a in
      case tm_method E message of
        ALLOCATE \<Rightarrow> send_request E (make_delete_allocation_request E) now a
      | REFRESH \<Rightarrow> send_request E (make_allocate_request E) now a
      | CHANNEL_BIND \<Rightarrow>
          and_then (send_request E (make_allocate_request E) now a) (\<lambda>a.
          Done (case msg_xor_peer_address E original_request of
              None \<Rightarrow> a
            | Some peer \<Rightarrow> a\<lparr>al_buffered_channel_bindings := tm_ring_push E (al_buffered_channel_bindings a) peer\<rparr>))
      | _ \<Rightarrow> Done a)"

definition handle_other_error :: "('msg, 'mi, 'c, 'r) turn_env \<Rightarrow> 'msg \<Rightarrow> 'msg
    \<Rightarrow> ('msg, 'c, 'r) turn_allocation \<Rightarrow> ('msg, 'c, 'r) turn_allocation outcome" where
  "handle_other_error E message original_request a = (case tm_method E message of
       ALLOCATE \<Rightarrow> Done (a\<lparr>al_buffered_channel_bindings := []\<rparr>)
     | CHANNEL_BIND \<Rightarrow> (case (msg_channel_number E original_request, msg_xor_peer_address E original_request) of
           (Some channel, Some _) \<Rightarrow>
             and_then (handle_failed_binding channel (al_channel_bindings a)) (\<lambda>cbs. Done (a\<lparr>al_channel_bindings := cbs\<rparr>))
         | _ \<Rightarrow> Done a)
     | _ \<Rightarrow> Done a)"

definition handle_error_response :: "('msg, 'mi, 'c, 'r) turn_env \<Rightarrow> error_code \<Rightarrow> 'msg \<Rightarrow> 'msg \<Rightarrow> instant
    \<Rightarrow> ('msg, 'c, 'r) turn_allocation \<Rightarrow> ('msg, 'c, 'r) turn_allocation outcome" where
  "handle_error_response E error message original_request now a =
     (if error = Unauthorized \<and> msg_nonce E original_request \<noteq> None then
        Done (invalidate_allocation (a\<lparr>al_credentials := None\<rparr>))
      else if error = Unauthorized \<or> error = StaleNonce then reauthenticate E message original_request now a
      else if error = AllocationMismatch then handle_allocation_mismatch E message original_request now a
      else if error = UNKNOWN_ATTRIBUTE then Done (a\<lparr>al_explicit_failure := Some ProtocolFailure\<rparr>)
      else handle_other_error E message original_request a)"

definition handle_binding_success :: "('msg, 'mi, 'c, 'r) turn_env \<Rightarrow> socket_addr \<Rightarrow> socket_addr \<Rightarrow> 'msg \<Rightarrow> instant
    \<Rightarrow> ('msg, 'c, 'r) turn_allocation \<Rightarrow> ('msg, 'c, 'r) turn_allocation outcome" where
  "handle_binding_success E original_dst local message now a =
     (let new = find_map (srflx_candidate E local) (tm_attributes E message);
          a = (case original_dst of
              SockV4 _ _ \<Rightarrow> (let (c, evs) = update_candidate new (al_ip4_srflx_candidate a)
                             in a\<lparr>al_ip4_srflx_candidate := c, al_events := al_events a @ evs\<rparr>)
            | SockV6 _ _ _ _ \<Rightarrow> (let (c, evs) = update_candidate new (al_ip6_srflx_candidate a)
                             in a\<lparr>al_ip6_srflx_candidate := c, al_events := al_events a @ evs\<rparr>))
      in case al_active_socket a of
           Some _ \<Rightarrow> Done a
         | None \<Rightarrow>
             (let a = a\<lparr>al_active_socket := Some (active_socket_new original_dst now)\<rparr> in
              if has_allocation a then send_request E (make_refresh_request E) now a
              else send_request E (make_allocate_request E) now a))"

text \<open>\<^verbatim>\<open>while let Some(peer) = self.buffered_channel_bindings.dequeue()\<close>; binding a channel may buffer the peer again.\<close>

partial_function (option) bind_buffered_channels :: "('msg, 'mi, 'c, 'r) turn_env \<Rightarrow> instant
    \<Rightarrow> ('msg, 'c, 'r) turn_allocation \<Rightarrow> ('msg, 'c, 'r) turn_allocation outcome option" where
  "bind_buffered_channels E now a = (case al_buffered_channel_bindings a of
       [] \<Rightarrow> Some (Done a)
     | peer # rest \<Rightarrow>
         (case and_then (assert_that (has_allocation a)) (\<lambda>_. bind_channel E peer now (a\<lparr>al_buffered_channel_bindings := rest\<rparr>)) of
            Done a \<Rightarrow> bind_buffered_channels E now a
          | Panicked \<Rightarrow> Some Panicked
          | Diverges \<Rightarrow> Some Diverges))"

definition loop_outcome :: "'a outcome option \<Rightarrow> 'a outcome" where
  "loop_outcome x = (case x of None \<Rightarrow> Diverges | Some r \<Rightarrow> r)"

definition handle_allocate_success :: "('msg, 'mi, 'c, 'r) turn_env \<Rightarrow> 'msg \<Rightarrow> instant
    \<Rightarrow> ('msg, 'c, 'r) turn_allocation \<Rightarrow> ('msg, 'c, 'r) turn_allocation outcome" where
  "handle_allocate_success E message now a = (case msg_lifetime E message of
       None \<Rightarrow> Done a
     | Some lifetime \<Rightarrow>
         (let ip4 = find_map (relay_candidate E sock_is_ipv4) (tm_attributes E message);
              ip6 = find_map (relay_candidate E (\<lambda>s. \<not> sock_is_ipv4 s)) (tm_attributes E message)
          in if ip4 = None \<and> ip6 = None then Done a
             else
               let (c4, evs4) = update_candidate ip4 (al_ip4_allocation a);
                   (c6, evs6) = update_candidate ip6 (al_ip6_allocation a)
               in loop_outcome (bind_buffered_channels E now
                    (a\<lparr>al_allocation_lifetime := Some (now, lifetime), al_ip4_allocation := c4, al_ip6_allocation := c6,
                       al_events := al_events a @ evs4 @ evs6\<rparr>))))"

definition handle_refresh_success :: "('msg, 'mi, 'c, 'r) turn_env \<Rightarrow> 'msg \<Rightarrow> instant
    \<Rightarrow> ('msg, 'c, 'r) turn_allocation \<Rightarrow> ('msg, 'c, 'r) turn_allocation outcome" where
  "handle_refresh_success E message now a = (case msg_lifetime E message of
       None \<Rightarrow> Done a
     | Some lifetime \<Rightarrow>
         (if lifetime = 0 then send_request E (make_allocate_request E) now a
          else Done (a\<lparr>al_allocation_lifetime := Some (now, lifetime)\<rparr>)))"

definition handle_channel_bind_success :: "('msg, 'mi, 'c, 'r) turn_env \<Rightarrow> 'msg \<Rightarrow> instant
    \<Rightarrow> ('msg, 'c, 'r) turn_allocation \<Rightarrow> ('msg, 'c, 'r) turn_allocation outcome" where
  "handle_channel_bind_success E original_request now a = (case msg_channel_number E original_request of
       None \<Rightarrow> Done a
     | Some channel \<Rightarrow> Done (a\<lparr>al_channel_bindings := fst (cbs_set_confirmed channel now (al_channel_bindings a))\<rparr>))"

definition handle_response :: "('msg, 'mi, 'c, 'r) turn_env \<Rightarrow> socket_addr \<Rightarrow> 'msg \<Rightarrow> socket_addr \<Rightarrow> 'msg \<Rightarrow> instant
    \<Rightarrow> ('msg, 'c, 'r) turn_allocation \<Rightarrow> ('msg, 'c, 'r) turn_allocation outcome" where
  "handle_response E original_dst original_request local message now a = (case msg_error_code E message of
       Some error \<Rightarrow> handle_error_response E error message original_request now a
     | None \<Rightarrow>
         (if tm_class E message \<noteq> SuccessResponse then Done a
          else
            and_then (assert_that (tm_method E message = tm_method E original_request)) (\<lambda>_.
            case tm_method E message of
              BINDING \<Rightarrow> handle_binding_success E original_dst local message now a
            | ALLOCATE \<Rightarrow> handle_allocate_success E message now a
            | REFRESH \<Rightarrow> handle_refresh_success E message now a
            | CHANNEL_BIND \<Rightarrow> handle_channel_bind_success E original_request now a
            | _ \<Rightarrow> Done a)))"

text \<open>The flag says whether the packet was for this allocation.\<close>

definition allocation_handle_input :: "('msg, 'mi, 'c, 'r) turn_env \<Rightarrow> socket_addr \<Rightarrow> socket_addr \<Rightarrow> bytes \<Rightarrow> instant
    \<Rightarrow> ('msg, 'c, 'r) turn_allocation \<Rightarrow> (('msg, 'c, 'r) turn_allocation \<times> bool) outcome" where
  "allocation_handle_input E from local packet now a =
     and_then (assert_that (sock_is_ipv4 from = sock_is_ipv4 local)) (\<lambda>_.
     if \<not> relay_matches (al_server a) from then Done (a, False)
     else (case tm_decode E packet of
         None \<Rightarrow> Done (a, False)
       | Some message \<Rightarrow> (case hm_get (al_sent_requests a) (tm_tid E message) of
           None \<Rightarrow> Done (a, False)
         | Some (original_dst, original_request, backoff) \<Rightarrow>
             (if tm_method E message \<noteq> BINDING \<and> \<not> check_message_integrity E a message then Done (a, True)
              else
                let a = a\<lparr>al_sent_requests := hm_remove (tm_tid E message) (al_sent_requests a)\<rparr> in
                and_then (handle_response E original_dst original_request local message now a) (\<lambda>a. Done (a, True))))))"

section \<open>Time\<close>

text \<open>One turn of the loop over the requests that timed out.\<close>

definition retry_request :: "('msg, 'mi, 'c, 'r) turn_env \<Rightarrow> instant \<Rightarrow> transaction_id \<Rightarrow> socket_addr \<times> 'msg \<times> exponential_backoff
    \<Rightarrow> ('msg, 'c, 'r) turn_allocation \<Rightarrow> ('msg, 'c, 'r) turn_allocation outcome" where
  "retry_request E now i = (\<lambda>(dst, request, backoff) a.
     let a = a\<lparr>al_sent_requests := hm_remove i (al_sent_requests a)\<rparr>;
         backoff = backoff_handle_timeout now backoff
     in and_then (if tm_method E request \<noteq> BINDING then authenticate_and_queue E request (Some backoff) now a
                  else queue E dst request (Some backoff) now a) (\<lambda>(a, queued).
        Done (if \<not> queued \<and> (case al_active_socket a of None \<Rightarrow> False | Some s \<Rightarrow> same_ip_version_as s dst)
              then invalidate_allocation (a\<lparr>al_active_socket := None\<rparr>) else a)))"

definition timed_out_request :: "instant \<Rightarrow> ('msg, 'c, 'r) turn_allocation \<Rightarrow> (transaction_id \<times> socket_addr \<times> 'msg \<times> exponential_backoff) option" where
  "timed_out_request now a = find (\<lambda>(_, _, _, backoff). bo_next_trigger backoff \<le> now) (btree_items (al_sent_requests a))"

partial_function (option) retry_loop :: "('msg, 'mi, 'c, 'r) turn_env \<Rightarrow> instant
    \<Rightarrow> ('msg, 'c, 'r) turn_allocation \<Rightarrow> ('msg, 'c, 'r) turn_allocation outcome option" where
  "retry_loop E now a = (case timed_out_request now a of
       None \<Rightarrow> Some (Done a)
     | Some (i, r) \<Rightarrow> (case retry_request E now i r a of
           Done a \<Rightarrow> retry_loop E now a
         | Panicked \<Rightarrow> Some Panicked
         | Diverges \<Rightarrow> Some Diverges))"

definition expire_allocation :: "instant \<Rightarrow> ('msg, 'c, 'r) turn_allocation \<Rightarrow> ('msg, 'c, 'r) turn_allocation" where
  "expire_allocation now a = (case allocation_expires_at a of
       None \<Rightarrow> a
     | Some t \<Rightarrow> if t \<le> now then invalidate_allocation a else a)"

definition send_keepalive :: "('msg, 'mi, 'c, 'r) turn_env \<Rightarrow> instant
    \<Rightarrow> ('msg, 'c, 'r) turn_allocation \<Rightarrow> ('msg, 'c, 'r) turn_allocation outcome" where
  "send_keepalive E now a =
     (if has_allocation a then
        (case al_active_socket a of
           None \<Rightarrow> Done a
         | Some s \<Rightarrow> (case active_socket_handle_timeout now s of
               (s, None) \<Rightarrow> Done (a\<lparr>al_active_socket := Some s\<rparr>)
             | (s, Some addr) \<Rightarrow> queue_binding E addr now (a\<lparr>al_active_socket := Some s\<rparr>)))
      else Done a)"

definition tick_backoffs :: "instant \<Rightarrow> ('msg, 'c, 'r) turn_allocation \<Rightarrow> ('msg, 'c, 'r) turn_allocation" where
  "tick_backoffs now a =
     a\<lparr>al_sent_requests := map (\<lambda>(i, dst, r, b). (i, dst, r, backoff_handle_timeout now b)) (al_sent_requests a)\<rparr>"

definition refresh_when_due :: "('msg, 'mi, 'c, 'r) turn_env \<Rightarrow> instant
    \<Rightarrow> ('msg, 'c, 'r) turn_allocation \<Rightarrow> ('msg, 'c, 'r) turn_allocation outcome" where
  "refresh_when_due E now a = (case refresh_allocation_at a of
       None \<Rightarrow> Done a
     | Some t \<Rightarrow> if t \<le> now \<and> \<not> in_flight E REFRESH a then send_request E (make_refresh_request E) now a else Done a)"

text \<open>The messages are made first, so that all of them are due before the first of them is in flight.\<close>

definition refresh_channels :: "('msg, 'mi, 'c, 'r) turn_env \<Rightarrow> instant
    \<Rightarrow> ('msg, 'c, 'r) turn_allocation \<Rightarrow> ('msg, 'c, 'r) turn_allocation outcome" where
  "refresh_channels E now a =
     and_then (fold_outcome (\<lambda>(number, peer) (ms, r).
         and_then (make_channel_bind_request E peer number (al_software a) r) (\<lambda>(m, r). Done (ms @ [m], r)))
       (channels_to_refresh (al_channel_bindings a) now (channel_binding_in_flight_by_number E a)) ([], al_rng a)) (\<lambda>(ms, r).
     fold_outcome (\<lambda>m a. and_then (authenticate_and_queue E m None now a) (\<lambda>(a, _). Done a)) ms (a\<lparr>al_rng := r\<rparr>))"

definition allocation_handle_timeout :: "('msg, 'mi, 'c, 'r) turn_env \<Rightarrow> instant
    \<Rightarrow> ('msg, 'c, 'r) turn_allocation \<Rightarrow> ('msg, 'c, 'r) turn_allocation outcome" where
  "allocation_handle_timeout E now a =
     and_then (send_keepalive E now (expire_allocation now a)) (\<lambda>a.
     and_then (loop_outcome (retry_loop E now a)) (\<lambda>a.
     and_then (refresh_when_due E now (tick_backoffs now a)) (\<lambda>a.
     refresh_channels E now a)))"

definition allocation_poll_event :: "('msg, 'c, 'r) turn_allocation \<Rightarrow> ('msg, 'c, 'r) turn_allocation \<times> 'c allocation_event option" where
  "allocation_poll_event a = (case al_events a of [] \<Rightarrow> (a, None) | e # es \<Rightarrow> (a\<lparr>al_events := es\<rparr>, Some e))"

definition allocation_poll_transmit :: "('msg, 'c, 'r) turn_allocation \<Rightarrow> ('msg, 'c, 'r) turn_allocation \<times> transmit option" where
  "allocation_poll_transmit a = (case al_buffered_transmits a of [] \<Rightarrow> (a, None) | t # ts \<Rightarrow> (a\<lparr>al_buffered_transmits := ts\<rparr>, Some t))"

end
