(* ===== verification/Turn_Invariant.thy ===== *)
theory Turn_Invariant
  imports Turn_Allocation
begin

text \<open>
  The invariant of the TURN client, its contracts with the environment, and that requests, channels and
  changes of the allocation keep the invariant without a panic.
\<close>

section \<open>Stages of a request\<close>

text \<open>A request is sent at once and again after 1, 2.5 and 4.75 seconds; after 8.125 seconds it is given up.\<close>

definition trigger_after :: "nat \<Rightarrow> duration" where
  "trigger_after k = from_millis ([1000, 2500, 4750, 8125] ! k)"

definition interval_at :: "nat \<Rightarrow> duration" where
  "interval_at k = from_millis ([1000, 1500, 2250, 3375] ! k)"

definition backoff_at :: "instant \<Rightarrow> nat \<Rightarrow> exponential_backoff" where
  "backoff_at s k = \<lparr>bo_start_time = s, bo_next_trigger = s + trigger_after k, bo_interval = interval_at k\<rparr>"

lemma less4_cases: "(k :: nat) < 4 \<Longrightarrow> k = 0 \<or> k = 1 \<or> k = 2 \<or> k = 3"
  by auto

lemma backoff_new_at: "backoff_new now REQUEST_TIMEOUT = backoff_at now 0"
  by (simp add: backoff_new_def backoff_at_def REQUEST_TIMEOUT_def trigger_after_def interval_at_def from_secs_def from_millis_def)

lemma backoff_at_simps [simp]:
  "bo_start_time (backoff_at s k) = s" "bo_next_trigger (backoff_at s k) = s + trigger_after k"
  "backoff_is_expired (backoff_at s k) now \<longleftrightarrow> s + from_secs 8 \<le> now"
  by (simp_all add: backoff_at_def backoff_is_expired_def MAX_ELAPSED_TIME_def)

lemma backoff_at_timeout:
  assumes "k < 4"
  shows "backoff_handle_timeout now (backoff_at s k) =
     (if s + trigger_after k \<le> now \<and> now < s + from_secs 8 then backoff_at s (Suc k) else backoff_at s k)"
  using less4_cases [OF assms]
  by (elim disjE) (simp_all add: backoff_handle_timeout_def backoff_is_expired_def MAX_ELAPSED_TIME_def backoff_at_def
      scale_interval_def interval_at_def trigger_after_def from_millis_def from_secs_def)

lemma trigger_last:
  assumes "k < 4" "s + trigger_after k \<le> now" "now < s + from_secs 8"
  shows "Suc k < 4"
proof (rule ccontr)
  assume "\<not> Suc k < 4"
  with assms(1) have "k = 3" by simp
  with assms(2,3) show False by (simp add: trigger_after_def from_millis_def from_secs_def)
qed

lemma trigger_bounds:
  assumes "k < 4"
  shows "0 < trigger_after k" "trigger_after k \<le> from_millis 8125"
  using less4_cases [OF assms] by (elim disjE; simp add: trigger_after_def from_millis_def)+

section \<open>The environment\<close>

definition turn_laws :: "('msg, 'mi, 'c, 'r) turn_env \<Rightarrow> bool" where
  "turn_laws E \<longleftrightarrow>
     (\<forall>c m t. tm_attributes E (tm_new E c m t) = [] \<and> tm_class E (tm_new E c m t) = c \<and> tm_method E (tm_new E c m t) = m \<and> tm_tid E (tm_new E c m t) = t) \<and>
     (\<forall>x a. tm_attributes E (tm_add_attribute E x a) = tm_attributes E x @ [a] \<and> tm_class E (tm_add_attribute E x a) = tm_class E x \<and>
        tm_method E (tm_add_attribute E x a) = tm_method E x \<and> tm_tid E (tm_add_attribute E x a) = tm_tid E x) \<and>
     (\<forall>x. tm_encode E x \<noteq> None) \<and> (\<forall>x u r p. tm_new_long_term_credential E x u r p \<noteq> None) \<and>
     (\<forall>n. 0x4000 \<le> n \<and> n < 0x7FFF \<longrightarrow> tm_channel_number_ok E n) \<and>
     (\<forall>a c. tm_relayed E a = Some c \<longrightarrow> tm_candidate_addr E c = a)"

text \<open>The transaction ids that the generator draws next, and its state after \<open>n\<close> draws.\<close>

primrec draws :: "('msg, 'mi, 'c, 'r) turn_env \<Rightarrow> 'r \<Rightarrow> nat \<Rightarrow> transaction_id list" where
  "draws E r 0 = []"
| "draws E r (Suc n) = fst (tm_random E r) # draws E (snd (tm_random E r)) n"

primrec rng_after :: "('msg, 'mi, 'c, 'r) turn_env \<Rightarrow> 'r \<Rightarrow> nat \<Rightarrow> 'r" where
  "rng_after E r 0 = r"
| "rng_after E r (Suc n) = rng_after E (snd (tm_random E r)) n"

lemma draws_add: "draws E r (m + n) = draws E r m @ draws E (rng_after E r m) n"
  by (induction m arbitrary: r) simp_all

lemma rng_after_add: "rng_after E r (m + n) = rng_after E (rng_after E r m) n"
  by (induction m arbitrary: r) simp_all

section \<open>The invariant\<close>

definition request_ok :: "('msg, 'mi, 'c, 'r) turn_env \<Rightarrow> transaction_id \<Rightarrow> socket_addr \<times> 'msg \<times> exponential_backoff \<Rightarrow> bool" where
  "request_ok E i = (\<lambda>(dst, m, b). tm_tid E m = i \<and> (\<exists>s k. k < 4 \<and> b = backoff_at s k))"

definition requests_ok :: "('msg, 'mi, 'c, 'r) turn_env \<Rightarrow> (transaction_id, socket_addr \<times> 'msg \<times> exponential_backoff) hmap \<Rightarrow> bool" where
  "requests_ok E m \<longleftrightarrow> hm_wf m \<and> (\<forall>i r. hm_get m i = Some r \<longrightarrow> request_ok E i r)"

text \<open>Whether the client has or asks for anything that needs a socket and credentials.\<close>

definition engaged :: "('msg, 'mi, 'c, 'r) turn_env \<Rightarrow> ('msg, 'c, 'r) turn_allocation \<Rightarrow> bool" where
  "engaged E a \<longleftrightarrow> al_allocation_lifetime a \<noteq> None \<or> has_allocation a \<or>
     (\<exists>i dst m b. hm_get (al_sent_requests a) i = Some (dst, m, b) \<and> tm_method E m \<noteq> BINDING)"

definition families_ok :: "('msg, 'mi, 'c, 'r) turn_env \<Rightarrow> ('msg, 'c, 'r) turn_allocation \<Rightarrow> bool" where
  "families_ok E a \<longleftrightarrow> (\<forall>c. al_ip4_allocation a = Some c \<longrightarrow> sock_is_ipv4 (tm_candidate_addr E c)) \<and>
     (\<forall>c. al_ip6_allocation a = Some c \<longrightarrow> \<not> sock_is_ipv4 (tm_candidate_addr E c))"

definition allocation_inv :: "('msg, 'mi, 'c, 'r) turn_env \<Rightarrow> ('msg, 'c, 'r) turn_allocation \<Rightarrow> bool" where
  "allocation_inv E a \<longleftrightarrow> requests_ok E (al_sent_requests a) \<and> cbs_inv (al_channel_bindings a) \<and> families_ok E a \<and>
     (engaged E a \<longrightarrow> al_active_socket a \<noteq> None \<and> al_credentials a \<noteq> None)"

lemma allocation_invD:
  assumes "allocation_inv E a"
  shows "requests_ok E (al_sent_requests a)" "cbs_inv (al_channel_bindings a)" "families_ok E a"
    "engaged E a \<Longrightarrow> al_active_socket a \<noteq> None \<and> al_credentials a \<noteq> None"
  using assms by (auto simp: allocation_inv_def)

lemma requests_ok_insert:
  "requests_ok E m \<Longrightarrow> request_ok E i r \<Longrightarrow> requests_ok E (hm_insert i r m)"
  by (auto simp: requests_ok_def)

lemma requests_ok_remove: "requests_ok E m \<Longrightarrow> requests_ok E (hm_remove i m)"
  by (auto simp: requests_ok_def)

lemma invalidate_inv:
  assumes "cbs_inv (al_channel_bindings a)" shows "allocation_inv E (invalidate_allocation a)"
  using assms by (simp add: allocation_inv_def invalidate_allocation_def requests_ok_def families_ok_def engaged_def has_allocation_def
      cbs_clear_def cbs_inv_def)

lemma invalidate_disengaged: "\<not> engaged E (invalidate_allocation a)"
  by (simp add: engaged_def invalidate_allocation_def has_allocation_def)

section \<open>Sending\<close>

lemma tm_fold:
  assumes "turn_laws E"
  shows "tm_method E (fold (\<lambda>a m. tm_add_attribute E m a) xs m) = tm_method E m"
    "tm_tid E (fold (\<lambda>a m. tm_add_attribute E m a) xs m) = tm_tid E m"
    "tm_attributes E (fold (\<lambda>a m. tm_add_attribute E m a) xs m) = tm_attributes E m @ xs"
  using assms by (induction xs arbitrary: m) (simp_all add: turn_laws_def)

lemma authenticate_ok:
  assumes "turn_laws E"
  shows "\<exists>m' t r'. authenticate E m c r = Done (m', r') \<and> tm_random E r = (t, r') \<and> tm_tid E m' = t \<and> tm_method E m' = tm_method E m"
proof -
  obtain t r' where t: "tm_random E r = (t, r')" by fastforce
  let ?m = "fold (\<lambda>a m. tm_add_attribute E m a) (filter (\<lambda>a. kind_of a \<notin> {KNonce, KMessageIntegrity, KRealm, KUsername}) (tm_attributes E m)
     @ [Username (tcr_username c), Realm (tcr_realm c)] @ (case tcr_nonce c of None \<Rightarrow> [] | Some n \<Rightarrow> [Nonce n])) (tm_new E Request (tm_method E m) t)"
  obtain mi where "tm_new_long_term_credential E ?m (tcr_username c) (tcr_realm c) (tcr_password c) = Some mi"
    using assms unfolding turn_laws_def by blast
  then have "authenticate E m c r = Done (tm_add_attribute E ?m (MessageIntegrity mi), r')"
    by (simp add: authenticate_def t expect_def Let_def)
  moreover have "tm_tid E (tm_add_attribute E ?m (MessageIntegrity mi)) = t" "tm_method E (tm_add_attribute E ?m (MessageIntegrity mi)) = tm_method E m"
    using assms tm_fold [OF assms] by (simp_all add: turn_laws_def)
  ultimately show ?thesis using t by blast
qed

text \<open>
  What sending changes: the generator moves on, the message is among the requests and the transmits grow.
  \<open>sent_with\<close> also holds when nothing was sent.
\<close>

definition sent_with :: "('msg, 'c, 'r) turn_allocation \<Rightarrow> ('msg, 'c, 'r) turn_allocation \<Rightarrow> bool" where
  "sent_with a a' \<longleftrightarrow> a' = a\<lparr>al_sent_requests := al_sent_requests a', al_buffered_transmits := al_buffered_transmits a', al_rng := al_rng a'\<rparr>"

lemma sent_with_refl: "sent_with a a"
  by (simp add: sent_with_def)

lemma sent_withI: "sent_with a (a\<lparr>al_sent_requests := reqs, al_buffered_transmits := txs\<rparr>)" "sent_with a (a\<lparr>al_rng := r\<rparr>)"
  by (simp_all add: sent_with_def)

lemma sent_with_trans:
  assumes "sent_with a b" "sent_with b c" shows "sent_with a c"
proof -
  have "c = (a\<lparr>al_sent_requests := al_sent_requests b, al_buffered_transmits := al_buffered_transmits b, al_rng := al_rng b\<rparr>)
     \<lparr>al_sent_requests := al_sent_requests c, al_buffered_transmits := al_buffered_transmits c, al_rng := al_rng c\<rparr>"
    using assms unfolding sent_with_def by metis
  then show ?thesis unfolding sent_with_def by simp
qed

lemma sent_with_frame:
  assumes "sent_with a a'"
  shows "al_server a' = al_server a" "al_active_socket a' = al_active_socket a" "al_software a' = al_software a"
    "al_ip4_srflx_candidate a' = al_ip4_srflx_candidate a" "al_ip6_srflx_candidate a' = al_ip6_srflx_candidate a"
    "al_ip4_allocation a' = al_ip4_allocation a" "al_ip6_allocation a' = al_ip6_allocation a"
    "al_allocation_lifetime a' = al_allocation_lifetime a" "al_events a' = al_events a"
    "al_channel_bindings a' = al_channel_bindings a" "al_buffered_channel_bindings a' = al_buffered_channel_bindings a"
    "al_credentials a' = al_credentials a" "al_explicit_failure a' = al_explicit_failure a" "has_allocation a' = has_allocation a"
  unfolding has_allocation_def by (subst assms [unfolded sent_with_def], simp)+

lemma queue_ok:
  assumes E: "turn_laws E" and inv: "allocation_inv E a" and k: "k < 4"
    and eng: "tm_method E m \<noteq> BINDING \<Longrightarrow> al_active_socket a \<noteq> None \<and> al_credentials a \<noteq> None"
    and bo: "(case bo of None \<Rightarrow> backoff_new now REQUEST_TIMEOUT | Some b \<Rightarrow> b) = backoff_at s k"
  shows "\<exists>a'. queue E dst m bo now a = Done (a', now < s + from_secs 8) \<and> allocation_inv E a' \<and> sent_with a a' \<and> al_rng a' = al_rng a \<and>
     al_sent_requests a' = (if now < s + from_secs 8 then hm_insert (tm_tid E m) (dst, m, backoff_at s k) (al_sent_requests a) else al_sent_requests a)"
proof (cases "now < s + from_secs 8")
  case False
  then show ?thesis using bo inv sent_with_refl by (simp add: queue_def Let_def)
next
  case True
  obtain p where p: "tm_encode E m = Some p" using E unfolding turn_laws_def by blast
  let ?a = "a\<lparr>al_sent_requests := hm_insert (tm_tid E m) (dst, m, backoff_at s k) (al_sent_requests a),
     al_buffered_transmits := al_buffered_transmits a @ [\<lparr>tx_src = None, tx_dst = dst, tx_payload = p\<rparr>]\<rparr>"
  have run: "queue E dst m bo now a = Done (?a, True)" using True bo p by (simp add: queue_def Let_def expect_def)
  have rq: "request_ok E (tm_tid E m) (dst, m, backoff_at s k)" using k by (auto simp: request_ok_def)
  have req: "requests_ok E (al_sent_requests ?a)"
    using requests_ok_insert [OF allocation_invD(1) [OF inv] rq] by simp
  have "al_active_socket a \<noteq> None \<and> al_credentials a \<noteq> None" if "engaged E ?a"
  proof (cases "engaged E a \<or> tm_method E m \<noteq> BINDING")
    case True
    then show ?thesis using allocation_invD(4) [OF inv] eng by blast
  next
    case False
    with that show ?thesis by (auto simp: engaged_def has_allocation_def split: if_splits)
  qed
  then have "allocation_inv E ?a" using req allocation_invD(2,3) [OF inv]
    by (simp add: allocation_inv_def families_ok_def)
  moreover have "sent_with a ?a" by (rule sent_withI)
  ultimately show ?thesis using run True by auto
qed

lemma rng_inv: "allocation_inv E (a\<lparr>al_rng := r\<rparr>) = allocation_inv E a"
  by (simp add: allocation_inv_def families_ok_def engaged_def has_allocation_def)

lemma authenticate_and_queue_ok:
  assumes E: "turn_laws E" and inv: "allocation_inv E a" and k: "k < 4"
    and bo: "(case bo of None \<Rightarrow> backoff_new now REQUEST_TIMEOUT | Some b \<Rightarrow> b) = backoff_at s k"
  shows "\<exists>a' q. authenticate_and_queue E m bo now a = Done (a', q) \<and> allocation_inv E a' \<and> sent_with a a' \<and>
     (q \<longleftrightarrow> al_active_socket a \<noteq> None \<and> al_credentials a \<noteq> None \<and> now < s + from_secs 8) \<and>
     al_rng a' = (if al_active_socket a \<noteq> None \<and> al_credentials a \<noteq> None then snd (tm_random E (al_rng a)) else al_rng a) \<and>
     (if q then \<exists>dst m'. tm_method E m' = tm_method E m \<and>
        al_sent_requests a' = hm_insert (fst (tm_random E (al_rng a))) (dst, m', backoff_at s k) (al_sent_requests a)
      else al_sent_requests a' = al_sent_requests a)"
proof (cases "al_active_socket a \<noteq> None \<and> al_credentials a \<noteq> None")
  case False
  then have "authenticate_and_queue E m bo now a = Done (a, False)" by (auto simp: authenticate_and_queue_def split: option.splits)
  then show ?thesis unfolding if_not_P [OF False] using inv sent_with_refl [of a] False by (intro exI [of _ a] exI [of _ False]) auto
next
  case True
  then obtain so c where so: "al_active_socket a = Some so" "al_credentials a = Some c" by blast
  obtain m' t r' where m': "authenticate E m c (al_rng a) = Done (m', r')" "tm_random E (al_rng a) = (t, r')" "tm_tid E m' = t" "tm_method E m' = tm_method E m"
    using authenticate_ok [OF E] by blast
  have inv': "allocation_inv E (a\<lparr>al_rng := r'\<rparr>)" using inv by (simp add: rng_inv)
  have sc: "al_active_socket (a\<lparr>al_rng := r'\<rparr>) \<noteq> None \<and> al_credentials (a\<lparr>al_rng := r'\<rparr>) \<noteq> None" using so by simp
  obtain a' where a': "queue E (as_addr so) m' bo now (a\<lparr>al_rng := r'\<rparr>) = Done (a', now < s + from_secs 8)" "allocation_inv E a'" "sent_with (a\<lparr>al_rng := r'\<rparr>) a'"
    "al_rng a' = al_rng (a\<lparr>al_rng := r'\<rparr>)"
    "al_sent_requests a' = (if now < s + from_secs 8 then hm_insert (tm_tid E m') (as_addr so, m', backoff_at s k) (al_sent_requests (a\<lparr>al_rng := r'\<rparr>))
      else al_sent_requests (a\<lparr>al_rng := r'\<rparr>))"
    using queue_ok [OF E inv' k sc bo, of "as_addr so"] by blast
  have r1: "authenticate_and_queue E m bo now a = Done (a', now < s + from_secs 8)"
    using so m'(1) a'(1) by (simp add: authenticate_and_queue_def)
  have r2: "sent_with a a'" by (rule sent_with_trans [OF sent_withI(2) a'(3)])
  have r3: "if now < s + from_secs 8 then \<exists>dst m'. tm_method E m' = tm_method E m \<and>
        al_sent_requests a' = hm_insert (fst (tm_random E (al_rng a))) (dst, m', backoff_at s k) (al_sent_requests a)
      else al_sent_requests a' = al_sent_requests a"
  proof (cases "now < s + from_secs 8")
    case True
    then have "al_sent_requests a' = hm_insert (fst (tm_random E (al_rng a))) (as_addr so, m', backoff_at s k) (al_sent_requests a)" using a'(5) m'(2,3) by simp
    then show ?thesis unfolding if_P [OF True] using m'(4) by blast
  qed (simp add: a'(5))
  have r4: "al_rng a' = (if al_active_socket a \<noteq> None \<and> al_credentials a \<noteq> None then snd (tm_random E (al_rng a)) else al_rng a)"
    using True a'(4) m'(2) by simp
  have r5: "now < s + from_secs 8 \<longleftrightarrow> al_active_socket a \<noteq> None \<and> al_credentials a \<noteq> None \<and> now < s + from_secs 8" using True by blast
  show ?thesis by (rule exI [of _ a'], rule exI [of _ "now < s + from_secs 8"], intro conjI) (fact r1 a'(2) r2 r5 r4 r3)+
qed

text \<open>
  \<open>extends E now c a a'\<close>: from \<open>a\<close> to \<open>a'\<close> at most \<open>c\<close> ids were drawn, requests were added under them only, and they
  were sent for the first time. A request in flight whose id is drawn again is lost.
\<close>

definition extends :: "('msg, 'mi, 'c, 'r) turn_env \<Rightarrow> instant \<Rightarrow> nat \<Rightarrow> ('msg, 'c, 'r) turn_allocation \<Rightarrow> ('msg, 'c, 'r) turn_allocation \<Rightarrow> bool" where
  "extends E now c a a' \<longleftrightarrow> sent_with a a' \<and> (\<exists>j\<le>c. al_rng a' = rng_after E (al_rng a) j \<and>
     (\<forall>i. hm_get (al_sent_requests a') i = hm_get (al_sent_requests a) i \<or>
        i \<in> set (draws E (al_rng a) j) \<and> (\<exists>dst m. hm_get (al_sent_requests a') i = Some (dst, m, backoff_at now 0))))"

lemma extendsD:
  assumes "extends E now c a a'"
  shows "sent_with a a'"
    "hm_get (al_sent_requests a') i = Some (dst, m, b) \<Longrightarrow> hm_get (al_sent_requests a) i = Some (dst, m, b) \<or> b = backoff_at now 0"
  using assms unfolding extends_def by (blast, metis option.inject prod.inject)

lemma extends_refl: "extends E now c a a"
  unfolding extends_def using sent_with_refl by (auto intro!: exI [of _ 0])

lemma extends_trans:
  assumes "extends E now c a a1" "extends E now d a1 a2" shows "extends E now (c + d) a a2"
proof -
  obtain j where j: "j \<le> c" "al_rng a1 = rng_after E (al_rng a) j" "\<And>i. hm_get (al_sent_requests a1) i = hm_get (al_sent_requests a) i \<or>
        i \<in> set (draws E (al_rng a) j) \<and> (\<exists>dst m. hm_get (al_sent_requests a1) i = Some (dst, m, backoff_at now 0))"
    using assms(1) unfolding extends_def by blast
  obtain l where l: "l \<le> d" "al_rng a2 = rng_after E (al_rng a1) l" "\<And>i. hm_get (al_sent_requests a2) i = hm_get (al_sent_requests a1) i \<or>
        i \<in> set (draws E (al_rng a1) l) \<and> (\<exists>dst m. hm_get (al_sent_requests a2) i = Some (dst, m, backoff_at now 0))"
    using assms(2) unfolding extends_def by blast
  have "al_rng a2 = rng_after E (al_rng a) (j + l)" "j + l \<le> c + d" using j(1,2) l(1,2) by (simp_all add: rng_after_add)
  moreover have "hm_get (al_sent_requests a2) i = hm_get (al_sent_requests a) i \<or>
        i \<in> set (draws E (al_rng a) (j + l)) \<and> (\<exists>dst m. hm_get (al_sent_requests a2) i = Some (dst, m, backoff_at now 0))" for i
    using j(2) j(3) [of i] l(3) [of i] unfolding draws_add set_append by (metis UnI1 UnI2)
  ultimately show ?thesis using sent_with_trans assms unfolding extends_def by blast
qed

lemma extends_insert:
  assumes "sent_with a a'" "al_rng a' = snd (tm_random E (al_rng a))"
    "al_sent_requests a' = hm_insert (fst (tm_random E (al_rng a))) (dst, m, backoff_at now 0) (al_sent_requests a)"
  shows "extends E now 1 a a'"
  unfolding extends_def using assms by (auto intro!: exI [of _ "Suc 0"])

lemma authenticate_and_queue_extends:
  assumes "turn_laws E" "allocation_inv E a"
  shows "\<exists>a' q. authenticate_and_queue E m None now a = Done (a', q) \<and> allocation_inv E a' \<and> extends E now 1 a a' \<and>
     (al_active_socket a \<noteq> None \<and> al_credentials a \<noteq> None \<longrightarrow>
        (\<exists>i dst m'. hm_get (al_sent_requests a') i = Some (dst, m', backoff_at now 0) \<and> tm_method E m' = tm_method E m))"
proof -
  have lt: "now < now + from_secs 8" by (simp add: from_secs_def)
  obtain a' q where a': "authenticate_and_queue E m None now a = Done (a', q)" "allocation_inv E a'" "sent_with a a'"
    "q \<longleftrightarrow> al_active_socket a \<noteq> None \<and> al_credentials a \<noteq> None"
    "al_rng a' = (if al_active_socket a \<noteq> None \<and> al_credentials a \<noteq> None then snd (tm_random E (al_rng a)) else al_rng a)"
    and R: "if q then \<exists>dst m'. tm_method E m' = tm_method E m \<and>
        al_sent_requests a' = hm_insert (fst (tm_random E (al_rng a))) (dst, m', backoff_at now 0) (al_sent_requests a)
      else al_sent_requests a' = al_sent_requests a"
    using authenticate_and_queue_ok [OF assms, where k = 0 and bo = None and s = now and now = now and m = m] lt
    by (simp only: option.case backoff_new_at simp_thms zero_less_numeral) blast
  show ?thesis
  proof (cases q)
    case True
    with R obtain dst m' where t: "tm_method E m' = tm_method E m"
      "al_sent_requests a' = hm_insert (fst (tm_random E (al_rng a))) (dst, m', backoff_at now 0) (al_sent_requests a)" by auto
    have "hm_get (al_sent_requests a') (fst (tm_random E (al_rng a))) = Some (dst, m', backoff_at now 0)" using t(2) by simp
    moreover have "al_rng a' = snd (tm_random E (al_rng a))" using a'(4,5) True by simp
    ultimately show ?thesis using a'(1,2) t(1) extends_insert [OF a'(3) _ t(2)] by blast
  next
    case False
    with R a'(4,5) have "extends E now 1 a a'" using a'(3) by (auto simp: extends_def intro!: exI [of _ 0])
    with False a' show ?thesis by blast
  qed
qed

lemma random_extends: "extends E now 1 a (a\<lparr>al_rng := snd (tm_random E (al_rng a))\<rparr>)"
  unfolding extends_def using sent_withI(2) by (auto intro!: exI [of _ "Suc 0"])

lemma send_request_ok:
  assumes E: "turn_laws E" and inv: "allocation_inv E a"
    and mk: "mk (al_software a) (al_rng a) = (m, snd (tm_random E (al_rng a)))"
  shows "\<exists>a'. send_request E mk now a = Done a' \<and> allocation_inv E a' \<and> extends E now 2 a a' \<and>
     (al_active_socket a \<noteq> None \<and> al_credentials a \<noteq> None \<longrightarrow>
        (\<exists>i dst m'. hm_get (al_sent_requests a') i = Some (dst, m', backoff_at now 0) \<and> tm_method E m' = tm_method E m))"
proof -
  let ?a = "a\<lparr>al_rng := snd (tm_random E (al_rng a))\<rparr>"
  have inv': "allocation_inv E ?a" using inv by (simp add: rng_inv)
  obtain a' q where a': "authenticate_and_queue E m None now ?a = Done (a', q)" "allocation_inv E a'" "extends E now 1 ?a a'"
    "al_active_socket ?a \<noteq> None \<and> al_credentials ?a \<noteq> None \<longrightarrow>
        (\<exists>i dst m'. hm_get (al_sent_requests a') i = Some (dst, m', backoff_at now 0) \<and> tm_method E m' = tm_method E m)"
    using authenticate_and_queue_extends [OF E inv', of m now] by blast
  have "extends E now 2 a a'" using extends_trans [OF random_extends a'(3)] by (simp add: numeral_2_eq_2)
  then show ?thesis using a'(1,2,4) mk by (simp add: send_request_def)
qed

lemma make_requests:
  assumes "turn_laws E"
  shows "\<exists>m. make_refresh_request E s r = (m, snd (tm_random E r)) \<and> tm_method E m = REFRESH"
    "\<exists>m. make_allocate_request E s r = (m, snd (tm_random E r)) \<and> tm_method E m = ALLOCATE"
    "\<exists>m. make_delete_allocation_request E s r = (m, snd (tm_random E r)) \<and> tm_method E m = REFRESH"
    "\<exists>m. make_binding_request E s r = (m, snd (tm_random E r)) \<and> tm_method E m = BINDING \<and> tm_tid E m = fst (tm_random E r)"
  using assms by (simp_all add: make_refresh_request_def make_allocate_request_def make_delete_allocation_request_def
      make_binding_request_def turn_laws_def split: prod.split)

lemma make_channel_bind:
  assumes "turn_laws E" "channel_range n"
  shows "\<exists>m. make_channel_bind_request E peer n s r = Done (m, snd (tm_random E r)) \<and> tm_method E m = CHANNEL_BIND"
proof -
  have "0x4000 \<le> n \<and> n < 0x7FFF" using assms(2) by (auto simp: channel_range_def FIRST_CHANNEL_def LAST_CHANNEL_def word_le_nat_alt word_less_nat_alt)
  then have "tm_channel_number_ok E n" using assms(1) by (simp add: turn_laws_def)
  then show ?thesis using assms(1) by (simp add: make_channel_bind_request_def turn_laws_def assert_that_def split: prod.split)
qed

lemma queue_binding_ok:
  assumes E: "turn_laws E" and inv: "allocation_inv E a"
  shows "\<exists>a' m. queue_binding E dst now a = Done a' \<and> allocation_inv E a' \<and> extends E now 1 a a' \<and> tm_method E m = BINDING \<and>
     al_sent_requests a' = hm_insert (fst (tm_random E (al_rng a))) (dst, m, backoff_at now 0) (al_sent_requests a)"
proof -
  let ?a = "a\<lparr>al_rng := snd (tm_random E (al_rng a))\<rparr>"
  obtain m where m: "make_binding_request E (al_software a) (al_rng a) = (m, snd (tm_random E (al_rng a)))" "tm_method E m = BINDING" "tm_tid E m = fst (tm_random E (al_rng a))"
    using make_requests(4) [OF E] by blast
  have lt: "now < now + from_secs 8" by (simp add: from_secs_def)
  have inv': "allocation_inv E ?a" using inv by (simp add: rng_inv)
  obtain a' where a': "queue E dst m None now ?a = Done (a', True)" "allocation_inv E a'" "sent_with ?a a'" "al_rng a' = snd (tm_random E (al_rng a))"
    "al_sent_requests a' = hm_insert (fst (tm_random E (al_rng a))) (dst, m, backoff_at now 0) (al_sent_requests a)"
    using queue_ok [OF E inv', where k = 0 and m = m and bo = None and s = now and now = now and dst = dst] backoff_new_at lt m(2,3) by auto
  have "extends E now 1 a a'" by (rule extends_insert [OF sent_with_trans [OF sent_withI(2) a'(3)] a'(4,5)])
  then show ?thesis using a'(1,2,5) m(1,2) by (auto simp: queue_binding_def)
qed

end
