(* ===== verification/Turn_Timeout.thy ===== *)
theory Turn_Timeout
  imports Turn_Invariant
begin

text \<open>
  Time in the TURN client: the loop over the requests that timed out ends, every timeout returns and keeps
  the invariant, and after it nothing is due.
\<close>

section \<open>The loop over the requests\<close>

text \<open>How often a request can still time out.\<close>

definition turns_left :: "exponential_backoff \<Rightarrow> nat" where
  "turns_left b = (if bo_interval b = interval_at 0 then 4 else if bo_interval b = interval_at 1 then 3
     else if bo_interval b = interval_at 2 then 2 else 1)"

definition loop_turns :: "(transaction_id, socket_addr \<times> 'msg \<times> exponential_backoff) hmap \<Rightarrow> nat" where
  "loop_turns m = (\<Sum>i\<in>dom (hm_get m). turns_left (snd (snd (the (hm_get m i)))))"

lemma turns_left_at: "k < 4 \<Longrightarrow> turns_left (backoff_at s k) = 4 - k"
  by (drule less4_cases) (auto simp: turns_left_def backoff_at_def interval_at_def from_millis_def)

lemma loop_turns_remove:
  assumes "hm_wf m" "hm_get m i = Some (dst, r, b)"
  shows "loop_turns m = turns_left b + loop_turns (hm_remove i m)"
proof -
  have d: "dom (hm_get m) = insert i (dom (hm_get (hm_remove i m)))" "i \<notin> dom (hm_get (hm_remove i m))"
    using assms by (auto split: if_splits)
  have "loop_turns m = turns_left b + (\<Sum>j\<in>dom (hm_get (hm_remove i m)). turns_left (snd (snd (the (hm_get m j)))))"
    unfolding loop_turns_def d(1) using d(2) assms(2) by (subst sum.insert) (simp_all add: hm.finite_dom)
  also have "(\<Sum>j\<in>dom (hm_get (hm_remove i m)). turns_left (snd (snd (the (hm_get m j))))) = loop_turns (hm_remove i m)"
    unfolding loop_turns_def by (rule sum.cong) (use assms d(2) in \<open>auto split: if_splits\<close>)
  finally show ?thesis .
qed

lemma loop_turns_empty: "loop_turns [] = 0"
  by (auto simp: loop_turns_def dom_def)

lemma turns_left_bounds: "0 < turns_left b" "turns_left b \<le> 4"
  by (simp_all add: turns_left_def)

lemma loop_turns_insert:
  assumes "hm_wf m" shows "loop_turns (hm_insert i (dst, r, b) m) \<le> turns_left b + loop_turns m"
proof -
  let ?m = "hm_insert i (dst, r, b) m"
  have d: "dom (hm_get ?m) = insert i (dom (hm_get m) - {i})" by (auto split: if_splits)
  have "loop_turns ?m = turns_left b + (\<Sum>j\<in>dom (hm_get m) - {i}. turns_left (snd (snd (the (hm_get ?m j)))))"
    unfolding loop_turns_def d by (subst sum.insert) (simp_all add: hm.finite_dom)
  also have "(\<Sum>j\<in>dom (hm_get m) - {i}. turns_left (snd (snd (the (hm_get ?m j))))) = (\<Sum>j\<in>dom (hm_get m) - {i}. turns_left (snd (snd (the (hm_get m j)))))"
    by (rule sum.cong) auto
  also have "\<dots> \<le> loop_turns m" unfolding loop_turns_def by (rule sum_mono2) (auto simp: hm.finite_dom)
  finally show ?thesis by simp
qed

lemma loop_turns_length: "loop_turns m \<le> 4 * length m"
proof -
  have "loop_turns m \<le> 4 * card (dom (hm_get m))"
    using sum_bounded_above [of "dom (hm_get m)" "\<lambda>i. turns_left (snd (snd (the (hm_get m i))))" 4] turns_left_bounds(2)
    by (simp add: loop_turns_def mult.commute)
  also have "card (dom (hm_get m)) \<le> length m"
    unfolding hm_get_def dom_map_of_conv_image_fst using card_image_le [of "set m" fst] card_length [of m] by simp
  finally show ?thesis by simp
qed

lemma engaged_mono:
  assumes "engaged E a'" "al_allocation_lifetime a' = al_allocation_lifetime a" "has_allocation a' = has_allocation a"
    "\<And>i x. hm_get (al_sent_requests a') i = Some x \<Longrightarrow> hm_get (al_sent_requests a) i = Some x"
  shows "engaged E a"
  using assms unfolding engaged_def by metis

lemma remove_request_inv:
  assumes "allocation_inv E a"
  shows "allocation_inv E (a\<lparr>al_sent_requests := hm_remove i (al_sent_requests a)\<rparr>)"
proof -
  have wf: "hm_wf (al_sent_requests a)" using allocation_invD(1) [OF assms] by (simp add: requests_ok_def)
  have "engaged E a" if "engaged E (a\<lparr>al_sent_requests := hm_remove i (al_sent_requests a)\<rparr>)"
    by (rule engaged_mono [OF that]) (use wf in \<open>auto simp: has_allocation_def split: if_splits\<close>)
  then have "engaged E (a\<lparr>al_sent_requests := hm_remove i (al_sent_requests a)\<rparr>) \<Longrightarrow> al_active_socket a \<noteq> None \<and> al_credentials a \<noteq> None"
    using allocation_invD(4) [OF assms] by blast
  then show ?thesis using allocation_invD(2,3) [OF assms] requests_ok_remove [OF allocation_invD(1) [OF assms]]
    by (simp add: allocation_inv_def families_ok_def)
qed

text \<open>At most \<open>c\<close> ids were drawn, and every request that is new has one of them.\<close>

definition drawn :: "('msg, 'mi, 'c, 'r) turn_env \<Rightarrow> nat \<Rightarrow> ('msg, 'c, 'r) turn_allocation \<Rightarrow> ('msg, 'c, 'r) turn_allocation \<Rightarrow> bool" where
  "drawn E c a a' \<longleftrightarrow> (\<exists>j\<le>c. al_rng a' = rng_after E (al_rng a) j \<and>
     dom (hm_get (al_sent_requests a')) \<subseteq> dom (hm_get (al_sent_requests a)) \<union> set (draws E (al_rng a) j))"

lemma drawn_trans:
  assumes "drawn E c a a1" "drawn E d a1 a2" "c + d \<le> e" shows "drawn E e a a2"
proof -
  obtain j where j: "j \<le> c" "al_rng a1 = rng_after E (al_rng a) j"
    "dom (hm_get (al_sent_requests a1)) \<subseteq> dom (hm_get (al_sent_requests a)) \<union> set (draws E (al_rng a) j)" using assms(1) unfolding drawn_def by blast
  obtain l where l: "l \<le> d" "al_rng a2 = rng_after E (al_rng a1) l"
    "dom (hm_get (al_sent_requests a2)) \<subseteq> dom (hm_get (al_sent_requests a1)) \<union> set (draws E (al_rng a1) l)" using assms(2) unfolding drawn_def by blast
  have "j + l \<le> e" "al_rng a2 = rng_after E (al_rng a) (j + l)" using j(1,2) l(1,2) assms(3) by (simp_all add: rng_after_add)
  moreover have "dom (hm_get (al_sent_requests a2)) \<subseteq> dom (hm_get (al_sent_requests a)) \<union> set (draws E (al_rng a) (j + l))"
    using j(3) l(3) unfolding j(2) draws_add set_append by blast
  ultimately show ?thesis unfolding drawn_def by blast
qed

lemma drawn_less: "dom (hm_get (al_sent_requests a')) \<subseteq> dom (hm_get (al_sent_requests a)) \<Longrightarrow> al_rng a' = al_rng a \<Longrightarrow> drawn E c a a'"
  unfolding drawn_def by (rule exI [of _ 0]) auto

lemma extends_mono: "extends E now c a a' \<Longrightarrow> c \<le> d \<Longrightarrow> extends E now d a a'"
  unfolding extends_def using order.trans by blast

lemma extends_drawn: "extends E now c a a' \<Longrightarrow> drawn E c a a'"
  unfolding extends_def drawn_def by (elim conjE exE) (rule exI, auto simp: subset_iff, metis)

text \<open>What a timeout leaves of the allocation: an allocation that is still there has its socket, and no channel was added.\<close>

definition keeps_socket :: "('msg, 'c, 'r) turn_allocation \<Rightarrow> ('msg, 'c, 'r) turn_allocation \<Rightarrow> bool" where
  "keeps_socket a a' \<longleftrightarrow> (has_allocation a' \<longrightarrow> has_allocation a \<and> al_active_socket a' = al_active_socket a) \<and>
     length (cbs_inner (al_channel_bindings a')) \<le> length (cbs_inner (al_channel_bindings a))"

lemma keeps_socket_trans: "keeps_socket a b \<Longrightarrow> keeps_socket b c \<Longrightarrow> keeps_socket a c"
  by (auto simp: keeps_socket_def)

lemma requests_okD:
  assumes "requests_ok E R" "hm_get R i = Some (dst, m, b)"
  shows "tm_tid E m = i" "\<exists>s k. k < 4 \<and> b = backoff_at s k"
proof -
  have "request_ok E i (dst, m, b)" using assms unfolding requests_ok_def by blast
  then show "tm_tid E m = i" "\<exists>s k. k < 4 \<and> b = backoff_at s k" by (simp_all add: request_ok_def)
qed

lemma timed_out_some:
  assumes "allocation_inv E a" "timed_out_request now a = Some (i, dst, m, b)"
  shows "hm_get (al_sent_requests a) i = Some (dst, m, b)" "\<exists>s k. k < 4 \<and> b = backoff_at s k \<and> s + trigger_after k \<le> now"
proof -
  have ok: "requests_ok E (al_sent_requests a)" using allocation_invD(1) [OF assms(1)] .
  have "(i, dst, m, b) \<in> set (al_sent_requests a)" "bo_next_trigger b \<le> now"
    using btree_items_find [OF assms(2) [unfolded timed_out_request_def]] by simp_all
  moreover from this(1) show g: "hm_get (al_sent_requests a) i = Some (dst, m, b)" using ok by (simp add: requests_ok_def hm_in_set_iff)
  moreover obtain s k where "k < 4" "b = backoff_at s k" using requests_okD(2) [OF ok g] by blast
  ultimately show "\<exists>s k. k < 4 \<and> b = backoff_at s k \<and> s + trigger_after k \<le> now" by auto
qed

lemma timed_out_none:
  assumes "timed_out_request now a = None" "hm_get (al_sent_requests a) i = Some (dst, m, b)"
  shows "now < bo_next_trigger b"
proof -
  have "\<not> bo_next_trigger b \<le> now"
    using assms(1) hm_get_in_set [OF assms(2)] unfolding timed_out_request_def find_None_iff btree_items_def by auto
  then show ?thesis by simp
qed

text \<open>A request that timed out is sent again at its next stage, or it is dropped.\<close>

lemma resend_ok:
  assumes E: "turn_laws E" and inv: "allocation_inv E a" and g: "hm_get (al_sent_requests a) i = Some (dst, m, backoff_at s k)"
    and k: "k < 4" and due: "s + trigger_after k \<le> now"
  defines "R \<equiv> hm_remove i (al_sent_requests a)"
  shows "\<exists>a' q. (if tm_method E m \<noteq> BINDING then authenticate_and_queue E m (Some (backoff_handle_timeout now (backoff_at s k))) now (a\<lparr>al_sent_requests := R\<rparr>)
      else queue E dst m (Some (backoff_handle_timeout now (backoff_at s k))) now (a\<lparr>al_sent_requests := R\<rparr>)) = Done (a', q) \<and>
     allocation_inv E a' \<and> sent_with (a\<lparr>al_sent_requests := R\<rparr>) a' \<and>
     (if q then now < s + from_secs 8 \<and> (\<exists>t d m'. al_sent_requests a' = hm_insert t (d, m', backoff_at s (Suc k)) R \<and>
          (if tm_method E m = BINDING then t = i \<and> d = dst \<and> m' = m else t = fst (tm_random E (al_rng a))))
      else al_sent_requests a' = R \<and> (tm_method E m = BINDING \<longrightarrow> \<not> now < s + from_secs 8)) \<and>
     (q \<longrightarrow> tm_method E m \<noteq> BINDING \<longrightarrow> al_active_socket a \<noteq> None \<and> al_credentials a \<noteq> None) \<and>
     (if tm_method E m \<noteq> BINDING \<and> al_active_socket a \<noteq> None \<and> al_credentials a \<noteq> None
      then al_rng a' = snd (tm_random E (al_rng a)) else al_rng a' = al_rng a)"
proof -
  let ?a = "a\<lparr>al_sent_requests := R\<rparr>"
  have wf: "hm_wf (al_sent_requests a)" using allocation_invD(1) [OF inv] by (simp add: requests_ok_def)
  have inv': "allocation_inv E ?a" unfolding R_def by (rule remove_request_inv [OF inv])
  have R: "al_sent_requests ?a = R" by simp
  define k' where "k' = (if now < s + from_secs 8 then Suc k else k)"
  have b: "backoff_handle_timeout now (backoff_at s k) = backoff_at s k'" using backoff_at_timeout [OF k] due by (simp add: k'_def)
  have k': "k' < 4" using trigger_last [OF k due] k by (simp add: k'_def)
  have bo: "(case Some (backoff_at s k') of None \<Rightarrow> backoff_new now REQUEST_TIMEOUT | Some b \<Rightarrow> b) = backoff_at s k'" by simp
  have tid: "tm_tid E m = i" using requests_okD(1) [OF allocation_invD(1) [OF inv] g] .
  show ?thesis
  proof (cases "tm_method E m = BINDING")
    case True
    have eng: "tm_method E m \<noteq> BINDING \<Longrightarrow> al_active_socket ?a \<noteq> None \<and> al_credentials ?a \<noteq> None" using True by contradiction
    obtain a' where a': "queue E dst m (Some (backoff_at s k')) now ?a = Done (a', now < s + from_secs 8)" "allocation_inv E a'" "sent_with ?a a'" "al_rng a' = al_rng ?a"
      "al_sent_requests a' = (if now < s + from_secs 8 then hm_insert (tm_tid E m) (dst, m, backoff_at s k') (al_sent_requests ?a) else al_sent_requests ?a)"
      using queue_ok [OF E inv' k' eng bo, where dst = dst] by blast
    show ?thesis unfolding b using a' True tid by (intro exI [of _ a'] exI [of _ "now < s + from_secs 8"]) (simp add: k'_def)
  next
    case False
    obtain a' q where a': "authenticate_and_queue E m (Some (backoff_at s k')) now ?a = Done (a', q)" "allocation_inv E a'" "sent_with ?a a'"
      "q \<longleftrightarrow> al_active_socket ?a \<noteq> None \<and> al_credentials ?a \<noteq> None \<and> now < s + from_secs 8"
      "al_rng a' = (if al_active_socket ?a \<noteq> None \<and> al_credentials ?a \<noteq> None then snd (tm_random E (al_rng ?a)) else al_rng ?a)"
      "if q then \<exists>dst m'. tm_method E m' = tm_method E m \<and>
         al_sent_requests a' = hm_insert (fst (tm_random E (al_rng ?a))) (dst, m', backoff_at s k') (al_sent_requests ?a)
       else al_sent_requests a' = al_sent_requests ?a"
      using authenticate_and_queue_ok [OF E inv' k' bo, where m = m] by blast
    have "if q then now < s + from_secs 8 \<and> (\<exists>t d m'. al_sent_requests a' = hm_insert t (d, m', backoff_at s (Suc k)) R \<and> t = fst (tm_random E (al_rng a)))
      else al_sent_requests a' = R"
    proof (cases q)
      case True
      then have "now < s + from_secs 8" using a'(4) by blast
      moreover obtain d m' where "al_sent_requests a' = hm_insert (fst (tm_random E (al_rng ?a))) (d, m', backoff_at s k') (al_sent_requests ?a)" using a'(6) True by auto
      ultimately show ?thesis using True by (auto simp: k'_def)
    qed (use a'(6) in simp)
    moreover have "q \<longrightarrow> al_active_socket a \<noteq> None \<and> al_credentials a \<noteq> None" using a'(4) by simp
    ultimately show ?thesis unfolding b using a'(1,2,3,5) False by (intro exI [of _ a'] exI [of _ q]) (cases q; auto)
  qed
qed

lemma retry_drawn:
  assumes wf: "hm_wf (al_sent_requests a)" and get: "hm_get (al_sent_requests a) i = Some x"
    and q: "if q then B \<and> (\<exists>t d m'. al_sent_requests a1 = hm_insert t (d, m', b) (hm_remove i (al_sent_requests a)) \<and>
          (if M = BINDING then t = i \<and> d = dst \<and> m' = m else t = fst (tm_random E (al_rng a))))
      else al_sent_requests a1 = hm_remove i (al_sent_requests a) \<and> C"
    and g: "if M \<noteq> BINDING \<and> S \<and> T then al_rng a1 = snd (tm_random E (al_rng a)) else al_rng a1 = al_rng a"
    and no: "q \<Longrightarrow> M \<noteq> BINDING \<Longrightarrow> S \<and> T"
  shows "drawn E 1 a a1"
proof (cases "M \<noteq> BINDING \<and> S \<and> T")
  case True
  then have "al_rng a1 = rng_after E (al_rng a) (Suc 0)" using g by simp
  moreover have "dom (hm_get (al_sent_requests a1)) \<subseteq> dom (hm_get (al_sent_requests a)) \<union> set (draws E (al_rng a) (Suc 0))"
    using q True wf by (auto split: if_splits)
  ultimately show ?thesis unfolding drawn_def by (intro exI [of _ "Suc 0"]) simp
next
  case False
  have "dom (hm_get (al_sent_requests a1)) \<subseteq> dom (hm_get (al_sent_requests a))"
    using q no False wf get by (cases q; cases "M = BINDING"; cases x) (auto split: if_splits)
  moreover have "al_rng a1 = al_rng a" using g False by argo
  ultimately show ?thesis by (rule drawn_less)
qed

lemma retry_request_ok:
  assumes E: "turn_laws E" and inv: "allocation_inv E a" and out: "timed_out_request now a = Some (i, r)"
  shows "\<exists>a'. retry_request E now i r a = Done a' \<and> allocation_inv E a' \<and> keeps_socket a a' \<and> drawn E 1 a a' \<and>
     loop_turns (al_sent_requests a') < loop_turns (al_sent_requests a)"
proof -
  obtain dst m b where r: "r = (dst, m, b)" by (cases r)
  note t = timed_out_some [OF inv out [unfolded r]]
  obtain s k where b: "k < 4" "b = backoff_at s k" "s + trigger_after k \<le> now" using t(2) by blast
  define R where "R = hm_remove i (al_sent_requests a)"
  obtain a1 q where a1: "(if tm_method E m \<noteq> BINDING then authenticate_and_queue E m (Some (backoff_handle_timeout now b)) now (a\<lparr>al_sent_requests := R\<rparr>)
      else queue E dst m (Some (backoff_handle_timeout now b)) now (a\<lparr>al_sent_requests := R\<rparr>)) = Done (a1, q)"
     "allocation_inv E a1" "sent_with (a\<lparr>al_sent_requests := R\<rparr>) a1"
     and q: "if q then now < s + from_secs 8 \<and> (\<exists>t d m'. al_sent_requests a1 = hm_insert t (d, m', backoff_at s (Suc k)) R \<and>
          (if tm_method E m = BINDING then t = i \<and> d = dst \<and> m' = m else t = fst (tm_random E (al_rng a))))
      else al_sent_requests a1 = R \<and> (tm_method E m = BINDING \<longrightarrow> \<not> now < s + from_secs 8)"
     and no: "q \<longrightarrow> tm_method E m \<noteq> BINDING \<longrightarrow> al_active_socket a \<noteq> None \<and> al_credentials a \<noteq> None"
     and g: "if tm_method E m \<noteq> BINDING \<and> al_active_socket a \<noteq> None \<and> al_credentials a \<noteq> None
      then al_rng a1 = snd (tm_random E (al_rng a)) else al_rng a1 = al_rng a"
    using resend_ok [OF E inv t(1) [unfolded b(2)] b(1,3)] unfolding R_def b(2) by blast
  have wf: "hm_wf (al_sent_requests a)" using allocation_invD(1) [OF inv] by (simp add: requests_ok_def)
  have wR: "hm_wf R" using wf by (simp add: R_def)
  have total: "loop_turns (al_sent_requests a) = (4 - k) + loop_turns R"
    using loop_turns_remove [OF wf t(1)] turns_left_at [OF b(1)] b(2) by (simp add: R_def)
  have less: "loop_turns (al_sent_requests a1) < loop_turns (al_sent_requests a)"
  proof (cases q)
    case True
    then have k: "Suc k < 4" using trigger_last [OF b(1,3)] q by simp
    obtain t d m' where "al_sent_requests a1 = hm_insert t (d, m', backoff_at s (Suc k)) R" using q True by auto
    then have "loop_turns (al_sent_requests a1) \<le> (4 - Suc k) + loop_turns R"
      using loop_turns_insert [OF wR, of t d m' "backoff_at s (Suc k)"] turns_left_at [OF k] by simp
    with total k show ?thesis by simp
  next
    case False
    then show ?thesis using q total b(1) by simp
  qed
  have ks: "keeps_socket a a1" using sent_with_frame(2,10,14) [OF a1(3)] by (simp add: keeps_socket_def has_allocation_def)
  have dr: "drawn E 1 a a1" by (rule retry_drawn [OF wf t(1) q [unfolded R_def] g]) (use no in blast)+
  have run: "retry_request E now i r a = Done (if \<not> q \<and> (case al_active_socket a1 of None \<Rightarrow> False | Some s \<Rightarrow> same_ip_version_as s dst)
      then invalidate_allocation (a1\<lparr>al_active_socket := None\<rparr>) else a1)"
    unfolding retry_request_def r Let_def prod.case R_def [symmetric] a1(1) by simp
  show ?thesis
  proof (cases "\<not> q \<and> (case al_active_socket a1 of None \<Rightarrow> False | Some s \<Rightarrow> same_ip_version_as s dst)")
    case False
    have "retry_request E now i r a = Done a1" using run unfolding if_not_P [OF False] .
    then show ?thesis using a1(2) less ks dr by blast
  next
    case True
    let ?a = "invalidate_allocation (a1\<lparr>al_active_socket := None\<rparr>)"
    have "retry_request E now i r a = Done ?a" using run unfolding if_P [OF True] .
    moreover have "allocation_inv E ?a" by (rule invalidate_inv) (use allocation_invD(2) [OF a1(2)] in simp)
    moreover have R: "al_sent_requests ?a = []" by (simp add: invalidate_allocation_def)
    moreover have "keeps_socket a ?a" by (simp add: keeps_socket_def has_allocation_def invalidate_allocation_def cbs_clear_def)
    moreover have "drawn E 1 a ?a" by (rule drawn_trans [OF dr drawn_less [where c = 0]]) (auto simp: invalidate_allocation_def)
    moreover have "loop_turns [] < loop_turns (al_sent_requests a)" using total b(1) by (simp add: loop_turns_empty)
    ultimately show ?thesis by simp
  qed
qed

text \<open>The loop ends, and what each of its turns keeps holds at its end.\<close>

lemma retry_loop_rule:
  assumes E: "turn_laws E" and inv: "allocation_inv E a" and P: "P a"
    and step: "\<And>a i r a'. allocation_inv E a \<Longrightarrow> P a \<Longrightarrow> timed_out_request now a = Some (i, r) \<Longrightarrow> retry_request E now i r a = Done a' \<Longrightarrow> P a'"
  shows "\<exists>a'. retry_loop E now a = Some (Done a') \<and> allocation_inv E a' \<and> P a' \<and> timed_out_request now a' = None \<and>
     keeps_socket a a' \<and> drawn E (loop_turns (al_sent_requests a)) a a'"
  using inv P
proof (induction "loop_turns (al_sent_requests a)" arbitrary: a rule: less_induct)
  case less
  show ?case
  proof (cases "timed_out_request now a")
    case None
    then show ?thesis using less.prems drawn_less [of a a] by (subst retry_loop.simps) (simp add: keeps_socket_def)
  next
    case (Some ir)
    obtain i r where ir: "ir = (i, r)" by (cases ir)
    obtain a1 where a1: "retry_request E now i r a = Done a1" "allocation_inv E a1" "keeps_socket a a1" "drawn E 1 a a1"
      "loop_turns (al_sent_requests a1) < loop_turns (al_sent_requests a)"
      using retry_request_ok [OF E less.prems(1) Some [unfolded ir]] by blast
    have P1: "P a1" by (rule step [OF less.prems Some [unfolded ir] a1(1)])
    obtain a2 where a2: "retry_loop E now a1 = Some (Done a2)" "allocation_inv E a2" "P a2" "timed_out_request now a2 = None" "keeps_socket a1 a2"
      "drawn E (loop_turns (al_sent_requests a1)) a1 a2" using less.hyps [OF a1(5,2) P1] by blast
    have "retry_loop E now a = retry_loop E now a1" using Some ir a1(1) by (subst retry_loop.simps) simp
    moreover have "drawn E (loop_turns (al_sent_requests a)) a a2" by (rule drawn_trans [OF a1(4) a2(6)]) (use a1(5) in simp)
    ultimately show ?thesis using a2 keeps_socket_trans [OF a1(3) a2(5)] by auto
  qed
qed

section \<open>The whole timeout\<close>

lemma expire_inv:
  assumes "allocation_inv E a" shows "allocation_inv E (expire_allocation now a)"
  using assms invalidate_inv [OF allocation_invD(2) [OF assms], where E = E]
  by (simp add: expire_allocation_def split: option.splits)

lemma expire_less:
  "dom (hm_get (al_sent_requests (expire_allocation now a))) \<subseteq> dom (hm_get (al_sent_requests a))" "al_rng (expire_allocation now a) = al_rng a"
  "loop_turns (al_sent_requests (expire_allocation now a)) \<le> loop_turns (al_sent_requests a)"
  "length (cbs_inner (al_channel_bindings (expire_allocation now a))) \<le> length (cbs_inner (al_channel_bindings a))"
  by (auto simp: expire_allocation_def invalidate_allocation_def loop_turns_empty cbs_clear_def split: option.splits)

lemma inv_wf: "allocation_inv E a \<Longrightarrow> hm_wf (al_sent_requests a)"
  by (simp add: allocation_inv_def requests_ok_def)

lemma socket_inv:
  assumes "allocation_inv E a"
  shows "allocation_inv E (a\<lparr>al_active_socket := Some s\<rparr>)"
  using assms by (simp add: allocation_inv_def families_ok_def engaged_def has_allocation_def)

text \<open>Nothing that the socket is needed for is due.\<close>

definition keepalive_ahead :: "instant \<Rightarrow> ('msg, 'c, 'r) turn_allocation \<Rightarrow> bool" where
  "keepalive_ahead now a \<longleftrightarrow> (\<forall>s. has_allocation a \<longrightarrow> al_active_socket a = Some s \<longrightarrow> now < as_next_binding s)"

lemma send_keepalive_ok:
  assumes E: "turn_laws E" and inv: "allocation_inv E a"
  shows "\<exists>a'. send_keepalive E now a = Done a' \<and> allocation_inv E a' \<and> keepalive_ahead now a' \<and> drawn E 1 a a' \<and>
     loop_turns (al_sent_requests a') \<le> loop_turns (al_sent_requests a) + 4 \<and> al_channel_bindings a' = al_channel_bindings a"
proof (cases "has_allocation a")
  case True
  obtain s where s: "al_active_socket a = Some s" using allocation_invD(4) [OF inv] True by (auto simp: engaged_def)
  obtain s' addr where h: "active_socket_handle_timeout now s = (s', addr)" by fastforce
  let ?a = "a\<lparr>al_active_socket := Some s'\<rparr>"
  have ahead: "now < as_next_binding s'" using h by (auto simp: active_socket_handle_timeout_def BINDING_INTERVAL_def from_secs_def split: if_splits)
  have inv': "allocation_inv E ?a" by (rule socket_inv [OF inv])
  show ?thesis
  proof (cases addr)
    case None
    then have "send_keepalive E now a = Done ?a" using True s h by (simp add: send_keepalive_def)
    then show ?thesis using inv' ahead by (simp add: keepalive_ahead_def drawn_less)
  next
    case (Some dst)
    obtain a' m where a': "queue_binding E dst now ?a = Done a'" "allocation_inv E a'" "extends E now 1 ?a a'"
      "al_sent_requests a' = hm_insert (fst (tm_random E (al_rng ?a))) (dst, m, backoff_at now 0) (al_sent_requests ?a)" using queue_binding_ok [OF E inv'] by blast
    have "send_keepalive E now a = Done a'" using True s h Some a'(1) by (simp add: send_keepalive_def)
    moreover have "keepalive_ahead now a'" using sent_with_frame(2,14) [OF extendsD(1) [OF a'(3)]] ahead by (simp add: keepalive_ahead_def)
    moreover have "drawn E 1 a a'" using extends_drawn [OF a'(3)] by (simp add: drawn_def)
    moreover have "loop_turns (al_sent_requests a') \<le> loop_turns (al_sent_requests a) + 4"
      unfolding a'(4) using loop_turns_insert [OF inv_wf [OF inv], of "fst (tm_random E (al_rng a))" dst m "backoff_at now 0"] turns_left_bounds(2) [of "backoff_at now 0"] by simp
    ultimately show ?thesis using a'(2) sent_with_frame(10) [OF extendsD(1) [OF a'(3)]] by simp
  qed
next
  case False
  then show ?thesis using inv by (simp add: send_keepalive_def keepalive_ahead_def drawn_less)
qed

lemma tick_backoffs_same:
  assumes "hm_wf (al_sent_requests a)" "timed_out_request now a = None"
  shows "tick_backoffs now a = a"
proof -
  have "backoff_handle_timeout now b = b" if "(i, dst, m, b) \<in> set (al_sent_requests a)" for i dst m b
    using timed_out_none [OF assms(2)] that assms(1) by (simp add: hm_in_set_iff backoff_handle_timeout_def)
  then have "map (\<lambda>(i, dst, r, b). (i, dst, r, backoff_handle_timeout now b)) (al_sent_requests a) = al_sent_requests a"
    by (intro map_idI) auto
  then show ?thesis by (simp add: tick_backoffs_def)
qed

lemma in_flight_iff:
  assumes "hm_wf (al_sent_requests a)"
  shows "in_flight E M a \<longleftrightarrow> (\<exists>i dst m b. hm_get (al_sent_requests a) i = Some (dst, m, b) \<and> tm_method E m = M)"
  using hm_values_iff [OF assms] unfolding in_flight_def list_ex_iff by fastforce

lemma refresh_when_due_ok:
  assumes E: "turn_laws E" and inv: "allocation_inv E a"
  shows "\<exists>a'. refresh_when_due E now a = Done a' \<and> allocation_inv E a' \<and> extends E now 2 a a' \<and>
     (\<forall>t. refresh_allocation_at a' = Some t \<longrightarrow> now < t \<or> in_flight E REFRESH a')"
proof (cases "\<exists>t. refresh_allocation_at a = Some t \<and> t \<le> now \<and> \<not> in_flight E REFRESH a")
  case False
  then have "refresh_when_due E now a = Done a" by (auto simp: refresh_when_due_def split: option.splits)
  moreover have "\<forall>t. refresh_allocation_at a = Some t \<longrightarrow> now < t \<or> in_flight E REFRESH a" using False not_le by blast
  ultimately show ?thesis using inv extends_refl by blast
next
  case True
  then have "engaged E a" by (auto simp: refresh_allocation_at_def engaged_def)
  note sc = allocation_invD(4) [OF inv this]
  obtain m where m: "make_refresh_request E (al_software a) (al_rng a) = (m, snd (tm_random E (al_rng a)))" "tm_method E m = REFRESH"
    using make_requests(1) [OF E] by blast
  obtain a' where a': "send_request E (make_refresh_request E) now a = Done a'" "allocation_inv E a'" "extends E now 2 a a'"
    "\<exists>i dst m'. hm_get (al_sent_requests a') i = Some (dst, m', backoff_at now 0) \<and> tm_method E m' = tm_method E m"
    using send_request_ok [where mk = "make_refresh_request E", OF E inv m(1), of now] sc by blast
  have "in_flight E REFRESH a'" unfolding in_flight_iff [OF inv_wf [OF a'(2)]] using a'(4) m(2) by metis
  moreover have "refresh_when_due E now a = Done a'" using True a'(1) by (auto simp: refresh_when_due_def)
  ultimately show ?thesis using a'(2,3) by blast
qed

lemma make_channel_binds:
  assumes E: "turn_laws E" and range: "\<forall>x\<in>set xs. channel_range (fst x)"
  shows "\<exists>ms'. fold_outcome (\<lambda>(number, peer) (ms, r).
       and_then (make_channel_bind_request E peer number s r) (\<lambda>(m, r). Done (ms @ [m], r))) xs (ms, r)
     = Done (ms', rng_after E r (length xs)) \<and> length ms' = length ms + length xs"
  using range
proof (induction xs arbitrary: ms r)
  case (Cons x xs)
  obtain n p where x: "x = (n, p)" by (cases x)
  obtain m where m: "make_channel_bind_request E p n s r = Done (m, snd (tm_random E r))"
    using make_channel_bind [OF E, of n p s r] Cons.prems(1) x by auto
  with Cons.IH [of "ms @ [m]" "snd (tm_random E r)"] Cons.prems x show ?case by auto
qed simp

lemma send_all_ok:
  assumes E: "turn_laws E" and "allocation_inv E a"
  shows "\<exists>a'. fold_outcome (\<lambda>m a. and_then (authenticate_and_queue E m None now a) (\<lambda>(a, _). Done a)) ms a = Done a' \<and>
     allocation_inv E a' \<and> extends E now (length ms) a a'"
  using assms(2)
proof (induction ms arbitrary: a)
  case Nil
  then show ?case using extends_refl by simp
next
  case (Cons m ms)
  obtain b q where b: "authenticate_and_queue E m None now a = Done (b, q)" "allocation_inv E b" "extends E now 1 a b"
    using authenticate_and_queue_extends [OF E Cons.prems, of m now] by blast
  with Cons.IH [OF b(2)] extends_trans [OF b(3)] show ?case by fastforce
qed

lemma refresh_channels_ok:
  assumes E: "turn_laws E" and inv: "allocation_inv E a"
  shows "\<exists>a'. refresh_channels E now a = Done a' \<and> allocation_inv E a' \<and> extends E now (2 * length (cbs_inner (al_channel_bindings a))) a a'"
proof -
  let ?xs = "channels_to_refresh (al_channel_bindings a) now (channel_binding_in_flight_by_number E a)"
  let ?a = "a\<lparr>al_rng := rng_after E (al_rng a) (length ?xs)\<rparr>"
  have range: "\<forall>x\<in>set ?xs. channel_range (fst x)"
    using allocation_invD(2) [OF inv] by (auto simp: channels_to_refresh_def btree_items_def cbs_inv_def hm_in_set_iff)
  have len: "length ?xs \<le> length (cbs_inner (al_channel_bindings a))"
    unfolding channels_to_refresh_def length_map btree_items_def filter_filter by (rule order.trans [OF length_filter_le]) simp
  obtain ms where ms: "fold_outcome (\<lambda>(number, peer) (ms, r).
       and_then (make_channel_bind_request E peer number (al_software a) r) (\<lambda>(m, r). Done (ms @ [m], r))) ?xs ([], al_rng a)
     = Done (ms, rng_after E (al_rng a) (length ?xs))" "length ms = length ?xs"
    using make_channel_binds [OF E range, of "al_software a" "[]" "al_rng a"] by auto
  have inv': "allocation_inv E ?a" using inv by (simp add: rng_inv)
  have ex: "extends E now (length ?xs) a ?a" unfolding extends_def using sent_withI(2) by (auto intro!: exI [of _ "length ?xs"])
  obtain a' where a': "fold_outcome (\<lambda>m a. and_then (authenticate_and_queue E m None now a) (\<lambda>(a, _). Done a)) ms ?a = Done a'"
     "allocation_inv E a'" "extends E now (length ms) ?a a'" using send_all_ok [OF E inv'] by blast
  have "extends E now (2 * length (cbs_inner (al_channel_bindings a))) a a'"
    by (rule extends_mono [OF extends_trans [OF ex a'(3)]]) (use len ms(2) in simp)
  then show ?thesis using ms(1) a'(1,2) by (simp add: refresh_channels_def)
qed

text \<open>Nothing is due but perhaps a refresh of the allocation; nor is that.\<close>

definition settled :: "instant \<Rightarrow> ('msg, 'c, 'r) turn_allocation \<Rightarrow> bool" where
  "settled now a \<longleftrightarrow> keepalive_ahead now a \<and> (\<forall>i dst m b. hm_get (al_sent_requests a) i = Some (dst, m, b) \<longrightarrow> now < bo_next_trigger b)"

definition refresh_ahead :: "('msg, 'mi, 'c, 'r) turn_env \<Rightarrow> instant \<Rightarrow> ('msg, 'c, 'r) turn_allocation \<Rightarrow> bool" where
  "refresh_ahead E now a \<longleftrightarrow> (\<forall>t. refresh_allocation_at a = Some t \<longrightarrow> now < t \<or> in_flight E REFRESH a)"

lemma extends_settled:
  assumes "extends E now c a a'" "settled now a"
  shows "settled now a'"
proof -
  note fr = sent_with_frame [OF extendsD(1) [OF assms(1)]]
  have "now < bo_next_trigger b" if "hm_get (al_sent_requests a') i = Some (dst, m, b)" for i dst m b
    using extendsD(2) [OF assms(1) that] assms(2) trigger_bounds(1) [of 0] by (auto simp: settled_def)
  then show ?thesis using assms(2) fr(2,14) unfolding settled_def keepalive_ahead_def by auto
qed

text \<open>The ids that a timeout may draw do not repeat and are not in flight.\<close>

definition draw_bound :: "('msg, 'c, 'r) turn_allocation \<Rightarrow> nat" where
  "draw_bound a = 4 * length (al_sent_requests a) + 2 * length (cbs_inner (al_channel_bindings a)) + 7"

definition fresh_ids :: "('msg, 'mi, 'c, 'r) turn_env \<Rightarrow> ('msg, 'c, 'r) turn_allocation \<Rightarrow> bool" where
  "fresh_ids E a \<longleftrightarrow> distinct (draws E (al_rng a) (draw_bound a)) \<and>
     (\<forall>i\<in>set (draws E (al_rng a) (draw_bound a)). hm_get (al_sent_requests a) i = None)"

lemma extends_in_flight:
  assumes inv: "allocation_inv E b" "allocation_inv E b'" and d: "drawn E c a b" and x: "extends E now c' b b'" and le: "c + c' \<le> draw_bound a"
    and fresh: "fresh_ids E a" and fl: "in_flight E M b"
  shows "in_flight E M b'"
proof -
  obtain j where j: "j \<le> c" "al_rng b = rng_after E (al_rng a) j"
     "dom (hm_get (al_sent_requests b)) \<subseteq> dom (hm_get (al_sent_requests a)) \<union> set (draws E (al_rng a) j)" using d unfolding drawn_def by blast
  obtain l where l: "l \<le> c'" "\<And>i. hm_get (al_sent_requests b') i = hm_get (al_sent_requests b) i \<or> i \<in> set (draws E (al_rng b) l)"
    using x unfolding extends_def by blast
  obtain rest where N: "draw_bound a = (j + l) + rest" using j(1) l(1) le by (metis add_mono le_trans le_iff_add)
  have dr: "draws E (al_rng a) (draw_bound a) = (draws E (al_rng a) j @ draws E (al_rng b) l) @ draws E (rng_after E (al_rng a) (j + l)) rest"
    unfolding N draws_add j(2) rng_after_add ..
  obtain i dst m bo where i: "hm_get (al_sent_requests b) i = Some (dst, m, bo)" "tm_method E m = M"
    using fl unfolding in_flight_iff [OF inv_wf [OF inv(1)]] by blast
  have "i \<in> dom (hm_get (al_sent_requests a)) \<or> i \<in> set (draws E (al_rng a) j)" using j(3) i(1) by blast
  then have "i \<notin> set (draws E (al_rng b) l)" using fresh unfolding fresh_ids_def dr by auto
  then have "hm_get (al_sent_requests b') i = Some (dst, m, bo)" using l(2) [of i] i(1) by simp
  then show ?thesis unfolding in_flight_iff [OF inv_wf [OF inv(2)]] using i(2) by blast
qed

lemma settled_poll:
  assumes "allocation_inv E a" "settled now a" "refresh_ahead E now a" "allocation_poll_timeout E a = Some d"
  shows "now < d"
proof -
  let ?all = "List.map_filter id [if \<not> in_flight E REFRESH a then refresh_allocation_at a else None,
      if has_allocation a then map_option as_next_binding (al_active_socket a) else None]
      @ map (\<lambda>(_, _, b). bo_next_trigger b) (hm_values (al_sent_requests a))"
  have d: "?all \<noteq> []" "d = Min (set ?all)" using assms(4) by (auto simp: allocation_poll_timeout_def Let_def split: if_splits)
  have "d \<in> set ?all" unfolding d(2) by (rule Min_in) (use d(1) in simp_all)
  then consider "\<not> in_flight E REFRESH a" "refresh_allocation_at a = Some d"
    | s where "has_allocation a" "al_active_socket a = Some s" "d = as_next_binding s"
    | dst m b where "(dst, m, b) \<in> set (hm_values (al_sent_requests a))" "d = bo_next_trigger b"
    by (auto simp: List.map_filter_def split: if_splits)
  then show ?thesis
    using assms(2,3) hm_values_iff [OF inv_wf [OF assms(1)]] by cases (auto simp: settled_def refresh_ahead_def keepalive_ahead_def)
qed

lemma allocation_timeout_ok:
  assumes E: "turn_laws E" and inv: "allocation_inv E a"
  shows "\<exists>a'. allocation_handle_timeout E now a = Done a' \<and> allocation_inv E a' \<and> settled now a' \<and> (fresh_ids E a \<longrightarrow> refresh_ahead E now a')"
proof -
  let ?e = "expire_allocation now a"
  obtain a1 where a1: "send_keepalive E now ?e = Done a1" "allocation_inv E a1" "keepalive_ahead now a1" "drawn E 1 ?e a1"
    "loop_turns (al_sent_requests a1) \<le> loop_turns (al_sent_requests ?e) + 4" "al_channel_bindings a1 = al_channel_bindings ?e"
    using send_keepalive_ok [OF E expire_inv [OF inv]] by blast
  obtain a2 where a2: "retry_loop E now a1 = Some (Done a2)" "allocation_inv E a2" "keeps_socket a1 a2" "timed_out_request now a2 = None"
    "drawn E (loop_turns (al_sent_requests a1)) a1 a2"
    using retry_loop_rule [OF E a1(2), where P = "\<lambda>_. True"] by blast
  have tick: "tick_backoffs now a2 = a2" by (rule tick_backoffs_same [OF inv_wf [OF a2(2)] a2(4)])
  obtain a3 where a3: "refresh_when_due E now a2 = Done a3" "allocation_inv E a3" "extends E now 2 a2 a3"
     "\<forall>t. refresh_allocation_at a3 = Some t \<longrightarrow> now < t \<or> in_flight E REFRESH a3"
    using refresh_when_due_ok [OF E a2(2)] by blast
  note f3 = sent_with_frame [OF extendsD(1) [OF a3(3)]]
  have "now < bo_next_trigger b" if "hm_get (al_sent_requests a3) i = Some (dst, m, b)" for i dst m b
    using extendsD(2) [OF a3(3) that] timed_out_none [OF a2(4)] trigger_bounds(1) [of 0] by auto
  moreover have "keepalive_ahead now a3" using a1(3) a2(3) f3(2,14) by (simp add: keepalive_ahead_def keeps_socket_def)
  ultimately have s3: "settled now a3" unfolding settled_def by blast
  obtain a4 where a4: "refresh_channels E now a3 = Done a4" "allocation_inv E a4" "extends E now (2 * length (cbs_inner (al_channel_bindings a3))) a3 a4"
    using refresh_channels_ok [OF E a3(2)] by blast
  have "drawn E (loop_turns (al_sent_requests a) + 7) a a3"
    by (rule drawn_trans [OF drawn_trans [OF drawn_less [where c = 0, OF expire_less(1,2)] drawn_trans [OF a1(4) a2(5) order.refl] order.refl] extends_drawn [OF a3(3)]])
      (use a1(5) expire_less(3) [of now a] in simp)
  moreover have "loop_turns (al_sent_requests a) + 7 + 2 * length (cbs_inner (al_channel_bindings a3)) \<le> draw_bound a"
    using a2(3) a1(6) expire_less(4) [of now a] f3(10) loop_turns_length [of "al_sent_requests a"] by (simp add: draw_bound_def keeps_socket_def)
  ultimately have "in_flight E REFRESH a3 \<Longrightarrow> in_flight E REFRESH a4" if "fresh_ids E a"
    using extends_in_flight [OF a3(2) a4(2) _ a4(3)] that by blast
  then have "fresh_ids E a \<longrightarrow> refresh_ahead E now a4"
    using a3(4) sent_with_frame(8) [OF extendsD(1) [OF a4(3)]] by (auto simp: refresh_ahead_def refresh_allocation_at_def)
  moreover have "allocation_handle_timeout E now a = Done a4"
    using a1(1) a2(1) a3(1) a4(1) tick by (simp add: allocation_handle_timeout_def loop_outcome_def)
  ultimately show ?thesis using a4(2) extends_settled [OF a4(3) s3] by blast
qed

end
