(* ===== verification/Turn_Input.thy ===== *)
theory Turn_Input
  imports Turn_Timeout
begin

text \<open>
  The inputs of the TURN client: channels, refreshes and the responses of the relay keep the invariant and
  do not panic, as long as a response is of the method of its request.
\<close>

section \<open>Parts of the state that the invariant does not look at\<close>

lemma inv_frame [simp]:
  "allocation_inv E (a\<lparr>al_events := evs\<rparr>) = allocation_inv E a"
  "allocation_inv E (a\<lparr>al_buffered_transmits := ts\<rparr>) = allocation_inv E a"
  "allocation_inv E (a\<lparr>al_buffered_channel_bindings := ps\<rparr>) = allocation_inv E a"
  "allocation_inv E (a\<lparr>al_explicit_failure := f\<rparr>) = allocation_inv E a"
  "allocation_inv E (a\<lparr>al_ip4_srflx_candidate := c\<rparr>) = allocation_inv E a"
  "allocation_inv E (a\<lparr>al_ip6_srflx_candidate := c\<rparr>) = allocation_inv E a"
  by (simp_all add: allocation_inv_def families_ok_def engaged_def has_allocation_def)

lemma channels_inv: "allocation_inv E a \<Longrightarrow> cbs_inv cbs \<Longrightarrow> allocation_inv E (a\<lparr>al_channel_bindings := cbs\<rparr>)"
  by (simp add: allocation_inv_def families_ok_def engaged_def has_allocation_def)

lemma credentials_inv: "allocation_inv E a \<Longrightarrow> allocation_inv E (a\<lparr>al_credentials := Some c\<rparr>)"
  by (simp add: allocation_inv_def families_ok_def engaged_def has_allocation_def)

lemma has_allocation_frame [simp]:
  "has_allocation (a\<lparr>al_channel_bindings := cbs\<rparr>) = has_allocation a"
  "has_allocation (a\<lparr>al_buffered_channel_bindings := ps\<rparr>) = has_allocation a"
  by (simp_all add: has_allocation_def)

lemma invalidate_keeps: "allocation_inv E a \<Longrightarrow> allocation_inv E (invalidate_allocation (a\<lparr>al_credentials := c\<rparr>))"
  by (rule invalidate_inv) (auto dest: allocation_invD(2))

section \<open>Channels\<close>

lemma send_channel_bind_ok:
  assumes E: "turn_laws E" and inv: "allocation_inv E a" and n: "channel_range n"
  shows "\<exists>a'. send_channel_bind E peer n now a = Done a' \<and> allocation_inv E a' \<and> sent_with a a'"
proof -
  let ?a = "a\<lparr>al_rng := snd (tm_random E (al_rng a))\<rparr>"
  obtain m where m: "make_channel_bind_request E peer n (al_software a) (al_rng a) = Done (m, snd (tm_random E (al_rng a)))"
    using make_channel_bind [OF E n] by blast
  have inv': "allocation_inv E ?a" using inv by (simp add: rng_inv)
  obtain a' q where a': "authenticate_and_queue E m None now ?a = Done (a', q)" "allocation_inv E a'" "extends E now 1 ?a a'"
    using authenticate_and_queue_extends [OF E inv', of m now] by blast
  then show ?thesis using m sent_with_trans [OF sent_withI(2) extendsD(1) [OF a'(3)]] by (simp add: send_channel_bind_def)
qed

lemma bind_channel_ok:
  assumes E: "turn_laws E" and inv: "allocation_inv E a"
  shows "\<exists>a'. bind_channel E peer now a = Done a' \<and> allocation_inv E a' \<and>
     al_ip4_allocation a' = al_ip4_allocation a \<and> al_ip6_allocation a' = al_ip6_allocation a \<and>
     (has_allocation a \<longrightarrow> al_buffered_channel_bindings a' = al_buffered_channel_bindings a)"
proof (cases "is_suspended E a \<or> connected_channel_to_peer (al_channel_bindings a) peer now \<noteq> None \<or>
    channel_binding_in_flight_by_peer E a peer \<or> \<not> has_allocation a \<or> \<not> turn_can_relay_to a peer")
  case True
  then show ?thesis using inv by (auto simp: bind_channel_def)
next
  case False
  obtain cbs n where new: "new_channel_to_peer peer now (al_channel_bindings a) = (cbs, n)" by fastforce
  note c = new_channel_to_peer_cases [OF allocation_invD(2) [OF inv], of peer now, unfolded new prod.case]
  have inv': "allocation_inv E (a\<lparr>al_channel_bindings := cbs\<rparr>)"
    by (rule channels_inv [OF inv]) (use c allocation_invD(2) [OF inv] in \<open>auto split: option.splits\<close>)
  show ?thesis
  proof (cases n)
    case None
    then show ?thesis using False new inv' by (auto simp: bind_channel_def)
  next
    case (Some k)
    then have "channel_range k" using c by simp
    then obtain a' where a': "send_channel_bind E peer k now (a\<lparr>al_channel_bindings := cbs\<rparr>) = Done a'" "allocation_inv E a'"
      "sent_with (a\<lparr>al_channel_bindings := cbs\<rparr>) a'" using send_channel_bind_ok [OF E inv'] by blast
    then show ?thesis using False new Some sent_with_frame(6,7,11,14) [OF a'(3)] by (auto simp: bind_channel_def)
  qed
qed

lemma bind_buffered_ok:
  assumes E: "turn_laws E" and "allocation_inv E a" "has_allocation a"
  shows "\<exists>a'. bind_buffered_channels E now a = Some (Done a') \<and> allocation_inv E a' \<and>
     al_ip4_allocation a' = al_ip4_allocation a \<and> al_ip6_allocation a' = al_ip6_allocation a"
  using assms(2,3)
proof (induction "al_buffered_channel_bindings a" arbitrary: a)
  case Nil
  then show ?case by (subst bind_buffered_channels.simps) auto
next
  case (Cons peer rest)
  let ?a = "a\<lparr>al_buffered_channel_bindings := rest\<rparr>"
  have pre: "allocation_inv E ?a" "has_allocation ?a" using Cons.prems by simp_all
  obtain a' where a': "bind_channel E peer now ?a = Done a'" "allocation_inv E a'" "al_buffered_channel_bindings a' = rest"
    "al_ip4_allocation a' = al_ip4_allocation a" "al_ip6_allocation a' = al_ip6_allocation a"
    using bind_channel_ok [OF E pre(1), of peer now] pre(2) by auto
  have "bind_buffered_channels E now a = bind_buffered_channels E now a'"
    using Cons.hyps(2) [symmetric] Cons.prems(2) a'(1) by (subst bind_buffered_channels.simps) (simp add: assert_that_def)
  moreover have "has_allocation a'" using Cons.prems(2) a'(4,5) by (simp add: has_allocation_def)
  ultimately show ?case using Cons.hyps(1) [of a'] a' by auto
qed

section \<open>Refreshing\<close>

lemma hm_insert_nonempty: "hm_insert k v m \<noteq> []"
  by (auto dest: arg_cong [of _ "[]" "\<lambda>m. hm_get m k"])

definition binds_only :: "('msg, 'mi, 'c, 'r) turn_env \<Rightarrow> ('msg, 'c, 'r) turn_allocation \<Rightarrow> ('msg, 'c, 'r) turn_allocation \<Rightarrow> bool" where
  "binds_only E a a' \<longleftrightarrow> (\<forall>i dst m b. hm_get (al_sent_requests a') i = Some (dst, m, b) \<longrightarrow>
     hm_get (al_sent_requests a) i = Some (dst, m, b) \<or> tm_method E m = BINDING)"

lemma send_binding_requests_ok:
  assumes E: "turn_laws E" and inv: "allocation_inv E a"
  shows "\<exists>a'. send_binding_requests E now a = Done a' \<and> allocation_inv E a' \<and> extends E now 2 a a' \<and> binds_only E a a' \<and> al_sent_requests a' \<noteq> []"
proof -
  have q: "\<exists>b'. (case x of None \<Rightarrow> Done b | Some v \<Rightarrow> queue_binding E (f v) now b) = Done b' \<and> allocation_inv E b' \<and> extends E now 1 b b' \<and>
     binds_only E b b' \<and> (x \<noteq> None \<or> al_sent_requests b \<noteq> [] \<longrightarrow> al_sent_requests b' \<noteq> [])"
    if b: "allocation_inv E b" for b x and f :: "'z \<Rightarrow> socket_addr"
  proof (cases x)
    case None
    then show ?thesis using b extends_refl by (auto simp: binds_only_def)
  next
    case (Some v)
    obtain b' m where b': "queue_binding E (f v) now b = Done b'" "allocation_inv E b'" "extends E now 1 b b'" "tm_method E m = BINDING"
      "al_sent_requests b' = hm_insert (fst (tm_random E (al_rng b))) (f v, m, backoff_at now 0) (al_sent_requests b)" using queue_binding_ok [OF E b] by blast
    then show ?thesis using Some by (auto simp: binds_only_def hm_insert_nonempty split: if_splits)
  qed
  obtain b where b: "(case relay_as_v4 (al_server a) of None \<Rightarrow> Done a | Some v4 \<Rightarrow> queue_binding E (sock_v4 v4) now a) = Done b"
    "allocation_inv E b" "extends E now 1 a b" "binds_only E a b" "relay_as_v4 (al_server a) \<noteq> None \<or> al_sent_requests a \<noteq> [] \<longrightarrow> al_sent_requests b \<noteq> []"
    using q [OF inv, of sock_v4 "relay_as_v4 (al_server a)"] by blast
  obtain c where c: "(case relay_as_v6 (al_server b) of None \<Rightarrow> Done b | Some v4 \<Rightarrow> queue_binding E (sock_v6 v4) now b) = Done c"
    "allocation_inv E c" "extends E now 1 b c" "binds_only E b c" "relay_as_v6 (al_server b) \<noteq> None \<or> al_sent_requests b \<noteq> [] \<longrightarrow> al_sent_requests c \<noteq> []"
    using q [OF b(2), of sock_v6 "relay_as_v6 (al_server b)"] by blast
  have "send_binding_requests E now a = Done c" using b(1) c(1) by (simp add: send_binding_requests_def)
  moreover have "extends E now 2 a c" using extends_trans [OF b(3) c(3)] by (simp add: numeral_2_eq_2)
  moreover have "binds_only E a c" using b(4) c(4) unfolding binds_only_def by blast
  moreover have "al_sent_requests c \<noteq> []"
    using b(5) c(5) sent_with_frame(1) [OF extendsD(1) [OF b(3)]] by (cases "al_server a") auto
  ultimately show ?thesis using c(2) by blast
qed

lemma suspended_disengaged:
  assumes "is_suspended E a" shows "\<not> engaged E a"
proof -
  have "\<not> has_allocation a" "al_sent_requests a = []" "allocation_poll_timeout E a = None" using assms by (simp_all add: is_suspended_def)
  moreover from this have "refresh_allocation_at a = None"
    by (auto simp: allocation_poll_timeout_def in_flight_def List.map_filter_def Let_def split: if_splits option.splits)
  ultimately show ?thesis by (simp add: engaged_def refresh_allocation_at_def)
qed

lemma send_requests_ok:
  assumes E: "turn_laws E" and inv: "allocation_inv E a"
  shows "\<exists>a'. send_request E (make_refresh_request E) now a = Done a' \<and> allocation_inv E a' \<and> sent_with a a'"
    "\<exists>a'. send_request E (make_allocate_request E) now a = Done a' \<and> allocation_inv E a' \<and> sent_with a a'"
    "\<exists>a'. send_request E (make_delete_allocation_request E) now a = Done a' \<and> allocation_inv E a' \<and> sent_with a a'"
proof -
  let ?r = "snd (tm_random E (al_rng a))"
  obtain m1 m2 m3 where m: "make_refresh_request E (al_software a) (al_rng a) = (m1, ?r)" "make_allocate_request E (al_software a) (al_rng a) = (m2, ?r)"
    "make_delete_allocation_request E (al_software a) (al_rng a) = (m3, ?r)" using make_requests(1,2,3) [OF E] by blast
  have *: "\<exists>a'. send_request E mk now a = Done a' \<and> allocation_inv E a' \<and> sent_with a a'" if mk: "mk (al_software a) (al_rng a) = (m, ?r)" for mk m
  proof -
    obtain a' where "send_request E mk now a = Done a'" "allocation_inv E a'" "extends E now 2 a a'" using send_request_ok [where mk = mk, OF E inv mk] by blast
    then show ?thesis using extendsD(1) by blast
  qed
  show "\<exists>a'. send_request E (make_refresh_request E) now a = Done a' \<and> allocation_inv E a' \<and> sent_with a a'" by (rule * [of "make_refresh_request E", OF m(1)])
  show "\<exists>a'. send_request E (make_allocate_request E) now a = Done a' \<and> allocation_inv E a' \<and> sent_with a a'" by (rule * [of "make_allocate_request E", OF m(2)])
  show "\<exists>a'. send_request E (make_delete_allocation_request E) now a = Done a' \<and> allocation_inv E a' \<and> sent_with a a'" by (rule * [of "make_delete_allocation_request E", OF m(3)])
qed

lemma allocation_refresh_ok:
  assumes E: "turn_laws E" and inv: "allocation_inv E a"
  shows "\<exists>a'. allocation_refresh E now a = Done a' \<and> allocation_inv E a'"
proof -
  have "\<exists>a'. send_binding_requests E now (a\<lparr>al_active_socket := None\<rparr>) = Done a' \<and> allocation_inv E a'" if "is_suspended E a"
  proof -
    have "\<not> engaged E (a\<lparr>al_active_socket := None\<rparr>)" using suspended_disengaged [OF that] by (simp add: engaged_def has_allocation_def)
    then have "allocation_inv E (a\<lparr>al_active_socket := None\<rparr>)" using inv by (simp add: allocation_inv_def families_ok_def)
    then show ?thesis using send_binding_requests_ok [OF E] by blast
  qed
  then show ?thesis using inv send_requests_ok(1) [OF E inv, of now] by (auto simp: allocation_refresh_def)
qed

section \<open>Responses\<close>

text \<open>No candidate of the relay was taken over.\<close>

definition keeps_relay :: "('msg, 'c, 'r) turn_allocation \<Rightarrow> ('msg, 'c, 'r) turn_allocation \<Rightarrow> bool" where
  "keeps_relay a a' \<longleftrightarrow> (al_ip4_allocation a' = None \<or> al_ip4_allocation a' = al_ip4_allocation a) \<and>
     (al_ip6_allocation a' = None \<or> al_ip6_allocation a' = al_ip6_allocation a)"

lemma sent_with_relay: "sent_with a a' \<Longrightarrow> keeps_relay a a'"
  by (simp add: keeps_relay_def sent_with_frame(6,7))

lemma keeps_relay_refl [simp]: "keeps_relay a a" "keeps_relay a (invalidate_allocation b)"
  by (simp_all add: keeps_relay_def invalidate_allocation_def)

lemma keeps_relay_frame [simp]:
  "keeps_relay a (b\<lparr>al_channel_bindings := c\<rparr>) = keeps_relay a b" "keeps_relay a (b\<lparr>al_buffered_channel_bindings := d\<rparr>) = keeps_relay a b"
  "keeps_relay a (b\<lparr>al_explicit_failure := f\<rparr>) = keeps_relay a b" "keeps_relay a (b\<lparr>al_credentials := g\<rparr>) = keeps_relay a b"
  "keeps_relay (a\<lparr>al_credentials := g\<rparr>) b = keeps_relay a b" "keeps_relay (a\<lparr>al_active_socket := s\<rparr>) b = keeps_relay a b"
  "keeps_relay a (b\<lparr>al_allocation_lifetime := l\<rparr>) = keeps_relay a b"
  by (simp_all add: keeps_relay_def)

lemma keeps_relay_invalidated: "keeps_relay (invalidate_allocation a) b \<Longrightarrow> keeps_relay c b"
  by (auto simp: keeps_relay_def invalidate_allocation_def)

lemma reauthenticate_ok:
  assumes E: "turn_laws E" and inv: "allocation_inv E a"
  shows "\<exists>a'. reauthenticate E message req now a = Done a' \<and> allocation_inv E a' \<and> keeps_relay a a'"
proof (cases "al_credentials a")
  case None
  then show ?thesis using inv by (simp add: reauthenticate_def)
next
  case (Some c)
  let ?c = "case msg_nonce E message of None \<Rightarrow> c | Some n \<Rightarrow> c\<lparr>tcr_nonce := Some n\<rparr>"
  let ?a = "a\<lparr>al_credentials := Some ?c\<rparr>"
  have inv': "allocation_inv E ?a" by (rule credentials_inv [OF inv])
  obtain a' q where a': "authenticate_and_queue E req None now ?a = Done (a', q)" "allocation_inv E a'" "extends E now 1 ?a a'"
    using authenticate_and_queue_extends [OF E inv', of req now] by blast
  have "keeps_relay a a'" using sent_with_relay [OF extendsD(1) [OF a'(3)]] by simp
  then show ?thesis using Some inv' a'(1,2) by (simp add: reauthenticate_def Let_def)
qed

lemma allocation_mismatch_ok:
  assumes E: "turn_laws E" and inv: "allocation_inv E a"
  shows "\<exists>a'. handle_allocation_mismatch E message req now a = Done a' \<and> allocation_inv E a' \<and> keeps_relay a a'"
proof -
  have inv': "allocation_inv E (invalidate_allocation a)" by (rule invalidate_inv [OF allocation_invD(2) [OF inv]])
  obtain b where b: "send_request E (make_allocate_request E) now (invalidate_allocation a) = Done b" "allocation_inv E b" "sent_with (invalidate_allocation a) b"
    using send_requests_ok(2) [OF E inv'] by blast
  obtain c where c: "send_request E (make_delete_allocation_request E) now (invalidate_allocation a) = Done c" "allocation_inv E c" "sent_with (invalidate_allocation a) c"
    using send_requests_ok(3) [OF E inv'] by blast
  have "keeps_relay a b" "keeps_relay a c"
    using keeps_relay_invalidated [OF sent_with_relay [OF b(3)]] keeps_relay_invalidated [OF sent_with_relay [OF c(3)]] by blast+
  then show ?thesis using inv' b(1,2) c(1,2)
    by (auto simp: handle_allocation_mismatch_def Let_def split: stun_method.split option.split)
qed

text \<open>A channel bind request that failed is still in the table.\<close>

definition failed_binding_known :: "('msg, 'mi, 'c, 'r) turn_env \<Rightarrow> ('msg, 'c, 'r) turn_allocation \<Rightarrow> 'msg \<Rightarrow> bool" where
  "failed_binding_known E a req \<longleftrightarrow> (case msg_channel_number E req of
     None \<Rightarrow> True | Some n \<Rightarrow> hm_get (cbs_inner (al_channel_bindings a)) n \<noteq> None)"

lemma failed_binding_ok:
  assumes "cbs_inv cbs" "hm_get (cbs_inner cbs) n \<noteq> None"
  shows "\<exists>cbs'. handle_failed_binding n cbs = Done cbs' \<and> cbs_inv cbs'"
  using assms by (auto simp: handle_failed_binding_def assert_that_def cbs_inv_def split: if_splits)

lemma handle_error_ok:
  assumes E: "turn_laws E" and inv: "allocation_inv E a" and f: "tm_method E message = CHANNEL_BIND \<longrightarrow> failed_binding_known E a req"
  shows "\<exists>a'. handle_error_response E error message req now a = Done a' \<and> allocation_inv E a' \<and> keeps_relay a a'"
proof -
  have "\<exists>a'. handle_other_error E message req a = Done a' \<and> allocation_inv E a' \<and> keeps_relay a a'"
  proof (cases "tm_method E message = CHANNEL_BIND \<and> msg_channel_number E req \<noteq> None \<and> msg_xor_peer_address E req \<noteq> None")
    case True
    then obtain n p where n: "msg_channel_number E req = Some n" "msg_xor_peer_address E req = Some p" by blast
    then obtain cbs where "handle_failed_binding n (al_channel_bindings a) = Done cbs" "cbs_inv cbs"
      using failed_binding_ok [OF allocation_invD(2) [OF inv], of n] True f by (auto simp: failed_binding_known_def)
    then show ?thesis using True n channels_inv [OF inv] by (simp add: handle_other_error_def)
  next
    case False
    then show ?thesis using inv by (auto simp: handle_other_error_def split: stun_method.split option.split)
  qed
  then show ?thesis
    using reauthenticate_ok [OF E inv] allocation_mismatch_ok [OF E inv] invalidate_keeps [OF inv] inv
    by (simp add: handle_error_response_def)
qed

lemma binding_success_ok:
  assumes E: "turn_laws E" and inv: "allocation_inv E a"
  shows "\<exists>a'. handle_binding_success E dst local message now a = Done a' \<and> allocation_inv E a' \<and> keeps_relay a a'"
proof -
  define b where "b = (case dst of
              SockV4 _ _ \<Rightarrow> (let (c, evs) = update_candidate (find_map (srflx_candidate E local) (tm_attributes E message)) (al_ip4_srflx_candidate a)
                             in a\<lparr>al_ip4_srflx_candidate := c, al_events := al_events a @ evs\<rparr>)
            | SockV6 _ _ _ _ \<Rightarrow> (let (c, evs) = update_candidate (find_map (srflx_candidate E local) (tm_attributes E message)) (al_ip6_srflx_candidate a)
                             in a\<lparr>al_ip6_srflx_candidate := c, al_events := al_events a @ evs\<rparr>))"
  have b: "allocation_inv E b" using inv by (auto simp: b_def Let_def split: socket_addr.splits prod.splits)
  have ip: "al_ip4_allocation b = al_ip4_allocation a" "al_ip6_allocation b = al_ip6_allocation a" by (auto simp: b_def Let_def split: socket_addr.splits prod.splits)
  let ?b = "b\<lparr>al_active_socket := Some (active_socket_new dst now)\<rparr>"
  have inv': "allocation_inv E ?b" by (rule socket_inv [OF b])
  obtain c where c: "send_request E (make_refresh_request E) now ?b = Done c" "allocation_inv E c" "sent_with ?b c" using send_requests_ok(1) [OF E inv'] by blast
  obtain d where d: "send_request E (make_allocate_request E) now ?b = Done d" "allocation_inv E d" "sent_with ?b d" using send_requests_ok(2) [OF E inv'] by blast
  have k: "keeps_relay a b" "keeps_relay a c" "keeps_relay a d"
    using ip sent_with_frame(6,7) [OF c(3)] sent_with_frame(6,7) [OF d(3)] by (simp_all add: keeps_relay_def)
  show ?thesis using b k c(1,2) d(1,2) unfolding handle_binding_success_def Let_def b_def [unfolded Let_def, symmetric]
    by (auto split: option.split)
qed

lemma find_map_some: "find_map f xs = Some y \<Longrightarrow> \<exists>x\<in>set xs. f x = Some y"
  by (induction xs) (auto split: option.splits)

lemma relay_candidate_found:
  assumes "turn_laws E" "find_map (relay_candidate E P) xs = Some c" shows "P (tm_candidate_addr E c)"
proof -
  obtain x where "relay_candidate E P x = Some c" using find_map_some [OF assms(2)] by blast
  then show ?thesis using assms(1) by (auto simp: relay_candidate_def turn_laws_def split: attribute.splits if_splits)
qed

lemma relay_candidate_attr:
  assumes "find_map (relay_candidate E P) xs = Some c" shows "\<exists>addr. XorRelayAddress addr \<in> set xs \<and> tm_relayed E addr = Some c"
proof -
  obtain x where "x \<in> set xs" "relay_candidate E P x = Some c" using find_map_some [OF assms] by blast
  then show ?thesis by (auto simp: relay_candidate_def split: attribute.splits if_splits)
qed

lemma update_candidate_fst: "fst (update_candidate new cur) = (case new of None \<Rightarrow> cur | Some c \<Rightarrow> Some c)"
  by (auto simp: update_candidate_def split: option.splits)

lemma allocate_success_ok:
  assumes E: "turn_laws E" and inv: "allocation_inv E a" and sc: "al_active_socket a \<noteq> None" "al_credentials a \<noteq> None"
  shows "\<exists>a'. handle_allocate_success E message now a = Done a' \<and> allocation_inv E a' \<and>
     (\<forall>c. al_ip4_allocation a' = Some c \<longrightarrow> al_ip4_allocation a = Some c \<or> (\<exists>addr. XorRelayAddress addr \<in> set (tm_attributes E message) \<and> tm_relayed E addr = Some c)) \<and>
     (\<forall>c. al_ip6_allocation a' = Some c \<longrightarrow> al_ip6_allocation a = Some c \<or> (\<exists>addr. XorRelayAddress addr \<in> set (tm_attributes E message) \<and> tm_relayed E addr = Some c))"
proof (cases "msg_lifetime E message")
  case None
  then show ?thesis using inv by (simp add: handle_allocate_success_def)
next
  case (Some l)
  let ?ip4 = "find_map (relay_candidate E sock_is_ipv4) (tm_attributes E message)"
  let ?ip6 = "find_map (relay_candidate E (\<lambda>s. \<not> sock_is_ipv4 s)) (tm_attributes E message)"
  show ?thesis
  proof (cases "?ip4 = None \<and> ?ip6 = None")
    case True
    then show ?thesis using Some inv by (simp add: handle_allocate_success_def Let_def)
  next
    case False
    obtain c4 e4 where c4: "update_candidate ?ip4 (al_ip4_allocation a) = (c4, e4)" by fastforce
    obtain c6 e6 where c6: "update_candidate ?ip6 (al_ip6_allocation a) = (c6, e6)" by fastforce
    let ?b = "a\<lparr>al_allocation_lifetime := Some (now, l), al_ip4_allocation := c4, al_ip6_allocation := c6, al_events := al_events a @ e4 @ e6\<rparr>"
    have c: "c4 = (case ?ip4 of None \<Rightarrow> al_ip4_allocation a | Some c \<Rightarrow> Some c)" "c6 = (case ?ip6 of None \<Rightarrow> al_ip6_allocation a | Some c \<Rightarrow> Some c)"
      using update_candidate_fst [of ?ip4] update_candidate_fst [of ?ip6] c4 c6 by (metis fst_conv)+
    have "families_ok E ?b" using allocation_invD(3) [OF inv] relay_candidate_found [OF E, of sock_is_ipv4] relay_candidate_found [OF E, of "\<lambda>s. \<not> sock_is_ipv4 s"]
      unfolding families_ok_def by (auto simp: c split: option.splits)
    then have inv': "allocation_inv E ?b" using inv sc by (simp add: allocation_inv_def)
    have "has_allocation ?b" using False by (auto simp: has_allocation_def c split: option.splits)
    then obtain a' where a': "bind_buffered_channels E now ?b = Some (Done a')" "allocation_inv E a'"
      "al_ip4_allocation a' = c4" "al_ip6_allocation a' = c6" using bind_buffered_ok [OF E inv'] by auto
    have "handle_allocate_success E message now a = Done a'"
      using a'(1) Some False c4 c6 by (simp only: handle_allocate_success_def Let_def option.case if_False prod.case loop_outcome_def)
    moreover have "al_ip4_allocation a = Some c \<or> (\<exists>addr. XorRelayAddress addr \<in> set (tm_attributes E message) \<and> tm_relayed E addr = Some c)"
      if "c4 = Some c" for c using that relay_candidate_attr [of E sock_is_ipv4 "tm_attributes E message"] by (auto simp: c split: option.splits)
    moreover have "al_ip6_allocation a = Some c \<or> (\<exists>addr. XorRelayAddress addr \<in> set (tm_attributes E message) \<and> tm_relayed E addr = Some c)"
      if "c6 = Some c" for c using that relay_candidate_attr [of E "\<lambda>s. \<not> sock_is_ipv4 s" "tm_attributes E message"] by (auto simp: c split: option.splits)
    ultimately show ?thesis using a'(2,3,4) by auto
  qed
qed

lemma refresh_success_ok:
  assumes E: "turn_laws E" and inv: "allocation_inv E a" and sc: "al_active_socket a \<noteq> None" "al_credentials a \<noteq> None"
  shows "\<exists>a'. handle_refresh_success E message now a = Done a' \<and> allocation_inv E a' \<and> keeps_relay a a'"
proof -
  have "allocation_inv E (a\<lparr>al_allocation_lifetime := l\<rparr>)" for l using inv sc by (simp add: allocation_inv_def families_ok_def)
  moreover obtain b where "send_request E (make_allocate_request E) now a = Done b" "allocation_inv E b" "sent_with a b"
    using send_requests_ok(2) [OF E inv] by blast
  ultimately show ?thesis using inv sent_with_relay by (auto simp: handle_refresh_success_def split: option.split)
qed

lemma set_confirmed_inv: "cbs_inv cbs \<Longrightarrow> cbs_inv (fst (cbs_set_confirmed n now cbs))"
  by (auto simp: cbs_set_confirmed_def cbs_inv_def split: option.splits if_splits)

lemma bind_success_ok:
  assumes "allocation_inv E a"
  shows "\<exists>a'. handle_channel_bind_success E req now a = Done a' \<and> allocation_inv E a' \<and> keeps_relay a a'"
  using assms channels_inv [OF assms set_confirmed_inv [OF allocation_invD(2) [OF assms]]]
  by (simp add: handle_channel_bind_success_def split: option.split)

text \<open>The packet is no message for this client, or it answers the request it names.\<close>

definition answer_ok :: "('msg, 'mi, 'c, 'r) turn_env \<Rightarrow> ('msg, 'c, 'r) turn_allocation \<Rightarrow> bytes \<Rightarrow> bool" where
  "answer_ok E a packet = (case tm_decode E packet of
       None \<Rightarrow> True
     | Some message \<Rightarrow> (case hm_get (al_sent_requests a) (tm_tid E message) of
         None \<Rightarrow> True
       | Some (_, req, _) \<Rightarrow> tm_method E message = tm_method E req \<and>
           (tm_method E req = CHANNEL_BIND \<longrightarrow> failed_binding_known E a req)))"

lemma handle_response_ok:
  assumes E: "turn_laws E" and inv: "allocation_inv E a" and meth: "tm_method E m = tm_method E req"
    and f: "tm_method E req = CHANNEL_BIND \<longrightarrow> failed_binding_known E a req"
    and sc: "tm_method E req \<noteq> BINDING \<Longrightarrow> al_active_socket a \<noteq> None \<and> al_credentials a \<noteq> None"
  shows "\<exists>a'. handle_response E dst req local m now a = Done a' \<and> allocation_inv E a'"
proof (cases "msg_error_code E m")
  case (Some err)
  then show ?thesis using handle_error_ok [OF E inv, of m req err now] f meth by (auto simp: handle_response_def)
next
  case None
  show ?thesis
  proof (cases "tm_class E m = SuccessResponse")
    case True
    note run = None True meth
    show ?thesis
    proof (cases "tm_method E req")
      case BINDING
      then show ?thesis using run binding_success_ok [OF E inv, of dst local m now] by (auto simp: handle_response_def assert_that_def)
    next
      case ALLOCATE
      then show ?thesis using run sc allocate_success_ok [OF E inv, of m now] by (auto simp: handle_response_def assert_that_def)
    next
      case REFRESH
      then show ?thesis using run sc refresh_success_ok [OF E inv, of m now] by (auto simp: handle_response_def assert_that_def)
    next
      case CHANNEL_BIND
      then show ?thesis using run bind_success_ok [OF inv, of req now] by (auto simp: handle_response_def assert_that_def)
    qed (use run inv in \<open>simp_all add: handle_response_def assert_that_def\<close>)
  qed (use None inv in \<open>simp add: handle_response_def\<close>)
qed

lemma handle_input_ok:
  assumes E: "turn_laws E" and inv: "allocation_inv E a" and ip: "sock_is_ipv4 from = sock_is_ipv4 local" and ok: "answer_ok E a packet"
  shows "\<exists>a' q. allocation_handle_input E from local packet now a = Done (a', q) \<and> allocation_inv E a'"
proof -
  consider "\<not> relay_matches (al_server a) from \<or> tm_decode E packet = None"
    | m where "relay_matches (al_server a) from" "tm_decode E packet = Some m" "hm_get (al_sent_requests a) (tm_tid E m) = None"
    | m dst req b where "relay_matches (al_server a) from" "tm_decode E packet = Some m" "hm_get (al_sent_requests a) (tm_tid E m) = Some (dst, req, b)"
    by (cases "tm_decode E packet"; cases "hm_get (al_sent_requests a) (tm_tid E (the (tm_decode E packet)))") force+
  then show ?thesis
  proof cases
    case 3
    let ?a = "a\<lparr>al_sent_requests := hm_remove (tm_tid E m) (al_sent_requests a)\<rparr>"
    have inv': "allocation_inv E ?a" by (rule remove_request_inv [OF inv])
    have meth: "tm_method E m = tm_method E req" and f: "tm_method E req = CHANNEL_BIND \<longrightarrow> failed_binding_known E ?a req"
      using ok 3 by (auto simp: answer_ok_def failed_binding_known_def split: option.split)
    have sc: "al_active_socket ?a \<noteq> None \<and> al_credentials ?a \<noteq> None" if "tm_method E req \<noteq> BINDING"
      using allocation_invD(4) [OF inv] that 3(3) by (auto simp: engaged_def)
    obtain a' where "handle_response E dst req local m now ?a = Done a'" "allocation_inv E a'" using handle_response_ok [OF E inv' meth f sc] by blast
    then show ?thesis using ip 3 inv by (auto simp: allocation_handle_input_def assert_that_def Let_def)
  qed (use inv ip in \<open>auto simp: allocation_handle_input_def assert_that_def split: option.split\<close>)
qed

text \<open>Whatever the packet is: when the client does not panic on it, the invariant is kept.\<close>

lemma handle_error_done:
  assumes E: "turn_laws E" and inv: "allocation_inv E a" and run: "handle_error_response E error message req now a = Done a'"
  shows "allocation_inv E a' \<and> keeps_relay a a'"
proof (cases "tm_method E message = CHANNEL_BIND \<longrightarrow> failed_binding_known E a req")
  case True
  from handle_error_ok [OF E inv this, of error now] run show ?thesis by auto
next
  case False
  then obtain n where n: "tm_method E message = CHANNEL_BIND" "msg_channel_number E req = Some n" "hm_get (cbs_inner (al_channel_bindings a)) n = None"
    by (auto simp: failed_binding_known_def split: option.splits)
  then have "a' = a" if "handle_other_error E message req a = Done a'"
    using that by (auto simp: handle_other_error_def handle_failed_binding_def assert_that_def split: option.splits)
  moreover obtain b where "reauthenticate E message req now a = Done b" "allocation_inv E b" "keeps_relay a b" using reauthenticate_ok [OF E inv] by blast
  moreover obtain c where "handle_allocation_mismatch E message req now a = Done c" "allocation_inv E c" "keeps_relay a c" using allocation_mismatch_ok [OF E inv] by blast
  ultimately show ?thesis using run invalidate_keeps [OF inv] inv by (auto simp: handle_error_response_def split: if_splits)
qed

definition names_relay :: "('msg, 'mi, 'c, 'r) turn_env \<Rightarrow> 'msg \<Rightarrow> 'c \<Rightarrow> bool" where
  "names_relay E m c \<longleftrightarrow> (\<exists>addr. XorRelayAddress addr \<in> set (tm_attributes E m) \<and> tm_relayed E addr = Some c)"

lemma handle_response_done:
  assumes E: "turn_laws E" and inv: "allocation_inv E a" and run: "handle_response E dst req local m now a = Done a'"
    and sc: "tm_method E req \<noteq> BINDING \<Longrightarrow> al_active_socket a \<noteq> None \<and> al_credentials a \<noteq> None"
  shows "allocation_inv E a' \<and> (keeps_relay a a' \<or> tm_class E m = SuccessResponse \<and> tm_method E m = ALLOCATE \<and>
     (\<forall>c. al_ip4_allocation a' = Some c \<longrightarrow> al_ip4_allocation a = Some c \<or> names_relay E m c) \<and>
     (\<forall>c. al_ip6_allocation a' = Some c \<longrightarrow> al_ip6_allocation a = Some c \<or> names_relay E m c))"
proof (cases "msg_error_code E m")
  case (Some err)
  with run handle_error_done [OF E inv] show ?thesis by (simp add: handle_response_def)
next
  case None
  show ?thesis
  proof (cases "tm_class E m = SuccessResponse")
    case True
    with None run have meth: "tm_method E m = tm_method E req" by (auto simp: handle_response_def assert_that_def split: if_splits)
    show ?thesis
    proof (cases "tm_method E m")
      case BINDING
      then show ?thesis using None True run meth binding_success_ok [OF E inv, of dst local m now] by (auto simp: handle_response_def assert_that_def)
    next
      case ALLOCATE
      with meth sc obtain b where "handle_allocate_success E m now a = Done b" "allocation_inv E b"
        "(\<forall>c. al_ip4_allocation b = Some c \<longrightarrow> al_ip4_allocation a = Some c \<or> names_relay E m c) \<and>
         (\<forall>c. al_ip6_allocation b = Some c \<longrightarrow> al_ip6_allocation a = Some c \<or> names_relay E m c)"
        using allocate_success_ok [OF E inv, of m now] unfolding names_relay_def by auto
      then show ?thesis using None True run meth ALLOCATE by (auto simp: handle_response_def assert_that_def)
    next
      case REFRESH
      then show ?thesis using None True run meth sc refresh_success_ok [OF E inv, of m now] by (auto simp: handle_response_def assert_that_def)
    next
      case CHANNEL_BIND
      then show ?thesis using None True run meth bind_success_ok [OF inv, of req now] by (auto simp: handle_response_def assert_that_def)
    qed (use None True run meth inv in \<open>auto simp: handle_response_def assert_that_def\<close>)
  qed (use None run inv in \<open>simp add: handle_response_def\<close>)
qed

lemma check_message_integrityD:
  assumes "check_message_integrity E a m"
  obtains mi cr where "MessageIntegrity mi \<in> set (tm_attributes E m)" "al_credentials a = Some cr"
    "tm_check_long_term_credential E mi (tcr_username cr) (tcr_realm cr) (tcr_password cr)"
  using assms by (auto simp: check_message_integrity_def msg_message_integrity_def msg_attribute_def dest!: find_in
      split: option.splits attribute.splits)

text \<open>
  A packet that changes the state is from the relay, is the answer to a request in flight, and is about a binding or
  has a message integrity that was made with the credentials.
\<close>

lemma handle_input_done:
  assumes E: "turn_laws E" and inv: "allocation_inv E a" and run: "allocation_handle_input E from local packet now a = Done (a', q)"
  shows "allocation_inv E a' \<and> (a' = a \<or> relay_matches (al_server a) from \<and> (\<exists>m. tm_decode E packet = Some m \<and>
     hm_get (al_sent_requests a) (tm_tid E m) \<noteq> None \<and> (tm_method E m = BINDING \<or> check_message_integrity E a m) \<and>
     (keeps_relay a a' \<or> tm_class E m = SuccessResponse \<and> tm_method E m = ALLOCATE \<and>
       (\<forall>c. al_ip4_allocation a' = Some c \<longrightarrow> al_ip4_allocation a = Some c \<or> names_relay E m c) \<and>
       (\<forall>c. al_ip6_allocation a' = Some c \<longrightarrow> al_ip6_allocation a = Some c \<or> names_relay E m c))))"
proof (cases "a' = a")
  case False
  have ip: "sock_is_ipv4 from = sock_is_ipv4 local" using run by (auto simp: allocation_handle_input_def assert_that_def split: if_splits)
  have src: "relay_matches (al_server a) from" using run False by (auto simp: allocation_handle_input_def assert_that_def split: if_splits)
  obtain m where m: "tm_decode E packet = Some m" using run ip src False by (auto simp: allocation_handle_input_def assert_that_def split: option.splits)
  obtain x where "hm_get (al_sent_requests a) (tm_tid E m) = Some x" using run ip src m False by (auto simp: allocation_handle_input_def assert_that_def split: option.splits)
  then obtain dst req b where r: "hm_get (al_sent_requests a) (tm_tid E m) = Some (dst, req, b)" by (cases x) auto
  let ?a = "a\<lparr>al_sent_requests := hm_remove (tm_tid E m) (al_sent_requests a)\<rparr>"
  have auth: "tm_method E m = BINDING \<or> check_message_integrity E a m" using run ip src m r False by (auto simp: allocation_handle_input_def assert_that_def split: if_splits)
  have sc: "al_active_socket ?a \<noteq> None \<and> al_credentials ?a \<noteq> None" if "tm_method E req \<noteq> BINDING"
    using allocation_invD(4) [OF inv] that r by (auto simp: engaged_def)
  have h: "handle_response E dst req local m now ?a = Done a'" using run ip src m r auth by (auto simp: allocation_handle_input_def assert_that_def Let_def elim!: and_then_DoneE split: if_splits)
  have k: "keeps_relay ?a a' = keeps_relay a a'" by (simp add: keeps_relay_def)
  from handle_response_done [OF E remove_request_inv [OF inv] h sc] src m r auth show ?thesis unfolding k by simp
qed (use inv in simp)

lemma decapsulate_ok:
  assumes inv: "allocation_inv E a"
  shows "\<exists>a' r. decapsulate E from packet now a = Done (a', r) \<and> allocation_inv E a'"
proof -
  obtain cbs r where t: "cbs_try_decode packet now (al_channel_bindings a) = (cbs, r)" by fastforce
  have "cbs_inv cbs" using t allocation_invD(2) [OF inv] by (auto simp: cbs_try_decode_def cbs_inv_def split: sum.splits option.splits if_splits)
  then have inv': "allocation_inv E (a\<lparr>al_channel_bindings := cbs\<rparr>)" by (rule channels_inv [OF inv])
  have s: "\<exists>x. ip4_socket E (a\<lparr>al_channel_bindings := cbs\<rparr>) = Done x" "\<exists>x. ip6_socket E (a\<lparr>al_channel_bindings := cbs\<rparr>) = Done x"
    using allocation_invD(3) [OF inv] by (auto simp: ip4_socket_def ip6_socket_def families_ok_def assert_that_def split: option.split)
  show ?thesis using inv inv' t s by (auto simp: decapsulate_def Let_def split: option.split socket_addr.split prod.split)
qed

end
