(* ===== verification/Turn_Silence.thy ===== *)
theory Turn_Silence
  imports Turn_Input
begin

text \<open>
  A TURN client whose relay never answers: the stages of its requests, step by step, until it gives up.
\<close>

section \<open>Stages\<close>

text \<open>Nothing was received: there are binding requests only, all of stage \<open>k\<close>.\<close>

definition unanswered :: "('msg, 'mi, 'c, 'r) turn_env \<Rightarrow> exponential_backoff set \<Rightarrow> ('msg, 'c, 'r) turn_allocation \<Rightarrow> bool" where
  "unanswered E B a \<longleftrightarrow> al_active_socket a = None \<and> \<not> has_allocation a \<and> al_allocation_lifetime a = None \<and> al_events a = [] \<and>
     al_explicit_failure a = None \<and> cbs_inner (al_channel_bindings a) = [] \<and>
     (\<forall>i dst m b. hm_get (al_sent_requests a) i = Some (dst, m, b) \<longrightarrow> tm_method E m = BINDING \<and> b \<in> B)"

lemma unanswered_sent:
  assumes "sent_with a a'" "unanswered E B a"
    "\<And>i dst m b. hm_get (al_sent_requests a') i = Some (dst, m, b) \<Longrightarrow> tm_method E m = BINDING \<and> b \<in> C"
  shows "unanswered E C a'"
  using assms(2,3) unfolding unanswered_def sent_with_frame [OF assms(1)] by blast

text \<open>One turn of the loop: the request moves on to the next stage, or it is dropped in the last one.\<close>

lemma unanswered_retry:
  assumes E: "turn_laws E" and inv: "allocation_inv E a" and un: "unanswered E {backoff_at s k, backoff_at s (Suc k)} a" and k: "k < 4"
    and now: "now = s + trigger_after k" and out: "timed_out_request now a = Some (i, r)" and run: "retry_request E now i r a = Done a'"
    and later: "k < 3 \<Longrightarrow> now < s + trigger_after (Suc k)" and last: "k = 3 \<Longrightarrow> unanswered E {backoff_at s k} a"
  shows "unanswered E (if k < 3 then {backoff_at s k, backoff_at s (Suc k)} else {backoff_at s k}) a'" "k < 3 \<Longrightarrow> al_sent_requests a' \<noteq> []"
proof -
  obtain dst m b where r: "r = (dst, m, b)" by (cases r)
  note t = timed_out_some [OF inv out [unfolded r]]
  have m: "tm_method E m = BINDING" using un t(1) unfolding unanswered_def by blast
  have "bo_next_trigger b \<le> now" using t(2) by auto
  then have b: "b = backoff_at s k"
    using un last later t(1) k unfolding unanswered_def by (cases "k = 3") (fastforce, force)
  let ?R = "hm_remove i (al_sent_requests a)"
  obtain a1 q where a1: "queue E dst m (Some (backoff_handle_timeout now b)) now (a\<lparr>al_sent_requests := ?R\<rparr>) = Done (a1, q)"
    "sent_with (a\<lparr>al_sent_requests := ?R\<rparr>) a1"
    "if q then now < s + from_secs 8 \<and> al_sent_requests a1 = hm_insert i (dst, m, backoff_at s (Suc k)) ?R else al_sent_requests a1 = ?R \<and> \<not> now < s + from_secs 8"
    using resend_ok [OF E inv t(1) [unfolded b] k, of now] m now unfolding b by (auto split: if_splits)
  have none: "al_active_socket a1 = None" using sent_with_frame(2) [OF a1(2)] un by (simp add: unanswered_def)
  have a': "a' = a1" using run a1(1) m none by (simp add: retry_request_def r Let_def)
  have q: "q \<longleftrightarrow> k < 3" using a1(3) k less4_cases [OF k] now by (auto simp: trigger_after_def from_millis_def from_secs_def split: if_splits)
  have un': "unanswered E {backoff_at s k, backoff_at s (Suc k)} (a\<lparr>al_sent_requests := ?R\<rparr>)"
    using un inv_wf [OF inv] by (auto simp: unanswered_def has_allocation_def split: if_splits)
  show "k < 3 \<Longrightarrow> al_sent_requests a' \<noteq> []" using a1(3) q a' by (auto dest: arg_cong [of _ _ "\<lambda>m. hm_get m i"])
  show "unanswered E (if k < 3 then {backoff_at s k, backoff_at s (Suc k)} else {backoff_at s k}) a'"
  proof (rule unanswered_sent [OF a1(2) [folded a'] un'])
    fix j d n c assume g: "hm_get (al_sent_requests a') j = Some (d, n, c)"
    show "tm_method E n = BINDING \<and> c \<in> (if k < 3 then {backoff_at s k, backoff_at s (Suc k)} else {backoff_at s k})"
    proof (cases "k < 3")
      case True
      then show ?thesis using g a1(3) q a' m un inv_wf [OF inv] unfolding unanswered_def by (auto split: if_splits)
    next
      case False
      then have "hm_get (al_sent_requests a) j = Some (d, n, c)" using g a1(3) q a' inv_wf [OF inv] by (auto split: if_splits)
      then show ?thesis using last False k unfolding unanswered_def by auto
    qed
  qed
qed

lemma unanswered_mono: "unanswered E B a \<Longrightarrow> B \<subseteq> C \<Longrightarrow> unanswered E C a"
  unfolding unanswered_def by blast

lemma later_stage: "k < 3 \<Longrightarrow> s + trigger_after k < s + trigger_after (Suc k)"
  using less4_cases [of k] by (auto simp: trigger_after_def from_millis_def)

lemma unanswered_loop:
  assumes E: "turn_laws E" and inv: "allocation_inv E a" and un: "unanswered E {backoff_at s k} a" and k: "k < 4" and some: "al_sent_requests a \<noteq> []"
  shows "\<exists>a'. retry_loop E (s + trigger_after k) a = Some (Done a') \<and> allocation_inv E a' \<and> timed_out_request (s + trigger_after k) a' = None \<and>
     unanswered E {backoff_at s (Suc k)} a' \<and> (al_sent_requests a' = [] \<longleftrightarrow> k = 3)"
proof -
  define B where "B = (if k < 3 then {backoff_at s k, backoff_at s (Suc k)} else {backoff_at s k})"
  have "\<exists>a'. retry_loop E (s + trigger_after k) a = Some (Done a') \<and> allocation_inv E a' \<and>
     (unanswered E B a' \<and> (k < 3 \<longrightarrow> al_sent_requests a' \<noteq> [])) \<and> timed_out_request (s + trigger_after k) a' = None \<and>
     keeps_socket a a' \<and> drawn E (loop_turns (al_sent_requests a)) a a'"
  proof (rule retry_loop_rule [OF E inv])
    show "unanswered E B a \<and> (k < 3 \<longrightarrow> al_sent_requests a \<noteq> [])" using unanswered_mono [OF un] some by (auto simp: B_def)
    fix a i r a'
    assume a: "allocation_inv E a" "unanswered E B a \<and> (k < 3 \<longrightarrow> al_sent_requests a \<noteq> [])" "timed_out_request (s + trigger_after k) a = Some (i, r)"
      "retry_request E (s + trigger_after k) i r a = Done a'"
    have "unanswered E {backoff_at s k, backoff_at s (Suc k)} a" using a(2) unanswered_mono [of E B a "{backoff_at s k, backoff_at s (Suc k)}"] by (auto simp: B_def)
    note step = unanswered_retry [OF E a(1) this k refl a(3,4) later_stage]
    have "k = 3 \<Longrightarrow> unanswered E {backoff_at s k} a" using a(2) by (simp add: B_def)
    with step show "unanswered E B a' \<and> (k < 3 \<longrightarrow> al_sent_requests a' \<noteq> [])" unfolding B_def by blast
  qed
  then obtain a' where a': "retry_loop E (s + trigger_after k) a = Some (Done a')" "allocation_inv E a'" "unanswered E B a'" "k < 3 \<longrightarrow> al_sent_requests a' \<noteq> []"
    "timed_out_request (s + trigger_after k) a' = None" by blast
  have nxt: "k < 3 \<and> b = backoff_at s (Suc k)" if g: "hm_get (al_sent_requests a') i = Some (dst, m, b)" for i dst m b
  proof -
    have "b \<in> B" using a'(3) g unfolding unanswered_def by blast
    moreover have "b \<noteq> backoff_at s k" using timed_out_none [OF a'(5) g] by auto
    ultimately show ?thesis by (auto simp: B_def split: if_splits)
  qed
  have "unanswered E {backoff_at s (Suc k)} a'" using a'(3) nxt unfolding unanswered_def by blast
  moreover have "al_sent_requests a' = []" if "k = 3"
  proof (rule ccontr)
    assume "al_sent_requests a' \<noteq> []"
    then obtain i x where "(i, x) \<in> set (al_sent_requests a')" by (cases "al_sent_requests a'") auto
    then have "hm_get (al_sent_requests a') i = Some x" using inv_wf [OF a'(2)] by (simp add: hm_in_set_iff)
    then show False using nxt [of i "fst x" "fst (snd x)" "snd (snd x)"] that by simp
  qed
  ultimately show ?thesis using a' k by auto
qed

lemma unanswered_timeout:
  assumes E: "turn_laws E" and inv: "allocation_inv E a" and un: "unanswered E {backoff_at s k} a" and k: "k < 4" and some: "al_sent_requests a \<noteq> []"
  shows "\<exists>a'. allocation_handle_timeout E (s + trigger_after k) a = Done a' \<and> allocation_inv E a' \<and>
     unanswered E {backoff_at s (Suc k)} a' \<and> (al_sent_requests a' = [] \<longleftrightarrow> k = 3)"
proof -
  obtain a' where a': "retry_loop E (s + trigger_after k) a = Some (Done a')" "allocation_inv E a'" "timed_out_request (s + trigger_after k) a' = None"
     "unanswered E {backoff_at s (Suc k)} a'" "al_sent_requests a' = [] \<longleftrightarrow> k = 3" using unanswered_loop [OF assms] by blast
  have "send_keepalive E (s + trigger_after k) (expire_allocation (s + trigger_after k) a) = Done a"
    using un by (simp add: unanswered_def expire_allocation_def allocation_expires_at_def send_keepalive_def)
  moreover have "refresh_when_due E (s + trigger_after k) (tick_backoffs (s + trigger_after k) a') = Done a'"
    using a'(4) by (simp add: tick_backoffs_same [OF inv_wf [OF a'(2)] a'(3)] refresh_when_due_def refresh_allocation_at_def unanswered_def)
  moreover have "refresh_channels E (s + trigger_after k) a' = Done a'"
    using a'(4) by (simp add: refresh_channels_def channels_to_refresh_def btree_items_def unanswered_def)
  ultimately have "allocation_handle_timeout E (s + trigger_after k) a = Done a'"
    using a'(1) by (simp add: allocation_handle_timeout_def loop_outcome_def)
  then show ?thesis using a'(2,4,5) by blast
qed

lemma unanswered_poll:
  assumes inv: "allocation_inv E a" and un: "unanswered E {backoff_at s k} a"
  shows "allocation_poll_timeout E a = (if al_sent_requests a = [] then None else Some (s + trigger_after k))"
proof -
  let ?ts = "map (\<lambda>(_, _, b). bo_next_trigger b) (hm_values (al_sent_requests a))"
  have "t = s + trigger_after k" if "t \<in> set ?ts" for t
    using that un hm_values_iff [OF inv_wf [OF inv]] unfolding unanswered_def by fastforce
  then have "set ?ts = (if al_sent_requests a = [] then {} else {s + trigger_after k})"
    by (cases "al_sent_requests a") (auto simp: hm_values_def)
  moreover have "refresh_allocation_at a = None" "\<not> has_allocation a" using un by (simp_all add: unanswered_def refresh_allocation_at_def)
  ultimately show ?thesis by (auto simp: allocation_poll_timeout_def List.map_filter_def Let_def split: if_splits)
qed

section \<open>Giving up\<close>

lemma unanswered_wakeups:
  assumes E: "turn_laws E" and "allocation_inv E a" "unanswered E {backoff_at s k} a" "k < 4" "al_sent_requests a \<noteq> []"
  shows "wakeups (allocation_poll_timeout E) (\<lambda>a now. allocation_handle_timeout E now a) n a = take n (map (\<lambda>k. s + trigger_after k) [k..<4])"
  using assms(2-)
proof (induction n arbitrary: a k)
  case (Suc n)
  obtain a' where a': "allocation_handle_timeout E (s + trigger_after k) a = Done a'" "allocation_inv E a'"
     "unanswered E {backoff_at s (Suc k)} a'" "al_sent_requests a' = [] \<longleftrightarrow> k = 3" using unanswered_timeout [OF E Suc.prems] by blast
  note poll = unanswered_poll [OF Suc.prems(1,2)]
  show ?case
  proof (cases "k = 3")
    case True
    then have "wakeups (allocation_poll_timeout E) (\<lambda>a now. allocation_handle_timeout E now a) n a' = []"
      using unanswered_poll [OF a'(2,3)] a'(4) by (cases n) simp_all
    then show ?thesis using poll Suc.prems(4) a'(1) True by (simp add: upt_rec)
  next
    case False
    then have "[k..<4] = k # [Suc k..<4]" using Suc.prems(3) by (simp add: upt_rec)
    moreover have "wakeups (allocation_poll_timeout E) (\<lambda>a now. allocation_handle_timeout E now a) n a' = take n (map (\<lambda>k. s + trigger_after k) [Suc k..<4])"
      by (rule Suc.IH [OF a'(2,3)]) (use False Suc.prems(3) a'(4) in auto)
    ultimately show ?thesis using poll Suc.prems(4) a'(1) by simp
  qed
qed simp

lemma unanswered_end:
  assumes E: "turn_laws E" and "allocation_inv E a" "unanswered E {backoff_at s k} a" "k < 4" "al_sent_requests a \<noteq> []"
  shows "\<exists>a'. fold_outcome (allocation_handle_timeout E) (map (\<lambda>k. s + trigger_after k) [k..<4]) a = Done a' \<and>
     al_sent_requests a' = [] \<and> unanswered E {} a' \<and> allocation_poll_timeout E a' = None"
  using assms(2-)
proof (induction "3 - k" arbitrary: a k)
  case 0
  then have k: "k = 3" by simp
  obtain a' where a': "allocation_handle_timeout E (s + trigger_after k) a = Done a'" "allocation_inv E a'"
     "unanswered E {backoff_at s (Suc k)} a'" "al_sent_requests a' = []" using unanswered_timeout [OF E 0(2-)] k by blast
  moreover from a'(3,4) have "unanswered E {} a'" by (simp add: unanswered_def)
  ultimately show ?case using k unanswered_poll [OF a'(2,3)] by (simp add: upt_rec)
next
  case (Suc x)
  obtain a' where a': "allocation_handle_timeout E (s + trigger_after k) a = Done a'" "allocation_inv E a'"
     "unanswered E {backoff_at s (Suc k)} a'" "al_sent_requests a' = [] \<longleftrightarrow> k = 3" using unanswered_timeout [OF E Suc.prems] by blast
  have k: "[k..<4] = k # [Suc k..<4]" "Suc k < 4" "x = 3 - Suc k" "al_sent_requests a' \<noteq> []" using Suc.hyps(2) a'(4) by (auto simp: upt_rec)
  show ?case using Suc.hyps(1) [OF k(3) a'(2,3) k(2,4)] a'(1) k(1) by simp
qed

end
