(* ===== verification/Turn_Properties.thy ===== *)
theory Turn_Properties
  imports Turn_Silence
begin

text \<open>
  The calls of the TURN client as one step function, the states that are reached by them, and the properties
  of the client.
\<close>

section \<open>Calls\<close>

datatype turn_call =
    HandleInput socket_addr socket_addr bytes
  | HandleTimeout
  | BindChannel socket_addr
  | EncodeChannelData socket_addr bytes
  | Decapsulate socket_addr bytes
  | RefreshAllocation
  | PollEvent
  | PollTransmit
  | CanBeFreed

definition turn_step :: "('msg, 'mi, 'c, 'r) turn_env \<Rightarrow> instant \<Rightarrow> turn_call \<Rightarrow> ('msg, 'c, 'r) turn_allocation \<Rightarrow> ('msg, 'c, 'r) turn_allocation outcome" where
  "turn_step E now c a = (case c of
       HandleInput src local packet \<Rightarrow> and_then (allocation_handle_input E src local packet now a) (\<lambda>(a, _). Done a)
     | HandleTimeout \<Rightarrow> allocation_handle_timeout E now a
     | BindChannel peer \<Rightarrow> bind_channel E peer now a
     | EncodeChannelData peer buffer \<Rightarrow> and_then (encode_channel_data_header E peer buffer now a) (\<lambda>(a, _). Done a)
     | Decapsulate src packet \<Rightarrow> and_then (decapsulate E src packet now a) (\<lambda>(a, _). Done a)
     | RefreshAllocation \<Rightarrow> allocation_refresh E now a
     | PollEvent \<Rightarrow> Done (fst (allocation_poll_event a))
     | PollTransmit \<Rightarrow> Done (fst (allocation_poll_transmit a))
     | CanBeFreed \<Rightarrow> Done (fst (can_be_freed a)))"

text \<open>
  What the code asserts of the arguments of a call: the two addresses of a packet are of one IP version, a response is of
  the method of its request, a channel that failed to bind is in the table, and a buffer has room for the header and at
  most a 16 bit length of payload.
\<close>

definition turn_call_ok :: "('msg, 'mi, 'c, 'r) turn_env \<Rightarrow> ('msg, 'c, 'r) turn_allocation \<Rightarrow> turn_call \<Rightarrow> bool" where
  "turn_call_ok E a c = (case c of
       HandleInput src local packet \<Rightarrow> sock_is_ipv4 src = sock_is_ipv4 local \<and> answer_ok E a packet
     | EncodeChannelData peer buffer \<Rightarrow> 4 \<le> length buffer \<and> length buffer \<le> 65539
     | _ \<Rightarrow> True)"

text \<open>The states that calls reach from a new allocation, whatever their arguments, as long as they return.\<close>

inductive turn_reachable :: "('msg, 'mi, 'c, 'r) turn_env \<Rightarrow> ('msg, 'c, 'r) turn_allocation \<Rightarrow> bool" for E where
  start: "turn_allocation_new E server username password realm now session r = Done a \<Longrightarrow> turn_reachable E a"
| call: "turn_reachable E a \<Longrightarrow> turn_step E now c a = Done a' \<Longrightarrow> turn_reachable E a'"

lemma new_ok:
  assumes E: "turn_laws E" and new: "turn_allocation_new E server username password realm now session r = Done a"
  shows "allocation_inv E a" "unanswered E {backoff_at now 0} a" "al_sent_requests a \<noteq> []"
proof -
  define a0 :: "('a, 'c, 'd) turn_allocation" where "a0 = \<lparr>al_server = server, al_active_socket = None, al_software = ''snownet; session='' @ session,
      al_ip4_srflx_candidate = None, al_ip6_srflx_candidate = None, al_ip4_allocation = None, al_ip6_allocation = None,
      al_allocation_lifetime = None, al_buffered_transmits = [], al_events = [], al_sent_requests = [],
      al_channel_bindings = cbs_default, al_buffered_channel_bindings = [],
      al_credentials = Some \<lparr>tcr_username = username, tcr_password = password, tcr_realm = realm, tcr_nonce = None\<rparr>,
      al_explicit_failure = None, al_rng = r\<rparr>"
  have run: "send_binding_requests E now a0 = Done a" using new by (auto simp: turn_allocation_new_def a0_def assert_that_def split: if_splits)
  have inv0: "allocation_inv E a0"
    by (simp add: a0_def allocation_inv_def requests_ok_def families_ok_def engaged_def has_allocation_def cbs_default_def cbs_inv_def channel_range_def FIRST_CHANNEL_def LAST_CHANNEL_def)
  have un0: "unanswered E {} a0" by (simp add: a0_def unanswered_def has_allocation_def cbs_default_def)
  have R0: "al_sent_requests a0 = []" by (simp add: a0_def)
  have a: "allocation_inv E a" "extends E now 2 a0 a" "binds_only E a0 a" "al_sent_requests a \<noteq> []"
    using send_binding_requests_ok [OF E inv0, of now] run by auto
  show "allocation_inv E a" "al_sent_requests a \<noteq> []" by (rule a)+
  show "unanswered E {backoff_at now 0} a"
  proof (rule unanswered_sent [OF extendsD(1) [OF a(2)] un0])
    fix i dst m b assume g: "hm_get (al_sent_requests a) i = Some (dst, m, b)"
    show "tm_method E m = BINDING \<and> b \<in> {backoff_at now 0}" using a(3) extendsD(2) [OF a(2) g] g R0 by (auto simp: binds_only_def)
  qed
qed

lemma encode_header_ok:
  assumes E: "turn_laws E" and inv: "allocation_inv E a" and len: "4 \<le> length buffer" "length buffer \<le> 65539"
  shows "\<exists>a' x. encode_channel_data_header E peer buffer now a = Done (a', x) \<and> allocation_inv E a'"
proof (cases "connected_channel_to_peer (al_channel_bindings a) peer now")
  case None
  obtain a' where "bind_channel E peer now a = Done a'" "allocation_inv E a'" using bind_channel_ok [OF E inv] by blast
  then show ?thesis using None inv len by (auto simp: encode_channel_data_header_def assert_that_def split: option.split)
next
  case (Some n)
  then obtain c where "(n, c) \<in> set (cbs_inner (al_channel_bindings a))"
    by (auto simp: connected_channel_to_peer_def dest!: btree_items_find split: prod.splits)
  then have "channel_range n" using allocation_invD(2) [OF inv] by (simp add: cbs_inv_def hm_in_set_iff)
  then have "0x400 < n" "n < 0x7FFF" by (auto simp: channel_range_def FIRST_CHANNEL_def LAST_CHANNEL_def word_le_nat_alt word_less_nat_alt)
  then show ?thesis using Some inv len
    by (auto simp: encode_channel_data_header_def assert_that_def snownet_encode_header_to_slice_def HEADER_LEN_def u16_to_be_bytes_def Let_def split: option.split)
qed

lemma turn_step_ok:
  assumes E: "turn_laws E" and inv: "allocation_inv E a" and ok: "turn_call_ok E a c"
  shows "\<exists>a'. turn_step E now c a = Done a' \<and> allocation_inv E a'"
proof (cases c)
  case (HandleInput src local packet)
  then show ?thesis using handle_input_ok [OF E inv, of src local packet now] ok by (auto simp: turn_step_def turn_call_ok_def)
next
  case HandleTimeout
  then show ?thesis using allocation_timeout_ok [OF E inv, of now] by (auto simp: turn_step_def)
next
  case (BindChannel peer)
  then show ?thesis using bind_channel_ok [OF E inv, of peer now] by (auto simp: turn_step_def)
next
  case (EncodeChannelData peer buffer)
  then show ?thesis using encode_header_ok [OF E inv, of buffer peer now] ok by (auto simp: turn_step_def turn_call_ok_def)
next
  case (Decapsulate src packet)
  then show ?thesis using decapsulate_ok [OF inv, of src packet now] by (auto simp: turn_step_def)
next
  case RefreshAllocation
  then show ?thesis using allocation_refresh_ok [OF E inv, of now] by (auto simp: turn_step_def)
qed (use inv in \<open>auto simp: turn_step_def allocation_poll_event_def allocation_poll_transmit_def can_be_freed_def split: list.split option.split\<close>)

lemma encode_header_done:
  assumes E: "turn_laws E" and inv: "allocation_inv E a" and run: "encode_channel_data_header E peer buffer now a = Done (a', x)"
  shows "allocation_inv E a'"
  using run inv bind_channel_ok [OF E inv, of peer now]
  by (fastforce simp: encode_channel_data_header_def elim!: and_then_DoneE split: option.splits)

lemma turn_step_done:
  assumes E: "turn_laws E" and inv: "allocation_inv E a" and run: "turn_step E now c a = Done a'"
  shows "allocation_inv E a'"
proof (cases c)
  case (HandleInput src local packet)
  then show ?thesis using handle_input_done [OF E inv, of src local packet now] run by (auto simp: turn_step_def elim!: and_then_DoneE)
next
  case (EncodeChannelData peer buffer)
  then show ?thesis using encode_header_done [OF E inv, of peer buffer now] run by (auto simp: turn_step_def elim!: and_then_DoneE)
qed (use turn_step_ok [OF E inv, of c now] run in \<open>auto simp: turn_call_ok_def\<close>)

lemma reachable_inv:
  assumes E: "turn_laws E" and "turn_reachable E a" shows "allocation_inv E a"
  using assms(2)
proof (induction rule: turn_reachable.induct)
  case (start server username password realm now session r a)
  then show ?case using new_ok(1) [OF E] by blast
next
  case (call a now c a')
  then show ?case using turn_step_done [OF E] by blast
qed

section \<open>A sample\<close>

text \<open>An environment whose message integrity is the credentials it was made with.\<close>

type_synonym sample_message = "message_class \<times> stun_method \<times> transaction_id \<times> (string \<times> string \<times> string) attribute list"

definition sample_turn :: "(bytes \<Rightarrow> sample_message option) \<Rightarrow> (sample_message, string \<times> string \<times> string, socket_addr, nat) turn_env" where
  "sample_turn d = \<lparr>tm_new = (\<lambda>c m t. (c, m, t, [])), tm_add_attribute = (\<lambda>(c, m, t, xs) x. (c, m, t, xs @ [x])),
     tm_attributes = (\<lambda>(c, m, t, xs). xs), tm_class = (\<lambda>(c, m, t, xs). c), tm_method = (\<lambda>(c, m, t, xs). m), tm_tid = (\<lambda>(c, m, t, xs). t),
     tm_decode = d, tm_encode = (\<lambda>_. Some []), tm_check_long_term_credential = (\<lambda>mi u r p. mi = (u, r, p)), tm_new_long_term_credential = (\<lambda>_ u r p. Some (u, r, p)),
     tm_channel_number_ok = (\<lambda>n. 0x4000 \<le> n \<and> n < 0x7FFF), tm_software_ok = (\<lambda>_. True), tm_random = (\<lambda>n. (of_nat n, Suc n)),
     tm_ring_push = (\<lambda>xs x. xs @ [x]), tm_server_reflexive = (\<lambda>a _. Some a), tm_relayed = Some, tm_candidate_addr = id\<rparr>"

lemma sample_turn_laws: "turn_laws (sample_turn d)"
  by (simp add: turn_laws_def sample_turn_def)

lemma sample_draws: "draws (sample_turn d) n k = map of_nat [n..<n + k]"
  by (induction k arbitrary: n) (simp_all add: sample_turn_def upt_rec)

definition relay_addr :: socket_addr where "relay_addr = SockV4 1 3478"
definition local_addr :: socket_addr where "local_addr = SockV4 2 52625"

text \<open>The packets of a relay: a binding response, an allocate response, and an error that nobody signed.\<close>

definition sample_packets :: "bytes \<Rightarrow> sample_message option" where
  "sample_packets p =
     (if p = [0] then Some (SuccessResponse, BINDING, 0, [XorMappedAddress (SockV4 3 52625)])
      else if p = [1] then Some (SuccessResponse, ALLOCATE, 2, [XorRelayAddress (SockV4 1 49152), Lifetime (from_secs 600), MessageIntegrity (''u'', ''r'', ''p'')])
      else if p = [2] then Some (ErrorResponse, BINDING, 3, [ErrorCode AllocationMismatch])
      else None)"

abbreviation sample_E :: "(sample_message, string \<times> string \<times> string, socket_addr, nat) turn_env" where
  "sample_E \<equiv> sample_turn sample_packets"

definition sample_sent :: "transaction_id \<Rightarrow> stun_method \<Rightarrow> (string \<times> string \<times> string) attribute list \<Rightarrow> instant \<Rightarrow> (transaction_id, socket_addr \<times> sample_message \<times> exponential_backoff) hmap" where
  "sample_sent t m xs now = [(t, relay_addr, (Request, m, t, xs), backoff_at now 0)]"

abbreviation sample_software :: string where
  "sample_software \<equiv> ''snownet; session=s''"

abbreviation sample_transmit :: transmit where
  "sample_transmit \<equiv> \<lparr>tx_src = None, tx_dst = relay_addr, tx_payload = []\<rparr>"

definition sample_new :: "(sample_message, socket_addr, nat) turn_allocation" where
  "sample_new = \<lparr>al_server = RelayV4 (1, 3478), al_active_socket = None, al_software = sample_software,
      al_ip4_srflx_candidate = None, al_ip6_srflx_candidate = None, al_ip4_allocation = None, al_ip6_allocation = None,
      al_allocation_lifetime = None, al_buffered_transmits = [sample_transmit], al_events = [],
      al_sent_requests = sample_sent 0 BINDING [Software sample_software] 0,
      al_channel_bindings = cbs_default, al_buffered_channel_bindings = [],
      al_credentials = Some \<lparr>tcr_username = ''u'', tcr_password = ''p'', tcr_realm = ''r'', tcr_nonce = None\<rparr>,
      al_explicit_failure = None, al_rng = 1\<rparr>"

lemmas sample_simps = sample_turn_def sample_sent_def relay_addr_def local_addr_def sample_packets_def
  backoff_new_at hm_insert_def

lemma sample_new: "turn_allocation_new sample_E (RelayV4 (1, 3478)) ''u'' ''p'' ''r'' 0 ''s'' 0 = Done sample_new"
  by (simp add: sample_new_def sample_simps turn_allocation_new_def send_binding_requests_def queue_binding_def make_binding_request_def queue_def
      Let_def assert_that_def expect_def sock_v4_def from_secs_def)

definition sample_bound :: "(sample_message, socket_addr, nat) turn_allocation" where
  "sample_bound = sample_new\<lparr>al_active_socket := Some (active_socket_new relay_addr 10), al_ip4_srflx_candidate := Some (SockV4 3 52625),
     al_events := [NewCandidate (SockV4 3 52625)], al_buffered_transmits := [sample_transmit, sample_transmit],
     al_sent_requests := sample_sent 2 ALLOCATE [RequestedTransport 17, AdditionalAddressFamily AF_V6, Software sample_software,
       Username ''u'', Realm ''r'', MessageIntegrity (''u'', ''r'', ''p'')] 10, al_rng := 3\<rparr>"

lemma sample_bound: "allocation_handle_input sample_E relay_addr local_addr [0] 10 sample_new = Done (sample_bound, True)"
  by (simp add: sample_bound_def sample_new_def sample_simps allocation_handle_input_def handle_response_def handle_binding_success_def
      send_request_def make_allocate_request_def authenticate_and_queue_def authenticate_def queue_def srflx_candidate_def update_candidate_def
      relay_matches_def sock_v4_def sock_is_ipv4_def msg_error_code_def msg_attribute_def has_allocation_def active_socket_new_def hm_get_def hm_remove_def
      Let_def assert_that_def expect_def from_secs_def)

definition sample_allocated :: "(sample_message, socket_addr, nat) turn_allocation" where
  "sample_allocated = sample_bound\<lparr>al_ip4_allocation := Some (SockV4 1 49152), al_allocation_lifetime := Some (20, from_secs 600),
     al_events := [NewCandidate (SockV4 3 52625), NewCandidate (SockV4 1 49152)], al_sent_requests := []\<rparr>"

lemma sample_allocated: "allocation_handle_input sample_E relay_addr local_addr [1] 20 sample_bound = Done (sample_allocated, True)"
  by (simp add: sample_allocated_def sample_bound_def sample_new_def sample_simps allocation_handle_input_def handle_response_def
      handle_allocate_success_def check_message_integrity_def msg_message_integrity_def msg_lifetime_def relay_candidate_def update_candidate_def loop_outcome_def bind_buffered_channels.simps
      relay_matches_def sock_v4_def sock_is_ipv4_def msg_error_code_def msg_attribute_def has_allocation_def hm_get_def hm_remove_def
      Let_def assert_that_def)

definition sample_keepalive :: "(sample_message, socket_addr, nat) turn_allocation" where
  "sample_keepalive = sample_allocated\<lparr>al_active_socket := Some \<lparr>as_addr = relay_addr, as_next_binding = from_secs 55\<rparr>,
     al_buffered_transmits := [sample_transmit, sample_transmit, sample_transmit],
     al_sent_requests := sample_sent 3 BINDING [Software sample_software] (from_secs 30), al_rng := 4\<rparr>"

lemma sample_keepalive: "allocation_handle_timeout sample_E (from_secs 30) sample_allocated = Done sample_keepalive"
  by (simp add: sample_keepalive_def sample_allocated_def sample_bound_def sample_new_def sample_simps allocation_handle_timeout_def expire_allocation_def
      allocation_expires_at_def send_keepalive_def active_socket_handle_timeout_def active_socket_new_def BINDING_INTERVAL_def queue_binding_def make_binding_request_def queue_def
      retry_loop.simps timed_out_request_def btree_items_def backoff_at_def trigger_after_def tick_backoffs_def refresh_when_due_def refresh_allocation_at_def
      refresh_channels_def channels_to_refresh_def cbs_default_def backoff_handle_timeout_def loop_outcome_def has_allocation_def
      Let_def expect_def from_secs_def from_millis_def backoff_is_expired_def MAX_ELAPSED_TIME_def)

lemma sample_calls_ok:
  "turn_call_ok sample_E sample_new (HandleInput relay_addr local_addr [0])"
  "turn_call_ok sample_E sample_bound (HandleInput relay_addr local_addr [1])"
  by (simp_all add: turn_call_ok_def answer_ok_def sample_bound_def sample_new_def sample_simps hm_get_def sock_is_ipv4_def)

lemma sample_turn_reachable: "turn_reachable sample_E sample_new" "turn_reachable sample_E sample_bound"
  "turn_reachable sample_E sample_allocated" "turn_reachable sample_E sample_keepalive"
proof -
  show new: "turn_reachable sample_E sample_new" by (rule turn_reachable.start [OF sample_new])
  show bound: "turn_reachable sample_E sample_bound"
    by (rule turn_reachable.call [OF new, where c = "HandleInput relay_addr local_addr [0]" and now = 10]) (simp add: turn_step_def sample_bound)
  show allocated: "turn_reachable sample_E sample_allocated"
    by (rule turn_reachable.call [OF bound, where c = "HandleInput relay_addr local_addr [1]" and now = 20]) (simp add: turn_step_def sample_allocated)
  show "turn_reachable sample_E sample_keepalive"
    by (rule turn_reachable.call [OF allocated, where c = HandleTimeout and now = "from_secs 30"])
      (simp add: turn_step_def sample_keepalive)
qed

text \<open>A first channel, to one peer.\<close>

definition sample_channels :: channel_bindings where
  "sample_channels = \<lparr>cbs_inner = [(0x4000, \<lparr>tc_peer = SockV4 5 6, tc_bound = False, tc_bound_at = 30, tc_last_received = 30\<rparr>)],
     cbs_next_channel = 0x4001\<rparr>"

lemma sample_bind: "\<exists>a. turn_step sample_E 30 (BindChannel (SockV4 5 6)) sample_allocated = Done a \<and> al_channel_bindings a = sample_channels"
proof -
  have n: "next_channel_number cbs_default 30 = Some 0x4000"
    by (simp add: next_channel_number_def candidate_channels_def cbs_default_def FIRST_CHANNEL_def LAST_CHANNEL_def upt_rec)
  have "bound_channel_to_peer cbs_default (SockV4 5 6) 30 = None" by (simp add: bound_channel_to_peer_def btree_items_def cbs_default_def)
  with n have new: "new_channel_to_peer (SockV4 5 6) 30 cbs_default = (sample_channels, Some 0x4000)"
    by (simp add: new_channel_to_peer_def sample_channels_def LAST_CHANNEL_def hm_insert_def) (simp add: cbs_default_def)
  have bind: "bind_channel sample_E (SockV4 5 6) 30 sample_allocated = send_channel_bind sample_E (SockV4 5 6) 0x4000 30 (sample_allocated\<lparr>al_channel_bindings := sample_channels\<rparr>)"
    by (simp add: bind_channel_def sample_allocated_def sample_bound_def sample_new_def new is_suspended_def has_allocation_def turn_can_relay_to_def
        connected_channel_to_peer_def channel_binding_in_flight_by_peer_def btree_items_def) (simp add: cbs_default_def)
  have inv: "allocation_inv sample_E (sample_allocated\<lparr>al_channel_bindings := sample_channels\<rparr>)"
    by (rule channels_inv [OF reachable_inv [OF sample_turn_laws sample_turn_reachable(3)]])
      (simp add: cbs_inv_def channel_range_def sample_channels_def FIRST_CHANNEL_def LAST_CHANNEL_def hm_wf_def hm_get_def)
  have "channel_range 0x4000" by (simp add: channel_range_def FIRST_CHANNEL_def LAST_CHANNEL_def)
  from send_channel_bind_ok [OF sample_turn_laws inv this, of "SockV4 5 6" 30] obtain a where
    "send_channel_bind sample_E (SockV4 5 6) 0x4000 30 (sample_allocated\<lparr>al_channel_bindings := sample_channels\<rparr>) = Done a"
    "sent_with (sample_allocated\<lparr>al_channel_bindings := sample_channels\<rparr>) a" by blast
  then show ?thesis using bind sent_with_frame [of "sample_allocated\<lparr>al_channel_bindings := sample_channels\<rparr>" a] by (simp add: turn_step_def)
qed

section \<open>Properties\<close>

text \<open>
  C11. The TURN client never panics and none of its loops runs forever: in every state that calls reach from \<^verbatim>\<open>Allocation::new\<close>,
  every call returns and keeps the invariant of the client (requests in flight are filed under their own ids and have a retry
  timer in one of its four stages, channel numbers are in range, relayed addresses are of the right IP version, and whoever has or asks for an
  allocation has a socket and credentials). It is asked of the call that the two addresses of a packet are of one IP version,
  that a response is of the method of its request, that a channel whose binding failed is still in the table, and that a buffer has
  between 4 and 65539 bytes; all four are debug assertions or slices of the code.
\<close>

theorem turn_calls_return:
  assumes "turn_laws E" "turn_reachable E a" "turn_call_ok E a c"
  shows "\<exists>a'. turn_step E now c a = Done a' \<and> allocation_inv E a'"
  using turn_step_ok [OF assms(1) reachable_inv [OF assms(1,2)] assms(3)] .

theorem turn_calls_return_witness:
  "\<exists>a'. turn_step sample_E 20 (HandleInput relay_addr local_addr [1]) sample_bound = Done a' \<and> allocation_inv sample_E a'"
  by (rule turn_calls_return [OF sample_turn_laws sample_turn_reachable(2) sample_calls_ok(2)])

text \<open>
  C12. Timeouts of the TURN client make progress: \<^verbatim>\<open>handle_timeout\<close> returns in every reachable state, its loop over the requests
  that timed out included, and what \<^verbatim>\<open>poll_timeout\<close> then asks for lies ahead, so that an event loop that sleeps until then does
  not spin. The random transaction ids that the call draws do not repeat and are not in flight.
\<close>

theorem turn_timeout_progress:
  assumes "turn_laws E" "turn_reachable E a" "fresh_ids E a"
  shows "\<exists>a'. allocation_handle_timeout E now a = Done a' \<and> (\<forall>d. allocation_poll_timeout E a' = Some d \<longrightarrow> now < d)"
proof -
  obtain a' where "allocation_handle_timeout E now a = Done a'" "allocation_inv E a'" "settled now a'" "refresh_ahead E now a'"
    using allocation_timeout_ok [OF assms(1) reachable_inv [OF assms(1,2)], of now] assms(3) by blast
  then show ?thesis using settled_poll by blast
qed

theorem turn_timeout_progress_witness:
  "fresh_ids sample_E sample_keepalive \<and> (\<exists>a'. allocation_handle_timeout sample_E (from_secs 31) sample_keepalive = Done a' \<and>
     (\<forall>d. allocation_poll_timeout sample_E a' = Some d \<longrightarrow> from_secs 31 < d))"
proof -
  have "draw_bound sample_keepalive = 11"
    by (simp add: draw_bound_def sample_keepalive_def sample_allocated_def sample_bound_def sample_new_def sample_simps cbs_default_def)
  then have f: "fresh_ids sample_E sample_keepalive"
    by (simp add: fresh_ids_def sample_draws upt_rec) (simp add: sample_keepalive_def sample_sent_def hm_get_def)
  show ?thesis using f turn_timeout_progress [OF sample_turn_laws sample_turn_reachable(4) f] by blast
qed

text \<open>
  C13. A relay that never answers is given up: a new allocation wakes up 1, 2.5, 4.75 and 8.125 seconds after its start to send
  its requests again, and never after that; then nothing is in flight, and once its packets are sent it can be freed because no response was received.
\<close>

theorem silent_relay_given_up:
  assumes "turn_laws E" "turn_allocation_new E server username password realm now session r = Done a"
  shows "wakeups (allocation_poll_timeout E) (\<lambda>a t. allocation_handle_timeout E t a) n a
       = take n [now + from_millis 1000, now + from_millis 2500, now + from_millis 4750, now + from_millis 8125] \<and>
     (\<exists>a'. fold_outcome (allocation_handle_timeout E) [now + from_millis 1000, now + from_millis 2500, now + from_millis 4750, now + from_millis 8125] a = Done a' \<and>
       allocation_poll_timeout E a' = None \<and> snd (can_be_freed (a'\<lparr>al_buffered_transmits := []\<rparr>)) = Some NoResponseReceived)"
proof -
  note n = new_ok [OF assms]
  have ts: "map (\<lambda>k. now + trigger_after k) [0..<4] = [now + from_millis 1000, now + from_millis 2500, now + from_millis 4750, now + from_millis 8125]"
    by (simp add: trigger_after_def upt_rec)
  obtain a' where a': "fold_outcome (allocation_handle_timeout E) (map (\<lambda>k. now + trigger_after k) [0..<4]) a = Done a'"
     "al_sent_requests a' = []" "unanswered E {} a'" "allocation_poll_timeout E a' = None" using unanswered_end [OF assms(1) n(1,2) _ n(3)] by auto
  have "snd (can_be_freed (a'\<lparr>al_buffered_transmits := []\<rparr>)) = Some NoResponseReceived"
    using a'(2,3) by (simp add: can_be_freed_def unanswered_def received_any_response_def)
  then show ?thesis using a'(1,4) unanswered_wakeups [OF assms(1) n(1,2) _ n(3), of n] unfolding ts by auto
qed

theorem silent_relay_given_up_witness:
  "wakeups (allocation_poll_timeout sample_E) (\<lambda>a t. allocation_handle_timeout sample_E t a) 3 sample_new = [from_millis 1000, from_millis 2500, from_millis 4750]"
  using silent_relay_given_up [OF sample_turn_laws sample_new, of 3] by (simp add: numeral_eq_Suc)

text \<open>
  C14. Only the relay can give the TURN client an address to use: when any packet brings up a relayed candidate that was not there before,
  the packet came from the relay's address, names the candidate, is an allocate success response that carries the transaction id of a
  request in flight, and has a message integrity that the user name, realm and password of the client pass.
\<close>

theorem relay_candidates_authentic:
  assumes "turn_laws E" "turn_reachable E a"
    and "allocation_handle_input E src local packet now a = Done (a', q)"
    and "al_ip4_allocation a' = Some c \<or> al_ip6_allocation a' = Some c" "c \<notin> set (current_relay_candidates a)"
  shows "relay_matches (al_server a) src \<and> (\<exists>m mi cr addr. tm_decode E packet = Some m \<and>
     hm_get (al_sent_requests a) (tm_tid E m) \<noteq> None \<and> tm_class E m = SuccessResponse \<and> tm_method E m = ALLOCATE \<and>
     MessageIntegrity mi \<in> set (tm_attributes E m) \<and> al_credentials a = Some cr \<and>
     tm_check_long_term_credential E mi (tcr_username cr) (tcr_realm cr) (tcr_password cr) \<and>
     XorRelayAddress addr \<in> set (tm_attributes E m) \<and> tm_relayed E addr = Some c)"
proof -
  have new: "al_ip4_allocation a \<noteq> Some c" "al_ip6_allocation a \<noteq> Some c" using assms(5)
    by (cases "al_ip4_allocation a"; cases "al_ip6_allocation a"; auto simp: current_relay_candidates_def List.map_filter_def)+
  then have ne: "a' \<noteq> a" "\<not> keeps_relay a a'" using assms(4) by (auto simp: keeps_relay_def)
  from handle_input_done [OF assms(1) reachable_inv [OF assms(1,2)] assms(3)] ne obtain m where
    src: "relay_matches (al_server a) src" and m: "tm_decode E packet = Some m" "hm_get (al_sent_requests a) (tm_tid E m) \<noteq> None"
      "tm_class E m = SuccessResponse" "tm_method E m = ALLOCATE" and auth: "tm_method E m = BINDING \<or> check_message_integrity E a m"
    and c: "\<forall>c. al_ip4_allocation a' = Some c \<longrightarrow> al_ip4_allocation a = Some c \<or> names_relay E m c"
      "\<forall>c. al_ip6_allocation a' = Some c \<longrightarrow> al_ip6_allocation a = Some c \<or> names_relay E m c" by blast
  obtain addr where "XorRelayAddress addr \<in> set (tm_attributes E m)" "tm_relayed E addr = Some c"
    using c new assms(4) unfolding names_relay_def by blast
  moreover obtain mi cr where "MessageIntegrity mi \<in> set (tm_attributes E m)" "al_credentials a = Some cr"
      "tm_check_long_term_credential E mi (tcr_username cr) (tcr_realm cr) (tcr_password cr)"
    using auth m(4) check_message_integrityD [of E a m] by auto
  ultimately show ?thesis using src m by blast
qed

theorem relay_candidates_authentic_witness:
  "\<exists>m mi addr. sample_packets [1] = Some m \<and> MessageIntegrity mi \<in> set (snd (snd (snd m))) \<and> mi = (''u'', ''r'', ''p'') \<and>
     XorRelayAddress addr \<in> set (snd (snd (snd m))) \<and> al_ip4_allocation sample_allocated = Some addr"
proof -
  have c: "al_ip4_allocation sample_allocated = Some (SockV4 1 49152)" "SockV4 1 49152 \<notin> set (current_relay_candidates sample_bound)"
    "al_credentials sample_bound = Some \<lparr>tcr_username = ''u'', tcr_password = ''p'', tcr_realm = ''r'', tcr_nonce = None\<rparr>"
    by (simp_all add: sample_allocated_def sample_bound_def sample_new_def current_relay_candidates_def List.map_filter_def)
  then show ?thesis
    using relay_candidates_authentic [OF sample_turn_laws sample_turn_reachable(2) sample_allocated, of "SockV4 1 49152"]
    by (auto simp: sample_turn_def)
qed

text \<open>
  C35. A packet that nobody signed can take the allocation away: an error response that says it is for a binding and names any request in
  flight is not checked for integrity, whatever the request was, so that \<^verbatim>\<open>AllocationMismatch\<close> in it drops the relayed addresses, the
  channels and all requests; nothing is sent after that, and no timer is set to get the allocation back.
\<close>

theorem unsigned_error_drops_allocation:
  assumes "relay_matches (al_server a) src" "sock_is_ipv4 src = sock_is_ipv4 local"
    and "tm_decode E packet = Some m" "hm_get (al_sent_requests a) (tm_tid E m) = Some r"
    and "tm_method E m = BINDING" "msg_error_code E m = Some AllocationMismatch"
  shows "\<exists>a'. allocation_handle_input E src local packet now a = Done (a', True) \<and> \<not> has_allocation a' \<and>
     cbs_inner (al_channel_bindings a') = [] \<and> al_sent_requests a' = [] \<and> al_buffered_transmits a' = al_buffered_transmits a \<and> allocation_poll_timeout E a' = None"
  using assms by (cases r) (simp add: allocation_handle_input_def assert_that_def handle_response_def handle_error_response_def handle_allocation_mismatch_def
      UNKNOWN_ATTRIBUTE_def invalidate_allocation_def has_allocation_def cbs_clear_def allocation_poll_timeout_def in_flight_def refresh_allocation_at_def List.map_filter_def Let_def)

theorem unsigned_error_drops_allocation_witness:
  "has_allocation sample_keepalive \<and> msg_message_integrity sample_E (ErrorResponse, BINDING, 3, [ErrorCode AllocationMismatch]) = None \<and>
   (\<exists>a'. allocation_handle_input sample_E relay_addr local_addr [2] (from_secs 31) sample_keepalive = Done (a', True) \<and> \<not> has_allocation a')"
proof -
  have "\<exists>a'. allocation_handle_input sample_E relay_addr local_addr [2] (from_secs 31) sample_keepalive = Done (a', True) \<and> \<not> has_allocation a'"
    using unsigned_error_drops_allocation [of sample_keepalive relay_addr local_addr sample_E "[2]" "(ErrorResponse, BINDING, 3, [ErrorCode AllocationMismatch])"
        "(relay_addr, (Request, BINDING, 3, [Software sample_software]), backoff_at (from_secs 30) 0)" "from_secs 31"]
    by (simp add: sample_keepalive_def sample_allocated_def sample_bound_def sample_new_def sample_simps relay_matches_def sock_v4_def sock_is_ipv4_def
        hm_get_def msg_error_code_def msg_attribute_def) blast
  then show ?thesis
    by (simp add: sample_keepalive_def sample_allocated_def has_allocation_def msg_message_integrity_def msg_attribute_def sample_turn_def)
qed

text \<open>
  C40. A channel number is never taken from a peer that uses it: a new channel to a peer gets one of the 4096 numbers from 0x4000 to
  0x4FFF, and that number is free, or bound to this very peer, or was given to another peer 15 minutes ago or longer and nothing was
  received on it since. No other channel changes. There is no number only when every one of the 4096 was given out less than 15 minutes
  ago or has received something since it was bound.
\<close>

theorem channel_numbers_exclusive:
  assumes "turn_laws E" "turn_reachable E a"
  shows "case new_channel_to_peer peer now (al_channel_bindings a) of
     (cbs, None) \<Rightarrow> cbs = al_channel_bindings a \<and>
       (\<forall>n. 0x4000 \<le> n \<and> n \<le> 0x4FFF \<longrightarrow> (\<exists>c. hm_get (cbs_inner (al_channel_bindings a)) n = Some c \<and>
          (now < tc_bound_at c + from_secs 900 \<or> tc_last_received c \<noteq> tc_bound_at c)))
   | (cbs, Some n) \<Rightarrow> 0x4000 \<le> n \<and> n \<le> 0x4FFF \<and> (\<exists>c. hm_get (cbs_inner cbs) n = Some c \<and> tc_peer c = peer) \<and>
       (\<forall>m. m \<noteq> n \<longrightarrow> hm_get (cbs_inner cbs) m = hm_get (cbs_inner (al_channel_bindings a)) m) \<and>
       (\<forall>c. hm_get (cbs_inner (al_channel_bindings a)) n = Some c \<longrightarrow>
          tc_bound_at c + from_secs 900 \<le> now \<and> tc_last_received c = tc_bound_at c \<or> tc_peer c = peer)"
proof -
  have "can_rebind c now \<longleftrightarrow> tc_bound_at c + from_secs 900 \<le> now \<and> tc_last_received c = tc_bound_at c" for c
    by (auto simp: can_rebind_def no_activity_def channel_age_def CHANNEL_LIFETIME_def TURN_CHANNEL_REBIND_TIMEOUT_def from_secs_def)
  then show ?thesis
    using new_channel_to_peer_cases [OF allocation_invD(2) [OF reachable_inv [OF assms]], of peer now]
    by (auto simp: channel_range_def FIRST_CHANNEL_def LAST_CHANNEL_def bound_to_peer_def not_le split: prod.splits option.splits)
qed

theorem channel_numbers_exclusive_witness:
  "\<exists>a. turn_step sample_E 30 (BindChannel (SockV4 5 6)) sample_allocated = Done a \<and>
     snd (new_channel_to_peer (SockV4 7 8) 40 (al_channel_bindings a)) = Some 0x4001 \<and>
     hm_get (cbs_inner (fst (new_channel_to_peer (SockV4 7 8) 40 (al_channel_bindings a)))) 0x4000
       = Some \<lparr>tc_peer = SockV4 5 6, tc_bound = False, tc_bound_at = 30, tc_last_received = 30\<rparr>"
proof -
  obtain a where a: "turn_step sample_E 30 (BindChannel (SockV4 5 6)) sample_allocated = Done a"
      "al_channel_bindings a = sample_channels"
    using sample_bind by blast
  have r: "turn_reachable sample_E a" by (rule turn_reachable.call [OF sample_turn_reachable(3) a(1)])
  have "snd (new_channel_to_peer (SockV4 7 8) 40 sample_channels) = Some 0x4001"
    by (simp add: new_channel_to_peer_def bound_channel_to_peer_def bound_to_peer_def btree_items_def next_channel_number_def
        candidate_channels_def sample_channels_def LAST_CHANNEL_def upt_rec hm_get_def)
  then show ?thesis using a channel_numbers_exclusive [OF sample_turn_laws r, where peer = "SockV4 7 8" and now = 40]
    by (auto simp: sample_channels_def hm_get_def split: prod.splits)
qed

end
