(* ===== verification/Spec2Isabelle.thy ===== *)
theory Spec2Isabelle
  imports Relay_Properties Relay_Eventloop Gateway_Properties Turn_Properties
begin

text \<open>
  A verification development for the data plane of Firezone, the Rust code under \<^verbatim>\<open>src/rust\<close>.

  \<^bold>\<open>The program and its parts.\<close> Clients reach resources through gateways. A gateway decrypts the packets of a client,
  checks them against the resources the client may reach, translates the addresses of DNS resources and
  passes them to its network; what comes back goes the other way. Where client and gateway cannot reach each
  other directly, a relay, which is a STUN and TURN server, carries the packets. Both sides talk to the relay through a
  TURN client in the library \<^verbatim>\<open>snownet\<close>. All these parts are state machines without I/O: an event loop hands them packets,
  messages and the time, asks when they want to be woken, and executes what they ask for. The development models four of
  them with everything they call: the relay with its event loop and sockets, the IP packets, the gateway, and the
  TURN client.

  \<^bold>\<open>Foundations.\<close>
  \<^item> \<open>Prelude\<close>: machine integers, time, addresses, the type \<open>outcome\<close> of code that returns, panics or diverges, and
    hash maps, with the locale \<open>hash_map\<close> for their contract. It also states the build configuration.
  \<^item> \<open>Fallible\<close>: \<^verbatim>\<open>Result\<close>-valued code, byte slices and writes.
  \<^item> \<open>Sans_IO\<close>: the two contracts between a machine and its event loop, \<open>step_system\<close> (every admissible input is handled
    and keeps an invariant) and \<open>timer\<close> (a wake-up lies after the timeout that asked for it). The relay and the
    gateway are interpretations of both.

  \<^bold>\<open>The relay\<close> (\<^verbatim>\<open>src/rust/relay\<close>).
  \<^item> \<open>Stun\<close>: the STUN vocabulary; the codec is a parameter (record \<open>relay_env\<close>) with the laws \<open>stun_laws\<close>.
  \<^item> \<open>Channel_Data\<close>: both implementations of the channel-data framing (\<^verbatim>\<open>server/channel_data.rs\<close> and \<^verbatim>\<open>channel_data.rs\<close> of
    \<^verbatim>\<open>snownet\<close>), as instances of \<open>channel_codec\<close>; \<open>channel_link\<close> joins them.
  \<^item> \<open>Relay_Auth\<close>: \<^verbatim>\<open>auth.rs\<close>, with the locale \<open>nonce_store\<close>. \<open>Client_Message\<close>: the requests and the decoder
    (\<^verbatim>\<open>server/client_message.rs\<close>, \<^verbatim>\<open>lib.rs\<close>).
  \<^item> \<open>Relay_Server\<close>: \<^verbatim>\<open>server.rs\<close>. The record \<open>server\<close> has the fields of \<^verbatim>\<open>Server\<close>, and every method is a definition of
    the same name over it.
  \<^item> \<open>Relay_Invariant\<close> and \<open>Relay_Handlers\<close>: the five tables mirror each other, and every handler returns and keeps
    that. \<open>Relay_Properties\<close>: no panics, both directions of relaying agree, clients are kept apart, only
    authenticated requests have an effect, what each request and each timeout does. \<open>Relay_Sample\<close>: a concrete run.
  \<^item> \<open>Relay_Sockets\<close>: \<^verbatim>\<open>sockets.rs\<close> with its worker thread; \<open>Relay_Eventloop\<close>: the loop of \<^verbatim>\<open>main.rs\<close> and the timer of
    \<^verbatim>\<open>sleep.rs\<close>. The relation \<open>relay_runs\<close> interleaves the loop with the worker.

  \<^bold>\<open>IP packets\<close> (\<^verbatim>\<open>src/rust/ip-packet\<close>).
  \<^item> \<open>Ip_Packet\<close> and \<open>Nat46_64\<close>: packets as byte buffers, reads and in-place edits, checksums, NAT46 and NAT64, ICMP errors
    and control packets. The parsers of \<^verbatim>\<open>etherparse\<close> are the parameter \<open>etherparse\<close>.
  \<^item> \<open>Packet_View\<close>, \<open>Packet_Edit\<close>, \<open>Packet_Ports\<close>, \<open>Packet_Translate\<close>, \<open>Packet_Nat\<close>, \<open>Packet_Flow\<close>: the wire laws
    \<open>wire_laws\<close>, an abstract view of a packet (addresses, protocol, payload), and that the operations on bytes
    refine operations on views. \<open>Packet_Properties\<close> has the properties, \<open>Packet_Sample\<close> a parser with these laws.

  \<^bold>\<open>The gateway\<close> (\<^verbatim>\<open>src/rust/connlib/tunnel\<close>).
  \<^item> \<open>Tunnel_Env\<close>: the third-party containers as records of operations with their laws. \<open>Nat_Table\<close>
    (\<^verbatim>\<open>peer/nat_table.rs\<close>), \<open>Filter_Engine\<close> (\<^verbatim>\<open>peer/filter_engine.rs\<close>), \<open>Dns_Pattern\<close> (\<^verbatim>\<open>dns.rs\<close>, patterns only).
  \<^item> \<open>Client_On_Gateway\<close>: \<^verbatim>\<open>peer.rs\<close>. \<open>Client_Invariant\<close>, \<open>Client_Access\<close>, \<open>Client_Packets\<close>, \<open>Client_Setup\<close>: the
    compiled filters are those of the resources, the reference \<open>may_access\<close> that they implement, packets in both
    directions, and the translations of a domain. \<open>Client_Properties\<close> has the properties.
  \<^item> \<open>Peer_Store\<close> (\<^verbatim>\<open>peer_store.rs\<close>, locale \<open>peer_routes\<close>) and \<open>Gateway_State\<close> (\<^verbatim>\<open>gateway.rs\<close>, \<^verbatim>\<open>p2p_control.rs\<close>): every
    method of \<^verbatim>\<open>GatewayState\<close>. \<open>Gateway_Invariant\<close> and \<open>Gateway_Steps\<close>: they return and keep the invariant, and the machine
    \<open>gateway_step\<close> over all of them. \<open>Gateway_Properties\<close>: no panics, only admitted packets pass, draining ends, revocation and expiry
    are enforced. \<open>Tunnel_Sample\<close> and \<open>Gateway_Sample\<close>: a concrete environment and client.

  \<^bold>\<open>The TURN client\<close> (\<^verbatim>\<open>src/rust/connlib/snownet\<close>).
  \<^item> \<open>Turn_Channels\<close> (\<^verbatim>\<open>backoff.rs\<close> and the channel table of \<^verbatim>\<open>allocation.rs\<close>) and \<open>Turn_Allocation\<close> (the rest of
    \<^verbatim>\<open>allocation.rs\<close>). \<open>Turn_Invariant\<close>, \<open>Turn_Timeout\<close>, \<open>Turn_Input\<close>, \<open>Turn_Silence\<close>: requests, time, responses, and a relay that
    never answers. \<open>Turn_Properties\<close>: the calls as one step function \<open>turn_step\<close>, the states they reach, and the properties.

  \<^bold>\<open>Loops and bounds.\<close> There is no fuel. Loops over data are structural recursion or have a termination proof
  (\<open>poll_recv_from\<close>: every turn uses up an event or the readable socket). Loops whose end depends on the environment are
  partial functions into \<open>option\<close>, where \<open>None\<close> is divergence, and they are proved to return: \<open>draw_port\<close> because the random number generator
  draws every port eventually and one is free, \<open>drain_loop\<close> because the node has finitely many events pending, \<open>retry_loop\<close> of the TURN client because
  every turn drops a request or moves its deadline past the present. Time is a natural number of nanoseconds, so
  \<^verbatim>\<open>Instant\<close> arithmetic does not overflow in the model.

  \<^bold>\<open>What is assumed.\<close> Code outside the repository is a parameter with named laws: \<open>stun_laws\<close>, \<open>draws_all\<close>,
  \<open>os_laws\<close>, \<open>packets_ok\<close>, \<open>wire_laws\<close>, \<open>gw_laws\<close> and \<open>gateway_laws\<close>, \<open>node_laws\<close>, \<open>turn_laws\<close>. A concrete environment satisfies each of them, and the
  witnesses evaluate the properties there.

  \<^bold>\<open>What is not modelled.\<close> The client side of the tunnel (\<^verbatim>\<open>client.rs\<close>), its stub resolver and DNS over TCP; the ICE and WireGuard
  node (\<^verbatim>\<open>node.rs\<close>), which is the parameter \<open>server_node\<close>; the websocket to the portal; device and socket I/O, start-up, logging and
  telemetry; the user interfaces, the portal and the deployment. Of ICMP errors the translation is modelled
  (\<open>into_packet\<close>), but that the gateway never panics is proved for all other packets only.
\<close>

end
